(* ===== verification/Prelude.thy ===== *)
theory Prelude
  imports
    Complex_Main
    "HOL-Library.AList"
    "HOL-Library.Char_ord"
    "HOL-Library.List_Lexorder"
begin

text \<open>
  Shared vocabulary of the development.

  The TypeScript sources use three library structures everywhere: \<open>Map\<close> (iterated in
  insertion order), \<open>Set\<close> (the same) and arrays. A \<open>Map\<close> is an association list whose
  keys are distinct (\<open>map_wf\<close>); \<open>map_set\<close> overwrites in place or appends, which is what
  \<open>Map.prototype.set\<close> does to the iteration order. A \<open>Set\<close> is a list without repetitions
  in order of first insertion. Strings are lists of characters (the UTF-8 bytes of the
  source text), decimal renderings of numbers are written out by \<open>show_nat\<close>/\<open>show_int\<close>.
  Exceptions are the left side of a sum, \<open>undefined\<close> is \<open>None\<close>.
\<close>

named_theorems jsmap_simps \<open>lookup after an operation on a Map\<close>
named_theorems jsmap_wf \<open>operations on a Map keep its keys distinct\<close>

section \<open>Map\<close>

type_synonym ('k, 'v) jsmap = "('k \<times> 'v) list"

definition map_get :: "('k, 'v) jsmap \<Rightarrow> 'k \<Rightarrow> 'v option" where
  "map_get m k = map_of m k"

definition map_has :: "('k, 'v) jsmap \<Rightarrow> 'k \<Rightarrow> bool" where
  "map_has m k = (map_of m k \<noteq> None)"

definition map_set :: "'k \<Rightarrow> 'v \<Rightarrow> ('k, 'v) jsmap \<Rightarrow> ('k, 'v) jsmap" where
  "map_set k v m = AList.update k v m"

definition map_delete :: "'k \<Rightarrow> ('k, 'v) jsmap \<Rightarrow> ('k, 'v) jsmap" where
  "map_delete k m = AList.delete k m"

definition map_keys :: "('k, 'v) jsmap \<Rightarrow> 'k list" where
  "map_keys m = map fst m"

definition map_values :: "('k, 'v) jsmap \<Rightarrow> 'v list" where
  "map_values m = map snd m"

text \<open>\<open>new Map(entries)\<close>: later entries overwrite earlier ones.\<close>

definition new_Map :: "('k \<times> 'v) list \<Rightarrow> ('k, 'v) jsmap" where
  "new_Map entries = fold (\<lambda>(k, v) m. map_set k v m) entries []"

definition map_wf :: "('k, 'v) jsmap \<Rightarrow> bool" where
  "map_wf m = distinct (map fst m)"

lemma map_get_set [jsmap_simps]: "map_get (map_set k v m) k' = (if k' = k then Some v else map_get m k')"
  by (simp add: map_get_def map_set_def update_conv')

lemma map_get_set_same [simp]: "map_get (map_set k v m) k = Some v"
  by (simp add: jsmap_simps)

lemma map_get_Nil [simp]: "map_get [] k = None"
  by (simp add: map_get_def)

lemma map_has_get: "map_has m k \<longleftrightarrow> map_get m k \<noteq> None"
  by (simp add: map_has_def map_get_def)

lemma map_has_set [jsmap_simps]: "map_has (map_set k v m) k' \<longleftrightarrow> k' = k \<or> map_has m k'"
  by (simp add: map_has_get jsmap_simps)

lemma map_has_keys: "map_has m k \<longleftrightarrow> k \<in> fst ` set m"
  by (simp add: map_has_def map_of_eq_None_iff)

lemma map_get_delete [jsmap_simps]:
  "map_get (map_delete k m) k' = (if k' = k then None else map_get m k')"
  by (simp add: map_get_def map_delete_def delete_conv')

lemma map_wf_Nil [simp, jsmap_wf]: "map_wf []"
  by (simp add: map_wf_def)

lemma map_wf_set [jsmap_wf]: "map_wf m \<Longrightarrow> map_wf (map_set k v m)"
  by (simp add: map_wf_def map_set_def distinct_update)

lemma map_wf_delete [jsmap_wf]: "map_wf m \<Longrightarrow> map_wf (map_delete k m)"
  unfolding map_wf_def map_delete_def by (rule distinct_delete)

lemma map_get_iff_mem: "map_wf m \<Longrightarrow> map_get m k = Some v \<longleftrightarrow> (k, v) \<in> set m"
  by (simp add: map_wf_def map_get_def)

lemma map_get_mem: "map_get m k = Some v \<Longrightarrow> (k, v) \<in> set m"
  by (simp add: map_get_def map_of_SomeD)

lemma map_set_fresh: "k \<notin> fst ` set m \<Longrightarrow> map_set k v m = m @ [(k, v)]"
  unfolding map_set_def by (induction m) auto

lemma fold_map_set_append:
  "distinct (map fst (m @ xs)) \<Longrightarrow> fold (\<lambda>(k, v) m. map_set k v m) xs m = m @ xs"
proof (induction xs arbitrary: m)
  case Nil
  then show ?case by simp
next
  case (Cons x xs)
  obtain k v where x: "x = (k, v)" by (cases x)
  with Cons.prems have "map_set k v m = m @ [(k, v)]"
    by (intro map_set_fresh) auto
  with Cons.IH [of "m @ [(k, v)]"] Cons.prems x show ?case by simp
qed

lemma new_Map_id [simp]: "map_wf m \<Longrightarrow> new_Map m = m"
  using fold_map_set_append [of "[]" m] by (simp add: new_Map_def map_wf_def)

lemma map_wf_fold_set: "map_wf m \<Longrightarrow> map_wf (fold (\<lambda>(k, v) m. map_set k v m) xs m)"
  by (induction xs arbitrary: m) (auto intro: map_wf_set)

lemma map_wf_new_Map [simp, jsmap_wf]: "map_wf (new_Map xs)"
  by (simp add: new_Map_def map_wf_fold_set)

lemma map_keys_map: "map_keys (map (\<lambda>(k, v). (k, f v)) m) = map_keys m"
  by (auto simp: map_keys_def)

lemma map_wf_map [jsmap_wf]: "map_wf m \<Longrightarrow> map_wf (map (\<lambda>(k, v). (k, f v)) m)"
proof -
  have "map fst (map (\<lambda>(k, v). (k, f v)) m) = map fst m" by auto
  then show "map_wf m \<Longrightarrow> ?thesis" by (simp only: map_wf_def)
qed

lemma map_get_map [jsmap_simps]:
  "map_get (map (\<lambda>(k, v). (k, f v)) m) k = map_option f (map_get m k)"
  by (simp add: map_get_def map_of_map)

lemma map_set_map: "map (\<lambda>(k, v). (k, f v)) (map_set k v m) = map_set k (f v) (map (\<lambda>(k, v). (k, f v)) m)"
  unfolding map_set_def by (induction m) auto

section \<open>Set\<close>

text \<open>\<open>new Set(values)\<close>: the first occurrence of each value fixes its position.\<close>

definition set_add :: "'a \<Rightarrow> 'a list \<Rightarrow> 'a list" where
  "set_add x s = (if x \<in> set s then s else s @ [x])"

definition new_Set :: "'a list \<Rightarrow> 'a list" where
  "new_Set xs = fold set_add xs []"

lemma set_set_add [simp]: "set (set_add x s) = insert x (set s)"
  by (auto simp: set_add_def)

lemma distinct_set_add [simp]: "distinct s \<Longrightarrow> distinct (set_add x s)"
  by (auto simp: set_add_def)

lemma set_fold_set_add: "set (fold set_add xs s) = set xs \<union> set s"
  by (induction xs arbitrary: s) auto

lemma set_new_Set [simp]: "set (new_Set xs) = set xs"
  by (simp add: new_Set_def set_fold_set_add)

lemma distinct_fold_set_add: "distinct s \<Longrightarrow> distinct (fold set_add xs s)"
  by (induction xs arbitrary: s) auto

lemma distinct_new_Set [simp]: "distinct (new_Set xs)"
  by (simp add: new_Set_def distinct_fold_set_add)

lemma fold_set_add_distinct: "distinct (s @ xs) \<Longrightarrow> fold set_add xs s = s @ xs"
proof (induction xs arbitrary: s)
  case (Cons x xs)
  then have "set_add x s = s @ [x]" by (auto simp: set_add_def)
  with Cons.IH [of "s @ [x]"] Cons.prems show ?case by simp
qed simp

lemma new_Set_id [simp]: "distinct xs \<Longrightarrow> new_Set xs = xs"
  using fold_set_add_distinct [of "[]" xs] by (simp add: new_Set_def)

section \<open>Arrays\<close>

text \<open>\<open>xs[i]\<close>: \<open>undefined\<close> past the end.\<close>

definition arr_get :: "'a list \<Rightarrow> nat \<Rightarrow> 'a option" where
  "arr_get xs i = (if i < length xs then Some (xs ! i) else None)"

text \<open>\<open>xs.at(-1)\<close>.\<close>

definition arr_last :: "'a list \<Rightarrow> 'a option" where
  "arr_last xs = (if xs = [] then None else Some (last xs))"

text \<open>\<open>xs.indexOf(x)\<close>, with \<open>None\<close> for -1.\<close>

fun index_of :: "'a \<Rightarrow> 'a list \<Rightarrow> nat option" where
  "index_of x [] = None"
| "index_of x (y # ys) = (if x = y then Some 0 else map_option Suc (index_of x ys))"

text \<open>\<open>xs.findIndex(p)\<close>, with \<open>None\<close> for -1.\<close>

fun find_index :: "('a \<Rightarrow> bool) \<Rightarrow> 'a list \<Rightarrow> nat option" where
  "find_index p [] = None"
| "find_index p (y # ys) = (if p y then Some 0 else map_option Suc (find_index p ys))"

text \<open>\<open>xs.sort(compare)\<close>: a stable sort by a comparison function.\<close>

fun insert_by :: "('a \<Rightarrow> 'a \<Rightarrow> int) \<Rightarrow> 'a \<Rightarrow> 'a list \<Rightarrow> 'a list" where
  "insert_by lc x [] = [x]"
| "insert_by lc x (y # ys) = (if lc x y \<le> 0 then x # y # ys else y # insert_by lc x ys)"

definition sort_by :: "('a \<Rightarrow> 'a \<Rightarrow> int) \<Rightarrow> 'a list \<Rightarrow> 'a list" where
  "sort_by lc xs = foldr (insert_by lc) xs []"

text \<open>\<open>String.prototype.localeCompare\<close> is a parameter of the definitions that use it.\<close>

type_synonym locale_compare = "string \<Rightarrow> string \<Rightarrow> int"

lemma set_insert_by [simp]: "set (insert_by lc x xs) = insert x (set xs)"
  by (induction xs) auto

lemma set_sort_by [simp]: "set (sort_by lc xs) = set xs"
  unfolding sort_by_def by (induction xs) auto

lemma length_insert_by [simp]: "length (insert_by lc x xs) = Suc (length xs)"
  by (induction xs) auto

lemma length_sort_by [simp]: "length (sort_by lc xs) = length xs"
  unfolding sort_by_def by (induction xs) auto

lemma index_of_Some: "index_of x xs = Some i \<Longrightarrow> i < length xs \<and> xs ! i = x"
  by (induction xs arbitrary: i) (auto split: if_splits)

lemma index_of_None: "index_of x xs = None \<longleftrightarrow> x \<notin> set xs"
  by (induction xs) auto

lemma index_of_nth: "distinct xs \<Longrightarrow> i < length xs \<Longrightarrow> index_of (xs ! i) xs = Some i"
proof (induction xs arbitrary: i)
  case (Cons y ys)
  then show ?case by (cases i) auto
qed simp

lemma index_of_eq_iff: "distinct xs \<Longrightarrow> i < length xs \<Longrightarrow> index_of x xs = Some i \<longleftrightarrow> xs ! i = x"
  using index_of_Some index_of_nth by metis

lemma find_index_Some:
  "find_index p xs = Some i \<Longrightarrow> i < length xs \<and> p (xs ! i) \<and> (\<forall>j<i. \<not> p (xs ! j))"
proof (induction xs arbitrary: i)
  case (Cons y ys)
  then show ?case by (auto split: if_splits simp: nth_Cons' less_Suc_eq_0_disj)
qed simp

lemma find_index_None: "find_index p xs = None \<longleftrightarrow> (\<forall>x\<in>set xs. \<not> p x)"
  by (induction xs) auto

lemma ball_enumerate: "(\<forall>x\<in>set (enumerate 0 xs). P (fst x) (snd x)) \<longleftrightarrow> (\<forall>i<length xs. P i (xs ! i))"
proof
  assume all: "\<forall>x\<in>set (enumerate 0 xs). P (fst x) (snd x)"
  show "\<forall>i<length xs. P i (xs ! i)"
  proof (intro allI impI)
    fix i assume "i < length xs"
    then have "(i, xs ! i) \<in> set (enumerate 0 xs)" by (simp add: in_set_enumerate_eq)
    from bspec [OF all this] show "P i (xs ! i)" by simp
  qed
next
  assume "\<forall>i<length xs. P i (xs ! i)"
  then show "\<forall>x\<in>set (enumerate 0 xs). P (fst x) (snd x)" by (auto simp: in_set_enumerate_eq)
qed

lemma find_Some_mem: "List.find p xs = Some x \<Longrightarrow> x \<in> set xs \<and> p x"
  by (auto simp: find_Some_iff)

lemma count_list_distinct: "distinct xs \<Longrightarrow> count_list xs x = (if x \<in> set xs then 1 else 0)"
  by (induction xs) (auto simp: count_notin)

lemma count_list_pos: "count_list xs x = Suc n \<Longrightarrow> x \<in> set xs"
  by (metis count_notin nat.distinct(1))

section \<open>Strings\<close>

text \<open>\<open>parts.join(sep)\<close>.\<close>

fun join :: "string \<Rightarrow> string list \<Rightarrow> string" where
  "join sep [] = []"
| "join sep [x] = x"
| "join sep (x # y # ys) = x @ sep @ join sep (y # ys)"

lemma append_sep_eq:
  assumes "c \<notin> set x" and "c \<notin> set y" and "x @ c # xs = y @ c # ys"
  shows "x = y \<and> xs = ys"
  using assms
proof (induction x arbitrary: y)
  case Nil
  then show ?case by (cases y) auto
next
  case (Cons a x)
  then show ?case by (cases y) auto
qed

lemma join_mem_sep: "c \<in> set (join [c] (x # y # ys))"
  by simp

lemma join_eq_Nil: "\<forall>x\<in>set xs. x \<noteq> [] \<Longrightarrow> join sep xs = [] \<longleftrightarrow> xs = []"
  by (cases "(sep, xs)" rule: join.cases) auto

lemma join_inj:
  assumes "\<forall>x\<in>set xs. c \<notin> set x \<and> x \<noteq> []" and "\<forall>y\<in>set ys. c \<notin> set y \<and> y \<noteq> []"
    and "join [c] xs = join [c] ys"
  shows "xs = ys"
  using assms
proof (induction xs arbitrary: ys)
  case Nil
  then have "join [c] ys = []" by simp
  with Nil.prems(2) show ?case using join_eq_Nil [of ys "[c]"] by simp
next
  case (Cons x xs)
  then obtain u us where ys: "ys = u # us"
    using join_eq_Nil [of "x # xs" "[c]"] by (cases ys) auto
  have cx: "c \<notin> set x" and cu: "c \<notin> set u" using Cons.prems ys by auto
  show ?case
  proof (cases xs)
    case Nil
    with Cons.prems(3) ys cx have "us = []"
      using join_mem_sep [of c u "hd us" "tl us"] by (cases us) auto
    with Nil Cons.prems(3) ys show ?thesis by simp
  next
    case (Cons y zs)
    with Cons.prems(3) ys cu obtain v ws where us: "us = v # ws"
      using join_mem_sep [of c x y zs] by (cases us) auto
    from Cons.prems(3) Cons ys us
    have "x @ c # join [c] xs = u @ c # join [c] us" by simp
    from append_sep_eq [OF cx cu this] have "x = u" and j: "join [c] xs = join [c] us" by auto
    moreover have "xs = us"
      using Cons.prems ys by (intro Cons.IH [OF _ _ j]) auto
    ultimately show ?thesis using ys by simp
  qed
qed

section \<open>Numbers\<close>

text \<open>A JavaScript number where the source may meet one that is not a finite integer.\<close>

datatype js_number = NaN | PosInf | NegInf | Fin rat

fun isFinite :: "js_number \<Rightarrow> bool" where
  "isFinite (Fin q) = True"
| "isFinite _ = False"

text \<open>Decimal rendering of integers.\<close>

definition show_digit :: "nat \<Rightarrow> char" where
  "show_digit d = char_of (48 + d)"

fun show_nat :: "nat \<Rightarrow> string" where
  "show_nat n = (if n < 10 then [show_digit n] else show_nat (n div 10) @ [show_digit (n mod 10)])"

declare show_nat.simps [simp del]

definition show_int :: "int \<Rightarrow> string" where
  "show_int i = (if i < 0 then ''-'' @ show_nat (nat (- i)) else show_nat (nat i))"

lemma show_digit_inj: "d < 10 \<Longrightarrow> e < 10 \<Longrightarrow> show_digit d = show_digit e \<Longrightarrow> d = e"
  by (auto simp: show_digit_def char_of_eq_iff take_bit_eq_mod)

lemma show_nat_nonempty [simp]: "show_nat n \<noteq> []"
  by (subst show_nat.simps) auto

lemma show_nat_digits: "c \<in> set (show_nat n) \<Longrightarrow> \<exists>d<10. c = show_digit d"
proof (induction n rule: show_nat.induct)
  case (1 n)
  show ?case
  proof (cases "n < 10")
    case True
    with "1.prems" show ?thesis by (auto simp: show_nat.simps [of n])
  next
    case False
    have "\<exists>d<10. show_digit (n mod 10) = show_digit d"
      by (rule exI [of _ "n mod 10"]) simp
    with False "1.prems" "1.IH" show ?thesis by (auto simp: show_nat.simps [of n])
  qed
qed

lemma show_nat_no_separator: "CHR '':'' \<notin> set (show_nat n)" "CHR ''|'' \<notin> set (show_nat n)"
proof -
  have "show_digit d \<noteq> CHR '':'' \<and> show_digit d \<noteq> CHR ''|''" if "d < 10" for d
    using that by (auto simp: show_digit_def char_of_eq_iff take_bit_eq_mod)
  then show "CHR '':'' \<notin> set (show_nat n)" and "CHR ''|'' \<notin> set (show_nat n)"
    using show_nat_digits [of _ n] by metis+
qed

lemma show_nat_inj: "show_nat m = show_nat n \<Longrightarrow> m = n"
proof (induction m arbitrary: n rule: show_nat.induct)
  case (1 m)
  show ?case
  proof (cases "m < 10")
    case True
    then have m: "show_nat m = [show_digit m]" by (simp add: show_nat.simps [of m])
    have "n < 10"
      using "1.prems" m by (cases "n < 10") (auto simp: show_nat.simps [of n] Cons_eq_append_conv)
    with m "1.prems" True show ?thesis
      by (auto simp: show_nat.simps [of n] dest: show_digit_inj)
  next
    case False
    then have m: "show_nat m = show_nat (m div 10) @ [show_digit (m mod 10)]"
      by (simp add: show_nat.simps [of m])
    have n: "\<not> n < 10"
      using "1.prems" m by (auto simp: show_nat.simps [of n] append_eq_Cons_conv)
    then have "show_nat n = show_nat (n div 10) @ [show_digit (n mod 10)]"
      by (simp add: show_nat.simps [of n])
    with m "1.prems" have "show_nat (m div 10) = show_nat (n div 10)"
      and "show_digit (m mod 10) = show_digit (n mod 10)" by auto
    with "1.IH" False show_digit_inj [of "m mod 10" "n mod 10"]
    have "m div 10 = n div 10" and "m mod 10 = n mod 10" by auto
    then show ?thesis by (metis div_mult_mod_eq)
  qed
qed

end
