(* ===== verification/Petri_Net.thy ===== *)
theory Petri_Net
  imports Prelude
begin

text \<open>
  \<open>packages/petri/src/net.ts\<close>: the structural net, markings, arc classification and the
  enabled set. A marking is a \<open>Map\<close> from place ids to token counts; the counts are
  integers (the engine only stores \<open>Math.floor\<close> results and their sums), so the results
  hold while counts stay below \<open>2 ^ 53\<close>. The user-supplied \<open>tokens\<close> metadata is any
  JavaScript number.
\<close>

section \<open>Data\<close>

record net_place =
  np_id :: string
  np_name :: string
  np_tokens :: "js_number option"

record net_transition =
  nt_id :: string
  nt_name :: string

record net_arc =
  arc_id :: string
  arc_source :: string
  arc_target :: string

record petri_net =
  places :: "net_place list"
  transitions :: "net_transition list"
  arcs :: "net_arc list"

datatype arc_direction = DirIn | DirOut

type_synonym marking = "(string, int) jsmap"

record classified_arc =
  ca_arc :: net_arc
  ca_direction :: arc_direction
  ca_placeId :: string

record enabled_transition =
  en_transition :: net_transition
  en_consumes :: "classified_arc list"
  en_produces :: "classified_arc list"

datatype fire_blocked_reason = UnknownTransition | SelfLoopArc | Disabled

text \<open>The exception of \<open>classifyArcsForTransition\<close>: the offending arc and transition.\<close>

datatype self_loop_error = SelfLoopArcError (sle_arcId: string) (sle_transitionId: string)

section \<open>Markings\<close>

fun tokenCount :: "js_number option \<Rightarrow> int" where
  "tokenCount None = 0"
| "tokenCount (Some (Fin q)) = (if q < 0 then 0 else \<lfloor>q\<rfloor>)"
| "tokenCount (Some _) = 0"

definition initialMarking :: "petri_net \<Rightarrow> marking" where
  "initialMarking net =
     fold (\<lambda>place m. map_set (np_id place) (tokenCount (np_tokens place)) m) (places net) []"

definition tokensAt :: "marking \<Rightarrow> string \<Rightarrow> int" where
  "tokensAt m p = (case map_get m p of None \<Rightarrow> 0 | Some n \<Rightarrow> n)"

definition withTokens :: "marking \<Rightarrow> string \<Rightarrow> js_number \<Rightarrow> marking" where
  "withTokens m p n = map_set p (tokenCount (Some n)) m"

section \<open>Arcs of a transition\<close>

definition hasSelfLoopArc :: "petri_net \<Rightarrow> string \<Rightarrow> bool" where
  "hasSelfLoopArc net t = list_ex (\<lambda>a. arc_source a = t \<and> arc_target a = t) (arcs net)"

fun classify_arcs ::
  "string list \<Rightarrow> string \<Rightarrow> net_arc list \<Rightarrow> classified_arc list \<Rightarrow> classified_arc list
    \<Rightarrow> self_loop_error + (classified_arc list \<times> classified_arc list)" where
  "classify_arcs placeIds t [] ins outs = Inr (ins, outs)"
| "classify_arcs placeIds t (a # as) ins outs =
     (if arc_source a = t \<and> arc_target a = t then Inl (SelfLoopArcError (arc_id a) t)
      else if arc_source a = t then
        (if arc_target a \<in> set placeIds
         then classify_arcs placeIds t as ins
                (outs @ [\<lparr>ca_arc = a, ca_direction = DirOut, ca_placeId = arc_target a\<rparr>])
         else classify_arcs placeIds t as ins outs)
      else if arc_target a = t then
        (if arc_source a \<in> set placeIds
         then classify_arcs placeIds t as
                (ins @ [\<lparr>ca_arc = a, ca_direction = DirIn, ca_placeId = arc_source a\<rparr>]) outs
         else classify_arcs placeIds t as ins outs)
      else classify_arcs placeIds t as ins outs)"

definition classifyArcsForTransition ::
  "petri_net \<Rightarrow> string \<Rightarrow> self_loop_error + (classified_arc list \<times> classified_arc list)" where
  "classifyArcsForTransition net t =
     classify_arcs (new_Set (map np_id (places net))) t (arcs net) [] []"

definition findTransition :: "petri_net \<Rightarrow> string \<Rightarrow> net_transition option" where
  "findTransition net t = List.find (\<lambda>x. nt_id x = t) (transitions net)"

definition isEnabled :: "petri_net \<Rightarrow> marking \<Rightarrow> string \<Rightarrow> bool" where
  "isEnabled net m t =
     (case findTransition net t of
        None \<Rightarrow> False
      | Some _ \<Rightarrow>
          (case classifyArcsForTransition net t of
             Inl _ \<Rightarrow> False
           | Inr (ins, outs) \<Rightarrow> list_all (\<lambda>a. tokensAt m (ca_placeId a) \<ge> 1) ins))"

fun enabled_loop :: "petri_net \<Rightarrow> marking \<Rightarrow> net_transition list \<Rightarrow> enabled_transition list" where
  "enabled_loop net m [] = []"
| "enabled_loop net m (t # ts) =
     (case classifyArcsForTransition net (nt_id t) of
        Inl _ \<Rightarrow> enabled_loop net m ts
      | Inr (ins, outs) \<Rightarrow>
          (if list_all (\<lambda>a. tokensAt m (ca_placeId a) \<ge> 1) ins
           then \<lparr>en_transition = t, en_consumes = ins, en_produces = outs\<rparr> # enabled_loop net m ts
           else enabled_loop net m ts))"

definition enabledTransitions :: "petri_net \<Rightarrow> marking \<Rightarrow> enabled_transition list" where
  "enabledTransitions net m = enabled_loop net m (transitions net)"

definition fromExportedNet :: "petri_net \<Rightarrow> petri_net" where
  "fromExportedNet net = net"

section \<open>Lemmas\<close>

text \<open>The input and output places of a transition, as the arcs list them.\<close>

definition place_ids :: "petri_net \<Rightarrow> string list" where
  "place_ids net = map np_id (places net)"

definition in_places :: "petri_net \<Rightarrow> string \<Rightarrow> string list" where
  "in_places net t =
     map arc_source (filter (\<lambda>a. arc_target a = t \<and> arc_source a \<noteq> t \<and> arc_source a \<in> set (place_ids net)) (arcs net))"

definition out_places :: "petri_net \<Rightarrow> string \<Rightarrow> string list" where
  "out_places net t =
     map arc_target (filter (\<lambda>a. arc_source a = t \<and> arc_target a \<noteq> t \<and> arc_target a \<in> set (place_ids net)) (arcs net))"

lemma tokenCount_nonneg [simp]: "0 \<le> tokenCount n"
  by (cases n rule: tokenCount.cases) auto

lemma tokensAt_set [simp]: "tokensAt (map_set p n m) q = (if q = p then n else tokensAt m q)"
  by (simp add: tokensAt_def jsmap_simps)

lemma tokensAt_Nil [simp]: "tokensAt [] p = 0"
  by (simp add: tokensAt_def)

lemma classify_arcs_places:
  "classify_arcs P t as ins outs = Inr (ins', outs') \<Longrightarrow>
    map ca_placeId ins' = map ca_placeId ins @
      map arc_source (filter (\<lambda>a. arc_target a = t \<and> arc_source a \<noteq> t \<and> arc_source a \<in> set P) as) \<and>
    map ca_placeId outs' = map ca_placeId outs @
      map arc_target (filter (\<lambda>a. arc_source a = t \<and> arc_target a \<noteq> t \<and> arc_target a \<in> set P) as)"
  by (induction P t as ins outs rule: classify_arcs.induct) (auto split: if_splits)

lemma classifyArcs_places:
  assumes "classifyArcsForTransition net t = Inr (ins, outs)"
  shows "map ca_placeId ins = in_places net t" and "map ca_placeId outs = out_places net t"
  using classify_arcs_places [OF assms [unfolded classifyArcsForTransition_def]]
  by (auto simp: in_places_def out_places_def place_ids_def)

lemma classify_arcs_self_loop:
  "(\<exists>e. classify_arcs P t as ins outs = Inl e) \<longleftrightarrow> list_ex (\<lambda>a. arc_source a = t \<and> arc_target a = t) as"
  by (induction P t as ins outs rule: classify_arcs.induct) auto

lemma classifyArcs_self_loop:
  "(\<exists>e. classifyArcsForTransition net t = Inl e) \<longleftrightarrow> hasSelfLoopArc net t"
  by (simp add: classifyArcsForTransition_def classify_arcs_self_loop hasSelfLoopArc_def)

lemma classifyArcs_ok:
  "\<not> hasSelfLoopArc net t \<longleftrightarrow> (\<exists>ins outs. classifyArcsForTransition net t = Inr (ins, outs))"
  using classifyArcs_self_loop [of net t]
  by (cases "classifyArcsForTransition net t") auto

lemma list_all_placeId:
  "list_all (\<lambda>a. P (ca_placeId a)) ins = list_all P (map ca_placeId ins)"
  by (simp add: list_all_iff)

text \<open>The enabled set is exactly what \<open>isEnabled\<close> tests, transition by transition.\<close>

lemma findTransition_mem: "t \<in> set (transitions net) \<Longrightarrow> findTransition net (nt_id t) \<noteq> None"
  by (auto simp: findTransition_def find_None_iff)

lemma findTransition_Some:
  "findTransition net t = Some x \<Longrightarrow> x \<in> set (transitions net) \<and> nt_id x = t"
  unfolding findTransition_def by (drule find_Some_mem) simp

lemma isEnabled_iff:
  "isEnabled net m t \<longleftrightarrow>
    t \<in> nt_id ` set (transitions net) \<and> \<not> hasSelfLoopArc net t \<and> (\<forall>p\<in>set (in_places net t). 1 \<le> tokensAt m p)"
proof (cases "findTransition net t")
  case None
  then have "t \<notin> nt_id ` set (transitions net)"
    by (auto simp: findTransition_def find_None_iff)
  with None show ?thesis by (simp add: isEnabled_def)
next
  case (Some x)
  then have mem: "t \<in> nt_id ` set (transitions net)"
    by (auto dest: findTransition_Some)
  show ?thesis
  proof (cases "classifyArcsForTransition net t")
    case (Inl e)
    then show ?thesis using classifyArcs_self_loop [of net t] by (auto simp: isEnabled_def split: option.splits)
  next
    case (Inr r)
    obtain ins outs where r: "r = (ins, outs)" by (cases r)
    then have cl: "classifyArcsForTransition net t = Inr (ins, outs)" using Inr by simp
    have "\<not> hasSelfLoopArc net t" using cl classifyArcs_ok by blast
    with mem cl Some show ?thesis
      by (simp add: isEnabled_def list_all_placeId [of "\<lambda>p. 1 \<le> tokensAt m p"] classifyArcs_places(1) [OF cl]
          list_all_iff [of _ "in_places net t"])
  qed
qed

lemma mem_enabled_loop:
  "e \<in> set (enabled_loop net m ts) \<longleftrightarrow>
    en_transition e \<in> set ts \<and>
    classifyArcsForTransition net (nt_id (en_transition e)) = Inr (en_consumes e, en_produces e) \<and>
    (\<forall>a\<in>set (en_consumes e). 1 \<le> tokensAt m (ca_placeId a))"
  by (induction net m ts rule: enabled_loop.induct)
     (auto split: sum.splits prod.splits if_splits simp: list_all_iff)

lemma mem_enabledTransitions:
  "e \<in> set (enabledTransitions net m) \<longleftrightarrow>
    en_transition e \<in> set (transitions net) \<and>
    classifyArcsForTransition net (nt_id (en_transition e)) = Inr (en_consumes e, en_produces e) \<and>
    (\<forall>a\<in>set (en_consumes e). 1 \<le> tokensAt m (ca_placeId a))"
  by (simp add: enabledTransitions_def mem_enabled_loop)

lemma length_enabledTransitions: "length (enabledTransitions net m) \<le> length (transitions net)"
proof -
  have "length (enabled_loop net m ts) \<le> length ts" for ts
    by (induction ts) (auto split: sum.splits prod.splits)
  then show ?thesis by (simp add: enabledTransitions_def)
qed

end
