(* ===== verification/Petri_Firing.thy ===== *)
theory Petri_Firing
  imports Petri_Net
begin

text \<open>
  \<open>packages/petri/src/firing.ts\<close> and the \<open>applyEnabled\<close> step of \<open>reachability.ts\<close>: the
  two token games of the engine. The interface both promise is the locale \<open>token_game\<close>:
  every place gets its old count, less what was consumed (never below zero), plus one token
  per output arc. The two differ in what they consume when several input arcs leave the
  same place.
\<close>

section \<open>firing.ts\<close>

type_synonym fire_binding = "(string, string) jsmap"

record fire_result =
  fr_ok :: bool
  fr_marking :: marking
  fr_transition :: "net_transition option"
  fr_blockedReason :: "fire_blocked_reason option"
  fr_underMarked :: "string list option"
  fr_binding :: "fire_binding option"

text \<open>
  \<open>applyFire\<close>: consumption reads the marking the call started from, production reads the
  marking under construction.
\<close>

definition applyFire :: "marking \<Rightarrow> string list \<Rightarrow> string list \<Rightarrow> marking" where
  "applyFire m inputs outputs =
     (let next0 = m;
          next1 = fold (\<lambda>p next. map_set p (max 0 (tokensAt m p - 1)) next) inputs next0
      in fold (\<lambda>p next. map_set p (tokensAt next p + 1) next) outputs next1)"

definition fire :: "petri_net \<Rightarrow> marking \<Rightarrow> string \<Rightarrow> fire_binding option \<Rightarrow> fire_result" where
  "fire net m t binding =
     (case findTransition net t of
        None \<Rightarrow> \<lparr>fr_ok = False, fr_marking = m, fr_transition = None,
                 fr_blockedReason = Some UnknownTransition, fr_underMarked = None, fr_binding = binding\<rparr>
      | Some tr \<Rightarrow>
          (if hasSelfLoopArc net t
           then \<lparr>fr_ok = False, fr_marking = m, fr_transition = None,
                 fr_blockedReason = Some SelfLoopArc, fr_underMarked = None, fr_binding = binding\<rparr>
           else case classifyArcsForTransition net t of
             Inl _ \<Rightarrow> \<lparr>fr_ok = False, fr_marking = m, fr_transition = None,
                 fr_blockedReason = Some SelfLoopArc, fr_underMarked = None, fr_binding = binding\<rparr>
           | Inr (ins, outs) \<Rightarrow>
               (let underMarked = map ca_placeId (filter (\<lambda>a. tokensAt m (ca_placeId a) < 1) ins)
                in if underMarked \<noteq> []
                   then \<lparr>fr_ok = False, fr_marking = m, fr_transition = None,
                         fr_blockedReason = Some Disabled, fr_underMarked = Some underMarked,
                         fr_binding = binding\<rparr>
                   else \<lparr>fr_ok = True,
                         fr_marking = applyFire m (map ca_placeId ins) (map ca_placeId outs),
                         fr_transition = Some tr, fr_blockedReason = None,
                         fr_underMarked = None, fr_binding = binding\<rparr>)))"

definition canFire :: "petri_net \<Rightarrow> marking \<Rightarrow> string \<Rightarrow> bool" where
  "canFire net m t = fr_ok (fire net m t None)"

section \<open>reachability.ts: applyEnabled\<close>

definition applyEnabled :: "marking \<Rightarrow> enabled_transition \<Rightarrow> marking" where
  "applyEnabled m e =
     (let next0 = m;
          next1 = fold (\<lambda>a next. map_set (ca_placeId a) (max 0 (tokensAt next (ca_placeId a) - 1)) next)
                    (en_consumes e) next0
      in fold (\<lambda>a next. map_set (ca_placeId a) (tokensAt next (ca_placeId a) + 1) next)
           (en_produces e) next1)"

section \<open>The token game as an interface\<close>

text \<open>
  A token game fires lists of input and output places on a marking. Its law: the new count
  of a place is what is left of it after consumption, plus its output arcs. Clients compute
  with \<open>count_after\<close>, \<open>weighted\<close> sums and conservation from that law alone.
\<close>

locale token_game =
  fixes step :: "marking \<Rightarrow> string list \<Rightarrow> string list \<Rightarrow> marking"
    and taken :: "marking \<Rightarrow> string list \<Rightarrow> string \<Rightarrow> int"
  assumes count_after: "tokensAt (step m ins outs) p = tokensAt m p - taken m ins p + int (count_list outs p)"
    and taken_bound: "0 \<le> tokensAt m p \<Longrightarrow> taken m ins p \<le> tokensAt m p"
    and taken_none: "0 \<le> tokensAt m p \<Longrightarrow> p \<notin> set ins \<Longrightarrow> taken m ins p = 0"
    and taken_one: "1 \<le> tokensAt m p \<Longrightarrow> count_list ins p = 1 \<Longrightarrow> taken m ins p = 1"
begin

lemma nonneg: "0 \<le> tokensAt m p \<Longrightarrow> 0 \<le> tokensAt (step m ins outs) p"
  using taken_bound [of m p ins] by (simp add: count_after)

lemma frame:
  "0 \<le> tokensAt m p \<Longrightarrow> p \<notin> set ins \<Longrightarrow> p \<notin> set outs \<Longrightarrow> tokensAt (step m ins outs) p = tokensAt m p"
  by (simp add: count_after taken_none count_notin)

lemma taken_distinct:
  assumes "distinct ins" and "\<And>q. 0 \<le> tokensAt m q" and "\<And>q. q \<in> set ins \<Longrightarrow> 1 \<le> tokensAt m q"
  shows "taken m ins p = int (count_list ins p)"
proof (cases "p \<in> set ins")
  case True
  with assms(1) have "count_list ins p = 1" by (simp add: count_list_distinct)
  with True assms(3) taken_one show ?thesis by simp
next
  case False
  with assms(2) taken_none show ?thesis by (simp add: count_notin)
qed

text \<open>Conservation: a weighting that balances inputs and outputs keeps its weighted sum.\<close>

lemma weighted_sum_kept:
  assumes "distinct ins" and "\<And>q. 0 \<le> tokensAt m q" and "\<And>q. q \<in> set ins \<Longrightarrow> 1 \<le> tokensAt m q"
    and balance: "(\<Sum>p\<leftarrow>ps. w p * (int (count_list outs p) - int (count_list ins p))) = 0"
  shows "(\<Sum>p\<leftarrow>ps. w p * tokensAt (step m ins outs) p) = (\<Sum>p\<leftarrow>ps. w p * tokensAt m p)"
proof -
  have "(\<Sum>p\<leftarrow>ps. w p * tokensAt (step m ins outs) p) =
      (\<Sum>p\<leftarrow>ps. w p * tokensAt m p + w p * (int (count_list outs p) - int (count_list ins p)))"
    by (simp add: count_after taken_distinct [OF assms(1-3)] algebra_simps)
  also have "\<dots> = (\<Sum>p\<leftarrow>ps. w p * tokensAt m p)"
    using balance by (simp add: sum_list_addf)
  finally show ?thesis .
qed

end

section \<open>Both engines are token games\<close>

lemma fold_produce:
  "tokensAt (fold (\<lambda>p next. map_set p (tokensAt next p + 1) next) outs m) p
     = tokensAt m p + int (count_list outs p)"
  by (induction outs arbitrary: m) auto

lemma fold_consume_original:
  "tokensAt (fold (\<lambda>p next. map_set p (max 0 (tokensAt m p - 1)) next) ins next0) p
     = (if p \<in> set ins then max 0 (tokensAt m p - 1) else tokensAt next0 p)"
  by (induction ins arbitrary: next0) auto

lemma tokensAt_applyFire:
  "tokensAt (applyFire m ins outs) p =
     (if p \<in> set ins then max 0 (tokensAt m p - 1) else tokensAt m p) + int (count_list outs p)"
  by (simp add: applyFire_def Let_def fold_produce fold_consume_original)

lemma fold_consume_running:
  "tokensAt (fold (\<lambda>p next. map_set p (max 0 (tokensAt next p - 1)) next) ins m) p
     = (if p \<in> set ins then max 0 (tokensAt m p - int (count_list ins p)) else tokensAt m p)"
  by (induction ins arbitrary: m) (auto simp: count_notin)

definition applyPlaces :: "marking \<Rightarrow> string list \<Rightarrow> string list \<Rightarrow> marking" where
  "applyPlaces m ins outs =
     fold (\<lambda>p next. map_set p (tokensAt next p + 1) next) outs
       (fold (\<lambda>p next. map_set p (max 0 (tokensAt next p - 1)) next) ins m)"

lemma applyEnabled_places:
  "applyEnabled m e = applyPlaces m (map ca_placeId (en_consumes e)) (map ca_placeId (en_produces e))"
  by (simp add: applyEnabled_def applyPlaces_def Let_def fold_map o_def)

lemma tokensAt_applyPlaces:
  "tokensAt (applyPlaces m ins outs) p =
     (if p \<in> set ins then max 0 (tokensAt m p - int (count_list ins p)) else tokensAt m p)
       + int (count_list outs p)"
  by (simp add: applyPlaces_def fold_produce fold_consume_running)

interpretation firing: token_game applyFire
  "\<lambda>m ins p. if p \<in> set ins then tokensAt m p - max 0 (tokensAt m p - 1) else 0"
  by unfold_locales (auto simp: tokensAt_applyFire count_notin dest: count_list_pos)

interpretation search: token_game applyPlaces
  "\<lambda>m ins p. if p \<in> set ins then tokensAt m p - max 0 (tokensAt m p - int (count_list ins p)) else 0"
  by unfold_locales (auto simp: tokensAt_applyPlaces count_notin dest: count_list_pos)

section \<open>fire, branch by branch\<close>

lemma fire_ok_iff: "fr_ok (fire net m t b) \<longleftrightarrow> isEnabled net m t"
proof (cases "findTransition net t")
  case None
  then show ?thesis by (simp add: fire_def isEnabled_def)
next
  case (Some tr)
  show ?thesis
  proof (cases "hasSelfLoopArc net t")
    case True
    with Some show ?thesis by (simp add: fire_def isEnabled_iff)
  next
    case False
    then obtain ins outs where cl: "classifyArcsForTransition net t = Inr (ins, outs)"
      using classifyArcs_ok by blast
    with Some False show ?thesis
      by (auto simp: fire_def isEnabled_def Let_def list_all_iff filter_empty_conv not_less)
  qed
qed

lemma fire_ok_marking:
  assumes "isEnabled net m t"
  shows "fr_marking (fire net m t b) = applyFire m (in_places net t) (out_places net t)"
proof -
  from assms obtain tr where tr: "findTransition net t = Some tr"
    by (auto simp: isEnabled_def split: option.splits)
  from assms have nl: "\<not> hasSelfLoopArc net t" by (simp add: isEnabled_iff)
  then obtain ins outs where cl: "classifyArcsForTransition net t = Inr (ins, outs)"
    using classifyArcs_ok by blast
  from assms tr cl have "filter (\<lambda>a. tokensAt m (ca_placeId a) < 1) ins = []"
    by (auto simp: isEnabled_def list_all_iff filter_empty_conv)
  with tr nl cl show ?thesis
    by (simp add: fire_def classifyArcs_places [OF cl])
qed

lemma fire_blocked_marking: "\<not> isEnabled net m t \<Longrightarrow> fr_marking (fire net m t b) = m"
  unfolding fire_ok_iff [symmetric, of net m t b]
  by (auto simp: fire_def Let_def split: option.splits sum.splits prod.splits if_splits)

lemma fire_binding [simp]: "fr_binding (fire net m t b) = b"
  by (auto simp: fire_def Let_def split: option.splits sum.splits prod.splits if_splits)

lemma applyEnabled_mem:
  assumes "e \<in> set (enabledTransitions net m)"
  shows "applyEnabled m e =
    applyPlaces m (in_places net (nt_id (en_transition e))) (out_places net (nt_id (en_transition e)))"
proof -
  from assms have "classifyArcsForTransition net (nt_id (en_transition e)) = Inr (en_consumes e, en_produces e)"
    by (simp add: mem_enabledTransitions)
  from classifyArcs_places [OF this] show ?thesis by (simp add: applyEnabled_places)
qed

lemma enabled_mem_isEnabled:
  assumes "e \<in> set (enabledTransitions net m)"
  shows "isEnabled net m (nt_id (en_transition e))"
proof -
  let ?t = "nt_id (en_transition e)"
  from assms have cl: "classifyArcsForTransition net ?t = Inr (en_consumes e, en_produces e)"
    and mem: "en_transition e \<in> set (transitions net)"
    and inp: "\<forall>a\<in>set (en_consumes e). 1 \<le> tokensAt m (ca_placeId a)"
    by (auto simp: mem_enabledTransitions)
  have "set (in_places net ?t) = ca_placeId ` set (en_consumes e)"
    using arg_cong [OF classifyArcs_places(1) [OF cl], of set] by simp
  with mem inp cl show ?thesis
    using classifyArcs_ok [of net ?t] by (auto simp: isEnabled_iff)
qed

end
