(* ===== verification/Petri_Reachability.thy ===== *)
theory Petri_Reachability
  imports Petri_Firing
begin

text \<open>
  \<open>packages/petri/src/reachability.ts\<close>: canonical marking keys and the bounded
  breadth-first search over the firing graph. The \<open>while\<close> loop of the source is the
  recursive function \<open>reach_loop\<close>; its termination measure weighs a queue entry at depth
  \<open>d\<close> by \<open>(|T| + 1) ^ (N + 1 - d)\<close>, so no fuel is needed.
\<close>

section \<open>Marking keys\<close>

definition markingEntries :: "marking \<Rightarrow> (string \<times> int) list" where
  "markingEntries m = sort_key fst (filter (\<lambda>(_, c). c > 0) m)"

definition entryKey :: "string \<times> int \<Rightarrow> string" where
  "entryKey e = fst e @ '':'' @ show_int (snd e)"

definition markingKey :: "marking \<Rightarrow> string" where
  "markingKey m = join ''|'' (map entryKey (markingEntries m))"

section \<open>Search\<close>

record reach_step =
  rs_marking :: marking
  rs_firedTransition :: string

record reach_result =
  rr_reachable :: bool
  rr_trace :: "reach_step list"
  rr_explored :: nat
  rr_maxSteps :: rat

text \<open>The bound: anything that is not a finite number of at least 1 counts as 1.\<close>

fun norm_maxSteps :: "js_number \<Rightarrow> rat" where
  "norm_maxSteps (Fin q) = (if q < 1 then 1 else q)"
| "norm_maxSteps _ = 1"

type_synonym bfs_entry = "marking \<times> reach_step list"

text \<open>
  The body of the \<open>for\<close> loop over the enabled transitions: \<open>Inl\<close> is the early return with
  the trace to the goal and the explored count, \<open>Inr\<close> the updated visited set, count and
  queue.
\<close>

fun reach_inner ::
  "(marking \<Rightarrow> bool) \<Rightarrow> marking \<Rightarrow> reach_step list \<Rightarrow> enabled_transition list
    \<Rightarrow> string list \<Rightarrow> nat \<Rightarrow> bfs_entry list
    \<Rightarrow> reach_step list \<times> nat + string list \<times> nat \<times> bfs_entry list" where
  "reach_inner goal m trace [] visited explored queue = Inr (visited, explored, queue)"
| "reach_inner goal m trace (e # es) visited explored queue =
     (let nextMarking = applyEnabled m e;
          key = markingKey nextMarking
      in if key \<in> set visited then reach_inner goal m trace es visited explored queue
         else let nextTrace = trace @ [\<lparr>rs_marking = m, rs_firedTransition = nt_id (en_transition e)\<rparr>]
              in if goal nextMarking then Inl (nextTrace, Suc explored)
                 else reach_inner goal m trace es (set_add key visited) (Suc explored)
                        (queue @ [(nextMarking, nextTrace)]))"

lemma reach_inner_queue:
  "reach_inner goal m trace es visited explored queue = Inr (visited', explored', queue') \<Longrightarrow>
    \<exists>new. queue' = queue @ new \<and> length new \<le> length es \<and> (\<forall>x\<in>set new. length (snd x) = Suc (length trace))"
proof (induction goal m trace es visited explored queue rule: reach_inner.induct)
  case (2 goal m trace e es visited explored queue)
  then show ?case
    by (fastforce simp: Let_def split: if_splits)
qed simp

text \<open>The weight of the queue, which every iteration decreases.\<close>

definition entry_weight :: "nat \<Rightarrow> nat \<Rightarrow> bfs_entry \<Rightarrow> nat" where
  "entry_weight W N x = W ^ (Suc N - length (snd x))"

lemma weight_new:
  assumes "\<forall>x\<in>set new. length (snd x) = Suc d" and "length new < W" and "d < N"
  shows "sum_list (map (entry_weight W N) new) < W ^ (Suc N - d)"
proof -
  have "sum_list (map (entry_weight W N) new) = length new * W ^ (N - d)"
    using assms(1) by (induction new) (auto simp: entry_weight_def)
  also have "\<dots> < W * W ^ (N - d)"
    using assms(2) by simp
  also have "\<dots> = W ^ (Suc N - d)"
    using assms(3) by (simp add: Suc_diff_le flip: power_Suc)
  finally show ?thesis .
qed

function reach_loop ::
  "petri_net \<Rightarrow> (marking \<Rightarrow> bool) \<Rightarrow> rat \<Rightarrow> string list \<Rightarrow> nat \<Rightarrow> bfs_entry list \<Rightarrow> reach_result" where
  "reach_loop net goal maxSteps visited explored queue =
     (case queue of
        [] \<Rightarrow> \<lparr>rr_reachable = False, rr_trace = [], rr_explored = explored, rr_maxSteps = maxSteps\<rparr>
      | (m, trace) # rest \<Rightarrow>
          (if of_nat (length trace) \<ge> maxSteps
           then reach_loop net goal maxSteps visited explored rest
           else case reach_inner goal m trace (enabledTransitions net m) visited explored rest of
                  Inl (nextTrace, explored') \<Rightarrow>
                    \<lparr>rr_reachable = True, rr_trace = nextTrace, rr_explored = explored',
                     rr_maxSteps = maxSteps\<rparr>
                | Inr (visited', explored', queue') \<Rightarrow>
                    reach_loop net goal maxSteps visited' explored' queue'))"
  by pat_completeness auto
termination
proof (relation "measure (\<lambda>(net, goal, maxSteps, visited, explored, queue).
    sum_list (map (entry_weight (Suc (length (transitions net))) (nat \<lceil>maxSteps\<rceil>)) queue))", goal_cases)
  case 1
  show ?case by simp
next
  case (2 net goal maxSteps visited explored queue x rest m trace)
  then show ?case by (simp add: entry_weight_def)
next
  case (3 net goal maxSteps visited explored queue x rest m trace r visited' p explored' queue')
  from 3 have eqs: "x = (m, trace)" "r = (visited', p)" "p = (explored', queue')"
    and queue: "queue = (m, trace) # rest" by simp_all
  from 3 have "reach_inner goal m trace (enabledTransitions net m) visited explored rest
      = Inr (visited', explored', queue')" by simp
  from reach_inner_queue [OF this] obtain new where q: "queue' = rest @ new"
    and len: "length new \<le> length (enabledTransitions net m)"
    and d: "\<forall>x\<in>set new. length (snd x) = Suc (length trace)" by blast
  have "length trace < nat \<lceil>maxSteps\<rceil>" using 3(3) by linarith
  moreover have "length new < Suc (length (transitions net))"
    using len length_enabledTransitions [of net m] by linarith
  ultimately have "sum_list (map (entry_weight (Suc (length (transitions net))) (nat \<lceil>maxSteps\<rceil>)) new)
      < entry_weight (Suc (length (transitions net))) (nat \<lceil>maxSteps\<rceil>) (m, trace)"
    using weight_new [OF d] by (simp add: entry_weight_def)
  then show ?case unfolding eqs queue q by simp
qed

declare reach_loop.simps [simp del]

definition reachable :: "petri_net \<Rightarrow> marking \<Rightarrow> (marking \<Rightarrow> bool) \<Rightarrow> js_number \<Rightarrow> reach_result" where
  "reachable net initial goal maxSteps0 =
     (let maxSteps = norm_maxSteps maxSteps0
      in if goal initial
         then \<lparr>rr_reachable = True, rr_trace = [], rr_explored = 1, rr_maxSteps = maxSteps\<rparr>
         else reach_loop net goal maxSteps (new_Set [markingKey initial]) 1 [(initial, [])])"

definition isDeadMarking :: "petri_net \<Rightarrow> marking \<Rightarrow> bool" where
  "isDeadMarking net m = (length (enabledTransitions net m) = 0)"

section \<open>Keys are canonical\<close>

definition same_tokens :: "marking \<Rightarrow> marking \<Rightarrow> bool" where
  "same_tokens m m' \<longleftrightarrow> (\<forall>p. tokensAt m p = tokensAt m' p)"

definition clean_id :: "string \<Rightarrow> bool" where
  "clean_id s \<longleftrightarrow> CHR '':'' \<notin> set s \<and> CHR ''|'' \<notin> set s"

definition clean_marking :: "marking \<Rightarrow> bool" where
  "clean_marking m \<longleftrightarrow> map_wf m \<and> (\<forall>(p, c)\<in>set m. clean_id p \<and> 0 \<le> c)"

lemma same_tokens_refl [simp]: "same_tokens m m"
  by (simp add: same_tokens_def)

lemma clean_tokens_nonneg: "clean_marking m \<Longrightarrow> 0 \<le> tokensAt m p"
  by (fastforce simp: clean_marking_def tokensAt_def split: option.splits dest: map_get_mem)

lemma set_markingEntries: "map_wf m \<Longrightarrow> set (markingEntries m) = {(p, c). tokensAt m p = c \<and> c > 0}"
proof -
  assume wf: "map_wf m"
  have "(p, c) \<in> set m \<and> c > 0 \<longleftrightarrow> tokensAt m p = c \<and> c > 0" for p c
    using map_get_iff_mem [OF wf, of p c] by (auto simp: tokensAt_def split: option.splits)
  then show ?thesis by (auto simp: markingEntries_def)
qed

lemma distinct_markingEntries: "map_wf m \<Longrightarrow> distinct (map fst (markingEntries m))"
  unfolding markingEntries_def map_wf_def
  by (metis distinct_map distinct_filter distinct_sort filter_is_subset inj_on_subset set_sort)

lemma sorted_markingEntries: "sorted (map fst (markingEntries m))"
  by (simp add: markingEntries_def)

lemma markingEntries_fst:
  "map_wf m \<Longrightarrow> markingEntries m = map (\<lambda>p. (p, tokensAt m p)) (map fst (markingEntries m))"
  using set_markingEntries [of m] by (auto intro!: map_idI [symmetric])

lemma markingEntries_cong:
  assumes "map_wf m" and "map_wf m'" and "same_tokens m m'"
  shows "markingEntries m = markingEntries m'"
proof -
  have eq: "tokensAt m p = tokensAt m' p" for p using assms(3) by (simp add: same_tokens_def)
  then have "set (markingEntries m) = set (markingEntries m')"
    using assms by (simp add: set_markingEntries)
  then have "map fst (markingEntries m) = map fst (markingEntries m')"
    using assms by (intro sorted_distinct_set_unique distinct_markingEntries sorted_markingEntries) auto
  with eq show ?thesis
    using markingEntries_fst [OF assms(1)] markingEntries_fst [OF assms(2)] by simp
qed

lemma entryKey_inj:
  assumes "clean_id p" and "clean_id q" and "0 \<le> c" and "0 \<le> d" and "entryKey (p, c) = entryKey (q, d)"
  shows "p = q \<and> c = d"
proof -
  have "p @ CHR '':'' # show_int c = q @ CHR '':'' # show_int d"
    using assms(5) by (simp add: entryKey_def)
  with append_sep_eq [of "CHR '':''" p q] assms(1,2) have "p = q" and "show_int c = show_int d"
    by (auto simp: clean_id_def)
  with assms(3,4) show ?thesis
    using show_nat_inj [of "nat c" "nat d"] by (auto simp: show_int_def)
qed

lemma join_entryKeys_inj:
  assumes cl: "\<forall>e\<in>set xs \<union> set ys. clean_id (fst e) \<and> 0 \<le> snd e"
    and eq: "join ''|'' (map entryKey xs) = join ''|'' (map entryKey ys)"
  shows "xs = ys"
proof -
  have sep: "CHR ''|'' \<notin> set (entryKey e) \<and> entryKey e \<noteq> []" if "e \<in> set xs \<union> set ys" for e
    using bspec [OF cl that] show_nat_no_separator(2) by (auto simp: entryKey_def clean_id_def show_int_def)
  have "map entryKey xs = map entryKey ys"
    using eq sep by (intro join_inj [of _ "CHR ''|''"]) auto
  moreover have "inj_on entryKey (set xs \<union> set ys)"
  proof (rule inj_onI)
    fix x y
    assume "x \<in> set xs \<union> set ys" and "y \<in> set xs \<union> set ys" and "entryKey x = entryKey y"
    with entryKey_inj [of "fst x" "fst y" "snd x" "snd y"] cl show "x = y"
      by (simp add: prod_eq_iff)
  qed
  ultimately show ?thesis by (rule inj_on_map_eq_map [THEN iffD1, rotated])
qed

lemma markingKey_inj:
  assumes "clean_marking m" and "clean_marking m'" and "markingKey m = markingKey m'"
  shows "same_tokens m m'"
proof -
  have wf: "map_wf m" "map_wf m'" using assms by (auto simp: clean_marking_def)
  have "\<forall>e\<in>set (markingEntries m) \<union> set (markingEntries m'). clean_id (fst e) \<and> 0 \<le> snd e"
    using assms(1,2) by (auto simp: markingEntries_def clean_marking_def)
  then have "markingEntries m = markingEntries m'"
    using assms(3) unfolding markingKey_def by (rule join_entryKeys_inj)
  then have pos: "tokensAt m p = c \<and> c > 0 \<longleftrightarrow> tokensAt m' p = c \<and> c > 0" for p c
    using set_markingEntries [OF wf(1)] set_markingEntries [OF wf(2)] by (simp add: set_eq_iff)
  show ?thesis
    unfolding same_tokens_def
  proof
    fix p
    show "tokensAt m p = tokensAt m' p"
      using pos [of p "tokensAt m p"] pos [of p "tokensAt m' p"]
        clean_tokens_nonneg [OF assms(1), of p] clean_tokens_nonneg [OF assms(2), of p] by linarith
  qed
qed

lemma markingKey_cong: "map_wf m \<Longrightarrow> map_wf m' \<Longrightarrow> same_tokens m m' \<Longrightarrow> markingKey m = markingKey m'"
  using markingEntries_cong [of m m'] by (simp add: markingKey_def)

end
