(* ===== verification/Petri_Search.thy ===== *)
theory Petri_Search
  imports Petri_Reachability
begin

text \<open>
  Correctness of the bounded search: the abstract specification is a run of the net
  (\<open>trace_runs\<close>), the invariant \<open>bfs_inv\<close> speaks about the entries already expanded
  (\<open>P\<close>), the queue and the visited keys. Soundness needs no hypothesis; completeness and
  minimality need marking keys that identify markings (no separator characters in ids)
  and a goal that looks at token counts only.
\<close>

section \<open>Runs of the net\<close>

fun trace_runs :: "petri_net \<Rightarrow> marking \<Rightarrow> reach_step list \<Rightarrow> marking \<Rightarrow> bool" where
  "trace_runs net m [] m' \<longleftrightarrow> m' = m"
| "trace_runs net m (s # ss) m' \<longleftrightarrow>
     rs_marking s = m \<and>
     (\<exists>e\<in>set (enabledTransitions net m).
        nt_id (en_transition e) = rs_firedTransition s \<and> trace_runs net (applyEnabled m e) ss m')"

definition step_of :: "marking \<Rightarrow> enabled_transition \<Rightarrow> reach_step" where
  "step_of m e = \<lparr>rs_marking = m, rs_firedTransition = nt_id (en_transition e)\<rparr>"

lemma trace_runs_append:
  "trace_runs net m (xs @ ys) m' \<longleftrightarrow> (\<exists>k. trace_runs net m xs k \<and> trace_runs net k ys m')"
  by (induction xs arbitrary: m) auto

lemma trace_runs_snoc:
  "trace_runs net m (xs @ [s]) m' \<longleftrightarrow>
    (\<exists>k. trace_runs net m xs k \<and> rs_marking s = k \<and>
      (\<exists>e\<in>set (enabledTransitions net k). nt_id (en_transition e) = rs_firedTransition s \<and> m' = applyEnabled k e))"
  by (auto simp: trace_runs_append)

lemma trace_runs_step:
  "trace_runs net i tr m \<Longrightarrow> e \<in> set (enabledTransitions net m) \<Longrightarrow>
    trace_runs net i (tr @ [step_of m e]) (applyEnabled m e)"
  by (auto simp: trace_runs_snoc step_of_def)

section \<open>Clean markings stay clean, and equal token counts stay equal\<close>

definition clean_net :: "petri_net \<Rightarrow> bool" where
  "clean_net net \<longleftrightarrow> (\<forall>p\<in>set (place_ids net). clean_id p)"

definition respects_tokens :: "(marking \<Rightarrow> bool) \<Rightarrow> bool" where
  "respects_tokens goal \<longleftrightarrow> (\<forall>m m'. same_tokens m m' \<longrightarrow> goal m = goal m')"

lemma clean_map_set: "clean_marking m \<Longrightarrow> clean_id p \<Longrightarrow> 0 \<le> c \<Longrightarrow> clean_marking (map_set p c m)"
proof -
  assume c: "clean_marking m" "clean_id p" "0 \<le> c"
  have "set (map_set p c m) \<subseteq> insert (p, c) (set m)"
    unfolding map_set_def by (induction m) auto
  with c show ?thesis by (auto simp: clean_marking_def map_wf_set)
qed

lemma clean_fold:
  assumes "clean_marking m" and "\<forall>p\<in>set ps. clean_id p" and "\<And>k p. clean_marking k \<Longrightarrow> 0 \<le> f k p"
  shows "clean_marking (fold (\<lambda>p next. map_set p (f next p) next) ps m)"
  using assms by (induction ps arbitrary: m) (auto intro: clean_map_set)

lemma clean_applyPlaces:
  assumes "clean_marking m" and "\<forall>p\<in>set ins \<union> set outs. clean_id p"
  shows "clean_marking (applyPlaces m ins outs)"
  unfolding applyPlaces_def using assms
  by (intro clean_fold) (auto simp: clean_tokens_nonneg)

lemma clean_applyEnabled:
  assumes "clean_marking m" and "clean_net net" and "e \<in> set (enabledTransitions net m)"
  shows "clean_marking (applyEnabled m e)"
  using assms(1,2) unfolding applyEnabled_mem [OF assms(3)]
  by (intro clean_applyPlaces) (auto simp: clean_net_def in_places_def out_places_def)

lemma enabledTransitions_cong: "same_tokens m m' \<Longrightarrow> enabledTransitions net m = enabledTransitions net m'"
proof -
  assume "same_tokens m m'"
  then have eq: "tokensAt m = tokensAt m'" by (auto simp: same_tokens_def)
  have "enabled_loop net m ts = enabled_loop net m' ts" for ts
    by (induction ts) (auto simp: eq split: sum.splits)
  then show ?thesis by (simp add: enabledTransitions_def)
qed

lemma applyEnabled_cong: "same_tokens m m' \<Longrightarrow> same_tokens (applyEnabled m e) (applyEnabled m' e)"
  by (simp add: same_tokens_def applyEnabled_places tokensAt_applyPlaces)

lemma clean_key_eq: "clean_marking m \<Longrightarrow> clean_marking m' \<Longrightarrow> markingKey m = markingKey m' \<longleftrightarrow> same_tokens m m'"
  using markingKey_inj markingKey_cong by (auto simp: clean_marking_def)

lemma trace_runs_clean:
  "trace_runs net m tr m' \<Longrightarrow> clean_marking m \<Longrightarrow> clean_net net \<Longrightarrow> clean_marking m'"
  by (induction tr arbitrary: m) (auto intro: clean_applyEnabled)

section \<open>The loop over the enabled transitions\<close>

lemma reach_inner_Inl:
  "reach_inner goal m trace es visited explored queue = Inl (trace', explored') \<Longrightarrow>
    \<exists>e\<in>set es. goal (applyEnabled m e) \<and> trace' = trace @ [step_of m e]"
  by (induction goal m trace es visited explored queue rule: reach_inner.induct)
     (auto simp: Let_def step_of_def split: if_splits)

lemma reach_inner_Inr:
  "reach_inner goal m trace es visited explored queue = Inr (visited', explored', queue') \<Longrightarrow>
    \<exists>new. queue' = queue @ new \<and>
      set visited' = set visited \<union> markingKey ` fst ` set new \<and>
      (\<forall>e\<in>set es. markingKey (applyEnabled m e) \<in> set visited') \<and>
      (\<forall>x\<in>set new. \<not> goal (fst x) \<and> (\<exists>e\<in>set es. x = (applyEnabled m e, trace @ [step_of m e])))"
proof (induction goal m trace es visited explored queue rule: reach_inner.induct)
  case (2 goal m trace e es visited explored queue)
  let ?next = "applyEnabled m e" and ?tr = "trace @ [step_of m e]"
  show ?case
  proof (cases "markingKey ?next \<in> set visited")
    case True
    with "2.prems" have "reach_inner goal m trace es visited explored queue = Inr (visited', explored', queue')"
      by (simp add: Let_def)
    from "2.IH"(1) [OF refl refl True this] True show ?thesis by fastforce
  next
    case False
    with "2.prems" have ng: "\<not> goal ?next"
      and rest: "reach_inner goal m trace es (set_add (markingKey ?next) visited) (Suc explored)
        (queue @ [(?next, ?tr)]) = Inr (visited', explored', queue')"
      by (auto simp: Let_def step_of_def split: if_splits)
    from "2.IH"(2) [OF refl refl False refl ng rest [unfolded step_of_def]]
    obtain new where new: "queue' = (queue @ [(?next, ?tr)]) @ new"
      "set visited' = set (set_add (markingKey ?next) visited) \<union> markingKey ` fst ` set new"
      "\<forall>e\<in>set es. markingKey (applyEnabled m e) \<in> set visited'"
      "\<forall>x\<in>set new. \<not> goal (fst x) \<and> (\<exists>e\<in>set es. x = (applyEnabled m e, trace @ [step_of m e]))"
      by (auto simp: step_of_def)
    show ?thesis
      by (rule exI [of _ "(?next, ?tr) # new"]) (use new ng in auto)
  qed
qed simp

section \<open>The search invariant\<close>

abbreviation depth :: "bfs_entry \<Rightarrow> nat" where
  "depth x \<equiv> length (snd x)"

definition covered :: "bfs_entry set \<Rightarrow> marking \<Rightarrow> nat \<Rightarrow> bool" where
  "covered S m d \<longleftrightarrow> (\<exists>x\<in>S. markingKey (fst x) = markingKey m \<and> depth x \<le> d)"

definition bfs_inv ::
  "petri_net \<Rightarrow> (marking \<Rightarrow> bool) \<Rightarrow> rat \<Rightarrow> marking \<Rightarrow> bfs_entry set \<Rightarrow> bfs_entry list \<Rightarrow> string list \<Rightarrow> bool" where
  "bfs_inv net goal maxSteps init P queue visited \<longleftrightarrow>
     set visited = markingKey ` fst ` (P \<union> set queue) \<and>
     (\<forall>x\<in>P \<union> set queue. \<not> goal (fst x) \<and> trace_runs net init (snd x) (fst x)) \<and>
     (\<forall>x\<in>P. of_nat (depth x) < maxSteps \<longrightarrow>
        (\<forall>e\<in>set (enabledTransitions net (fst x)).
           covered (P \<union> set queue) (applyEnabled (fst x) e) (Suc (depth x)))) \<and>
     sorted (map depth queue) \<and>
     (\<forall>x\<in>P \<union> set queue. \<forall>y\<in>set queue. depth x \<le> Suc (depth y)) \<and>
     (init, []) \<in> P \<union> set queue"

lemma covered_mono: "covered S m d \<Longrightarrow> S \<subseteq> S' \<Longrightarrow> d \<le> d' \<Longrightarrow> covered S' m d'"
  by (fastforce simp: covered_def)

lemma bfs_inv_skip:
  assumes inv: "bfs_inv net goal maxSteps init P (x # rest) visited" and "of_nat (depth x) \<ge> maxSteps"
  shows "bfs_inv net goal maxSteps init (insert x P) rest visited"
proof -
  have "insert x P \<union> set rest = P \<union> set (x # rest)" by auto
  with assms show ?thesis unfolding bfs_inv_def by (auto 4 3)
qed

lemma bfs_inv_expand:
  assumes inv: "bfs_inv net goal maxSteps init P ((m, tr) # rest) visited"
    and inner: "reach_inner goal m tr (enabledTransitions net m) visited explored rest = Inr (visited', explored', queue')"
  shows "bfs_inv net goal maxSteps init (insert (m, tr) P) queue' visited'"
proof -
  let ?S = "P \<union> set ((m, tr) # rest)" and ?P = "insert (m, tr) P"
  from reach_inner_Inr [OF inner] obtain new where q: "queue' = rest @ new"
    and v: "set visited' = set visited \<union> markingKey ` fst ` set new"
    and cov: "\<forall>e\<in>set (enabledTransitions net m). markingKey (applyEnabled m e) \<in> set visited'"
    and new: "\<forall>x\<in>set new. \<not> goal (fst x) \<and> (\<exists>e\<in>set (enabledTransitions net m). x = (applyEnabled m e, tr @ [step_of m e]))"
    by blast
  have S': "?P \<union> set queue' = ?S \<union> set new" using q by auto
  have dnew: "\<forall>x\<in>set new. depth x = Suc (length tr)" using new by auto
  from inv have old: "\<forall>x\<in>?S. depth x \<le> Suc (length tr)" unfolding bfs_inv_def by simp
  from inv have srt: "sorted (map depth rest)" "\<forall>y\<in>set rest. length tr \<le> depth y"
    unfolding bfs_inv_def by auto
  have all: "\<forall>x\<in>?P \<union> set queue'. depth x \<le> Suc (length tr)" using old dnew unfolding S' by auto
  have vis: "set visited' = markingKey ` fst ` (?P \<union> set queue')"
    using inv unfolding S' v bfs_inv_def by auto
  have run: "\<forall>x\<in>?P \<union> set queue'. \<not> goal (fst x) \<and> trace_runs net init (snd x) (fst x)"
  proof -
    from inv have o: "\<forall>x\<in>?S. \<not> goal (fst x) \<and> trace_runs net init (snd x) (fst x)"
      unfolding bfs_inv_def by blast
    then have "trace_runs net init tr m" by simp
    then have "\<forall>x\<in>set new. \<not> goal (fst x) \<and> trace_runs net init (snd x) (fst x)"
      using new trace_runs_step by (metis fst_conv snd_conv)
    with o show ?thesis unfolding S' by blast
  qed
  have "covered (?P \<union> set queue') (applyEnabled (fst x) e) (Suc (depth x))"
    if x: "x \<in> ?P" "of_nat (depth x) < maxSteps" and e: "e \<in> set (enabledTransitions net (fst x))" for x e
  proof (cases "x = (m, tr)")
    case True
    with e cov have "markingKey (applyEnabled m e) \<in> markingKey ` fst ` (?P \<union> set queue')"
      unfolding vis [symmetric] by simp
    then obtain y where "y \<in> ?P \<union> set queue'" "markingKey (fst y) = markingKey (applyEnabled m e)"
      by (smt (verit) imageE)
    moreover from this(1) have "depth y \<le> Suc (length tr)" by (rule bspec [OF all])
    ultimately show ?thesis unfolding covered_def True fst_conv snd_conv by blast
  next
    case False
    with x e inv have "covered ?S (applyEnabled (fst x) e) (Suc (depth x))"
      unfolding bfs_inv_def by blast
    then show ?thesis unfolding S' by (rule covered_mono) auto
  qed
  moreover have "sorted (map depth queue')"
  proof -
    have "map depth new = replicate (length new) (Suc (length tr))"
      using dnew by (simp add: map_replicate_const [symmetric] map_eq_conv del: map_replicate_const)
    moreover have "sorted (replicate n d)" for n and d :: nat
      by (induction n) auto
    ultimately show ?thesis
      using srt(1) old dnew unfolding q by (simp add: sorted_append)
  qed
  moreover have "\<forall>x\<in>?P \<union> set queue'. \<forall>y\<in>set queue'. depth x \<le> Suc (depth y)"
  proof (intro ballI)
    fix x y
    assume "x \<in> ?P \<union> set queue'" and y: "y \<in> set queue'"
    then have "depth x \<le> Suc (length tr)" by (intro bspec [OF all])
    moreover have "length tr \<le> depth y"
      using y srt(2) dnew unfolding q by (cases "y \<in> set rest") auto
    ultimately show "depth x \<le> Suc (depth y)" by linarith
  qed
  moreover have "(init, []) \<in> ?P \<union> set queue'"
    using inv unfolding S' bfs_inv_def by auto
  ultimately show ?thesis using vis run unfolding bfs_inv_def by (intro conjI) (assumption | blast)+
qed

lemma reach_loop_Nil:
  "reach_loop net goal maxSteps visited explored [] =
    \<lparr>rr_reachable = False, rr_trace = [], rr_explored = explored, rr_maxSteps = maxSteps\<rparr>"
  by (subst reach_loop.simps) simp

lemma reach_loop_Cons:
  "reach_loop net goal maxSteps visited explored ((m, trace) # rest) =
     (if of_nat (length trace) \<ge> maxSteps
      then reach_loop net goal maxSteps visited explored rest
      else case reach_inner goal m trace (enabledTransitions net m) visited explored rest of
             Inl (nextTrace, explored') \<Rightarrow>
               \<lparr>rr_reachable = True, rr_trace = nextTrace, rr_explored = explored',
                rr_maxSteps = maxSteps\<rparr>
           | Inr (visited', explored', queue') \<Rightarrow>
               reach_loop net goal maxSteps visited' explored' queue')"
  by (subst reach_loop.simps) simp

text \<open>Where the loop ends: with an empty queue, or at an expansion that meets the goal.\<close>

lemma reach_loop_end:
  assumes "bfs_inv net goal maxSteps init P queue visited"
  shows "(\<not> rr_reachable (reach_loop net goal maxSteps visited explored queue) \<and>
            (\<exists>P' visited'. bfs_inv net goal maxSteps init P' [] visited')) \<or>
         (rr_reachable (reach_loop net goal maxSteps visited explored queue) \<and>
            (\<exists>P' rest visited' m tr e. bfs_inv net goal maxSteps init P' ((m, tr) # rest) visited' \<and>
               of_nat (length tr) < maxSteps \<and> e \<in> set (enabledTransitions net m) \<and> goal (applyEnabled m e) \<and>
               rr_trace (reach_loop net goal maxSteps visited explored queue) = tr @ [step_of m e]))"
  using assms
proof (induction net goal maxSteps visited explored queue arbitrary: P rule: reach_loop.induct)
  case (1 net goal maxSteps visited explored queue)
  show ?case
  proof (cases queue)
    case Nil
    with "1.prems" show ?thesis by (auto simp: reach_loop_Nil)
  next
    case (Cons x rest)
    obtain m tr where x: "x = (m, tr)" by (cases x)
    show ?thesis
    proof (cases "of_nat (length tr) \<ge> maxSteps")
      case True
      from bfs_inv_skip [of net goal maxSteps init P x rest visited] "1.prems" Cons x True
      have "bfs_inv net goal maxSteps init (insert x P) rest visited" by simp
      moreover have "reach_loop net goal maxSteps visited explored queue
          = reach_loop net goal maxSteps visited explored rest"
        using Cons x True by (simp add: reach_loop_Cons)
      ultimately show ?thesis using "1.IH"(1) [OF Cons x [symmetric] True] by simp
    next
      case False
      show ?thesis
      proof (cases "reach_inner goal m tr (enabledTransitions net m) visited explored rest")
        case (Inl r)
        obtain tr' ex' where r: "r = (tr', ex')" by (cases r)
        from reach_inner_Inl [OF Inl [unfolded r]] obtain e
          where "e \<in> set (enabledTransitions net m)" "goal (applyEnabled m e)" "tr' = tr @ [step_of m e]" by blast
        with "1.prems" Cons x False Inl r show ?thesis
          by (simp add: reach_loop_Cons) (blast intro: leI)
      next
        case (Inr r)
        obtain v' ex' q' where r: "r = (v', ex', q')" by (cases r) auto
        from bfs_inv_expand [OF _ Inr [unfolded r]] "1.prems" Cons x
        have "bfs_inv net goal maxSteps init (insert (m, tr) P) q' v'" by blast
        moreover have "reach_loop net goal maxSteps visited explored queue
            = reach_loop net goal maxSteps v' ex' q'"
          using Cons x False Inr r by (simp add: reach_loop_Cons)
        ultimately show ?thesis using "1.IH"(2) [OF Cons x [symmetric] False Inr r [symmetric] refl] by simp
      qed
    qed
  qed
qed

section \<open>Every short run is covered\<close>

lemma bfs_inv_covers:
  assumes inv: "bfs_inv net goal maxSteps init P queue visited"
    and clean: "clean_marking init" "clean_net net"
    and front: "\<forall>y\<in>set queue. D \<le> depth y"
  shows "trace_runs net init tr m \<Longrightarrow> length tr \<le> D \<Longrightarrow> of_nat (length tr) < maxSteps + 1 \<Longrightarrow>
    covered (P \<union> set queue) m (length tr)"
proof (induction tr arbitrary: m rule: rev_induct)
  case Nil
  then show ?case using inv unfolding bfs_inv_def covered_def
    by (intro bexI [of _ "(init, [])"]) auto
next
  case (snoc s tr)
  from snoc.prems(1) obtain k e where k: "trace_runs net init tr k"
    and e: "e \<in> set (enabledTransitions net k)" and m: "m = applyEnabled k e"
    by (auto simp: trace_runs_snoc)
  from snoc.IH [OF k] snoc.prems have "covered (P \<union> set queue) k (length tr)" by simp
  then obtain x where x: "x \<in> P \<union> set queue" "markingKey (fst x) = markingKey k" "depth x \<le> length tr"
    by (auto simp: covered_def)
  have "x \<in> P" using x front snoc.prems(2) by fastforce
  have ck: "clean_marking k" using k clean by (rule trace_runs_clean)
  have cx: "clean_marking (fst x)"
    using inv x(1) clean unfolding bfs_inv_def by (blast intro: trace_runs_clean)
  from x(2) have same: "same_tokens (fst x) k" using clean_key_eq [OF cx ck] by simp
  then have ex: "e \<in> set (enabledTransitions net (fst x))" using e enabledTransitions_cong by metis
  moreover have "of_nat (depth x) < maxSteps"
    using x(3) snoc.prems(3) by (simp add: order_le_less_trans [of "of_nat (depth x)" "of_nat (length tr)"])
  ultimately have "covered (P \<union> set queue) (applyEnabled (fst x) e) (Suc (depth x))"
    using inv \<open>x \<in> P\<close> unfolding bfs_inv_def by blast
  moreover have "markingKey (applyEnabled (fst x) e) = markingKey m"
    using clean_key_eq [OF clean_applyEnabled [OF cx clean(2) ex] clean_applyEnabled [OF ck clean(2) e]]
      applyEnabled_cong [OF same] m by simp
  ultimately show ?case using x(3) by (fastforce simp: covered_def)
qed

lemma bfs_inv_no_goal:
  assumes "bfs_inv net goal maxSteps init P queue visited"
    and "clean_marking init" "clean_net net" "respects_tokens goal" "\<forall>y\<in>set queue. D \<le> depth y"
    and "trace_runs net init tr m" "length tr \<le> D" "of_nat (length tr) < maxSteps + 1"
  shows "\<not> goal m"
proof
  assume "goal m"
  from bfs_inv_covers [OF assms(1-3,5-8)] obtain x where
    x: "x \<in> P \<union> set queue" "markingKey (fst x) = markingKey m" by (auto simp: covered_def)
  then have r: "\<not> goal (fst x)" "trace_runs net init (snd x) (fst x)"
    using assms(1) unfolding bfs_inv_def by auto
  have "same_tokens (fst x) m"
    using x(2) clean_key_eq trace_runs_clean [OF r(2) assms(2,3)] trace_runs_clean [OF assms(6,2,3)] by blast
  with r(1) \<open>goal m\<close> assms(4) show False by (auto simp: respects_tokens_def)
qed

lemma bfs_inv_start:
  "\<not> goal init \<Longrightarrow> bfs_inv net goal maxSteps init {} [(init, [])] (new_Set [markingKey init])"
  by (simp add: bfs_inv_def new_Set_def set_add_def)

text \<open>The three facts the properties rest on.\<close>

lemma reachable_cases:
  obtains (immediate) "goal init" "reachable net init goal ms =
      \<lparr>rr_reachable = True, rr_trace = [], rr_explored = 1, rr_maxSteps = norm_maxSteps ms\<rparr>"
  | (exhausted) P visited where "\<not> rr_reachable (reachable net init goal ms)"
      "bfs_inv net goal (norm_maxSteps ms) init P [] visited"
  | (found) P rest visited m tr e where "rr_reachable (reachable net init goal ms)"
      "bfs_inv net goal (norm_maxSteps ms) init P ((m, tr) # rest) visited"
      "of_nat (length tr) < norm_maxSteps ms" "e \<in> set (enabledTransitions net m)" "goal (applyEnabled m e)"
      "rr_trace (reachable net init goal ms) = tr @ [step_of m e]"
proof (cases "goal init")
  case True
  then show thesis by (rule immediate) (simp add: reachable_def True)
next
  case False
  then have "reachable net init goal ms =
      reach_loop net goal (norm_maxSteps ms) (new_Set [markingKey init]) 1 [(init, [])]"
    by (simp add: reachable_def)
  with reach_loop_end [OF bfs_inv_start [where goal = goal and init = init and net = net and maxSteps = "norm_maxSteps ms", OF False], of 1]
  show thesis using exhausted found by auto
qed

end
