(* ===== verification/Petri_Invariants.thy ===== *)
theory Petri_Invariants
  imports Petri_Search
begin

text \<open>
  \<open>packages/petri/src/invariants.ts\<close>: the incidence matrix, the signed elimination and the
  place and transition invariants it returns. A matrix is a list of integer rows; numbers
  stay exact below \<open>2 ^ 53\<close>, where \<open>av / bv\<close> is an integer exactly when \<open>bv\<close> divides
  \<open>av\<close>. \<open>localeCompare\<close> is the parameter \<open>lc\<close>: it only orders the entries of a
  signature.
\<close>

section \<open>The incidence matrix\<close>

type_synonym row = "int list"

text \<open>\<open>row[k] ?? 0\<close>.\<close>

definition row_get :: "row \<Rightarrow> nat \<Rightarrow> int" where
  "row_get row k = (if k < length row then row ! k else 0)"

definition add_entry :: "string list \<Rightarrow> nat \<Rightarrow> int \<Rightarrow> classified_arc \<Rightarrow> row list \<Rightarrow> row list" where
  "add_entry placeIds j d a A =
     (case index_of (ca_placeId a) placeIds of
        None \<Rightarrow> A
      | Some i \<Rightarrow> A[i := (A ! i)[j := row_get (A ! i) j + d]])"

definition incidence_column :: "petri_net \<Rightarrow> string list \<Rightarrow> nat \<times> string \<Rightarrow> row list \<Rightarrow> row list" where
  "incidence_column net placeIds jt A =
     (case classifyArcsForTransition net (snd jt) of
        Inl _ \<Rightarrow> A
      | Inr (ins, outs) \<Rightarrow>
          fold (add_entry placeIds (fst jt) (-1)) ins (fold (add_entry placeIds (fst jt) 1) outs A))"

definition incidenceMatrix :: "petri_net \<Rightarrow> row list" where
  "incidenceMatrix net =
     (let placeIds = map np_id (places net);
          ts = map nt_id (transitions net);
          A = map (\<lambda>_. map (\<lambda>_. 0) ts) placeIds
      in fold (incidence_column net placeIds) (enumerate 0 ts) A)"

section \<open>The elimination\<close>

definition seedIdentity :: "nat \<Rightarrow> row list" where
  "seedIdentity m = map (\<lambda>i. (replicate m 0)[i := 1]) [0..<m]"

definition dotColumn :: "row \<Rightarrow> row list \<Rightarrow> nat \<Rightarrow> int" where
  "dotColumn row A j = (\<Sum>k\<leftarrow>[0..<length A]. row_get row k * row_get (A ! k) j)"

definition columns :: "row list \<Rightarrow> nat" where
  "columns A = (case A of [] \<Rightarrow> 0 | r # _ \<Rightarrow> length r)"

definition rowIsInvariant :: "row \<Rightarrow> row list \<Rightarrow> bool" where
  "rowIsInvariant row A = (if length A = 0 then True else list_all (\<lambda>j. dotColumn row A j = 0) [0..<columns A])"

definition partitionBySign :: "int list \<Rightarrow> nat list \<times> nat list \<times> nat list" where
  "partitionBySign signed =
     (filter (\<lambda>i. signed ! i > 0) [0..<length signed],
      filter (\<lambda>i. signed ! i < 0) [0..<length signed],
      filter (\<lambda>i. signed ! i = 0) [0..<length signed])"

definition combine_rows :: "row list \<Rightarrow> int list \<Rightarrow> nat \<Rightarrow> nat \<Rightarrow> nat \<Rightarrow> row" where
  "combine_rows B signed m pos neg =
     map (\<lambda>k. row_get (B ! pos) k * \<bar>signed ! neg\<bar> + row_get (B ! neg) k * \<bar>signed ! pos\<bar>) [0..<m]"

definition combineOppositeSigned ::
  "row list \<Rightarrow> int list \<Rightarrow> nat list \<Rightarrow> nat list \<Rightarrow> nat \<Rightarrow> row list \<times> nat list" where
  "combineOppositeSigned B signed positives negatives m =
     fold (\<lambda>(pos, neg) (combined, used).
         (combined @ [combine_rows B signed m pos neg], set_add neg (set_add pos used)))
       (List.product positives negatives) ([], [])"

definition keepUnusedZeros :: "row list \<Rightarrow> nat list \<Rightarrow> nat list \<Rightarrow> row list" where
  "keepUnusedZeros B zeros used = map ((!) B) (filter (\<lambda>i. i \<notin> set used) zeros)"

fun scalar_loop :: "row \<Rightarrow> row \<Rightarrow> int option \<Rightarrow> bool" where
  "scalar_loop [] bs ratio = (ratio \<noteq> None)"
| "scalar_loop (av # as) bs ratio =
     (let bv = row_get bs 0
      in if (av = 0) \<noteq> (bv = 0) then False
         else if av = 0 \<and> bv = 0 then scalar_loop as (tl bs) ratio
         else if av mod bv \<noteq> 0 \<or> av div bv \<le> 0 then False
         else (case ratio of
                 None \<Rightarrow> scalar_loop as (tl bs) (Some (av div bv))
               | Some r \<Rightarrow> if av div bv \<noteq> r then False else scalar_loop as (tl bs) ratio))"

definition isScalarMultiple :: "row \<Rightarrow> row \<Rightarrow> bool" where
  "isScalarMultiple a b =
     (let aNonzero = filter (\<lambda>v. v \<noteq> 0) a; bNonzero = filter (\<lambda>v. v \<noteq> 0) b
      in if length aNonzero = 0 \<or> length bNonzero = 0 then False
         else if length aNonzero \<noteq> length bNonzero then False
         else scalar_loop a b None)"

definition reduceRows :: "row list \<Rightarrow> row list" where
  "reduceRows rows =
     fold (\<lambda>row result.
         if list_ex (\<lambda>kept. isScalarMultiple row kept) result then result
         else filter (\<lambda>kept. \<not> isScalarMultiple kept row) result @ [row]) rows []"

text \<open>One iteration of the elimination loop, shared by both kinds of invariants.\<close>

definition eliminate_column :: "row list \<Rightarrow> nat \<Rightarrow> nat \<Rightarrow> row list \<Rightarrow> row list" where
  "eliminate_column A m j B =
     (let signed = map (\<lambda>row. dotColumn row A j) B;
          (positives, negatives, zeros) = partitionBySign signed
      in if length positives = 0 \<or> length negatives = 0 then map ((!) B) zeros
         else let (combined, used) = combineOppositeSigned B signed positives negatives m
              in reduceRows (keepUnusedZeros B zeros used @ combined))"

definition eliminate :: "row list \<Rightarrow> nat \<Rightarrow> row list" where
  "eliminate A m = fold (eliminate_column A m) [0..<columns A] (seedIdentity m)"

section \<open>Invariants\<close>

record place_invariant =
  pi_places :: "(string \<times> int) list"
  pi_label :: string

record transition_invariant =
  ti_transitions :: "(string \<times> int) list"
  ti_label :: string

fun dedup_loop :: "('a \<Rightarrow> string) \<Rightarrow> string list \<Rightarrow> 'a list \<Rightarrow> 'a list" where
  "dedup_loop sig seen [] = []"
| "dedup_loop sig seen (x # xs) =
     (if sig x \<in> set seen then dedup_loop sig seen xs
      else x # dedup_loop sig (set_add (sig x) seen) xs)"

definition signature :: "locale_compare \<Rightarrow> (string \<times> int) list \<Rightarrow> string" where
  "signature lc entries =
     join ''|'' (map (\<lambda>(i, w). i @ '':'' @ show_int w) (sort_by (\<lambda>a b. lc (fst a) (fst b)) entries))"

definition dedupInvariants :: "locale_compare \<Rightarrow> place_invariant list \<Rightarrow> place_invariant list" where
  "dedupInvariants lc invs = dedup_loop (\<lambda>i. signature lc (pi_places i)) [] invs"

definition dedupTransitionInvariants ::
  "locale_compare \<Rightarrow> transition_invariant list \<Rightarrow> transition_invariant list" where
  "dedupTransitionInvariants lc invs = dedup_loop (\<lambda>i. signature lc (ti_transitions i)) [] invs"

text \<open>\<open>names.get(id) ?? id\<close> for each entry, joined.\<close>

definition invariant_label :: "(string, string) jsmap \<Rightarrow> (string \<times> int) list \<Rightarrow> string" where
  "invariant_label names entries =
     join '' + '' (map (\<lambda>(i, _). case map_get names i of None \<Rightarrow> i | Some n \<Rightarrow> n) entries)"

definition positive_entries :: "nat \<Rightarrow> string list \<Rightarrow> row \<Rightarrow> (string \<times> int) list" where
  "positive_entries n ids row = filter (\<lambda>(_, w). w > 0) (map (\<lambda>i. (ids ! i, row_get row i)) [0..<n])"

definition rowToInvariant :: "row \<Rightarrow> string list \<Rightarrow> (string, string) jsmap \<Rightarrow> place_invariant option" where
  "rowToInvariant row placeIds placeNames =
     (let ps = positive_entries (length placeIds) placeIds row
      in if length ps = 0 then None
         else Some \<lparr>pi_places = ps, pi_label = invariant_label placeNames ps\<rparr>)"

definition placeInvariants :: "locale_compare \<Rightarrow> petri_net \<Rightarrow> place_invariant list" where
  "placeInvariants lc net =
     (let placeIds = map np_id (places net);
          placeNames = new_Map (map (\<lambda>p. (np_id p, np_name p)) (places net))
      in if length placeIds = 0 then []
         else let A = incidenceMatrix net;
                  B = eliminate A (length placeIds);
                  rows = filter (\<lambda>row. \<not> list_all (\<lambda>w. w = 0) row \<and> rowIsInvariant row A) B
              in dedupInvariants lc
                   (List.map_filter (\<lambda>row. rowToInvariant row placeIds placeNames) rows))"

definition transpose_matrix :: "row list \<Rightarrow> nat \<Rightarrow> row list" where
  "transpose_matrix A n = map (\<lambda>j. map (\<lambda>i. row_get (A ! i) j) [0..<length A]) [0..<n]"

definition rowToTransitionInvariant ::
  "row \<Rightarrow> string list \<Rightarrow> (string, string) jsmap \<Rightarrow> transition_invariant option" where
  "rowToTransitionInvariant row ids names =
     (let ts = positive_entries (length row) ids row
      in if length ts = 0 then None
         else Some \<lparr>ti_transitions = ts, ti_label = invariant_label names ts\<rparr>)"

definition transitionInvariants :: "locale_compare \<Rightarrow> petri_net \<Rightarrow> transition_invariant list" where
  "transitionInvariants lc net =
     (let ids = map nt_id (transitions net);
          names = new_Map (map (\<lambda>t. (nt_id t, nt_name t)) (transitions net))
      in if length ids = 0 then []
         else let At = transpose_matrix (incidenceMatrix net) (length ids);
                  B = eliminate At (length ids);
                  rows = filter (\<lambda>row. \<not> list_all (\<lambda>w. w = 0) row \<and> rowIsInvariant row At) B
              in dedupTransitionInvariants lc
                   (List.map_filter (\<lambda>row. rowToTransitionInvariant row ids names) rows))"

end
