(* ===== verification/Petri_Conservation.thy ===== *)
theory Petri_Conservation
  imports Petri_Invariants
begin

text \<open>
  Soundness of the invariant computation: the entries of the incidence matrix count the arcs
  of the net, every row the elimination produces is a non-negative weighting, and what
  survives the final filter balances every transition. The firing laws of \<open>token_game\<close> then
  give conservation along firings and runs.
\<close>

section \<open>Entries of the incidence matrix\<close>

definition mat_dims :: "row list \<Rightarrow> nat \<Rightarrow> nat \<Rightarrow> bool" where
  "mat_dims A m n \<longleftrightarrow> length A = m \<and> (\<forall>r\<in>set A. length r = n)"

abbreviation entry :: "row list \<Rightarrow> nat \<Rightarrow> nat \<Rightarrow> int" where
  "entry A i j \<equiv> row_get (A ! i) j"

lemma mat_dims_row: "mat_dims A m n \<Longrightarrow> i < m \<Longrightarrow> length (A ! i) = n"
  by (simp add: mat_dims_def)

lemma add_entry_dims: "mat_dims A (length P) n \<Longrightarrow> mat_dims (add_entry P j d a A) (length P) n"
proof (cases "index_of (ca_placeId a) P")
  case (Some i)
  assume dims: "mat_dims A (length P) n"
  then have "length (A ! i) = n" using index_of_Some [OF Some] by (auto simp: mat_dims_row)
  with dims show ?thesis
    by (auto simp: mat_dims_def add_entry_def Some dest!: set_update_subset_insert [THEN subsetD])
qed (simp add: add_entry_def)

lemma entry_add_entry:
  assumes "mat_dims A (length P) n" and "distinct P" and "i < length P" and "j < n"
  shows "entry (add_entry P j' d a A) i j = entry A i j + (if j = j' \<and> ca_placeId a = P ! i then d else 0)"
proof (cases "index_of (ca_placeId a) P")
  case None
  then have "ca_placeId a \<noteq> P ! i" using assms(3) index_of_None [of "ca_placeId a" P] by force
  with None show ?thesis by (simp add: add_entry_def)
next
  case (Some k)
  have k: "k < length P" "P ! k = ca_placeId a" using index_of_Some [OF Some] by auto
  have "ca_placeId a = P ! i \<longleftrightarrow> i = k" using k assms(2,3) by (metis nth_eq_iff_index_eq)
  then show ?thesis
    using assms k mat_dims_row [OF assms(1,3)]
    by (cases "i = k") (auto simp: add_entry_def Some mat_dims_def row_get_def nth_list_update)
qed

lemma fold_add_entry:
  assumes "mat_dims A (length P) n" and "distinct P" and "i < length P" and "j < n"
  shows "mat_dims (fold (add_entry P j' d) as A) (length P) n \<and>
    entry (fold (add_entry P j' d) as A) i j =
      entry A i j + (if j = j' then d * int (count_list (map ca_placeId as) (P ! i)) else 0)"
  using assms(1)
proof (induction as arbitrary: A)
  case (Cons a as)
  from Cons.IH [OF add_entry_dims [OF Cons.prems]] entry_add_entry [OF Cons.prems assms(2-4)]
  show ?case by (auto simp: algebra_simps)
qed simp

text \<open>The effect of a transition on a place, zero for a transition with a self-loop arc.\<close>

definition effect :: "petri_net \<Rightarrow> string \<Rightarrow> string \<Rightarrow> int" where
  "effect net t p =
     (if hasSelfLoopArc net t then 0
      else int (count_list (out_places net t) p) - int (count_list (in_places net t) p))"

lemma entry_incidence_column:
  assumes "mat_dims A (length P) n" and "distinct P" and "i < length P" and "j < n"
  shows "mat_dims (incidence_column net P jt A) (length P) n \<and>
    entry (incidence_column net P jt A) i j =
      entry A i j + (if j = fst jt then effect net (snd jt) (P ! i) else 0)"
proof (cases "classifyArcsForTransition net (snd jt)")
  case (Inl e)
  then have "hasSelfLoopArc net (snd jt)" using classifyArcs_self_loop by blast
  with Inl assms(1) show ?thesis by (simp add: incidence_column_def effect_def)
next
  case (Inr r)
  obtain ins outs where r: "r = (ins, outs)" by (cases r)
  with Inr have cl: "classifyArcsForTransition net (snd jt) = Inr (ins, outs)" by simp
  then have "\<not> hasSelfLoopArc net (snd jt)" using classifyArcs_ok by blast
  with fold_add_entry [OF assms, of "fst jt" 1 outs]
    fold_add_entry [OF conjunct1 [OF fold_add_entry [OF assms, of "fst jt" 1 outs]] assms(2-4), of "fst jt" "-1" ins]
  show ?thesis by (simp add: incidence_column_def cl effect_def classifyArcs_places [OF cl])
qed

lemma fold_incidence:
  assumes "mat_dims A (length P) n" and "distinct P" and "i < length P" and "j < n" and "distinct (map fst jts)"
  shows "mat_dims (fold (incidence_column net P) jts A) (length P) n \<and>
    entry (fold (incidence_column net P) jts A) i j =
      entry A i j + (case map_of jts j of None \<Rightarrow> 0 | Some t \<Rightarrow> effect net t (P ! i))"
  using assms(1,5)
proof (induction jts arbitrary: A)
  case (Cons x jts)
  note step = entry_incidence_column [OF Cons.prems(1) assms(2-4), of net x]
  from Cons.IH [OF conjunct1 [OF step]] Cons.prems(2) step show ?case
    by (auto simp: map_of_eq_None_iff split: option.splits intro: rev_image_eqI)
qed simp

lemma map_of_enumerate: "j < length xs \<Longrightarrow> map_of (enumerate 0 xs) j = Some (xs ! j)"
  by (intro map_of_is_SomeI) (auto simp: in_set_enumerate_eq)

lemma incidenceMatrix_entry:
  assumes "distinct (place_ids net)" and "i < length (places net)" and "j < length (transitions net)"
  shows "entry (incidenceMatrix net) i j = effect net (nt_id (transitions net ! j)) (np_id (places net ! i))"
proof -
  let ?P = "map np_id (places net)" and ?ts = "map nt_id (transitions net)"
  let ?Z = "map (\<lambda>_. map (\<lambda>_. 0) ?ts) ?P :: row list"
  have z: "mat_dims ?Z (length ?P) (length ?ts)" by (auto simp: mat_dims_def)
  have "entry ?Z i j = 0" using assms by (simp add: row_get_def)
  with fold_incidence [OF z, of i j "enumerate 0 ?ts" net] assms show ?thesis
    by (simp add: incidenceMatrix_def Let_def place_ids_def map_of_enumerate)
qed

lemma incidenceMatrix_dims:
  "mat_dims (incidenceMatrix net) (length (places net)) (length (transitions net))"
proof -
  have step: "mat_dims (incidence_column net P jt A) (length P) n" if "mat_dims A (length P) n" for P jt A n
  proof -
    have f: "mat_dims (fold (add_entry P j d) as A) (length P) n" if "mat_dims A (length P) n" for j d as A
      using that by (induction as arbitrary: A) (auto simp: add_entry_dims)
    show ?thesis using that by (auto simp: incidence_column_def f split: sum.splits)
  qed
  have "mat_dims (fold (incidence_column net P) jts A) (length P) n" if "mat_dims A (length P) n" for P jts A n
    using that by (induction jts arbitrary: A) (auto simp: step)
  from this [of "map (\<lambda>_. map (\<lambda>_. 0) (map nt_id (transitions net))) (map np_id (places net))"
      "map np_id (places net)" "length (transitions net)"]
  show ?thesis by (simp add: incidenceMatrix_def Let_def mat_dims_def)
qed

section \<open>Rows stay non-negative and of full length\<close>

definition good_row :: "nat \<Rightarrow> row \<Rightarrow> bool" where
  "good_row m r \<longleftrightarrow> length r = m \<and> (\<forall>w\<in>set r. 0 \<le> w)"

lemma good_row_get: "good_row m r \<Longrightarrow> 0 \<le> row_get r k"
  by (auto simp: good_row_def row_get_def)

lemma good_seed: "r \<in> set (seedIdentity m) \<Longrightarrow> good_row m r"
  by (auto simp: seedIdentity_def good_row_def dest!: set_update_subset_insert [THEN subsetD])

lemma set_partition:
  "partitionBySign signed = (ps, ns, zs) \<Longrightarrow>
    set ps = {i. i < length signed \<and> signed ! i > 0} \<and>
    set ns = {i. i < length signed \<and> signed ! i < 0} \<and>
    set zs = {i. i < length signed \<and> signed ! i = 0}"
  by (auto simp: partitionBySign_def)

lemma combineOppositeSigned_set:
  "combineOppositeSigned B signed ps ns m =
     (map (\<lambda>(p, n). combine_rows B signed m p n) (List.product ps ns),
      snd (combineOppositeSigned B signed ps ns m)) \<and>
   set (snd (combineOppositeSigned B signed ps ns m)) \<subseteq> set ps \<union> set ns"
proof -
  let ?f = "\<lambda>(pos, neg) (combined, used).
         (combined @ [combine_rows B signed m pos neg], set_add neg (set_add pos used))"
  have "fst (fold ?f xs acc) = fst acc @ map (\<lambda>(p, n). combine_rows B signed m p n) xs \<and>
      set (snd (fold ?f xs acc)) \<subseteq> set (snd acc) \<union> fst ` set xs \<union> snd ` set xs" for xs acc
  proof (induction xs arbitrary: acc)
    case (Cons x xs)
    obtain p n where x: "x = (p, n)" by (cases x)
    obtain c u where acc: "acc = (c, u)" by (cases acc)
    from Cons.IH [of "?f x acc"] show ?case unfolding x acc by auto
  qed simp
  from this [of "List.product ps ns" "([], [])"]
  have "fst (combineOppositeSigned B signed ps ns m) =
      map (\<lambda>(p, n). combine_rows B signed m p n) (List.product ps ns)"
    and "set (snd (combineOppositeSigned B signed ps ns m)) \<subseteq> fst ` (set ps \<times> set ns) \<union> snd ` (set ps \<times> set ns)"
    unfolding combineOppositeSigned_def by simp_all
  moreover from this(2) have "set (snd (combineOppositeSigned B signed ps ns m)) \<subseteq> set ps \<union> set ns"
    by (rule order_trans) auto
  ultimately show ?thesis by (simp only: prod_eq_iff fst_conv snd_conv)
qed

lemma reduceRows_subset: "set (reduceRows rows) \<subseteq> set rows"
proof -
  let ?f = "\<lambda>row result. if list_ex (\<lambda>kept. isScalarMultiple row kept) result then result
         else filter (\<lambda>kept. \<not> isScalarMultiple kept row) result @ [row]"
  have "set (fold ?f rows acc) \<subseteq> set rows \<union> set acc" for acc
  proof (induction rows arbitrary: acc)
    case (Cons r rows)
    from Cons.IH [of "?f r acc"] show ?case by (auto split: if_splits)
  qed simp
  from this [of "[]"] show ?thesis by (simp add: reduceRows_def)
qed

text \<open>The rows after one column: the balanced rows, and with opposite signs the combinations.\<close>

definition next_rows :: "row list \<Rightarrow> nat \<Rightarrow> nat \<Rightarrow> row list \<Rightarrow> row set" where
  "next_rows A m j B =
     {r \<in> set B. dotColumn r A j = 0} \<union>
     {map (\<lambda>k. row_get p k * \<bar>dotColumn n A j\<bar> + row_get n k * \<bar>dotColumn p A j\<bar>) [0..<m] | p n.
        p \<in> set B \<and> n \<in> set B \<and> dotColumn p A j > 0 \<and> dotColumn n A j < 0}"

lemma combine_rows_signed:
  assumes "p < length B" and "n < length B"
  shows "combine_rows B (map (\<lambda>row. dotColumn row A j) B) m p n =
    map (\<lambda>k. row_get (B ! p) k * \<bar>dotColumn (B ! n) A j\<bar> + row_get (B ! n) k * \<bar>dotColumn (B ! p) A j\<bar>) [0..<m]"
  using assms by (simp add: combine_rows_def)

lemma eliminate_column_rows:
  "\<exists>rows. set rows = next_rows A m j B \<and>
     (eliminate_column A m j B = rows \<or> eliminate_column A m j B = reduceRows rows)"
proof -
  let ?s = "map (\<lambda>row. dotColumn row A j) B"
  obtain ps ns zs where part: "partitionBySign ?s = (ps, ns, zs)" by (cases "partitionBySign ?s")
  note sets = set_partition [OF part]
  have z: "(!) B ` set zs = {r \<in> set B. dotColumn r A j = 0}"
    using sets by (auto simp: in_set_conv_nth)
  show ?thesis
  proof (cases "ps = [] \<or> ns = []")
    case True
    then have "\<not> (\<exists>p\<in>set B. dotColumn p A j > 0) \<or> \<not> (\<exists>n\<in>set B. dotColumn n A j < 0)"
      using sets by (fastforce simp: in_set_conv_nth)
    then have "set (map ((!) B) zs) = next_rows A m j B" using z by (auto simp: next_rows_def)
    moreover have "eliminate_column A m j B = map ((!) B) zs"
      using True by (auto simp: eliminate_column_def part Let_def)
    ultimately show ?thesis by blast
  next
    case False
    obtain used where comb: "combineOppositeSigned B ?s ps ns m =
        (map (\<lambda>(p, n). combine_rows B ?s m p n) (List.product ps ns), used)" and "set used \<subseteq> set ps \<union> set ns"
      using combineOppositeSigned_set by blast
    then have "filter (\<lambda>i. i \<notin> set used) zs = zs"
      using sets by (intro filter_True) fastforce
    with False have el: "eliminate_column A m j B =
        reduceRows (map ((!) B) zs @ map (\<lambda>(p, n). combine_rows B ?s m p n) (List.product ps ns))"
      by (simp add: eliminate_column_def part Let_def comb keepUnusedZeros_def)
    have pos: "set ps = {i. i < length B \<and> dotColumn (B ! i) A j > 0}"
      and neg: "set ns = {i. i < length B \<and> dotColumn (B ! i) A j < 0}"
      using sets by auto
    have "(\<lambda>(p, n). combine_rows B ?s m p n) ` (set ps \<times> set ns) =
      {map (\<lambda>k. row_get p k * \<bar>dotColumn n A j\<bar> + row_get n k * \<bar>dotColumn p A j\<bar>) [0..<m] | p n.
        p \<in> set B \<and> n \<in> set B \<and> dotColumn p A j > 0 \<and> dotColumn n A j < 0}" (is "?L = ?R")
    proof
      show "?L \<subseteq> ?R"
      proof
        fix r assume "r \<in> ?L"
        then obtain p n where pn: "p \<in> set ps" "n \<in> set ns" "r = combine_rows B ?s m p n" by auto
        then have "p < length B" "n < length B" "dotColumn (B ! p) A j > 0" "dotColumn (B ! n) A j < 0"
          using pos neg by auto
        with pn(3) combine_rows_signed [of p B n A j m] show "r \<in> ?R"
          by (intro CollectI exI [of _ "B ! p"] exI [of _ "B ! n"]) simp
      qed
      show "?R \<subseteq> ?L"
      proof
        fix r assume "r \<in> ?R"
        then obtain p n where pn: "p < length B" "n < length B" "dotColumn (B ! p) A j > 0" "dotColumn (B ! n) A j < 0"
          "r = map (\<lambda>k. row_get (B ! p) k * \<bar>dotColumn (B ! n) A j\<bar> + row_get (B ! n) k * \<bar>dotColumn (B ! p) A j\<bar>) [0..<m]"
          by (elim CollectE exE conjE) (auto simp only: in_set_conv_nth)
        then have "(p, n) \<in> set ps \<times> set ns" "r = combine_rows B ?s m p n"
          using pos neg combine_rows_signed [of p B n A j m] by simp_all
        then show "r \<in> ?L" by (intro image_eqI [of _ _ "(p, n)"]) simp_all
      qed
    qed
    with z have "set (map ((!) B) zs @ map (\<lambda>(p, n). combine_rows B ?s m p n) (List.product ps ns))
        = next_rows A m j B"
      by (simp add: next_rows_def)
    with el show ?thesis by blast
  qed
qed

lemma good_next_rows:
  assumes "\<forall>r\<in>set B. good_row m r" and "r \<in> next_rows A m j B"
  shows "good_row m r"
proof -
  from assms(2) consider "r \<in> set B" | p n where "p \<in> set B" "n \<in> set B"
    "r = map (\<lambda>k. row_get p k * \<bar>dotColumn n A j\<bar> + row_get n k * \<bar>dotColumn p A j\<bar>) [0..<m]"
    unfolding next_rows_def by blast
  then show ?thesis
  proof cases
    case (2 p n)
    with assms(1) have "good_row m p" "good_row m n" by auto
    with 2(3) show ?thesis unfolding good_row_def [of m r] by (auto simp: good_row_get)
  qed (use assms in blast)
qed

lemma good_eliminate_column:
  assumes "\<forall>r\<in>set B. good_row m r"
  shows "\<forall>r\<in>set (eliminate_column A m j B). good_row m r"
proof -
  obtain rows where "set rows = next_rows A m j B"
    and "eliminate_column A m j B = rows \<or> eliminate_column A m j B = reduceRows rows"
    using eliminate_column_rows by blast
  then have "set (eliminate_column A m j B) \<subseteq> next_rows A m j B" using reduceRows_subset [of rows] by auto
  then show ?thesis using good_next_rows [OF assms] by blast
qed

lemma good_eliminate:
  assumes "r \<in> set (eliminate A m)"
  shows "good_row m r"
proof -
  have "\<forall>r\<in>set (fold (eliminate_column A m) js B). good_row m r" if "\<forall>r\<in>set B. good_row m r" for js B
    using that
  proof (induction js arbitrary: B)
    case (Cons j js)
    from Cons.IH [OF good_eliminate_column [OF Cons.prems]] show ?case by simp
  qed simp
  then show ?thesis using assms good_seed unfolding eliminate_def by blast
qed

section \<open>Weights of an invariant\<close>

definition weight_of :: "(string \<times> int) list \<Rightarrow> string \<Rightarrow> int" where
  "weight_of es p = (case map_of es p of None \<Rightarrow> 0 | Some w \<Rightarrow> w)"

definition weighted_tokens :: "(string \<times> int) list \<Rightarrow> marking \<Rightarrow> int" where
  "weighted_tokens es m = (\<Sum>(p, w)\<leftarrow>es. w * tokensAt m p)"

lemma sum_filter_positive:
  fixes f :: "'a \<Rightarrow> int" and w :: "'a \<Rightarrow> int"
  assumes "\<And>x. x \<in> set xs \<Longrightarrow> 0 \<le> w x"
  shows "(\<Sum>x\<leftarrow>filter (\<lambda>x. w x > 0) xs. w x * f x) = (\<Sum>x\<leftarrow>xs. w x * f x)"
  using assms by (induction xs) (auto simp: order.order_iff_strict)

lemma positive_entries_alt:
  "positive_entries n ids row =
    map (\<lambda>i. (ids ! i, row_get row i)) (filter (\<lambda>i. row_get row i > 0) [0..<n])"
  by (simp add: positive_entries_def filter_map o_def)

lemma sum_positive_entries:
  assumes "good_row m row"
  shows "(\<Sum>(p, w)\<leftarrow>positive_entries n ids row. w * f p) = (\<Sum>i\<leftarrow>[0..<n]. row_get row i * f (ids ! i))"
  using sum_filter_positive [of "[0..<n]" "row_get row" "\<lambda>i. f (ids ! i)"] good_row_get [OF assms]
  by (simp add: positive_entries_alt o_def)

lemma weight_positive_entries:
  assumes "distinct ids" and "n = length ids" and "good_row m row" and "k < n"
  shows "weight_of (positive_entries n ids row) (ids ! k) = row_get row k"
proof (cases "row_get row k > 0")
  case True
  have "distinct (map fst (positive_entries n ids row))"
    using assms(1,2) by (auto simp: positive_entries_alt o_def distinct_map inj_on_def nth_eq_iff_index_eq)
  moreover have "(ids ! k, row_get row k) \<in> set (positive_entries n ids row)"
    using True assms(4) by (auto simp: positive_entries_alt)
  ultimately show ?thesis by (simp add: weight_of_def)
next
  case False
  then have "row_get row k = 0" using good_row_get [OF assms(3), of k] by simp
  moreover have "ids ! k \<notin> fst ` set (positive_entries n ids row)"
    using False assms by (auto simp: positive_entries_alt nth_eq_iff_index_eq)
  ultimately show ?thesis by (simp add: weight_of_def map_of_eq_None_iff [THEN iffD2])
qed

lemma dedup_loop_subset: "set (dedup_loop sig seen xs) \<subseteq> set xs"
  by (induction xs arbitrary: seen) auto

lemma dedup_loop_sigs: "x \<in> set xs \<Longrightarrow> sig x \<in> set seen \<or> sig x \<in> sig ` set (dedup_loop sig seen xs)"
proof (induction xs arbitrary: seen)
  case (Cons a xs)
  then show ?case
    using Cons.IH [of seen] Cons.IH [of "set_add (sig a) seen"] by (cases "x = a") auto
qed simp

lemma rowIsInvariant_iff:
  "mat_dims A m n \<Longrightarrow> 0 < m \<Longrightarrow> rowIsInvariant row A \<longleftrightarrow> (\<forall>j<n. dotColumn row A j = 0)"
  by (cases A) (auto simp: rowIsInvariant_def columns_def mat_dims_def list_all_iff)

text \<open>What a returned place invariant comes from.\<close>

lemma placeInvariants_row:
  assumes "iv \<in> set (placeInvariants lc net)"
  obtains row where "row \<in> set (eliminate (incidenceMatrix net) (length (places net)))"
    "good_row (length (places net)) row"
    "pi_places iv = positive_entries (length (places net)) (place_ids net) row"
    "\<forall>j<length (transitions net). dotColumn row (incidenceMatrix net) j = 0"
proof -
  from assms have ne: "0 < length (places net)"
    by (auto simp: placeInvariants_def Let_def)
  with assms dedup_loop_subset obtain row where
    "row \<in> set (eliminate (incidenceMatrix net) (length (places net)))"
    "rowIsInvariant row (incidenceMatrix net)"
    "rowToInvariant row (map np_id (places net)) (new_Map (map (\<lambda>p. (np_id p, np_name p)) (places net))) = Some iv"
    by (fastforce simp: placeInvariants_def Let_def dedupInvariants_def map_filter_def)
  with that [of row] good_eliminate rowIsInvariant_iff [OF incidenceMatrix_dims ne] show thesis
    by (auto simp: rowToInvariant_def Let_def place_ids_def split: if_splits)
qed

lemma transitionInvariants_row:
  assumes "iv \<in> set (transitionInvariants lc net)"
  obtains row where "good_row (length (transitions net)) row"
    "ti_transitions iv = positive_entries (length (transitions net)) (map nt_id (transitions net)) row"
    "rowIsInvariant row (transpose_matrix (incidenceMatrix net) (length (transitions net)))"
proof -
  from assms dedup_loop_subset obtain row where
    r: "row \<in> set (eliminate (transpose_matrix (incidenceMatrix net) (length (transitions net))) (length (transitions net)))"
    "rowIsInvariant row (transpose_matrix (incidenceMatrix net) (length (transitions net)))"
    "rowToTransitionInvariant row (map nt_id (transitions net))
       (new_Map (map (\<lambda>t. (nt_id t, nt_name t)) (transitions net))) = Some iv"
    by (fastforce simp: transitionInvariants_def Let_def dedupTransitionInvariants_def map_filter_def split: if_splits)
  have g: "good_row (length (transitions net)) row" using r(1) by (rule good_eliminate)
  then have "length row = length (transitions net)" by (simp add: good_row_def)
  with that [OF g] r show thesis
    by (auto simp: rowToTransitionInvariant_def Let_def split: if_splits)
qed

section \<open>Balance\<close>

lemma dotColumn_effect:
  assumes "distinct (place_ids net)" and "j < length (transitions net)"
  shows "dotColumn row (incidenceMatrix net) j =
    (\<Sum>i\<leftarrow>[0..<length (places net)]. row_get row i * effect net (nt_id (transitions net ! j)) (place_ids net ! i))"
proof -
  have "length (incidenceMatrix net) = length (places net)"
    using incidenceMatrix_dims by (simp add: mat_dims_def)
  with assms show ?thesis
    unfolding dotColumn_def
    by (intro arg_cong [of _ _ sum_list] map_cong) (auto simp: incidenceMatrix_entry place_ids_def)
qed

lemma placeInvariants_balance:
  assumes "distinct (place_ids net)" and "iv \<in> set (placeInvariants lc net)" and "t \<in> nt_id ` set (transitions net)"
  shows "(\<Sum>(p, w)\<leftarrow>pi_places iv. w * effect net t p) = 0"
proof -
  from assms(3) obtain j where j: "j < length (transitions net)" "t = nt_id (transitions net ! j)"
    by (auto simp: in_set_conv_nth)
  from assms(2) obtain row where row: "good_row (length (places net)) row"
    "pi_places iv = positive_entries (length (places net)) (place_ids net) row"
    "\<forall>j<length (transitions net). dotColumn row (incidenceMatrix net) j = 0"
    by (rule placeInvariants_row)
  with dotColumn_effect [OF assms(1) j(1), of row] j show ?thesis
    by (simp add: sum_positive_entries [OF row(1)])
qed

lemma effect_enabled:
  "isEnabled net m t \<Longrightarrow> effect net t p = int (count_list (out_places net t) p) - int (count_list (in_places net t) p)"
  by (simp add: effect_def isEnabled_iff)

lemma sum_list_case_prod: "(\<Sum>(p, w)\<leftarrow>es. f p w) = (\<Sum>x\<leftarrow>es. f (fst x) (snd x))"
  by (simp add: case_prod_unfold)

section \<open>Conservation along firings and runs\<close>

text \<open>Nets without duplicate places and without parallel input arcs.\<close>

definition simple_net :: "petri_net \<Rightarrow> bool" where
  "simple_net net \<longleftrightarrow>
     distinct (place_ids net) \<and> list_all (\<lambda>t. distinct (in_places net (nt_id t))) (transitions net)"

definition nonneg_marking :: "marking \<Rightarrow> bool" where
  "nonneg_marking m \<longleftrightarrow> list_all (\<lambda>(_, c). 0 \<le> c) m"

lemma nonneg_tokens: "nonneg_marking m \<Longrightarrow> 0 \<le> tokensAt m p"
  by (fastforce simp: nonneg_marking_def tokensAt_def list_all_iff split: option.splits dest: map_get_mem)

lemma isEnabled_mem: "isEnabled net m t \<Longrightarrow> t \<in> nt_id ` set (transitions net)"
  by (simp add: isEnabled_iff)

lemma simple_net_distinct: "simple_net net \<Longrightarrow> isEnabled net m t \<Longrightarrow> distinct (in_places net t)"
  by (auto simp: simple_net_def list_all_iff isEnabled_iff)

lemma weighted_tokens_fst_snd: "weighted_tokens es m = (\<Sum>x\<leftarrow>es. snd x * tokensAt m (fst x))"
  by (simp add: weighted_tokens_def case_prod_unfold)

lemma weighted_tokens_change:
  assumes "\<And>p. tokensAt m' p = tokensAt m p + d p"
  shows "weighted_tokens es m' = weighted_tokens es m + (\<Sum>(p, w)\<leftarrow>es. w * d p)"
  by (simp add: weighted_tokens_def case_prod_unfold assms distrib_left sum_list_addf)

text \<open>The state equation of each engine.\<close>

lemma fire_state_equation:
  assumes "simple_net net" and "\<And>q. 0 \<le> tokensAt m q" and "isEnabled net m t"
  shows "tokensAt (fr_marking (fire net m t b)) p = tokensAt m p + effect net t p"
proof -
  have "\<And>q. q \<in> set (in_places net t) \<Longrightarrow> 1 \<le> tokensAt m q" using assms(3) by (simp add: isEnabled_iff)
  from firing.taken_distinct [OF simple_net_distinct [OF assms(1,3)] assms(2) this]
  show ?thesis
    unfolding fire_ok_marking [OF assms(3)] firing.count_after effect_enabled [OF assms(3)] by simp
qed

lemma search_state_equation:
  assumes "simple_net net" and "\<And>q. 0 \<le> tokensAt m q" and "e \<in> set (enabledTransitions net m)"
  shows "tokensAt (applyEnabled m e) p = tokensAt m p + effect net (nt_id (en_transition e)) p"
    and "0 \<le> tokensAt (applyEnabled m e) p"
proof -
  note en = enabled_mem_isEnabled [OF assms(3)]
  have "\<And>q. q \<in> set (in_places net (nt_id (en_transition e))) \<Longrightarrow> 1 \<le> tokensAt m q"
    using en by (simp add: isEnabled_iff)
  from search.taken_distinct [OF simple_net_distinct [OF assms(1) en] assms(2) this]
  show "tokensAt (applyEnabled m e) p = tokensAt m p + effect net (nt_id (en_transition e)) p"
    unfolding applyEnabled_mem [OF assms(3)] search.count_after effect_enabled [OF en] by simp
  show "0 \<le> tokensAt (applyEnabled m e) p"
    unfolding applyEnabled_mem [OF assms(3)] using assms(2) by (rule search.nonneg)
qed

lemma run_state_equation:
  assumes "simple_net net"
  shows "trace_runs net m tr m' \<Longrightarrow> (\<And>q. 0 \<le> tokensAt m q) \<Longrightarrow>
    tokensAt m' p = tokensAt m p + (\<Sum>s\<leftarrow>tr. effect net (rs_firedTransition s) p)"
proof (induction tr arbitrary: m)
  case (Cons s tr)
  from Cons.prems(1) obtain e where e: "e \<in> set (enabledTransitions net m)"
    "nt_id (en_transition e) = rs_firedTransition s" "trace_runs net (applyEnabled m e) tr m'" by auto
  from Cons.IH [OF e(3) search_state_equation(2) [OF assms Cons.prems(2) e(1)]]
    search_state_equation(1) [OF assms Cons.prems(2) e(1), of p] e(2)
  show ?case by simp
qed simp

lemma run_transitions:
  "trace_runs net m tr m' \<Longrightarrow> s \<in> set tr \<Longrightarrow> rs_firedTransition s \<in> nt_id ` set (transitions net)"
proof (induction tr arbitrary: m)
  case (Cons a tr)
  then obtain e where "e \<in> set (enabledTransitions net m)" "nt_id (en_transition e) = rs_firedTransition a"
    "trace_runs net (applyEnabled m e) tr m'" by auto
  with Cons show ?case using isEnabled_mem [OF enabled_mem_isEnabled] by force
qed simp

lemma sum_by_count:
  fixes f :: "'a \<Rightarrow> int"
  assumes "distinct ts" and "set xs \<subseteq> set ts"
  shows "(\<Sum>x\<leftarrow>xs. f x) = (\<Sum>t\<leftarrow>ts. int (count_list xs t) * f t)"
  using assms(2)
proof (induction xs)
  case (Cons x xs)
  have "(\<Sum>t\<leftarrow>ts. int (count_list (x # xs) t) * f t) =
      (\<Sum>t\<leftarrow>ts. int (count_list xs t) * f t + (if t = x then f x else 0))"
    by (intro arg_cong [of _ _ sum_list] map_cong) (auto simp: algebra_simps)
  also have "\<dots> = (\<Sum>t\<leftarrow>ts. int (count_list xs t) * f t) + (\<Sum>t\<leftarrow>ts. if t = x then f x else 0)"
    by (simp add: sum_list_addf)
  also have "(\<Sum>t\<leftarrow>ts. if t = x then f x else 0) = f x"
    using assms(1) Cons.prems by (simp add: sum_list_distinct_conv_sum_set)
  finally show ?case using Cons by simp
qed simp

lemma transition_row_balance:
  assumes "distinct (place_ids net)" and "i < length (places net)" and "0 < length (transitions net)"
    and "rowIsInvariant row (transpose_matrix (incidenceMatrix net) (length (transitions net)))"
  shows "(\<Sum>j\<leftarrow>[0..<length (transitions net)].
      row_get row j * effect net (nt_id (transitions net ! j)) (place_ids net ! i)) = 0"
proof -
  let ?A = "incidenceMatrix net" and ?n = "length (transitions net)"
  have dims: "length ?A = length (places net)" using incidenceMatrix_dims by (simp add: mat_dims_def)
  have t: "mat_dims (transpose_matrix ?A ?n) ?n (length (places net))"
    by (auto simp: mat_dims_def transpose_matrix_def dims)
  from rowIsInvariant_iff [OF t assms(3)] assms(2,4)
  have "dotColumn row (transpose_matrix ?A ?n) i = 0" by simp
  moreover have "dotColumn row (transpose_matrix ?A ?n) i =
      (\<Sum>j\<leftarrow>[0..<?n]. row_get row j * effect net (nt_id (transitions net ! j)) (place_ids net ! i))"
    unfolding dotColumn_def using assms(1,2) dims
    by (intro arg_cong [of _ _ sum_list] map_cong)
       (auto simp: transpose_matrix_def row_get_def [of "map _ _"] incidenceMatrix_entry place_ids_def)
  ultimately show ?thesis by simp
qed

lemma effect_not_place: "p \<notin> set (place_ids net) \<Longrightarrow> effect net t p = 0"
proof -
  assume "p \<notin> set (place_ids net)"
  then have "p \<notin> set (in_places net t)" "p \<notin> set (out_places net t)"
    by (auto simp: in_places_def out_places_def)
  then show ?thesis by (simp add: effect_def count_notin)
qed

end
