(* ===== verification/Petri_Basis.thy ===== *)
theory Petri_Basis
  imports Petri_Conservation
begin

text \<open>
  Completeness of the invariant computation: every non-negative weighting that balances all
  transitions is a non-negative rational combination of the invariants the code returns.
  The elimination keeps the cone of its rows intersected with the columns processed so far
  (\<open>cone_next_rows\<close>); dropping multiples and duplicates keeps the cone.
\<close>

section \<open>Cones\<close>

type_synonym vec = "nat \<Rightarrow> rat"

inductive_set cone :: "vec set \<Rightarrow> vec set" for R :: "vec set" where
  cone_zero: "(\<lambda>_. 0) \<in> cone R"
| cone_step: "x \<in> cone R \<Longrightarrow> r \<in> R \<Longrightarrow> 0 \<le> l \<Longrightarrow> (\<lambda>k. x k + l * r k) \<in> cone R"

inductive_cases cone_emptyE: "x \<in> cone {}"

lemma cone_mono: "x \<in> cone R \<Longrightarrow> R \<subseteq> S \<Longrightarrow> x \<in> cone S"
  by (induction rule: cone.induct) (auto intro: cone.intros)

lemma cone_gen: "r \<in> R \<Longrightarrow> 0 \<le> l \<Longrightarrow> (\<lambda>k. l * r k) \<in> cone R"
  using cone_step [OF cone_zero] by fastforce

lemma cone_add: "y \<in> cone R \<Longrightarrow> x \<in> cone R \<Longrightarrow> (\<lambda>k. x k + y k) \<in> cone R"
proof (induction rule: cone.induct)
  case (cone_step y r l)
  from cone.cone_step [OF cone_step.IH [OF cone_step.prems] cone_step.hyps(2,3)]
  show ?case by (simp add: add.assoc)
qed simp

lemma cone_scale: "x \<in> cone R \<Longrightarrow> 0 \<le> c \<Longrightarrow> (\<lambda>k. c * x k) \<in> cone R"
proof (induction rule: cone.induct)
  case (cone_step x r l)
  from cone.cone_step [OF cone_step.IH [OF cone_step.prems] cone_step.hyps(2), of "c * l"]
  show ?case using cone_step.hyps(3) cone_step.prems by (simp add: algebra_simps)
qed (simp add: cone_zero)

lemma cone_sum:
  "finite I \<Longrightarrow> (\<And>i. i \<in> I \<Longrightarrow> f i \<in> cone R) \<Longrightarrow> (\<lambda>k. \<Sum>i\<in>I. f i k) \<in> cone R"
proof (induction rule: finite_induct)
  case (insert i I)
  then have "(\<lambda>k. (\<Sum>i\<in>I. f i k) + f i k) \<in> cone R"
    by (intro cone_add) auto
  with insert show ?case by (simp add: add.commute)
qed (simp add: cone_zero)

lemma cone_subst: "x \<in> cone R \<Longrightarrow> (\<And>r. r \<in> R \<Longrightarrow> r \<in> cone S) \<Longrightarrow> x \<in> cone S"
proof (induction rule: cone.induct)
  case (cone_step x r l)
  then have "x \<in> cone S" "(\<lambda>k. l * r k) \<in> cone S" by (auto intro: cone_scale)
  then show ?case by (intro cone_add)
qed (rule cone_zero)

lemma cone_coefficients:
  assumes "finite I" and "x \<in> cone (g ` I)"
  shows "\<exists>f. (\<forall>i. 0 \<le> f i) \<and> (\<forall>k. x k = (\<Sum>i\<in>I. f i * g i k))"
  using assms(2)
proof (induction rule: cone.induct)
  case cone_zero
  show ?case by (intro exI [of _ "\<lambda>_. 0"]) simp
next
  case (cone_step x r l)
  then obtain f j where f: "\<forall>i. 0 \<le> f i" "\<forall>k. x k = (\<Sum>i\<in>I. f i * g i k)" "j \<in> I" "r = g j" by blast
  have "(\<Sum>i\<in>I. (f(j := f j + l)) i * g i k) = (\<Sum>i\<in>I. f i * g i k + (if i = j then l * g j k else 0))" for k
    by (intro sum.cong) (auto simp: algebra_simps)
  then have "(\<Sum>i\<in>I. (f(j := f j + l)) i * g i k) = x k + l * r k" for k
    using assms(1) f by (simp add: sum.distrib)
  with f(1) cone_step.hyps(3) show ?case
    by (intro exI [of _ "f(j := f j + l)"]) auto
qed

text \<open>
  The elimination step on vectors: a vector of the cone on which a linear form vanishes is in
  the cone of the generators with value zero and of the balanced pairs of generators.
\<close>

definition pair_vec :: "(vec \<Rightarrow> rat) \<Rightarrow> vec \<Rightarrow> vec \<Rightarrow> vec" where
  "pair_vec c p n = (\<lambda>k. p k * \<bar>c n\<bar> + n k * \<bar>c p\<bar>)"

lemma cone_balanced:
  assumes fin: "finite R" and x: "x \<in> cone R" and cx: "c x = 0"
    and lin: "\<And>f y. (\<forall>k. y k = (\<Sum>r\<in>R. f r * r k)) \<Longrightarrow> c y = (\<Sum>r\<in>R. f r * c r)"
  shows "x \<in> cone ({r \<in> R. c r = 0} \<union> {pair_vec c p n | p n. p \<in> R \<and> n \<in> R \<and> c p > 0 \<and> c n < 0})"
    (is "x \<in> cone ?S")
proof -
  obtain f where f: "\<And>r. 0 \<le> f r" "\<And>k. x k = (\<Sum>r\<in>R. f r * r k)"
    using cone_coefficients [OF fin, of x "\<lambda>r. r"] x by auto
  define P N Z where "P = {r \<in> R. c r > 0}" and "N = {r \<in> R. c r < 0}" and "Z = {r \<in> R. c r = 0}"
  have fins: "finite P" "finite N" "finite Z" using fin by (auto simp: P_def N_def Z_def)
  have R: "R = P \<union> N \<union> Z" and disj: "P \<inter> N = {}" "(P \<union> N) \<inter> Z = {}" by (auto simp: P_def N_def Z_def)
  have split: "(\<Sum>r\<in>R. g r) = (\<Sum>r\<in>P. g r) + (\<Sum>r\<in>N. g r) + (\<Sum>r\<in>Z. g r)" for g :: "vec \<Rightarrow> rat"
    unfolding R using fins disj by (simp add: sum.union_disjoint)
  define S where "S = (\<Sum>p\<in>P. f p * c p)"
  have "(\<Sum>r\<in>R. f r * c r) = 0" using lin [of x f] f(2) cx by simp
  moreover have neg: "(\<Sum>n\<in>N. f n * \<bar>c n\<bar>) = (\<Sum>n\<in>N. - (f n * c n))"
    by (intro sum.cong) (auto simp: N_def)
  moreover have "(\<Sum>r\<in>Z. f r * c r) = 0" by (simp add: Z_def)
  ultimately have SN: "(\<Sum>n\<in>N. f n * \<bar>c n\<bar>) = S"
    unfolding split S_def neg by (simp add: sum_negf)
  have z: "(\<lambda>k. \<Sum>r\<in>Z. f r * r k) \<in> cone ?S"
    using fins f(1) by (intro cone_sum cone_gen) (auto simp: Z_def)
  show ?thesis
  proof (cases "S = 0")
    case True
    have "\<forall>p\<in>P. f p * c p = 0"
      using True f(1) fins unfolding S_def by (subst (asm) sum_nonneg_eq_0_iff) (auto simp: P_def)
    then have "\<forall>p\<in>P. f p = 0" by (auto simp: P_def)
    moreover have "\<forall>n\<in>N. f n * \<bar>c n\<bar> = 0"
      using SN True f(1) fins sum_nonneg_eq_0_iff [of N "\<lambda>n. f n * \<bar>c n\<bar>"] by simp
    then have "\<forall>n\<in>N. f n = 0" by (auto simp: N_def)
    ultimately have "x k = (\<Sum>r\<in>Z. f r * r k)" for k unfolding f(2) split by simp
    then have "x = (\<lambda>k. \<Sum>r\<in>Z. f r * r k)" by blast
    with z show ?thesis by simp
  next
    case False
    have "S \<ge> 0" unfolding S_def using f(1) by (intro sum_nonneg) (auto simp: P_def)
    have pn: "(\<lambda>k. \<Sum>p\<in>P. \<Sum>n\<in>N. (f p * f n / S) * pair_vec c p n k) \<in> cone ?S"
      using fins f(1) \<open>S \<ge> 0\<close> by (intro cone_sum cone_gen) (auto simp: P_def N_def)
    have "(\<Sum>p\<in>P. \<Sum>n\<in>N. (f p * f n / S) * pair_vec c p n k)
        = (\<Sum>r\<in>P. f r * r k) + (\<Sum>r\<in>N. f r * r k)" for k
    proof -
      have "(\<Sum>p\<in>P. \<Sum>n\<in>N. (f p * f n / S) * pair_vec c p n k) =
          (\<Sum>p\<in>P. \<Sum>n\<in>N. (f p * p k / S) * (f n * \<bar>c n\<bar>)) + (\<Sum>p\<in>P. \<Sum>n\<in>N. (f p * c p) * (f n * n k / S))"
        unfolding sum.distrib [symmetric]
        by (intro sum.cong refl) (auto simp: pair_vec_def P_def algebra_simps add_divide_distrib)
      also have "(\<Sum>p\<in>P. \<Sum>n\<in>N. (f p * p k / S) * (f n * \<bar>c n\<bar>)) = (\<Sum>p\<in>P. f p * p k)"
        unfolding sum_distrib_left [symmetric] SN using False by simp
      also have "(\<Sum>p\<in>P. \<Sum>n\<in>N. (f p * c p) * (f n * n k / S)) = (\<Sum>p\<in>P. f p * c p) * (\<Sum>n\<in>N. f n * n k / S)"
        by (simp add: sum_product)
      also have "\<dots> = (\<Sum>n\<in>N. f n * n k)"
        using False by (simp add: S_def [symmetric] sum_distrib_left)
      finally show ?thesis .
    qed
    then have "x = (\<lambda>k. (\<Sum>p\<in>P. \<Sum>n\<in>N. (f p * f n / S) * pair_vec c p n k) + (\<Sum>r\<in>Z. f r * r k))"
      unfolding f(2) split by simp
    with cone_add [OF z pn] show ?thesis by simp
  qed
qed

section \<open>Rows as vectors\<close>

definition vec_of :: "row \<Rightarrow> vec" where
  "vec_of r = (\<lambda>k. of_int (row_get r k))"

definition column_form :: "row list \<Rightarrow> nat \<Rightarrow> vec \<Rightarrow> rat" where
  "column_form A j y = (\<Sum>k<length A. y k * of_int (entry A k j))"

lemma dotColumn_sum: "dotColumn r A j = (\<Sum>k<length A. row_get r k * entry A k j)"
  by (simp add: dotColumn_def sum_list_sum_nth atLeast0LessThan)

lemma column_form_vec: "column_form A j (vec_of r) = of_int (dotColumn r A j)"
  by (simp add: column_form_def dotColumn_sum vec_of_def)

lemma column_form_linear:
  assumes "\<forall>k. y k = (\<Sum>r\<in>R. f r * r k)"
  shows "column_form A j y = (\<Sum>r\<in>R. f r * column_form A j r)"
proof -
  have "column_form A j y = (\<Sum>k<length A. \<Sum>r\<in>R. f r * (r k * of_int (entry A k j)))"
    by (simp add: column_form_def assms sum_distrib_right mult.assoc)
  also have "\<dots> = (\<Sum>r\<in>R. \<Sum>k<length A. f r * (r k * of_int (entry A k j)))"
    by (rule sum.swap)
  finally show ?thesis by (simp add: column_form_def sum_distrib_left)
qed

lemma pair_vec_rows:
  assumes "good_row m p" and "good_row m n"
  shows "pair_vec (column_form A j) (vec_of p) (vec_of n) =
    vec_of (map (\<lambda>k. row_get p k * \<bar>dotColumn n A j\<bar> + row_get n k * \<bar>dotColumn p A j\<bar>) [0..<m])"
  using assms unfolding pair_vec_def column_form_vec
  by (auto simp: fun_eq_iff vec_of_def row_get_def good_row_def)

lemma cone_next_rows:
  assumes "\<forall>r\<in>set B. good_row m r" and "x \<in> cone (vec_of ` set B)" and "column_form A j x = 0"
  shows "x \<in> cone (vec_of ` next_rows A m j B)"
proof -
  let ?c = "column_form A j"
  have "x \<in> cone ({r \<in> vec_of ` set B. ?c r = 0} \<union>
      {pair_vec ?c p n | p n. p \<in> vec_of ` set B \<and> n \<in> vec_of ` set B \<and> ?c p > 0 \<and> ?c n < 0})"
    using assms(2,3) column_form_linear by (intro cone_balanced) auto
  moreover have "{pair_vec ?c p n | p n. p \<in> vec_of ` set B \<and> n \<in> vec_of ` set B \<and> ?c p > 0 \<and> ?c n < 0}
      \<subseteq> vec_of ` next_rows A m j B"
  proof
    fix v assume "v \<in> {pair_vec ?c p n | p n. p \<in> vec_of ` set B \<and> n \<in> vec_of ` set B \<and> ?c p > 0 \<and> ?c n < 0}"
    then obtain p n where pn: "p \<in> set B" "n \<in> set B" "dotColumn p A j > 0" "dotColumn n A j < 0"
      "v = pair_vec ?c (vec_of p) (vec_of n)"
      by (auto simp: column_form_vec)
    then have "v = vec_of (map (\<lambda>k. row_get p k * \<bar>dotColumn n A j\<bar> + row_get n k * \<bar>dotColumn p A j\<bar>) [0..<m])"
      using assms(1) pair_vec_rows by blast
    with pn show "v \<in> vec_of ` next_rows A m j B" unfolding next_rows_def by blast
  qed
  moreover have "{r \<in> vec_of ` set B. ?c r = 0} \<subseteq> vec_of ` next_rows A m j B"
    by (auto simp: column_form_vec next_rows_def)
  ultimately show ?thesis by (blast intro: cone_mono)
qed

section \<open>Dropping multiples\<close>

lemma scalar_loop_multiple:
  "scalar_loop a b ratio \<Longrightarrow> length a = length b \<Longrightarrow> (\<forall>r. ratio = Some r \<longrightarrow> r > 0) \<Longrightarrow>
    \<exists>q>0. (\<forall>r. ratio = Some r \<longrightarrow> q = r) \<and> list_all2 (\<lambda>x y. x = q * y) a b"
proof (induction a b ratio rule: scalar_loop.induct)
  case (1 bs ratio)
  then show ?case by auto
next
  case (2 av as bs ratio)
  then obtain bv bs' where bs: "bs = bv # bs'" by (cases bs) auto
  show ?case
  proof (cases "av = 0 \<and> bv = 0")
    case True
    with 2 bs show ?thesis by (auto simp: row_get_def Let_def)
  next
    case False
    with "2.prems"(1) bs have d: "bv \<noteq> 0" "av \<noteq> 0" "av mod bv = 0" "av div bv > 0"
      by (auto simp: row_get_def Let_def split: if_splits)
    then have av: "av = (av div bv) * bv" by (metis mult_div_mod_eq add.right_neutral mult.commute)
    show ?thesis
    proof (cases ratio)
      case None
      with 2 bs False d have "\<exists>q>0. q = av div bv \<and> list_all2 (\<lambda>x y. x = q * y) as bs'"
        by (auto simp: row_get_def Let_def)
      with None bs av show ?thesis by auto
    next
      case (Some r)
      with 2 bs False d have "r = av div bv" "\<exists>q>0. q = r \<and> list_all2 (\<lambda>x y. x = q * y) as bs'"
        by (auto simp: row_get_def Let_def split: if_splits)
      with Some bs av show ?thesis by auto
    qed
  qed
qed

lemma isScalarMultiple_cone:
  assumes "isScalarMultiple a b" and "length a = length b" and "b \<in> S"
  shows "vec_of a \<in> cone (vec_of ` S)"
proof -
  from assms(1) have "scalar_loop a b None" by (auto simp: isScalarMultiple_def Let_def split: if_splits)
  from scalar_loop_multiple [OF this assms(2)] obtain q where
    q: "q > 0" "list_all2 (\<lambda>x y. x = q * y) a b" by auto
  then have "vec_of a = (\<lambda>k. of_int q * vec_of b k)"
    by (auto simp: vec_of_def row_get_def list_all2_conv_all_nth fun_eq_iff)
  moreover have "(\<lambda>k. of_int q * vec_of b k) \<in> cone (vec_of ` S)"
    using assms(3) q(1) by (intro cone_gen) auto
  ultimately show ?thesis by simp
qed

lemma cone_reduceRows:
  assumes "\<forall>r\<in>set rows. length r = m" and "r \<in> set rows"
  shows "vec_of r \<in> cone (vec_of ` set (reduceRows rows))"
proof -
  let ?f = "\<lambda>row result. if list_ex (\<lambda>kept. isScalarMultiple row kept) result then result
         else filter (\<lambda>kept. \<not> isScalarMultiple kept row) result @ [row]"
  have self: "vec_of r \<in> cone (vec_of ` S)" if "r \<in> S" for r S
    using cone_gen [of "vec_of r" "vec_of ` S" 1] that by simp
  have step: "vec_of r \<in> cone (vec_of ` set (?f row acc))"
    if "r \<in> insert row (set acc)" "\<forall>r\<in>insert row (set acc). length r = m" for r row acc
  proof (cases "list_ex (\<lambda>kept. isScalarMultiple row kept) acc")
    case True
    then obtain k where k: "k \<in> set acc" "isScalarMultiple row k" by (auto simp: list_ex_iff)
    from that(2) k(1) have "vec_of row \<in> cone (vec_of ` set acc)"
      by (intro isScalarMultiple_cone [OF k(2)]) auto
    with that(1) True show ?thesis using self [of r "set acc"] by (cases "r = row") simp_all
  next
    case False
    show ?thesis
    proof (cases "r = row \<or> \<not> isScalarMultiple r row")
      case True
      then have "r \<in> set (?f row acc)" using False that(1) by auto
      then show ?thesis by (rule self)
    next
      case r: False
      have "row \<in> set (?f row acc)" using False by simp
      with r that show ?thesis by (intro isScalarMultiple_cone [where b = row]) auto
    qed
  qed
  have "vec_of r \<in> cone (vec_of ` set (fold ?f rows acc))"
    if "r \<in> set rows \<union> set acc" "\<forall>r\<in>set rows \<union> set acc. length r = m" for r acc
    using that
  proof (induction rows arbitrary: acc r)
    case (Cons row rows)
    have sub: "set (?f row acc) \<subseteq> insert row (set acc)" by auto
    have IH: "vec_of r \<in> cone (vec_of ` set (fold ?f rows (?f row acc)))"
      if "r \<in> set rows \<union> set (?f row acc)" for r
      using that Cons.prems(2) sub by (intro Cons.IH) auto
    show ?case
    proof (cases "r \<in> set rows")
      case False
      then have "vec_of r \<in> cone (vec_of ` set (?f row acc))"
        using Cons.prems by (intro step) auto
      then show ?thesis using IH by (auto elim!: cone_subst)
    qed (use IH in simp)
  qed (auto intro: self)
  from this [of r "[]"] assms show ?thesis by (simp add: reduceRows_def)
qed

section \<open>The elimination keeps the cone of solutions\<close>

lemma cone_eliminate_column:
  assumes "\<forall>r\<in>set B. good_row m r" and "x \<in> cone (vec_of ` set B)" and "column_form A j x = 0"
  shows "x \<in> cone (vec_of ` set (eliminate_column A m j B))"
proof -
  obtain rows where rows: "set rows = next_rows A m j B"
    and el: "eliminate_column A m j B = rows \<or> eliminate_column A m j B = reduceRows rows"
    using eliminate_column_rows by blast
  from cone_next_rows [OF assms] have x: "x \<in> cone (vec_of ` set rows)" by (simp add: rows)
  have "\<forall>r\<in>set rows. length r = m"
    using good_next_rows [OF assms(1)] by (auto simp: rows good_row_def)
  then have "x \<in> cone (vec_of ` set (reduceRows rows))"
    using x by (elim cone_subst) (auto intro: cone_reduceRows)
  with x el show ?thesis by auto
qed

lemma cone_seed:
  assumes "\<And>k. 0 \<le> x k" and "\<And>k. m \<le> k \<Longrightarrow> x k = 0"
  shows "x \<in> cone (vec_of ` set (seedIdentity m))"
proof -
  let ?e = "\<lambda>i. vec_of ((replicate m 0)[i := 1])"
  have "(\<lambda>k. \<Sum>i<m. x i * ?e i k) \<in> cone (vec_of ` set (seedIdentity m))"
    using assms(1) by (intro cone_sum cone_gen) (auto simp: seedIdentity_def)
  moreover have "(\<Sum>i<m. x i * ?e i k) = x k" for k
  proof -
    have "(\<Sum>i<m. x i * ?e i k) = (\<Sum>i<m. if i = k then x k else 0)"
      by (intro sum.cong) (auto simp: vec_of_def row_get_def nth_list_update)
    then show ?thesis using assms(2) [of k] by simp
  qed
  ultimately show ?thesis by simp
qed

lemma cone_eliminate:
  assumes "\<And>k. 0 \<le> x k" and "\<And>k. m \<le> k \<Longrightarrow> x k = 0" and "\<forall>j<columns A. column_form A j x = 0"
  shows "x \<in> cone (vec_of ` set (eliminate A m))"
proof -
  have "x \<in> cone (vec_of ` set (fold (eliminate_column A m) js B))"
    if "\<forall>r\<in>set B. good_row m r" "x \<in> cone (vec_of ` set B)" "\<forall>j\<in>set js. column_form A j x = 0" for js B
    using that
  proof (induction js arbitrary: B)
    case (Cons j js)
    then have "x \<in> cone (vec_of ` set (eliminate_column A m j B))" by (intro cone_eliminate_column) auto
    with Cons.IH [OF good_eliminate_column [OF Cons.prems(1)]] Cons.prems show ?case by simp
  qed simp
  with cone_seed [of x m] assms good_seed show ?thesis unfolding eliminate_def by simp
qed

text \<open>Rows that balance a column keep balancing it, so the last filter drops no row.\<close>

lemma dotColumn_combination:
  assumes "length A = m"
  shows "dotColumn (map (\<lambda>k. row_get p k * a + row_get n k * b) [0..<m]) A j = dotColumn p A j * a + dotColumn n A j * b"
  using assms
  by (simp add: dotColumn_sum row_get_def [of "map _ _"] algebra_simps sum.distrib sum_distrib_left cong: sum.cong_simp)

lemma balanced_next_rows:
  assumes "length A = m" and "r \<in> next_rows A m j B"
  shows "dotColumn r A j = 0"
    and "(\<And>r. r \<in> set B \<Longrightarrow> dotColumn r A i = 0) \<Longrightarrow> dotColumn r A i = 0"
proof -
  from assms(2) consider "r \<in> set B" "dotColumn r A j = 0"
    | p n where "p \<in> set B" "n \<in> set B" "dotColumn p A j > 0" "dotColumn n A j < 0"
      "\<And>i. dotColumn r A i = dotColumn p A i * \<bar>dotColumn n A j\<bar> + dotColumn n A i * \<bar>dotColumn p A j\<bar>"
    unfolding next_rows_def using dotColumn_combination [OF assms(1)] by blast
  note cases = this
  show "dotColumn r A j = 0" by (rule cases) auto
  show "dotColumn r A i = 0" if "\<And>r. r \<in> set B \<Longrightarrow> dotColumn r A i = 0"
    using cases by (rule cases) (simp_all add: that)
qed

lemma eliminate_balanced:
  assumes "length A = m" and "r \<in> set (eliminate A m)" and "j < columns A"
  shows "dotColumn r A j = 0"
proof -
  have sub: "set (eliminate_column A m j B) \<subseteq> next_rows A m j B" for j B
    using eliminate_column_rows [of A m j B] reduceRows_subset by (metis order_refl)
  have "\<forall>r\<in>set (fold (eliminate_column A m) js B). \<forall>j\<in>J \<union> set js. dotColumn r A j = 0"
    if "\<forall>r\<in>set B. \<forall>j\<in>J. dotColumn r A j = 0" for js B J
    using that
  proof (induction js arbitrary: B J)
    case (Cons i js)
    have "\<forall>r\<in>set (eliminate_column A m i B). \<forall>j\<in>insert i J. dotColumn r A j = 0"
      using sub [of i B] balanced_next_rows [OF assms(1)] Cons.prems by blast
    from Cons.IH [OF this] show ?case by simp
  qed simp
  from this [of "seedIdentity m" "{}" "[0..<columns A]"] assms(2,3) show ?thesis
    by (simp add: eliminate_def)
qed

section \<open>The returned invariants generate every weighting\<close>

definition inv_vec :: "petri_net \<Rightarrow> place_invariant \<Rightarrow> vec" where
  "inv_vec net iv = (\<lambda>k. if k < length (places net) then of_int (weight_of (pi_places iv) (place_ids net ! k)) else 0)"

lemma signature_inj:
  assumes "\<forall>e\<in>set xs \<union> set ys. clean_id (fst e) \<and> 0 \<le> snd e" and "signature lc xs = signature lc ys"
  shows "set xs = set ys"
proof -
  have "signature lc es = join ''|'' (map entryKey (sort_by (\<lambda>a b. lc (fst a) (fst b)) es))" for es
    by (simp add: signature_def entryKey_def [abs_def] case_prod_unfold)
  with assms have "sort_by (\<lambda>a b. lc (fst a) (fst b)) xs = sort_by (\<lambda>a b. lc (fst a) (fst b)) ys"
    by (intro join_entryKeys_inj) auto
  from arg_cong [OF this, of set] show ?thesis by simp
qed

lemma weight_of_set:
  "distinct (map fst xs) \<Longrightarrow> distinct (map fst ys) \<Longrightarrow> set xs = set ys \<Longrightarrow> weight_of xs p = weight_of ys p"
  using map_of_inject_set [of xs ys] by (simp add: weight_of_def)

lemma positive_entries_clean:
  assumes "\<forall>p\<in>set ids. clean_id p" and "n = length ids"
  shows "e \<in> set (positive_entries n ids row) \<Longrightarrow> clean_id (fst e) \<and> 0 \<le> snd e"
  using assms by (auto simp: positive_entries_alt)

lemma distinct_positive_entries:
  "distinct ids \<Longrightarrow> n = length ids \<Longrightarrow> distinct (map fst (positive_entries n ids row))"
  by (auto simp: positive_entries_alt o_def distinct_map inj_on_def nth_eq_iff_index_eq)

lemma row_has_invariant:
  assumes net: "distinct (place_ids net)" "clean_net net" "0 < length (places net)"
    and row: "row \<in> set (eliminate (incidenceMatrix net) (length (places net)))"
    and nz: "\<not> list_all (\<lambda>w. w = 0) row"
  shows "\<exists>iv\<in>set (placeInvariants lc net). vec_of row = inv_vec net iv"
proof -
  let ?m = "length (places net)" and ?A = "incidenceMatrix net" and ?ids = "place_ids net"
  let ?names = "new_Map (map (\<lambda>p. (np_id p, np_name p)) (places net))"
  note dims = incidenceMatrix_dims [of net]
  have g: "good_row ?m row" using row by (rule good_eliminate)
  have bal: "rowIsInvariant row ?A"
    using eliminate_balanced [OF _ row] dims unfolding rowIsInvariant_def
    by (auto simp: mat_dims_def list_all_iff)
  let ?es = "positive_entries ?m ?ids row"
  obtain k where "k < ?m" "row ! k \<noteq> 0" using nz g by (auto simp: list_all_length good_row_def)
  moreover from this(1) have "row ! k \<ge> 0" using good_row_get [OF g, of k] g by (simp add: row_get_def good_row_def)
  ultimately have "row ! k > 0" "k < ?m" by linarith+
  then have "k \<in> set [0..<?m]" "row_get row k > 0"
    using g by (simp_all add: row_get_def good_row_def)
  then have "?es \<noteq> []"
    unfolding positive_entries_alt by (metis filter_empty_conv map_is_Nil_conv)
  then have r: "rowToInvariant row ?ids ?names = Some \<lparr>pi_places = ?es, pi_label = invariant_label ?names ?es\<rparr>"
    by (simp add: rowToInvariant_def place_ids_def Let_def)
  define pre where "pre = List.map_filter (\<lambda>row. rowToInvariant row ?ids ?names)
    (filter (\<lambda>row. \<not> list_all (\<lambda>w. w = 0) row \<and> rowIsInvariant row ?A) (eliminate ?A ?m))"
  have result: "placeInvariants lc net = dedupInvariants lc pre"
    using net(3) by (simp add: placeInvariants_def Let_def pre_def place_ids_def)
  have "\<lparr>pi_places = ?es, pi_label = invariant_label ?names ?es\<rparr> \<in> set pre"
    unfolding pre_def using row nz bal r by (force simp: map_filter_def)
  then obtain iv where iv: "iv \<in> set (placeInvariants lc net)" "signature lc (pi_places iv) = signature lc ?es"
    unfolding result dedupInvariants_def using dedup_loop_sigs [of _ pre "\<lambda>i. signature lc (pi_places i)" "[]"] by force
  from iv(1) obtain row' where row': "good_row ?m row'" "pi_places iv = positive_entries ?m ?ids row'"
    by (rule placeInvariants_row)
  have ids: "\<forall>p\<in>set ?ids. clean_id p" "?m = length ?ids"
    using net(2) by (auto simp: clean_net_def place_ids_def)
  have "set (pi_places iv) = set ?es"
    using iv(2) positive_entries_clean [OF ids] unfolding row'(2) by (intro signature_inj) auto
  then have "weight_of (pi_places iv) p = weight_of ?es p" for p
    unfolding row'(2) using net(1) ids(2) by (intro weight_of_set distinct_positive_entries) auto
  then have "vec_of row = inv_vec net iv"
    using weight_positive_entries [OF net(1) ids(2) g] g
    by (auto simp: inv_vec_def vec_of_def fun_eq_iff row_get_def good_row_def)
  with iv(1) show ?thesis by blast
qed

lemma placeInvariants_generate:
  assumes net: "distinct (place_ids net)" "clean_net net" "0 < length (places net)"
    and w: "\<And>p. p \<in> set (place_ids net) \<Longrightarrow> 0 \<le> w p"
    and bal: "\<And>t. t \<in> nt_id ` set (transitions net) \<Longrightarrow> (\<Sum>p\<leftarrow>place_ids net. w p * effect net t p) = 0"
  shows "\<exists>f :: place_invariant \<Rightarrow> rat. (\<forall>iv. 0 \<le> f iv) \<and>
    (\<forall>p\<in>set (place_ids net). of_int (w p) = (\<Sum>iv\<in>set (placeInvariants lc net). f iv * of_int (weight_of (pi_places iv) p)))"
proof -
  let ?m = "length (places net)" and ?A = "incidenceMatrix net" and ?ids = "place_ids net"
  define x :: vec where "x = vec_of (map w ?ids)"
  note dims = incidenceMatrix_dims [of net]
  have ids: "length ?ids = ?m" by (simp add: place_ids_def)
  have "columns ?A = length (transitions net)"
    using dims net(3) by (cases ?A) (auto simp: columns_def mat_dims_def)
  moreover have "column_form ?A j x = 0" if "j < length (transitions net)" for j
  proof -
    have "dotColumn (map w ?ids) ?A j =
        (\<Sum>p\<leftarrow>map ((!) ?ids) [0..<?m]. w p * effect net (nt_id (transitions net ! j)) p)"
      unfolding dotColumn_effect [OF net(1) that] map_map o_def
      by (intro arg_cong [of _ _ sum_list] map_cong) (auto simp: row_get_def ids)
    also have "map ((!) ?ids) [0..<?m] = ?ids" using map_nth [of ?ids] by (simp add: ids)
    finally show ?thesis using bal [of "nt_id (transitions net ! j)"] that by (simp add: x_def column_form_vec)
  qed
  ultimately have "x \<in> cone (vec_of ` set (eliminate ?A ?m))"
    using w by (intro cone_eliminate) (auto simp: x_def vec_of_def row_get_def ids)
  moreover have "vec_of row \<in> cone (inv_vec net ` set (placeInvariants lc net))"
    if "row \<in> set (eliminate ?A ?m)" for row
  proof (cases "list_all (\<lambda>w. w = 0) row")
    case True
    then have "vec_of row = (\<lambda>_. 0)" by (auto simp: vec_of_def row_get_def list_all_length)
    then show ?thesis by (simp add: cone_zero)
  next
    case False
    from row_has_invariant [OF net that this] obtain iv
      where "iv \<in> set (placeInvariants lc net)" "vec_of row = inv_vec net iv" by blast
    then show ?thesis using cone_gen [of "inv_vec net iv" _ 1] by simp
  qed
  ultimately have "x \<in> cone (inv_vec net ` set (placeInvariants lc net))"
    by (elim cone_subst) auto
  then obtain f where f: "\<forall>iv. 0 \<le> f iv" "\<forall>k. x k = (\<Sum>iv\<in>set (placeInvariants lc net). f iv * inv_vec net iv k)"
    using cone_coefficients [of "set (placeInvariants lc net)" x "inv_vec net"] by auto
  have "of_int (w p) = (\<Sum>iv\<in>set (placeInvariants lc net). f iv * of_int (weight_of (pi_places iv) p))"
    if "p \<in> set ?ids" for p
  proof -
    from that obtain k where k: "k < ?m" "p = ?ids ! k" by (auto simp: in_set_conv_nth ids)
    then have "x k = of_int (w p)" by (simp add: x_def vec_of_def row_get_def ids)
    with f(2) k show ?thesis by (simp add: inv_vec_def)
  qed
  with f(1) show ?thesis by blast
qed

end
