(* ===== verification/Petri_Properties.thy ===== *)
theory Petri_Properties
  imports Petri_Basis
begin

text \<open>
  The properties of the petri package, each a few steps over the lemmas of its theories, with
  a small mutual-exclusion net as the concrete input of the witnesses.
\<close>

section \<open>A concrete net\<close>

definition mk_arc :: "string \<Rightarrow> string \<Rightarrow> string \<Rightarrow> net_arc" where
  "mk_arc i s t = \<lparr>arc_id = i, arc_source = s, arc_target = t\<rparr>"

definition cycle_net :: petri_net where
  "cycle_net = \<lparr>
     places = [\<lparr>np_id = ''idle'', np_name = ''Idle'', np_tokens = Some (Fin 1)\<rparr>,
               \<lparr>np_id = ''busy'', np_name = ''Busy'', np_tokens = None\<rparr>],
     transitions = [\<lparr>nt_id = ''start'', nt_name = ''Start''\<rparr>, \<lparr>nt_id = ''stop'', nt_name = ''Stop''\<rparr>],
     arcs = [mk_arc ''a1'' ''idle'' ''start'', mk_arc ''a2'' ''start'' ''busy'',
             mk_arc ''a3'' ''busy'' ''stop'', mk_arc ''a4'' ''stop'' ''idle'']\<rparr>"

definition cycle_start :: marking where
  "cycle_start = [(''idle'', 1), (''busy'', 0)]"

definition cycle_iv :: place_invariant where
  "cycle_iv = \<lparr>pi_places = [(''idle'', 1), (''busy'', 1)], pi_label = ''Idle + Busy''\<rparr>"

definition cycle_tiv :: transition_invariant where
  "cycle_tiv = \<lparr>ti_transitions = [(''start'', 1), (''stop'', 1)], ti_label = ''Start + Stop''\<rparr>"

text \<open>The net with a doubled input arc: two arcs lead from p to t, one from t to q.\<close>

definition doubled_net :: petri_net where
  "doubled_net = \<lparr>
     places = [\<lparr>np_id = ''p'', np_name = ''P'', np_tokens = Some (Fin 2)\<rparr>,
               \<lparr>np_id = ''q'', np_name = ''Q'', np_tokens = None\<rparr>],
     transitions = [\<lparr>nt_id = ''t'', nt_name = ''T''\<rparr>],
     arcs = [mk_arc ''a1'' ''p'' ''t'', mk_arc ''a2'' ''p'' ''t'', mk_arc ''a3'' ''t'' ''q'']\<rparr>"

lemma cycle_facts:
  "simple_net cycle_net" "nonneg_marking cycle_start" "isEnabled cycle_net cycle_start ''start''"
  "clean_marking cycle_start" "clean_net cycle_net"
  by code_simp+

section \<open>Firing\<close>

text \<open>C32. A fire attempt succeeds exactly when the transition is enabled. It then moves one token
  per distinct input place and one per output arc and reports the transition; otherwise it
  leaves the marking alone and names the first obstacle, with the under-marked places when
  the transition is merely disabled. The binding is passed through.\<close>

theorem fire_correct:
  "fr_ok (fire net m t b) = isEnabled net m t \<and> fr_binding (fire net m t b) = b \<and>
   (if isEnabled net m t
    then fr_transition (fire net m t b) = findTransition net t \<and> fr_blockedReason (fire net m t b) = None \<and>
      (\<forall>p. tokensAt (fr_marking (fire net m t b)) p =
         (if p \<in> set (in_places net t) then max 0 (tokensAt m p - 1) else tokensAt m p)
           + int (count_list (out_places net t) p))
    else fr_marking (fire net m t b) = m \<and> fr_transition (fire net m t b) = None \<and>
      fr_blockedReason (fire net m t b) =
        (if findTransition net t = None then Some UnknownTransition
         else if hasSelfLoopArc net t then Some SelfLoopArc else Some Disabled) \<and>
      fr_underMarked (fire net m t b) =
        (if findTransition net t = None \<or> hasSelfLoopArc net t then None
         else Some (filter (\<lambda>p. tokensAt m p < 1) (in_places net t))))"
proof -
  have under: "map ca_placeId (filter (\<lambda>a. tokensAt m (ca_placeId a) < 1) ins) =
      filter (\<lambda>p. tokensAt m p < 1) (map ca_placeId ins)" for ins
    by (simp add: filter_map o_def)
  show ?thesis
  proof (cases "isEnabled net m t")
    case True
    moreover from this have "fr_ok (fire net m t b)" by (simp add: fire_ok_iff)
    then have "fr_transition (fire net m t b) = findTransition net t \<and> fr_blockedReason (fire net m t b) = None"
      by (auto simp: fire_def Let_def split: option.splits sum.splits prod.splits if_splits)
    ultimately show ?thesis by (simp add: fire_ok_iff fire_ok_marking tokensAt_applyFire)
  next
    case False
    moreover from this have "\<not> fr_ok (fire net m t b)" by (simp add: fire_ok_iff)
    then have "fr_transition (fire net m t b) = None \<and>
      fr_blockedReason (fire net m t b) =
        (if findTransition net t = None then Some UnknownTransition
         else if hasSelfLoopArc net t then Some SelfLoopArc else Some Disabled) \<and>
      fr_underMarked (fire net m t b) =
        (if findTransition net t = None \<or> hasSelfLoopArc net t then None
         else Some (filter (\<lambda>p. tokensAt m p < 1) (in_places net t)))"
      using classifyArcs_ok [of net t]
      by (auto simp: fire_def Let_def under classifyArcs_places split: option.splits sum.splits prod.splits if_splits)
    ultimately show ?thesis by (simp add: fire_ok_iff fire_blocked_marking)
  qed
qed

text \<open>The enabled set, the single fire and the dead-marking test agree: a transition can
  fire exactly when the enabled set lists one of that id, and a marking is dead exactly when
  no transition can fire.\<close>

theorem enabled_set_agrees:
  "(canFire net m t \<longleftrightarrow> t \<in> (nt_id \<circ> en_transition) ` set (enabledTransitions net m)) \<and>
   (isDeadMarking net m \<longleftrightarrow> \<not> list_ex (\<lambda>x. canFire net m (nt_id x)) (transitions net))"
proof -
  have can: "canFire net m t \<longleftrightarrow> t \<in> (nt_id \<circ> en_transition) ` set (enabledTransitions net m)" for t
  proof
    assume "canFire net m t"
    then have en: "isEnabled net m t" by (simp add: canFire_def fire_ok_iff)
    then obtain tr ins outs where "tr \<in> set (transitions net)" "nt_id tr = t"
      and cl: "classifyArcsForTransition net t = Inr (ins, outs)"
      using classifyArcs_ok [of net t] by (auto simp: isEnabled_iff)
    moreover have "\<forall>a\<in>set ins. 1 \<le> tokensAt m (ca_placeId a)"
      using en cl by (auto simp: isEnabled_def list_all_iff split: option.splits)
    ultimately have "\<lparr>en_transition = tr, en_consumes = ins, en_produces = outs\<rparr> \<in> set (enabledTransitions net m)"
      by (simp add: mem_enabledTransitions)
    with \<open>nt_id tr = t\<close> show "t \<in> (nt_id \<circ> en_transition) ` set (enabledTransitions net m)" by force
  qed (auto simp: canFire_def fire_ok_iff enabled_mem_isEnabled)
  have "(nt_id \<circ> en_transition) ` set (enabledTransitions net m) \<subseteq> nt_id ` set (transitions net)"
    by (auto simp: mem_enabledTransitions)
  then have "isDeadMarking net m \<longleftrightarrow> \<not> list_ex (\<lambda>x. canFire net m (nt_id x)) (transitions net)"
    unfolding can isDeadMarking_def list_ex_iff by (cases "enabledTransitions net m") auto
  with can show ?thesis by blast
qed

text \<open>Without parallel input arcs the interactive engine and the search engine play the same
  token game: firing a transition of the enabled set gives the same counts either way.\<close>

theorem fire_agrees_with_search:
  assumes "simple_net net" and "nonneg_marking m" and "e \<in> set (enabledTransitions net m)"
  shows "same_tokens (fr_marking (fire net m (nt_id (en_transition e)) b)) (applyEnabled m e)"
  using fire_state_equation [OF assms(1) nonneg_tokens [OF assms(2)] enabled_mem_isEnabled [OF assms(3)]]
    search_state_equation(1) [OF assms(1) nonneg_tokens [OF assms(2)] assms(3)]
  by (simp add: same_tokens_def)

lemma fire_agrees_with_search_witness:
  "same_tokens (fr_marking (fire cycle_net cycle_start ''start'' None))
     (applyEnabled cycle_start (hd (enabledTransitions cycle_net cycle_start)))"
proof -
  have "hd (enabledTransitions cycle_net cycle_start) \<in> set (enabledTransitions cycle_net cycle_start)"
    and "nt_id (en_transition (hd (enabledTransitions cycle_net cycle_start))) = ''start''"
    by code_simp+
  with fire_agrees_with_search [OF cycle_facts(1,2), of "hd (enabledTransitions cycle_net cycle_start)" None]
  show ?thesis by simp
qed

section \<open>Invariants\<close>

text \<open>C33. Every place invariant the analysis returns is conserved by firing: in a net with distinct
  place ids and no parallel input arcs, the weighted token sum over its places is the same
  before and after any fire attempt.\<close>

theorem placeInvariants_conserved:
  assumes "simple_net net" and "nonneg_marking m" and "iv \<in> set (placeInvariants lc net)"
  shows "weighted_tokens (pi_places iv) (fr_marking (fire net m t b)) = weighted_tokens (pi_places iv) m"
proof (cases "isEnabled net m t")
  case True
  have "distinct (place_ids net)" using assms(1) by (simp add: simple_net_def)
  from placeInvariants_balance [OF this assms(3) isEnabled_mem [OF True]] show ?thesis
    using weighted_tokens_change [OF fire_state_equation [OF assms(1) nonneg_tokens [OF assms(2)] True]] by simp
qed (simp add: fire_blocked_marking)

lemma placeInvariants_conserved_witness:
  "weighted_tokens (pi_places cycle_iv) (fr_marking (fire cycle_net cycle_start ''start'' None)) = 1"
proof -
  have "cycle_iv \<in> set (placeInvariants (\<lambda>_ _. 0) cycle_net)"
    and "weighted_tokens (pi_places cycle_iv) cycle_start = 1" by code_simp+
  with placeInvariants_conserved [OF cycle_facts(1,2), of cycle_iv "\<lambda>_ _. 0" "''start''" None] show ?thesis by simp
qed

text \<open>C34. The returned place invariants form a generating set: on a net whose place ids are distinct and
  free of \<open>:\<close> and \<open>|\<close> (\<open>clean_net\<close>; invariants are told apart by a text joined with these), every non-negative integer
  weighting of the places that balances each transition is a non-negative rational combination
  of them.\<close>

theorem placeInvariants_complete:
  assumes "distinct (place_ids net)" and "clean_net net"
    and "\<And>p. p \<in> set (place_ids net) \<Longrightarrow> 0 \<le> w p"
    and "\<And>t. t \<in> nt_id ` set (transitions net) \<Longrightarrow> (\<Sum>p\<leftarrow>place_ids net. w p * effect net t p) = 0"
  shows "\<exists>f :: place_invariant \<Rightarrow> rat. (\<forall>iv. 0 \<le> f iv) \<and>
    (\<forall>p\<in>set (place_ids net).
       of_int (w p) = (\<Sum>iv\<in>set (placeInvariants lc net). f iv * of_int (weight_of (pi_places iv) p)))"
proof (cases "places net = []")
  case True
  then show ?thesis by (intro exI [of _ "\<lambda>_. 0"]) (simp add: place_ids_def)
qed (use assms in \<open>intro placeInvariants_generate, auto\<close>)

lemma placeInvariants_complete_witness:
  "\<exists>f :: place_invariant \<Rightarrow> rat. (\<forall>iv. 0 \<le> f iv) \<and>
    (\<forall>p\<in>set (place_ids cycle_net).
       3 = (\<Sum>iv\<in>set (placeInvariants (\<lambda>_ _. 0) cycle_net). f iv * of_int (weight_of (pi_places iv) p)))"
proof -
  have "distinct (place_ids cycle_net)" "places cycle_net \<noteq> []"
    and bal: "list_all (\<lambda>t. (\<Sum>p\<leftarrow>place_ids cycle_net. 3 * effect cycle_net t p) = 0) (map nt_id (transitions cycle_net))"
    by code_simp+
  with placeInvariants_complete [of cycle_net "\<lambda>_. 3" "\<lambda>_ _. 0"] cycle_facts(5) show ?thesis
    by (auto simp: list_all_iff)
qed

text \<open>Transition invariants describe cycles: a run that fires every transition as often as a
  returned transition invariant says ends with the token counts it started with.\<close>

theorem transitionInvariants_cycle:
  assumes "simple_net net" and "distinct (map nt_id (transitions net))" and "nonneg_marking m"
    and "iv \<in> set (transitionInvariants lc net)" and "trace_runs net m tr m'"
    and fired: "\<And>t. t \<in> nt_id ` set (transitions net) \<Longrightarrow>
      int (count_list (map rs_firedTransition tr) t) = weight_of (ti_transitions iv) t"
  shows "same_tokens m' m"
proof -
  let ?ts = "map nt_id (transitions net)" and ?n = "length (transitions net)"
  from assms(4) obtain row where row: "good_row ?n row" "ti_transitions iv = positive_entries ?n ?ts row"
    "rowIsInvariant row (transpose_matrix (incidenceMatrix net) ?n)" by (rule transitionInvariants_row)
  have n: "0 < ?n" using assms(4) by (auto simp: transitionInvariants_def)
  have "(\<Sum>s\<leftarrow>map rs_firedTransition tr. effect net s p) = 0" for p
  proof (cases "p \<in> set (place_ids net)")
    case True
    then obtain i where i: "i < length (places net)" "p = place_ids net ! i"
      by (auto simp: in_set_conv_nth place_ids_def)
    have "set (map rs_firedTransition tr) \<subseteq> set ?ts" using run_transitions [OF assms(5)] by auto
    from sum_by_count [OF assms(2) this, of "\<lambda>t. effect net t p"]
    have "(\<Sum>s\<leftarrow>map rs_firedTransition tr. effect net s p) =
        (\<Sum>t\<leftarrow>map ((!) ?ts) [0..<?n]. int (count_list (map rs_firedTransition tr) t) * effect net t p)"
      using map_nth [of ?ts] by simp
    also have "\<dots> = (\<Sum>j\<leftarrow>[0..<?n]. row_get row j * effect net (?ts ! j) p)"
      unfolding map_map o_def using weight_positive_entries [OF assms(2) _ row(1), of ?n] row(2) fired
      by (intro arg_cong [of _ _ sum_list] map_cong) auto
    also have "\<dots> = (\<Sum>j\<leftarrow>[0..<?n]. row_get row j * effect net (nt_id (transitions net ! j)) (place_ids net ! i))"
      by (intro arg_cong [of _ _ sum_list] map_cong) (auto simp: i)
    also have "\<dots> = 0"
      using assms(1) i n row(3) by (intro transition_row_balance) (auto simp: simple_net_def)
    finally show ?thesis .
  next
    case False
    then show ?thesis by (induction tr) (auto simp: effect_not_place)
  qed
  with run_state_equation [OF assms(1,5) nonneg_tokens [OF assms(3)]] show ?thesis
    by (simp add: same_tokens_def o_def)
qed

lemma transitionInvariants_cycle_witness:
  "same_tokens [(''idle'', 1), (''busy'', 0)] cycle_start"
proof -
  let ?tr = "[\<lparr>rs_marking = cycle_start, rs_firedTransition = ''start''\<rparr>,
              \<lparr>rs_marking = [(''idle'', 0), (''busy'', 1)], rs_firedTransition = ''stop''\<rparr>]"
  have "cycle_tiv \<in> set (transitionInvariants (\<lambda>_ _. 0) cycle_net)"
    and "distinct (map nt_id (transitions cycle_net))"
    and "trace_runs cycle_net cycle_start ?tr [(''idle'', 1), (''busy'', 0)]"
    and "list_all (\<lambda>t. int (count_list (map rs_firedTransition ?tr) t) = weight_of (ti_transitions cycle_tiv) t)
       (map nt_id (transitions cycle_net))"
    by code_simp+
  then show ?thesis
    by (intro transitionInvariants_cycle [OF cycle_facts(1) _ cycle_facts(2), where tr = ?tr]) (auto simp: list_all_iff)
qed

text \<open>With parallel input arcs conservation fails for \<open>fire\<close>: the analysis returns the
  invariant p + 2 q, the fire consumes one token of p for two arcs.\<close>

lemma fire_breaks_doubled_invariant:
  "\<lparr>pi_places = [(''p'', 1), (''q'', 2)], pi_label = ''P + Q''\<rparr> \<in> set (placeInvariants (\<lambda>_ _. 0) doubled_net) \<and>
   weighted_tokens [(''p'', 1), (''q'', 2)] (initialMarking doubled_net) = 2 \<and>
   weighted_tokens [(''p'', 1), (''q'', 2)] (fr_marking (fire doubled_net (initialMarking doubled_net) ''t'' None)) = 3"
  by code_simp

section \<open>Bounded reachability\<close>

text \<open>Marking keys are canonical: for well-formed non-negative markings over ids without the
  separators, two markings have the same key exactly when every place holds as many tokens.\<close>

theorem markingKey_canonical:
  assumes "clean_marking m" and "clean_marking m'"
  shows "markingKey m = markingKey m' \<longleftrightarrow> same_tokens m m'"
  using assms by (rule clean_key_eq)

lemma markingKey_canonical_witness:
  "markingKey [(''busy'', 0), (''idle'', 1)] = markingKey cycle_start"
proof -
  have "clean_marking [(''busy'', 0), (''idle'', 1)]" by code_simp
  from markingKey_canonical [OF this cycle_facts(4)] show ?thesis
    by (simp add: same_tokens_def cycle_start_def tokensAt_def map_get_def)
qed

text \<open>C35. A positive answer of the bounded search is sound: the returned trace is a run of the net
  from the initial marking to a marking that satisfies the goal, each step recording the
  marking it fires in, and it is no longer than the bound.\<close>

theorem reachable_sound:
  assumes "rr_reachable (reachable net init goal ms)"
  shows "\<exists>m. trace_runs net init (rr_trace (reachable net init goal ms)) m \<and> goal m \<and>
    of_nat (length (rr_trace (reachable net init goal ms))) < norm_maxSteps ms + 1"
proof (cases rule: reachable_cases [of goal init net ms])
  case immediate
  have "1 \<le> norm_maxSteps ms" by (cases ms) auto
  with immediate show ?thesis by simp
next
  case (found P rest visited m tr e)
  then have "trace_runs net init tr m" by (auto simp: bfs_inv_def)
  with found trace_runs_step [of net init tr m e] show ?thesis by auto
qed (use assms in simp)

lemma reachable_sound_witness:
  "\<exists>m. trace_runs cycle_net cycle_start
      (rr_trace (reachable cycle_net cycle_start (\<lambda>m. tokensAt m ''busy'' = 1) (Fin 5))) m \<and>
    tokensAt m ''busy'' = 1"
proof -
  have "rr_reachable (reachable cycle_net cycle_start (\<lambda>m. tokensAt m ''busy'' = 1) (Fin 5))" by code_simp
  from reachable_sound [OF this] show ?thesis by blast
qed

text \<open>C36. The bounded search is complete and its trace is shortest: for place ids without \<open>:\<close> and \<open>|\<close> in
  the net and the initial marking, which has one non-negative count per place, and for goals
  that look at token counts only, it answers yes exactly when some run within
  the bound reaches the goal, and no run to the goal is shorter than the trace.\<close>

theorem reachable_complete:
  assumes "clean_marking init" and "clean_net net" and "respects_tokens goal"
  shows "(rr_reachable (reachable net init goal ms) \<longleftrightarrow>
      (\<exists>tr m. trace_runs net init tr m \<and> goal m \<and> of_nat (length tr) < norm_maxSteps ms + 1)) \<and>
    (\<forall>tr m. rr_reachable (reachable net init goal ms) \<and> trace_runs net init tr m \<and> goal m \<longrightarrow>
      length (rr_trace (reachable net init goal ms)) \<le> length tr)"
proof (cases rule: reachable_cases [of goal init net ms])
  case immediate
  have "1 \<le> norm_maxSteps ms" by (cases ms) auto
  with immediate have "\<exists>tr m. trace_runs net init tr m \<and> goal m \<and> of_nat (length tr) < norm_maxSteps ms + 1"
    by (intro exI [of _ "[]"] exI [of _ init]) simp
  with immediate show ?thesis by simp
next
  case (exhausted P visited)
  have "\<not> goal m" if "trace_runs net init tr m" "of_nat (length tr) < norm_maxSteps ms + 1" for tr m
    using exhausted(2) assms _ that(1) order_refl that(2) by (rule bfs_inv_no_goal) simp
  with exhausted(1) show ?thesis by blast
next
  case (found P rest visited m tr e)
  then have run: "trace_runs net init (tr @ [step_of m e]) (applyEnabled m e)"
    by (auto simp: bfs_inv_def intro: trace_runs_step)
  have short: "length tr < length tr'" if "trace_runs net init tr' m'" "goal m'" for tr' m'
  proof (rule ccontr)
    assume le: "\<not> length tr < length tr'"
    then have lt: "of_nat (length tr') < norm_maxSteps ms + 1" using found(3) by simp
    have "\<forall>y\<in>set ((m, tr) # rest). length tr \<le> depth y" using found(2) by (auto simp: bfs_inv_def)
    from bfs_inv_no_goal [OF found(2) assms this that(1) _ lt] le that(2) show False by simp
  qed
  have "of_nat (length (tr @ [step_of m e])) < norm_maxSteps ms + 1" using found(3) by simp
  with run found(5) have "\<exists>tr m. trace_runs net init tr m \<and> goal m \<and> of_nat (length tr) < norm_maxSteps ms + 1"
    by blast
  with found(1,6) short show ?thesis by (simp add: Suc_le_eq) blast
qed

lemma reachable_complete_witness:
  "\<not> (\<exists>tr m. trace_runs cycle_net cycle_start tr m \<and> tokensAt m ''busy'' = 2 \<and> of_nat (length tr) < norm_maxSteps (Fin 5) + 1)"
proof -
  have "\<not> rr_reachable (reachable cycle_net cycle_start (\<lambda>m. tokensAt m ''busy'' = 2) (Fin 5))" by code_simp
  moreover have "respects_tokens (\<lambda>m. tokensAt m ''busy'' = 2)" by (simp add: respects_tokens_def same_tokens_def)
  ultimately show ?thesis using reachable_complete [OF cycle_facts(4,5)] by blast
qed

end
