(* ===== verification/Core_Primitives.thy ===== *)
theory Core_Primitives
  imports Prelude
begin

text \<open>
  \<open>packages/core/src/primitives\<close>: identifiers, named match bindings and legacy targets,
  evidence, and core violations. Branded strings are strings: the brand exists at compile
  time only. An exception (\<open>throwCore\<close>) is \<open>Inl\<close> of the violation.
\<close>

section \<open>Identifiers (ids.ts, time.ts)\<close>

type_synonym actor_id = string
type_synonym change_id = string
type_synonym artifact_id = string
type_synonym link_id = string
type_synonym session_id = string
type_synonym capability_id = string
type_synonym epoch_id = string
type_synonym operation_type_id = string
type_synonym evidence_id = string
type_synonym namespace_id = string
type_synonym transcript_access_request_id = string
type_synonym snapshot_ref = string
type_synonym content_ref = string
type_synonym timestamp = string
type_synonym sequence_no = int

definition DEFAULT_NAMESPACE_ID :: namespace_id where
  "DEFAULT_NAMESPACE_ID = ''default''"

section \<open>Control-plane pointers (controlPlaneIds.ts)\<close>

record schema_ref =
  sr_schemaId :: string
  sr_revisionId :: string
  sr_digest :: string

record policy_ref =
  pr_policyId :: string
  pr_revisionId :: string
  pr_digest :: string

record handler_manifest_ref =
  hm_manifestId :: string
  hm_digest :: string

section \<open>References (refs.ts)\<close>

datatype target_kind = TArtifact | TParticipant | TSession | TCapability | TLink

record target_ref =
  tr_kind :: target_kind
  tr_id :: string

definition targetRef :: "target_kind \<Rightarrow> string \<Rightarrow> target_ref" where
  "targetRef k i = \<lparr>tr_kind = k, tr_id = i\<rparr>"

text \<open>The union of named bindings: one constructor per role, with the id its payload holds.\<close>

datatype match_binding =
    BTask artifact_id
  | BArtifact artifact_id
  | BFrom actor_id
  | BTo actor_id
  | BDelegator actor_id
  | BDelegatee actor_id
  | BParticipant actor_id
  | BCapability capability_id
  | BSession session_id
  | BLink link_id

datatype binding_role =
    RTask | RArtifact | RFrom | RTo | RDelegator | RDelegatee | RParticipant | RCapability | RSession | RLink

definition MATCH_BINDING_ROLES :: "binding_role list" where
  "MATCH_BINDING_ROLES =
     [RTask, RArtifact, RFrom, RTo, RDelegator, RDelegatee, RParticipant, RCapability, RSession, RLink]"

fun roleOf :: "match_binding \<Rightarrow> binding_role" where
  "roleOf (BTask _) = RTask"
| "roleOf (BArtifact _) = RArtifact"
| "roleOf (BFrom _) = RFrom"
| "roleOf (BTo _) = RTo"
| "roleOf (BDelegator _) = RDelegator"
| "roleOf (BDelegatee _) = RDelegatee"
| "roleOf (BParticipant _) = RParticipant"
| "roleOf (BCapability _) = RCapability"
| "roleOf (BSession _) = RSession"
| "roleOf (BLink _) = RLink"

fun role_name :: "binding_role \<Rightarrow> string" where
  "role_name RTask = ''task''"
| "role_name RArtifact = ''artifact''"
| "role_name RFrom = ''from''"
| "role_name RTo = ''to''"
| "role_name RDelegator = ''delegator''"
| "role_name RDelegatee = ''delegatee''"
| "role_name RParticipant = ''participant''"
| "role_name RCapability = ''capability''"
| "role_name RSession = ''session''"
| "role_name RLink = ''link''"

fun matchBinding :: "binding_role \<Rightarrow> string \<Rightarrow> match_binding" where
  "matchBinding RTask i = BTask i"
| "matchBinding RArtifact i = BArtifact i"
| "matchBinding RFrom i = BFrom i"
| "matchBinding RTo i = BTo i"
| "matchBinding RDelegator i = BDelegator i"
| "matchBinding RDelegatee i = BDelegatee i"
| "matchBinding RParticipant i = BParticipant i"
| "matchBinding RCapability i = BCapability i"
| "matchBinding RSession i = BSession i"
| "matchBinding RLink i = BLink i"

fun bindingToTargetRef :: "match_binding \<Rightarrow> target_ref" where
  "bindingToTargetRef (BTask i) = targetRef TArtifact i"
| "bindingToTargetRef (BArtifact i) = targetRef TArtifact i"
| "bindingToTargetRef (BFrom i) = targetRef TParticipant i"
| "bindingToTargetRef (BTo i) = targetRef TParticipant i"
| "bindingToTargetRef (BDelegator i) = targetRef TParticipant i"
| "bindingToTargetRef (BDelegatee i) = targetRef TParticipant i"
| "bindingToTargetRef (BParticipant i) = targetRef TParticipant i"
| "bindingToTargetRef (BCapability i) = targetRef TCapability i"
| "bindingToTargetRef (BSession i) = targetRef TSession i"
| "bindingToTargetRef (BLink i) = targetRef TLink i"

definition targetsFromMatchBindings :: "match_binding list \<Rightarrow> target_ref list" where
  "targetsFromMatchBindings bindings = map bindingToTargetRef bindings"

definition bindingFromTarget :: "target_ref \<Rightarrow> match_binding" where
  "bindingFromTarget t =
     (case tr_kind t of
        TArtifact \<Rightarrow> BArtifact (tr_id t)
      | TParticipant \<Rightarrow> BParticipant (tr_id t)
      | TCapability \<Rightarrow> BCapability (tr_id t)
      | TSession \<Rightarrow> BSession (tr_id t)
      | TLink \<Rightarrow> BLink (tr_id t))"

definition matchBindingsFromTargets :: "target_ref list \<Rightarrow> match_binding list" where
  "matchBindingsFromTargets targets = map bindingFromTarget targets"

datatype evidence_kind = EvPolicy | EvApproval | EvObservation | EvReceipt

record evidence_ref =
  ev_evidenceId :: evidence_id
  ev_kind :: evidence_kind
  ev_contentRef :: content_ref

record operation_template_ref =
  ot_operationTypeId :: string
  ot_revision :: string

section \<open>Violations (violation.ts)\<close>

datatype core_violation_code =
    BeforeRefChainBroken
  | EpochMismatch
  | AuditTailHistoryMismatch
  | ObservationSequenceInvalid
  | FootprintUndercoversTargets
  | SnapshotIntegrity
  | ActorNotFound
  | ActorKindMismatch
  | RunHistoryInvalid
  | MatchBindingsInvalid

record core_violation =
  cv_code :: core_violation_code
  cv_message :: string
  cv_path :: "string option"
  cv_expected :: "string option"
  cv_actual :: "string option"

definition coreViolation ::
  "core_violation_code \<Rightarrow> string \<Rightarrow> string option \<Rightarrow> string option \<Rightarrow> string option \<Rightarrow> core_violation" where
  "coreViolation code message path expected actual =
     \<lparr>cv_code = code, cv_message = message, cv_path = path, cv_expected = expected, cv_actual = actual\<rparr>"

section \<open>Lemmas\<close>

lemma MATCH_BINDING_ROLES_all: "set MATCH_BINDING_ROLES = UNIV" "distinct MATCH_BINDING_ROLES"
proof -
  have "r \<in> set MATCH_BINDING_ROLES" for r by (cases r) (auto simp: MATCH_BINDING_ROLES_def)
  then show "set MATCH_BINDING_ROLES = UNIV" by auto
qed (simp add: MATCH_BINDING_ROLES_def)

lemma binding_role_matchBinding [simp]: "roleOf (matchBinding r i) = r"
  by (cases r) auto

lemma targets_of_bindings_of_targets: "targetsFromMatchBindings (matchBindingsFromTargets ts) = ts"
  by (auto simp: targetsFromMatchBindings_def matchBindingsFromTargets_def bindingFromTarget_def targetRef_def
      intro!: map_idI split: target_kind.splits)

text \<open>Bindings that survive the lossy way back: one role per target kind.\<close>

definition plain_binding :: "match_binding \<Rightarrow> bool" where
  "plain_binding b \<longleftrightarrow> roleOf b \<in> {RArtifact, RParticipant, RCapability, RSession, RLink}"

lemma bindings_of_targets_of_bindings:
  "matchBindingsFromTargets (targetsFromMatchBindings bs) = bs \<longleftrightarrow> list_all plain_binding bs"
proof (induction bs)
  case (Cons b bs)
  have "bindingFromTarget (bindingToTargetRef b) = b \<longleftrightarrow> plain_binding b"
    by (cases b) (auto simp: bindingFromTarget_def targetRef_def plain_binding_def)
  with Cons show ?case
    by (auto simp: targetsFromMatchBindings_def matchBindingsFromTargets_def)
qed (simp add: targetsFromMatchBindings_def matchBindingsFromTargets_def)

end
