(* ===== verification/Prelude_Json.thy ===== *)
theory Prelude_Json
  imports Prelude
begin

text \<open>
  Values of type \<open>unknown\<close> and \<open>JSON.parse\<close>. The parser is a recursive descent over the
  bytes of the text with a fuel argument: every call passes less fuel and consumes at least
  one byte before the next call on the same level, so \<open>2 * length s + 1\<close> is enough: more
  fuel does not change the result (\<open>json_value_fuel\<close>). Strings are sequences of UTF-8 bytes,
  so the length of a string is its JavaScript length for ASCII text. Numbers are the exact rationals they denote (a JavaScript engine
  rounds them to doubles), escapes produce UTF-8, a repeated key keeps its last value.
\<close>

section \<open>Values\<close>

datatype js_value =
    JUndefined
  | JNull
  | JBool bool
  | JNumber js_number
  | JString string
  | JArray "js_value list"
  | JObject "(string \<times> js_value) list"

text \<open>Property access (an array has none of the properties the sources read).\<close>

fun js_field :: "js_value \<Rightarrow> string \<Rightarrow> js_value" where
  "js_field (JObject props) k = (case map_get props k of None \<Rightarrow> JUndefined | Some v \<Rightarrow> v)"
| "js_field _ k = JUndefined"

text \<open>\<open>typeof v === "string"\<close> and its value; the elements of an array.\<close>

fun js_string :: "js_value \<Rightarrow> string option" where
  "js_string (JString s) = Some s"
| "js_string _ = None"

fun js_elements :: "js_value \<Rightarrow> js_value list" where
  "js_elements (JArray xs) = xs"
| "js_elements _ = []"

lemma js_field_size: "js_field v k \<noteq> JUndefined \<Longrightarrow> size (js_field v k) < size v"
proof (cases v)
  case (JObject props)
  assume "js_field v k \<noteq> JUndefined"
  with JObject obtain w where w: "js_field v k = w" "(k, w) \<in> set props"
    by (auto split: option.splits dest: map_get_mem)
  from size_list_estimation' [OF w(2), of "Suc (size w)" "size_prod (\<lambda>_. 0) size"]
  have "Suc (size w) \<le> size_list (size_prod (\<lambda>_. 0) size) props" by simp
  then show ?thesis using JObject w(1) by (simp del: js_field.simps)
qed simp_all

lemma js_elements_size: "x \<in> set (js_elements (js_field v k)) \<Longrightarrow> size x < size v"
proof -
  assume x: "x \<in> set (js_elements (js_field v k))"
  then obtain xs where xs: "js_field v k = JArray xs" "x \<in> set xs" by (cases "js_field v k") auto
  from size_list_estimation' [OF xs(2), of "size x" size] have "size x < size (js_field v k)" using xs by simp
  also have "\<dots> < size v" using xs by (intro js_field_size) simp
  finally show ?thesis .
qed

section \<open>Lexical elements\<close>

definition json_ws :: "char \<Rightarrow> bool" where
  "json_ws c \<longleftrightarrow> c = CHR 0x20 \<or> c = CHR 0x09 \<or> c = CHR 0x0A \<or> c = CHR 0x0D"

definition skip_ws :: "string \<Rightarrow> string" where
  "skip_ws s = dropWhile json_ws s"

definition digit_val :: "char \<Rightarrow> nat option" where
  "digit_val c = (let n = (of_char c :: nat) in if 48 \<le> n \<and> n \<le> 57 then Some (n - 48) else None)"

definition is_digit :: "char \<Rightarrow> bool" where
  "is_digit c \<longleftrightarrow> digit_val c \<noteq> None"

definition hex_val :: "char \<Rightarrow> nat option" where
  "hex_val c = (let n = (of_char c :: nat) in
     if 48 \<le> n \<and> n \<le> 57 then Some (n - 48)
     else if 65 \<le> n \<and> n \<le> 70 then Some (n - 55)
     else if 97 \<le> n \<and> n \<le> 102 then Some (n - 87) else None)"

fun hex4 :: "string \<Rightarrow> (nat \<times> string) option" where
  "hex4 (a # b # c # d # s) =
     (case (hex_val a, hex_val b, hex_val c, hex_val d) of
        (Some w, Some x, Some y, Some z) \<Rightarrow> Some (((w * 16 + x) * 16 + y) * 16 + z, s)
      | _ \<Rightarrow> None)"
| "hex4 _ = None"

definition utf8 :: "nat \<Rightarrow> string" where
  "utf8 n =
     (if n < 0x80 then [char_of n]
      else if n < 0x800 then [char_of (0xC0 + n div 64), char_of (0x80 + n mod 64)]
      else if n < 0x10000 then
        [char_of (0xE0 + n div 4096), char_of (0x80 + n div 64 mod 64), char_of (0x80 + n mod 64)]
      else [char_of (0xF0 + n div 262144), char_of (0x80 + n div 4096 mod 64),
            char_of (0x80 + n div 64 mod 64), char_of (0x80 + n mod 64)])"

text \<open>A \<open>\u\<close> escape after its \<open>u\<close>: a surrogate pair is one code point.\<close>

definition unicode_escape :: "string \<Rightarrow> (string \<times> string) option" where
  "unicode_escape s =
     (case hex4 s of
        None \<Rightarrow> None
      | Some (hi, s1) \<Rightarrow>
          (case s1 of
             b # u # s2 \<Rightarrow>
               (if 0xD800 \<le> hi \<and> hi < 0xDC00 \<and> b = CHR 0x5C \<and> u = CHR ''u'' then
                  (case hex4 s2 of
                     Some (lo, s3) \<Rightarrow>
                       if 0xDC00 \<le> lo \<and> lo < 0xE000
                       then Some (utf8 (0x10000 + (hi - 0xD800) * 1024 + (lo - 0xDC00)), s3)
                       else Some (utf8 hi, s1)
                   | None \<Rightarrow> Some (utf8 hi, s1))
                else Some (utf8 hi, s1))
           | _ \<Rightarrow> Some (utf8 hi, s1)))"

definition simple_escape :: "char \<Rightarrow> char option" where
  "simple_escape c =
     (if c = CHR 0x22 \<or> c = CHR 0x5C \<or> c = CHR ''/'' then Some c
      else if c = CHR ''b'' then Some (CHR 0x08)
      else if c = CHR ''f'' then Some (CHR 0x0C)
      else if c = CHR ''n'' then Some (CHR 0x0A)
      else if c = CHR ''r'' then Some (CHR 0x0D)
      else if c = CHR ''t'' then Some (CHR 0x09) else None)"

text \<open>The rest of a string literal after its opening quote.\<close>

fun json_string :: "nat \<Rightarrow> string \<Rightarrow> (string \<times> string) option" where
  "json_string 0 s = None"
| "json_string (Suc n) [] = None"
| "json_string (Suc n) (c # s) =
     (if c = CHR 0x22 then Some ([], s)
      else if (of_char c :: nat) < 0x20 then None
      else if c = CHR 0x5C then
        (case s of
           [] \<Rightarrow> None
         | e # s1 \<Rightarrow>
             (if e = CHR ''u'' then
                (case unicode_escape s1 of
                   None \<Rightarrow> None
                 | Some (out, s2) \<Rightarrow> map_option (\<lambda>(t, r). (out @ t, r)) (json_string n s2))
              else (case simple_escape e of
                      None \<Rightarrow> None
                    | Some o1 \<Rightarrow> map_option (\<lambda>(t, r). (o1 # t, r)) (json_string n s1))))
      else map_option (\<lambda>(t, r). (c # t, r)) (json_string n s))"

definition digits_val :: "string \<Rightarrow> nat" where
  "digits_val ds = foldl (\<lambda>acc c. acc * 10 + (case digit_val c of Some d \<Rightarrow> d | None \<Rightarrow> 0)) 0 ds"

definition take_digits :: "string \<Rightarrow> string \<times> string" where
  "take_digits s = (takeWhile is_digit s, dropWhile is_digit s)"

definition fraction_part :: "string \<Rightarrow> (rat \<times> string) option" where
  "fraction_part s =
     (case s of
        c # s1 \<Rightarrow>
          (if c = CHR ''.'' then
             (let (ds, r) = take_digits s1
              in if ds = [] then None else Some (of_nat (digits_val ds) / 10 ^ length ds, r))
           else Some (0, s))
      | [] \<Rightarrow> Some (0, s))"

definition exponent_part :: "string \<Rightarrow> (rat \<times> string) option" where
  "exponent_part s =
     (case s of
        c # s1 \<Rightarrow>
          (if c = CHR ''e'' \<or> c = CHR ''E'' then
             (let (neg, s2) = (case s1 of
                                 d # t \<Rightarrow> if d = CHR ''-'' then (True, t)
                                         else if d = CHR ''+'' then (False, t) else (False, s1)
                               | [] \<Rightarrow> (False, s1));
                  (ds, r) = take_digits s2
              in if ds = [] then None
                 else Some (if neg then 1 / 10 ^ digits_val ds else 10 ^ digits_val ds, r))
           else Some (1, s))
      | [] \<Rightarrow> Some (1, s))"

definition json_number :: "string \<Rightarrow> (rat \<times> string) option" where
  "json_number s =
     (let (neg, s1) = (case s of c # t \<Rightarrow> if c = CHR ''-'' then (True, t) else (False, s) | [] \<Rightarrow> (False, s));
          (ds, s2) = take_digits s1
      in if ds = [] \<or> (hd ds = CHR ''0'' \<and> length ds > 1) then None
         else case fraction_part s2 of
                None \<Rightarrow> None
              | Some (f, s3) \<Rightarrow>
                  (case exponent_part s3 of
                     None \<Rightarrow> None
                   | Some (e, s4) \<Rightarrow>
                       (let q = (of_nat (digits_val ds) + f) * e in Some (if neg then - q else q, s4))))"

section \<open>Values, arrays, objects\<close>

definition drop_prefix :: "string \<Rightarrow> string \<Rightarrow> string option" where
  "drop_prefix p s = (if take (length p) s = p then Some (drop (length p) s) else None)"

fun json_value :: "nat \<Rightarrow> string \<Rightarrow> (js_value \<times> string) option"
  and json_elements :: "nat \<Rightarrow> string \<Rightarrow> (js_value list \<times> string) option"
  and json_members :: "nat \<Rightarrow> string \<Rightarrow> ((string \<times> js_value) list \<times> string) option" where
  "json_value 0 s = None"
| "json_value (Suc n) s =
     (case skip_ws s of
        [] \<Rightarrow> None
      | c # r \<Rightarrow>
          (if c = CHR 0x22 then map_option (\<lambda>(t, r'). (JString t, r')) (json_string (length r) r)
           else if c = CHR ''['' then
             (case skip_ws r of
                [] \<Rightarrow> None
              | d # r' \<Rightarrow> if d = CHR '']'' then Some (JArray [], r')
                         else map_option (\<lambda>(xs, r''). (JArray xs, r'')) (json_elements n r))
           else if c = CHR ''{'' then
             (case skip_ws r of
                [] \<Rightarrow> None
              | d # r' \<Rightarrow> if d = CHR ''}'' then Some (JObject [], r')
                         else map_option (\<lambda>(xs, r''). (JObject (new_Map xs), r'')) (json_members n r))
           else case drop_prefix ''true'' (c # r) of
                  Some r' \<Rightarrow> Some (JBool True, r')
                | None \<Rightarrow>
                    (case drop_prefix ''false'' (c # r) of
                       Some r' \<Rightarrow> Some (JBool False, r')
                     | None \<Rightarrow>
                         (case drop_prefix ''null'' (c # r) of
                            Some r' \<Rightarrow> Some (JNull, r')
                          | None \<Rightarrow> map_option (\<lambda>(q, r'). (JNumber (Fin q), r')) (json_number (c # r))))))"
| "json_elements 0 s = None"
| "json_elements (Suc n) s =
     (case json_value n s of
        None \<Rightarrow> None
      | Some (v, r) \<Rightarrow>
          (case skip_ws r of
             [] \<Rightarrow> None
           | c # r' \<Rightarrow>
               if c = CHR '']'' then Some ([v], r')
               else if c = CHR '','' then map_option (\<lambda>(vs, t). (v # vs, t)) (json_elements n r')
               else None))"
| "json_members 0 s = None"
| "json_members (Suc n) s =
     (case skip_ws s of
        [] \<Rightarrow> None
      | q # s1 \<Rightarrow>
          (if q \<noteq> CHR 0x22 then None
           else case json_string (length s1) s1 of
                  None \<Rightarrow> None
                | Some (k, s2) \<Rightarrow>
                    (case skip_ws s2 of
                       [] \<Rightarrow> None
                     | c # s3 \<Rightarrow>
                         (if c \<noteq> CHR '':'' then None
                          else case json_value n s3 of
                                 None \<Rightarrow> None
                               | Some (v, r) \<Rightarrow>
                                   (case skip_ws r of
                                      [] \<Rightarrow> None
                                    | d # r' \<Rightarrow>
                                        if d = CHR ''}'' then Some ([(k, v)], r')
                                        else if d = CHR '','' then
                                          map_option (\<lambda>(kvs, t). ((k, v) # kvs, t)) (json_members n r')
                                        else None)))))"

text \<open>\<open>JSON.parse\<close>: \<open>None\<close> is the exception.\<close>

definition JSON_parse :: "string \<Rightarrow> js_value option" where
  "JSON_parse s =
     (case json_value (2 * length s + 2) s of
        Some (v, r) \<Rightarrow> if skip_ws r = [] then Some v else None
      | None \<Rightarrow> None)"

section \<open>Number tests\<close>

fun isSafeInteger :: "js_number \<Rightarrow> bool" where
  "isSafeInteger (Fin q) = (of_int \<lfloor>q\<rfloor> = q \<and> \<bar>\<lfloor>q\<rfloor>\<bar> \<le> 9007199254740991)"
| "isSafeInteger _ = False"

section \<open>The fuel is enough\<close>

lemma json_string_shorter: "json_string n s = Some (t, r) \<Longrightarrow> length r \<le> length s"
proof (induction n s arbitrary: t r rule: json_string.induct)
  case (3 n c s)
  have hex: "hex4 a = Some (k, b) \<Longrightarrow> length b \<le> length a" for a k b
    by (cases a rule: hex4.cases) (auto split: option.splits)
  have esc: "unicode_escape a = Some (k, b) \<Longrightarrow> length b \<le> length a" for a k b
    by (auto simp: unicode_escape_def split: option.splits list.splits if_splits dest!: hex)
  from 3 show ?case
    by (auto split: if_splits list.splits option.splits dest!: esc) (fastforce dest: le_SucI le_trans)+
qed simp_all

lemma dropWhile_shorter: "dropWhile P s = c # r \<Longrightarrow> length r < length s"
  using length_dropWhile_le [of P s] by simp

lemma skip_ws_shorter: "skip_ws s = c # r \<Longrightarrow> length r < length s"
  unfolding skip_ws_def by (rule dropWhile_shorter)

lemma take_digits_shorter: "take_digits s = (ds, r) \<Longrightarrow> length r \<le> length s"
  by (auto simp: take_digits_def length_dropWhile_le)

lemma fraction_part_shorter: "fraction_part s = Some (f, r) \<Longrightarrow> length r \<le> length s"
  by (auto simp: fraction_part_def split: list.splits if_splits prod.splits dest!: take_digits_shorter)

lemma exponent_part_shorter: "exponent_part s = Some (e, r) \<Longrightarrow> length r \<le> length s"
  by (auto simp: exponent_part_def Let_def split: list.splits if_splits prod.splits dest!: take_digits_shorter)

lemma json_number_shorter: "json_number s = Some (q, r) \<Longrightarrow> length r \<le> length s"
  unfolding json_number_def Let_def
  by (auto split: list.splits if_splits prod.splits option.splits
      dest!: take_digits_shorter fraction_part_shorter exponent_part_shorter)

lemma drop_prefix_shorter: "drop_prefix p s = Some r \<Longrightarrow> length r \<le> length s"
  by (auto simp: drop_prefix_def split: if_splits)

lemmas json_shorter = json_string_shorter skip_ws_shorter json_number_shorter drop_prefix_shorter

lemma json_value_shorter:
  "json_value n s = Some (v, r) \<Longrightarrow> length r \<le> length s"
  "json_elements n s = Some (vs, r) \<Longrightarrow> length r \<le> length s"
  "json_members n s = Some (kvs, r) \<Longrightarrow> length r \<le> length s"
proof (induction n s and n s and n s arbitrary: v r and vs r and kvs r
    rule: json_value_json_elements_json_members.induct)
  case (2 n s)
  show ?case
  proof (cases "skip_ws s")
    case Nil with "2.prems" show ?thesis by simp
  next
    case (Cons c t)
    from 2 Cons skip_ws_shorter [OF Cons] show ?thesis
      by (auto split: if_splits list.splits option.splits dest!: json_shorter)
        (meson le_trans less_imp_le)+
  qed
next
  case (4 n s)
  then show ?case by (auto split: if_splits list.splits option.splits dest!: skip_ws_shorter)
    (meson le_trans less_imp_le)+
next
  case (6 n s)
  then show ?case
    by (auto split: if_splits list.splits option.splits dest!: json_string_shorter skip_ws_shorter)
      (meson le_trans less_imp_le)+
qed simp_all
text \<open>With fuel for the text that is left, one more unit changes nothing.\<close>

lemma json_fuel_Suc:
  "2 * length s + 1 \<le> n \<Longrightarrow> json_value (Suc n) s = json_value n s"
  "2 * length s + 2 \<le> n \<Longrightarrow> json_elements (Suc n) s = json_elements n s"
  "2 * length s + 2 \<le> n \<Longrightarrow> json_members (Suc n) s = json_members n s"
proof (induction n s and n s and n s rule: json_value_json_elements_json_members.induct)
  case (2 n s)
  show ?case
  proof (cases "skip_ws s")
    case Nil then show ?thesis by simp
  next
    case (Cons c t)
    then have "2 * length t + 2 \<le> n" using "2.prems" skip_ws_shorter [OF Cons] by simp
    with 2 Cons show ?thesis by (simp split: list.splits)
  qed
next
  case (4 n s)
  have v: "json_value (Suc n) s = json_value n s" using 4 by simp
  show ?case
  proof (cases "json_value n s")
    case (Some p)
    obtain x r where p: "p = (x, r)" by (cases p)
    show ?thesis
    proof (cases "skip_ws r")
      case (Cons c r')
      have "2 * length r' + 2 \<le> n"
        using "4.prems" skip_ws_shorter [OF Cons] json_value_shorter(1) [OF Some [unfolded p]] by simp
      with 4 Some p Cons v show ?thesis by simp
    qed (use Some p v in simp)
  qed (use v in simp)
next
  case (6 n s)
  show ?case
  proof (cases "skip_ws s")
    case s1: (Cons q s1)
    show ?thesis
    proof (cases "json_string (length s1) s1")
      case str: (Some p)
      obtain k s2 where p: "p = (k, s2)" by (cases p)
      show ?thesis
      proof (cases "skip_ws s2")
        case s3: (Cons c s3)
        have len: "length s3 < length s"
          using skip_ws_shorter [OF s1] skip_ws_shorter [OF s3] json_string_shorter [OF str [unfolded p]] by simp
        show ?thesis
        proof (cases "q = CHR 0x22 \<and> c = CHR '':''")
          case True
          then have v: "json_value (Suc n) s3 = json_value n s3"
            using "6.IH"(1) [OF s1 _ str p [symmetric] s3] len "6.prems" by simp
          show ?thesis
          proof (cases "json_value n s3")
            case val: (Some w)
            obtain x r where w: "w = (x, r)" by (cases w)
            show ?thesis
            proof (cases "skip_ws r")
              case r': (Cons d r')
              have "2 * length r' + 2 \<le> n"
                using "6.prems" len skip_ws_shorter [OF r'] json_value_shorter(1) [OF val [unfolded w]] by simp
              with "6.IH"(2) [OF s1 _ str p [symmetric] s3 _ val w [symmetric] r'] True
              have "d = CHR '','' \<Longrightarrow> json_members (Suc n) r' = json_members n r'" by simp
              with s1 str p s3 True v val w r' show ?thesis by simp
            qed (use s1 str p s3 True v val w in simp)
          qed (use s1 str p s3 True v in simp)
        qed (use s1 str p s3 in auto)
      qed (use s1 str p in simp)
    qed (use s1 in simp)
  qed simp
qed simp_all

lemma json_value_fuel: "2 * length s + 1 \<le> n \<Longrightarrow> json_value n s = json_value (2 * length s + 1) s"
proof (induction n rule: dec_induct)
  case (step n)
  then show ?case using json_fuel_Suc(1) [of s n] by simp
qed simp

end
