(* ===== verification/Core_Nodes.thy ===== *)
theory Core_Nodes
  imports Core_Primitives Prelude_Json
begin

text \<open>
  \<open>packages/core/src/nodes\<close> and \<open>coordination/heartbeat.ts\<close>: the entities of the
  collaboration world. Record fields carry a prefix per entity; optional fields are options.
\<close>

section \<open>Participants (participant.ts)\<close>

datatype actor_kind = Human | Agent | Tool | Reviewer | Runtime | Environment

definition ACTOR_KINDS :: "actor_kind list" where
  "ACTOR_KINDS = [Human, Agent, Tool, Reviewer, Runtime, Environment]"

fun actor_kind_name :: "actor_kind \<Rightarrow> string" where
  "actor_kind_name Human = ''human''"
| "actor_kind_name Agent = ''agent''"
| "actor_kind_name Tool = ''tool''"
| "actor_kind_name Reviewer = ''reviewer''"
| "actor_kind_name Runtime = ''runtime''"
| "actor_kind_name Environment = ''environment''"

datatype participation_status = Registered | Active | Waiting | Blocked | Done | Retired

definition PARTICIPATION_STATUSES :: "participation_status list" where
  "PARTICIPATION_STATUSES = [Registered, Active, Waiting, Blocked, Done, Retired]"

fun status_name :: "participation_status \<Rightarrow> string" where
  "status_name Registered = ''registered''"
| "status_name Active = ''active''"
| "status_name Waiting = ''waiting''"
| "status_name Blocked = ''blocked''"
| "status_name Done = ''done''"
| "status_name Retired = ''retired''"

record participant =
  p_actorId :: actor_id
  p_kind :: actor_kind
  p_status :: participation_status
  p_namespaceId :: "namespace_id option"
  p_manifestRef :: "content_ref option"

record actor_ref =
  ar_actorId :: actor_id
  ar_kind :: actor_kind

text \<open>The constructor function: the namespace argument defaults to the default namespace.\<close>

definition mk_participant ::
  "actor_id \<Rightarrow> actor_kind \<Rightarrow> participation_status \<Rightarrow> content_ref option \<Rightarrow> namespace_id option \<Rightarrow> participant" where
  "mk_participant a k s manifest ns =
     \<lparr>p_actorId = a, p_kind = k, p_status = s,
      p_namespaceId = Some (case ns of None \<Rightarrow> DEFAULT_NAMESPACE_ID | Some n \<Rightarrow> n),
      p_manifestRef = manifest\<rparr>"

definition actorRef :: "actor_id \<Rightarrow> actor_kind \<Rightarrow> actor_ref" where
  "actorRef a k = \<lparr>ar_actorId = a, ar_kind = k\<rparr>"

datatype resolve_error =
    NotFound actor_id
  | KindMismatch actor_id (km_expected: actor_kind) (km_actual: actor_kind)

definition resolveActorRef ::
  "actor_ref \<Rightarrow> (actor_id, participant) jsmap \<Rightarrow> resolve_error + participant" where
  "resolveActorRef ref participants =
     (case map_get participants (ar_actorId ref) of
        None \<Rightarrow> Inl (NotFound (ar_actorId ref))
      | Some found \<Rightarrow>
          (if p_kind found \<noteq> ar_kind ref
           then Inl (KindMismatch (ar_actorId ref) (ar_kind ref) (p_kind found))
           else Inr found))"

definition lookupParticipantById ::
  "actor_id \<Rightarrow> (actor_id, participant) jsmap \<Rightarrow> participant option" where
  "lookupParticipantById a participants = map_get participants a"

section \<open>Work artifacts (workArtifact.ts)\<close>

datatype artifact_lifecycle = LProposed | LActive | LReviewable | LPublished | LRetired

record work_artifact =
  wa_artifactId :: artifact_id
  wa_kind :: string
  wa_contentRef :: content_ref
  wa_owner :: actor_ref
  wa_lifecycle :: artifact_lifecycle

definition workArtifact ::
  "artifact_id \<Rightarrow> string \<Rightarrow> content_ref \<Rightarrow> actor_ref \<Rightarrow> artifact_lifecycle option \<Rightarrow> work_artifact" where
  "workArtifact i k c own lc =
     \<lparr>wa_artifactId = i, wa_kind = k, wa_contentRef = c, wa_owner = own,
      wa_lifecycle = (case lc of None \<Rightarrow> LProposed | Some l \<Rightarrow> l)\<rparr>"

definition withArtifactLifecycle :: "work_artifact \<Rightarrow> artifact_lifecycle \<Rightarrow> work_artifact" where
  "withArtifactLifecycle a l = a\<lparr>wa_lifecycle := l\<rparr>"

definition withArtifactOwner :: "work_artifact \<Rightarrow> actor_ref \<Rightarrow> work_artifact" where
  "withArtifactOwner a own = a\<lparr>wa_owner := own\<rparr>"

section \<open>Links (collaborationLink.ts)\<close>

datatype link_kind = DependsOn | WaitsFor | Supplies | Reviews | DelegatesTo | ParallelWith | NestedIn

datatype link_endpoint = EndParticipant actor_id | EndArtifact artifact_id

record collaboration_link =
  ln_linkId :: link_id
  ln_kind :: link_kind
  ln_from :: link_endpoint
  ln_to :: link_endpoint

definition collaborationLink ::
  "link_id \<Rightarrow> link_kind \<Rightarrow> link_endpoint \<Rightarrow> link_endpoint \<Rightarrow> collaboration_link" where
  "collaborationLink i k f t = \<lparr>ln_linkId = i, ln_kind = k, ln_from = f, ln_to = t\<rparr>"

section \<open>Sessions (communicationSession.ts)\<close>

datatype session_visibility = SPrivate | SShared

record communication_session =
  se_sessionId :: session_id
  se_controller :: actor_id
  se_participants :: "actor_id list"
  se_visibility :: session_visibility

definition communicationSession ::
  "session_id \<Rightarrow> actor_id \<Rightarrow> actor_id list \<Rightarrow> session_visibility option \<Rightarrow> communication_session" where
  "communicationSession i c ps v =
     \<lparr>se_sessionId = i, se_controller = c, se_participants = ps,
      se_visibility = (case v of None \<Rightarrow> SPrivate | Some x \<Rightarrow> x)\<rparr>"

section \<open>Capabilities (scopedCapability.ts)\<close>

datatype capability_kind = WriteLock | BudgetSlot | ApprovalSlot | ToolLease | TranscriptRead

datatype capability_scope =
    ScopeArtifact artifact_id
  | ScopeSession session_id
  | ScopeTranscript actor_id namespace_id

record scoped_capability =
  sc_capabilityId :: capability_id
  sc_kind :: capability_kind
  sc_holder :: actor_id
  sc_scope :: capability_scope

definition scopedCapability ::
  "capability_id \<Rightarrow> capability_kind \<Rightarrow> actor_id \<Rightarrow> capability_scope \<Rightarrow> scoped_capability" where
  "scopedCapability i k h sc = \<lparr>sc_capabilityId = i, sc_kind = k, sc_holder = h, sc_scope = sc\<rparr>"

definition withCapabilityHolder :: "scoped_capability \<Rightarrow> actor_id \<Rightarrow> scoped_capability" where
  "withCapabilityHolder c h = c\<lparr>sc_holder := h\<rparr>"

section \<open>Policy context (policyContext.ts)\<close>

datatype approval_state =
    ApprovalNone
  | AwaitingReview "string list"
  | Approved string
  | Rejected string

datatype retry_state = RetryIdle | AwaitingFeedback int | Exhausted

record policy_context =
  pc_approvalState :: approval_state
  pc_retryState :: retry_state

definition emptyPolicyContext :: policy_context where
  "emptyPolicyContext = \<lparr>pc_approvalState = ApprovalNone, pc_retryState = RetryIdle\<rparr>"

definition withApprovalState :: "policy_context \<Rightarrow> approval_state \<Rightarrow> policy_context" where
  "withApprovalState c a = c\<lparr>pc_approvalState := a\<rparr>"

section \<open>Observations (observationEntry.ts)\<close>

record observation_entry =
  ob_sequenceNo :: sequence_no
  ob_source :: actor_ref
  ob_payloadRef :: content_ref
  ob_receivedAt :: timestamp

definition observationEntry ::
  "sequence_no \<Rightarrow> actor_ref \<Rightarrow> content_ref \<Rightarrow> timestamp \<Rightarrow> observation_entry" where
  "observationEntry n src payload t =
     \<lparr>ob_sequenceNo = n, ob_source = src, ob_payloadRef = payload, ob_receivedAt = t\<rparr>"

definition padStart :: "nat \<Rightarrow> char \<Rightarrow> string \<Rightarrow> string" where
  "padStart n c s = replicate (n - length s) c @ s"

definition formatObservationLabel :: "sequence_no \<Rightarrow> string" where
  "formatObservationLabel n = ''Obs#'' @ padStart 3 (CHR ''0'') (show_int n)"

section \<open>Tombstones (entityTombstone.ts)\<close>

datatype retired_entity_kind = RKParticipant | RKSession | RKCapability | RKLink | RKArtifact

record entity_tombstone =
  et_entityId :: string
  et_entityKind :: retired_entity_kind
  et_retiredAt :: timestamp
  et_reasonRef :: "string option"

definition entityTombstone ::
  "string \<Rightarrow> retired_entity_kind \<Rightarrow> timestamp \<Rightarrow> string option \<Rightarrow> entity_tombstone" where
  "entityTombstone i k t reason =
     \<lparr>et_entityId = i, et_entityKind = k, et_retiredAt = t, et_reasonRef = reason\<rparr>"

section \<open>Heartbeats (heartbeat.ts)\<close>

record heartbeat_entry =
  hb_agentId :: actor_id
  hb_sequenceNo :: int
  hb_emittedAt :: string
  hb_turnCount :: int
  hb_lastAction :: string

type_synonym heartbeat_log = "heartbeat_entry list"

definition nextHeartbeatSeq :: "heartbeat_log \<Rightarrow> actor_id \<Rightarrow> int" where
  "nextHeartbeatSeq hlog a =
     fold (\<lambda>e mx. if hb_agentId e = a \<and> hb_sequenceNo e > mx then hb_sequenceNo e else mx) hlog 0 + 1"

definition heartbeatsForAgent :: "heartbeat_log \<Rightarrow> actor_id \<Rightarrow> heartbeat_log" where
  "heartbeatsForAgent hlog a = filter (\<lambda>e. hb_agentId e = a) hlog"

definition latestHeartbeat :: "heartbeat_log \<Rightarrow> actor_id \<Rightarrow> heartbeat_entry option" where
  "latestHeartbeat hlog a =
     fold (\<lambda>e latest.
        if hb_agentId e = a then
          (case latest of
             None \<Rightarrow> Some e
           | Some l \<Rightarrow> if hb_sequenceNo e > hb_sequenceNo l then Some e else latest)
        else latest) hlog None"

section \<open>Namespaces (collaborationNamespace.ts)\<close>

record collaboration_namespace =
  cn_namespaceId :: namespace_id
  cn_displayName :: string
  cn_adminPrincipals :: "actor_id list"

definition collaborationNamespace ::
  "namespace_id \<Rightarrow> string \<Rightarrow> actor_id list \<Rightarrow> collaboration_namespace" where
  "collaborationNamespace i n admins =
     \<lparr>cn_namespaceId = i, cn_displayName = n, cn_adminPrincipals = admins\<rparr>"

definition DEFAULT_NAMESPACE :: collaboration_namespace where
  "DEFAULT_NAMESPACE = collaborationNamespace DEFAULT_NAMESPACE_ID ''default'' []"

definition resolveNamespaceId :: "namespace_id option \<Rightarrow> namespace_id" where
  "resolveNamespaceId v = (case v of None \<Rightarrow> DEFAULT_NAMESPACE_ID | Some n \<Rightarrow> n)"

section \<open>Transcripts (participantTranscript.ts, transcriptAccessRequest.ts)\<close>

text \<open>
  The tool calls of a message are kept as the JSON value they were parsed from: no operation
  validates or reads them (a \<open>TranscriptToolCall\<close> is an object with the string properties
  \<open>id\<close>, \<open>name\<close>, \<open>arguments\<close>).
\<close>

datatype transcript_message =
    MSystem (m_content: string)
  | MUser (m_content: string)
  | MAssistant (m_content: string) (m_toolCalls: "js_value option")
  | MTool (m_toolCallId: string) (m_content: string)

record participant_transcript =
  pt_actorId :: actor_id
  pt_namespaceId :: namespace_id
  pt_messages :: "transcript_message list"
  pt_revision :: int

definition participantTranscript ::
  "actor_id \<Rightarrow> transcript_message list \<Rightarrow> namespace_id option \<Rightarrow> int option \<Rightarrow> participant_transcript" where
  "participantTranscript a ms ns rv =
     \<lparr>pt_actorId = a, pt_namespaceId = (case ns of None \<Rightarrow> DEFAULT_NAMESPACE_ID | Some n \<Rightarrow> n),
      pt_messages = ms, pt_revision = (case rv of None \<Rightarrow> 0 | Some r \<Rightarrow> r)\<rparr>"

text \<open>The summary keeps the role and the length of the content, for a tool row neither.\<close>

definition content_summary :: "string \<Rightarrow> string \<Rightarrow> string" where
  "content_summary role content = ''['' @ role @ '' '' @ show_nat (length content) @ '' chars]''"

fun summarizeMessage :: "transcript_message \<Rightarrow> transcript_message" where
  "summarizeMessage (MTool i c) = MTool i ''[redacted]''"
| "summarizeMessage (MSystem c) = MSystem (content_summary ''system'' c)"
| "summarizeMessage (MUser c) = MUser (content_summary ''user'' c)"
| "summarizeMessage (MAssistant c calls) = MAssistant (content_summary ''assistant'' c) None"

definition summarizeTranscript :: "participant_transcript \<Rightarrow> participant_transcript" where
  "summarizeTranscript t = t\<lparr>pt_messages := map summarizeMessage (pt_messages t)\<rparr>"

datatype transcript_access_status = AccessRequested | AccessApproved | AccessDenied | AccessRevoked

record transcript_access_request =
  ta_requestId :: transcript_access_request_id
  ta_requester :: actor_ref
  ta_subjectActorId :: actor_id
  ta_subjectNamespaceId :: namespace_id
  ta_status :: transcript_access_status
  ta_decidedBy :: "actor_ref option"

definition transcriptAccessRequest ::
  "transcript_access_request_id \<Rightarrow> actor_ref \<Rightarrow> actor_id \<Rightarrow> namespace_id \<Rightarrow>
    transcript_access_status option \<Rightarrow> actor_ref option \<Rightarrow> transcript_access_request" where
  "transcriptAccessRequest i req subj ns st by =
     \<lparr>ta_requestId = i, ta_requester = req, ta_subjectActorId = subj, ta_subjectNamespaceId = ns,
      ta_status = (case st of None \<Rightarrow> AccessRequested | Some s \<Rightarrow> s), ta_decidedBy = by\<rparr>"

definition decideTranscriptAccess ::
  "transcript_access_request \<Rightarrow> actor_ref \<Rightarrow> transcript_access_status \<Rightarrow> transcript_access_request" where
  "decideTranscriptAccess r by st = r\<lparr>ta_status := st, ta_decidedBy := Some by\<rparr>"

definition canDecideTranscriptAccess :: "transcript_access_request \<Rightarrow> actor_id \<Rightarrow> bool" where
  "canDecideTranscriptAccess r a = (ta_subjectActorId r = a)"

section \<open>Lemmas\<close>

lemma resolveActorRef_ok:
  "resolveActorRef ref ps = Inr p \<longleftrightarrow> map_get ps (ar_actorId ref) = Some p \<and> p_kind p = ar_kind ref"
  by (auto simp: resolveActorRef_def split: option.splits)

lemma nextHeartbeatSeq_fold:
  "b \<le> fold (\<lambda>e mx. if hb_agentId e = a \<and> hb_sequenceNo e > mx then hb_sequenceNo e else mx) hlog b \<and>
   (\<forall>e\<in>set hlog. hb_agentId e = a \<longrightarrow> hb_sequenceNo e \<le>
      fold (\<lambda>e mx. if hb_agentId e = a \<and> hb_sequenceNo e > mx then hb_sequenceNo e else mx) hlog b)"
  (is "b \<le> fold ?f hlog b \<and> _")
proof (induction hlog arbitrary: b)
  case (Cons e hlog)
  have "b \<le> ?f e b" "hb_agentId e = a \<Longrightarrow> hb_sequenceNo e \<le> ?f e b" by auto
  with Cons.IH [of "?f e b"] show ?case by fastforce
qed simp

lemma nextHeartbeatSeq_fresh:
  "e \<in> set hlog \<Longrightarrow> hb_agentId e = a \<Longrightarrow> hb_sequenceNo e < nextHeartbeatSeq hlog a"
  using nextHeartbeatSeq_fold [of 0 a hlog] by (auto simp: nextHeartbeatSeq_def)

lemma nextHeartbeatSeq_pos: "1 \<le> nextHeartbeatSeq hlog a"
  using nextHeartbeatSeq_fold [of 0 a hlog] by (simp add: nextHeartbeatSeq_def)

end
