(* ===== verification/Core_Snapshot.thy ===== *)
theory Core_Snapshot
  imports Core_Nodes
begin

text \<open>
  \<open>packages/core/src/coordination/collaborationSnapshot.ts\<close> and \<open>observationStream.ts\<close>: the
  collaboration world, its immutable copies and its update helpers. \<open>Object.freeze\<close> has no
  effect on values, so a clone is the rebuilt record; \<open>cloneReadonlyMap\<close> rebuilds the Map
  from its entries. Freezing fills in the default namespace, of a participant and of the
  namespace table.
\<close>

section \<open>Immutable copies (immutable.ts)\<close>

definition cloneReadonlyMap :: "('v \<Rightarrow> 'v) \<Rightarrow> ('k, 'v) jsmap \<Rightarrow> ('k, 'v) jsmap" where
  "cloneReadonlyMap f m = new_Map (map (\<lambda>(k, v). (k, f v)) m)"

definition cloneReadonlySet :: "('v \<Rightarrow> 'v) \<Rightarrow> 'v list \<Rightarrow> 'v list" where
  "cloneReadonlySet f s = new_Set (map f s)"

definition cloneReadonlyArray :: "('v \<Rightarrow> 'v) \<Rightarrow> 'v list \<Rightarrow> 'v list" where
  "cloneReadonlyArray f xs = map f xs"

section \<open>The snapshot\<close>

record snapshot =
  sn_snapshotRef :: snapshot_ref
  sn_epochId :: epoch_id
  sn_participants :: "(actor_id, participant) jsmap"
  sn_artifacts :: "(artifact_id, work_artifact) jsmap"
  sn_links :: "(link_id, collaboration_link) jsmap"
  sn_sessions :: "(session_id, communication_session) jsmap"
  sn_capabilities :: "(capability_id, scoped_capability) jsmap"
  sn_policyContext :: policy_context
  sn_auditTail :: "observation_entry list"
  sn_retiredEntities :: "entity_tombstone list"
  sn_heartbeatLog :: heartbeat_log
  sn_namespaces :: "(namespace_id, collaboration_namespace) jsmap"
  sn_transcripts :: "(actor_id, participant_transcript) jsmap"
  sn_transcriptAccessRequests :: "(transcript_access_request_id, transcript_access_request) jsmap"

record snapshot_init =
  si_snapshotRef :: snapshot_ref
  si_epochId :: epoch_id
  si_participants :: "(actor_id, participant) jsmap option"
  si_artifacts :: "(artifact_id, work_artifact) jsmap option"
  si_links :: "(link_id, collaboration_link) jsmap option"
  si_sessions :: "(session_id, communication_session) jsmap option"
  si_capabilities :: "(capability_id, scoped_capability) jsmap option"
  si_policyContext :: "policy_context option"
  si_auditTail :: "observation_entry list option"
  si_retiredEntities :: "entity_tombstone list option"
  si_heartbeatLog :: "heartbeat_log option"
  si_namespaces :: "(namespace_id, collaboration_namespace) jsmap option"
  si_transcripts :: "(actor_id, participant_transcript) jsmap option"
  si_transcriptAccessRequests :: "(transcript_access_request_id, transcript_access_request) jsmap option"

section \<open>Clones\<close>

definition cloneActorRef :: "actor_ref \<Rightarrow> actor_ref" where
  "cloneActorRef r = \<lparr>ar_actorId = ar_actorId r, ar_kind = ar_kind r\<rparr>"

definition cloneParticipant :: "participant \<Rightarrow> participant" where
  "cloneParticipant v =
     \<lparr>p_actorId = p_actorId v, p_kind = p_kind v, p_status = p_status v,
      p_namespaceId = Some (case p_namespaceId v of None \<Rightarrow> DEFAULT_NAMESPACE_ID | Some n \<Rightarrow> n),
      p_manifestRef = p_manifestRef v\<rparr>"

definition cloneWorkArtifact :: "work_artifact \<Rightarrow> work_artifact" where
  "cloneWorkArtifact v =
     \<lparr>wa_artifactId = wa_artifactId v, wa_kind = wa_kind v, wa_contentRef = wa_contentRef v,
      wa_owner = cloneActorRef (wa_owner v), wa_lifecycle = wa_lifecycle v\<rparr>"

fun cloneLinkEndpoint :: "link_endpoint \<Rightarrow> link_endpoint" where
  "cloneLinkEndpoint (EndParticipant a) = EndParticipant a"
| "cloneLinkEndpoint (EndArtifact a) = EndArtifact a"

definition cloneCollaborationLink :: "collaboration_link \<Rightarrow> collaboration_link" where
  "cloneCollaborationLink v =
     \<lparr>ln_linkId = ln_linkId v, ln_kind = ln_kind v,
      ln_from = cloneLinkEndpoint (ln_from v), ln_to = cloneLinkEndpoint (ln_to v)\<rparr>"

definition cloneCommunicationSession :: "communication_session \<Rightarrow> communication_session" where
  "cloneCommunicationSession v =
     \<lparr>se_sessionId = se_sessionId v, se_controller = se_controller v,
      se_participants = cloneReadonlyArray (\<lambda>x. x) (se_participants v), se_visibility = se_visibility v\<rparr>"

fun cloneCapabilityScope :: "capability_scope \<Rightarrow> capability_scope" where
  "cloneCapabilityScope (ScopeArtifact a) = ScopeArtifact a"
| "cloneCapabilityScope (ScopeTranscript a n) = ScopeTranscript a n"
| "cloneCapabilityScope (ScopeSession s) = ScopeSession s"

definition cloneNamespace :: "collaboration_namespace \<Rightarrow> collaboration_namespace" where
  "cloneNamespace v =
     \<lparr>cn_namespaceId = cn_namespaceId v, cn_displayName = cn_displayName v,
      cn_adminPrincipals = cloneReadonlyArray (\<lambda>x. x) (cn_adminPrincipals v)\<rparr>"

definition cloneTranscript :: "participant_transcript \<Rightarrow> participant_transcript" where
  "cloneTranscript v =
     \<lparr>pt_actorId = pt_actorId v, pt_namespaceId = pt_namespaceId v,
      pt_messages = cloneReadonlyArray (\<lambda>m. m) (pt_messages v), pt_revision = pt_revision v\<rparr>"

definition cloneTranscriptAccessRequest :: "transcript_access_request \<Rightarrow> transcript_access_request" where
  "cloneTranscriptAccessRequest v =
     \<lparr>ta_requestId = ta_requestId v, ta_requester = cloneActorRef (ta_requester v),
      ta_subjectActorId = ta_subjectActorId v, ta_subjectNamespaceId = ta_subjectNamespaceId v,
      ta_status = ta_status v, ta_decidedBy = map_option cloneActorRef (ta_decidedBy v)\<rparr>"

definition cloneScopedCapability :: "scoped_capability \<Rightarrow> scoped_capability" where
  "cloneScopedCapability v =
     \<lparr>sc_capabilityId = sc_capabilityId v, sc_kind = sc_kind v, sc_holder = sc_holder v,
      sc_scope = cloneCapabilityScope (sc_scope v)\<rparr>"

fun cloneApprovalState :: "approval_state \<Rightarrow> approval_state" where
  "cloneApprovalState (AwaitingReview rs) = AwaitingReview (cloneReadonlyArray (\<lambda>x. x) rs)"
| "cloneApprovalState (Approved e) = Approved e"
| "cloneApprovalState (Rejected e) = Rejected e"
| "cloneApprovalState ApprovalNone = ApprovalNone"

fun cloneRetryState :: "retry_state \<Rightarrow> retry_state" where
  "cloneRetryState (AwaitingFeedback n) = AwaitingFeedback n"
| "cloneRetryState RetryIdle = RetryIdle"
| "cloneRetryState Exhausted = Exhausted"

definition clonePolicyContext :: "policy_context \<Rightarrow> policy_context" where
  "clonePolicyContext c =
     \<lparr>pc_approvalState = cloneApprovalState (pc_approvalState c), pc_retryState = cloneRetryState (pc_retryState c)\<rparr>"

definition cloneObservationEntry :: "observation_entry \<Rightarrow> observation_entry" where
  "cloneObservationEntry v =
     \<lparr>ob_sequenceNo = ob_sequenceNo v, ob_source = cloneActorRef (ob_source v),
      ob_payloadRef = ob_payloadRef v, ob_receivedAt = ob_receivedAt v\<rparr>"

definition cloneEntityTombstone :: "entity_tombstone \<Rightarrow> entity_tombstone" where
  "cloneEntityTombstone v =
     \<lparr>et_entityId = et_entityId v, et_entityKind = et_entityKind v, et_retiredAt = et_retiredAt v,
      et_reasonRef = et_reasonRef v\<rparr>"

definition cloneHeartbeatEntry :: "heartbeat_entry \<Rightarrow> heartbeat_entry" where
  "cloneHeartbeatEntry v =
     \<lparr>hb_agentId = hb_agentId v, hb_sequenceNo = hb_sequenceNo v, hb_emittedAt = hb_emittedAt v,
      hb_turnCount = hb_turnCount v, hb_lastAction = hb_lastAction v\<rparr>"

definition withDefaultNamespace ::
  "(namespace_id, collaboration_namespace) jsmap \<Rightarrow> (namespace_id, collaboration_namespace) jsmap" where
  "withDefaultNamespace namespaces =
     (let next = new_Map namespaces
      in if map_has next (cn_namespaceId DEFAULT_NAMESPACE) then next
         else map_set (cn_namespaceId DEFAULT_NAMESPACE) DEFAULT_NAMESPACE next)"

definition freezeSnapshot :: "snapshot \<Rightarrow> snapshot" where
  "freezeSnapshot s =
     \<lparr>sn_snapshotRef = sn_snapshotRef s,
      sn_epochId = sn_epochId s,
      sn_participants = cloneReadonlyMap cloneParticipant (sn_participants s),
      sn_artifacts = cloneReadonlyMap cloneWorkArtifact (sn_artifacts s),
      sn_links = cloneReadonlyMap cloneCollaborationLink (sn_links s),
      sn_sessions = cloneReadonlyMap cloneCommunicationSession (sn_sessions s),
      sn_capabilities = cloneReadonlyMap cloneScopedCapability (sn_capabilities s),
      sn_policyContext = clonePolicyContext (sn_policyContext s),
      sn_auditTail = cloneReadonlyArray cloneObservationEntry (sn_auditTail s),
      sn_retiredEntities = cloneReadonlyArray cloneEntityTombstone (sn_retiredEntities s),
      sn_heartbeatLog = cloneReadonlyArray cloneHeartbeatEntry (sn_heartbeatLog s),
      sn_namespaces = cloneReadonlyMap cloneNamespace (withDefaultNamespace (sn_namespaces s)),
      sn_transcripts = cloneReadonlyMap cloneTranscript (sn_transcripts s),
      sn_transcriptAccessRequests =
        cloneReadonlyMap cloneTranscriptAccessRequest (sn_transcriptAccessRequests s)\<rparr>"

text \<open>The \<open>??\<close> defaults of \<open>freezeSnapshot\<close>, for the initializer of \<open>collaborationSnapshot\<close>.\<close>

definition opt_default :: "'a \<Rightarrow> 'a option \<Rightarrow> 'a" where
  "opt_default d v = (case v of None \<Rightarrow> d | Some x \<Rightarrow> x)"

definition collaborationSnapshot :: "snapshot_init \<Rightarrow> snapshot" where
  "collaborationSnapshot init =
     freezeSnapshot
       \<lparr>sn_snapshotRef = si_snapshotRef init,
        sn_epochId = si_epochId init,
        sn_participants = opt_default [] (si_participants init),
        sn_artifacts = opt_default [] (si_artifacts init),
        sn_links = opt_default [] (si_links init),
        sn_sessions = opt_default [] (si_sessions init),
        sn_capabilities = opt_default [] (si_capabilities init),
        sn_policyContext = opt_default emptyPolicyContext (si_policyContext init),
        sn_auditTail = opt_default [] (si_auditTail init),
        sn_retiredEntities = opt_default [] (si_retiredEntities init),
        sn_heartbeatLog = opt_default [] (si_heartbeatLog init),
        sn_namespaces = opt_default [] (si_namespaces init),
        sn_transcripts = opt_default [] (si_transcripts init),
        sn_transcriptAccessRequests = opt_default [] (si_transcriptAccessRequests init)\<rparr>"

section \<open>Observation stream (observationStream.ts)\<close>

definition nextSequenceNo :: "observation_entry list \<Rightarrow> sequence_no" where
  "nextSequenceNo stream =
     (if length stream = 0 then 1
      else case arr_last stream of None \<Rightarrow> 1 | Some l \<Rightarrow> ob_sequenceNo l + 1)"

definition assertAppendOnlyOrder :: "observation_entry list \<Rightarrow> observation_entry \<Rightarrow> core_violation + unit" where
  "assertAppendOnlyOrder stream e =
     (let expected = nextSequenceNo stream
      in if ob_sequenceNo e \<noteq> expected
         then Inl (coreViolation ObservationSequenceInvalid
                (''Observation sequence mismatch: expected '' @ show_int expected @ '', got '' @
                   show_int (ob_sequenceNo e))
                (Some ''auditTail.sequenceNo'') (Some (show_int expected)) (Some (show_int (ob_sequenceNo e))))
         else Inr ())"

definition appendToObservationStream ::
  "observation_entry list \<Rightarrow> observation_entry \<Rightarrow> core_violation + observation_entry list" where
  "appendToObservationStream stream e =
     (case assertAppendOnlyOrder stream e of Inl v \<Rightarrow> Inl v | Inr _ \<Rightarrow> Inr (stream @ [e]))"

section \<open>Updates\<close>

text \<open>The entry is given without its number, which the snapshot assigns.\<close>

definition appendObservation ::
  "snapshot \<Rightarrow> actor_ref \<Rightarrow> content_ref \<Rightarrow> timestamp \<Rightarrow> core_violation + snapshot" where
  "appendObservation s source payload receivedAt =
     (let fullEntry = \<lparr>ob_sequenceNo = nextSequenceNo (sn_auditTail s), ob_source = source,
                       ob_payloadRef = payload, ob_receivedAt = receivedAt\<rparr>
      in case appendToObservationStream (sn_auditTail s) fullEntry of
           Inl v \<Rightarrow> Inl v
         | Inr tail \<Rightarrow> Inr (freezeSnapshot (s\<lparr>sn_auditTail := tail\<rparr>)))"

definition withParticipant :: "snapshot \<Rightarrow> participant \<Rightarrow> snapshot" where
  "withParticipant s p =
     freezeSnapshot (s\<lparr>sn_participants := map_set (p_actorId p) p (new_Map (sn_participants s))\<rparr>)"

definition withArtifact :: "snapshot \<Rightarrow> work_artifact \<Rightarrow> snapshot" where
  "withArtifact s a =
     freezeSnapshot (s\<lparr>sn_artifacts := map_set (wa_artifactId a) a (new_Map (sn_artifacts s))\<rparr>)"

definition withLink :: "snapshot \<Rightarrow> collaboration_link \<Rightarrow> snapshot" where
  "withLink s l = freezeSnapshot (s\<lparr>sn_links := map_set (ln_linkId l) l (new_Map (sn_links s))\<rparr>)"

definition withSession :: "snapshot \<Rightarrow> communication_session \<Rightarrow> snapshot" where
  "withSession s x = freezeSnapshot (s\<lparr>sn_sessions := map_set (se_sessionId x) x (new_Map (sn_sessions s))\<rparr>)"

definition withCapability :: "snapshot \<Rightarrow> scoped_capability \<Rightarrow> snapshot" where
  "withCapability s c =
     freezeSnapshot (s\<lparr>sn_capabilities := map_set (sc_capabilityId c) c (new_Map (sn_capabilities s))\<rparr>)"

definition withPolicyContext :: "snapshot \<Rightarrow> policy_context \<Rightarrow> snapshot" where
  "withPolicyContext s c = freezeSnapshot (s\<lparr>sn_policyContext := clonePolicyContext c\<rparr>)"

definition withRetiredEntity :: "snapshot \<Rightarrow> entity_tombstone \<Rightarrow> snapshot" where
  "withRetiredEntity s t = freezeSnapshot (s\<lparr>sn_retiredEntities := sn_retiredEntities s @ [t]\<rparr>)"

definition withSnapshotRef :: "snapshot \<Rightarrow> snapshot_ref \<Rightarrow> snapshot" where
  "withSnapshotRef s r = freezeSnapshot (s\<lparr>sn_snapshotRef := r\<rparr>)"

definition appendHeartbeat :: "snapshot \<Rightarrow> heartbeat_entry \<Rightarrow> snapshot" where
  "appendHeartbeat s e = freezeSnapshot (s\<lparr>sn_heartbeatLog := sn_heartbeatLog s @ [e]\<rparr>)"

definition withNamespace :: "snapshot \<Rightarrow> collaboration_namespace \<Rightarrow> snapshot" where
  "withNamespace s n =
     freezeSnapshot (s\<lparr>sn_namespaces := map_set (cn_namespaceId n) n (new_Map (sn_namespaces s))\<rparr>)"

definition withTranscript :: "snapshot \<Rightarrow> participant_transcript \<Rightarrow> snapshot" where
  "withTranscript s t =
     freezeSnapshot (s\<lparr>sn_transcripts := map_set (pt_actorId t) t (new_Map (sn_transcripts s))\<rparr>)"

definition withTranscriptAccessRequest :: "snapshot \<Rightarrow> transcript_access_request \<Rightarrow> snapshot" where
  "withTranscriptAccessRequest s r =
     freezeSnapshot (s\<lparr>sn_transcriptAccessRequests :=
       map_set (ta_requestId r) r (new_Map (sn_transcriptAccessRequests s))\<rparr>)"

section \<open>Frozen snapshots\<close>

text \<open>
  A frozen snapshot: Maps without duplicate keys, a namespace on every participant, the
  default namespace registered. Freezing establishes it and is the identity on it, so on
  frozen snapshots the update helpers are plain field updates (\<open>snapshot_updates\<close>).
\<close>

named_theorems snapshot_updates \<open>update helpers as field updates of a frozen snapshot\<close>

definition frozen :: "snapshot \<Rightarrow> bool" where
  "frozen s \<longleftrightarrow>
     map_wf (sn_participants s) \<and> map_wf (sn_artifacts s) \<and> map_wf (sn_links s) \<and>
     map_wf (sn_sessions s) \<and> map_wf (sn_capabilities s) \<and> map_wf (sn_namespaces s) \<and>
     map_wf (sn_transcripts s) \<and> map_wf (sn_transcriptAccessRequests s) \<and>
     list_all (\<lambda>p. p_namespaceId p \<noteq> None) (map_values (sn_participants s)) \<and>
     map_has (sn_namespaces s) DEFAULT_NAMESPACE_ID"

lemma clone_id [simp]:
  "cloneActorRef r = r" "cloneWorkArtifact a = a" "cloneLinkEndpoint e = e" "cloneCollaborationLink l = l"
  "cloneCommunicationSession x = x" "cloneCapabilityScope c = c" "cloneScopedCapability cap = cap"
  "cloneNamespace n = n" "cloneTranscript t = t" "cloneTranscriptAccessRequest q = q"
  "cloneApprovalState ap = ap" "cloneRetryState rt = rt" "clonePolicyContext pc = pc"
  "cloneObservationEntry ob = ob" "cloneEntityTombstone et = et" "cloneHeartbeatEntry hb = hb"
proof -
  show 1: "cloneActorRef r = r" for r by (simp add: cloneActorRef_def)
  show 2: "cloneLinkEndpoint e = e" for e by (cases e) auto
  show 3: "cloneCapabilityScope c = c" for c by (cases c) auto
  show 4: "cloneApprovalState ap = ap" for ap by (cases ap) (auto simp: cloneReadonlyArray_def)
  show 5: "cloneRetryState rt = rt" for rt by (cases rt) auto
  have [simp]: "cloneActorRef = (\<lambda>r. r)" using 1 by blast
  show "cloneWorkArtifact a = a" "cloneCollaborationLink l = l" "cloneCommunicationSession x = x"
    "cloneScopedCapability cap = cap" "cloneNamespace n = n" "cloneTranscript t = t"
    "cloneTranscriptAccessRequest q = q" "clonePolicyContext pc = pc" "cloneObservationEntry ob = ob"
    "cloneEntityTombstone et = et" "cloneHeartbeatEntry hb = hb"
    by (simp_all add: cloneWorkArtifact_def cloneCollaborationLink_def cloneCommunicationSession_def
        cloneScopedCapability_def cloneNamespace_def cloneTranscript_def cloneTranscriptAccessRequest_def
        clonePolicyContext_def cloneObservationEntry_def cloneEntityTombstone_def cloneHeartbeatEntry_def
        cloneReadonlyArray_def 2 3 4 5 option.map_ident)
qed

lemma clone_id_fun [simp]:
  "cloneWorkArtifact = (\<lambda>x. x)" "cloneCollaborationLink = (\<lambda>x. x)" "cloneCommunicationSession = (\<lambda>x. x)"
  "cloneScopedCapability = (\<lambda>x. x)" "cloneNamespace = (\<lambda>x. x)" "cloneTranscript = (\<lambda>x. x)"
  "cloneTranscriptAccessRequest = (\<lambda>x. x)" "cloneObservationEntry = (\<lambda>x. x)"
  "cloneEntityTombstone = (\<lambda>x. x)" "cloneHeartbeatEntry = (\<lambda>x. x)"
  by (rule ext, simp)+

lemma cloneParticipant_simps [simp]:
  "p_actorId (cloneParticipant p) = p_actorId p" "p_kind (cloneParticipant p) = p_kind p"
  "p_status (cloneParticipant p) = p_status p" "p_manifestRef (cloneParticipant p) = p_manifestRef p"
  "p_namespaceId (cloneParticipant p) = Some (resolveNamespaceId (p_namespaceId p))"
  by (simp_all add: cloneParticipant_def resolveNamespaceId_def)

lemma cloneParticipant_id: "p_namespaceId p \<noteq> None \<Longrightarrow> cloneParticipant p = p"
  by (auto simp: cloneParticipant_def)

lemma cloneParticipant_idem [simp]: "cloneParticipant (cloneParticipant p) = cloneParticipant p"
  by (rule cloneParticipant_id) simp

lemma mk_participant_cloned [simp]: "cloneParticipant (mk_participant a k s m n) = mk_participant a k s m n"
  by (rule cloneParticipant_id) (simp add: mk_participant_def)

lemma cloneReadonlyMap_id [simp]: "map_wf m \<Longrightarrow> cloneReadonlyMap (\<lambda>x. x) m = m"
  by (simp add: cloneReadonlyMap_def)

lemma cloneReadonlyMap_wf [simp]: "map_wf (cloneReadonlyMap f m)"
  by (simp add: cloneReadonlyMap_def)

lemma cloneReadonlyArray_id [simp]: "cloneReadonlyArray (\<lambda>x. x) xs = xs"
  by (simp add: cloneReadonlyArray_def)

lemma cloneReadonlyMap_eq: "map_wf m \<Longrightarrow> cloneReadonlyMap f m = map (\<lambda>(k, v). (k, f v)) m"
  by (simp add: cloneReadonlyMap_def map_wf_map)

lemma map_set_values: "set (map_values (map_set k v m)) \<subseteq> insert v (set (map_values m))"
  unfolding map_set_def map_values_def by (induction m) auto

lemma new_Map_values: "set (map_values (new_Map xs)) \<subseteq> snd ` set xs"
proof -
  have "set (map_values (fold (\<lambda>(k, v) m. map_set k v m) xs m)) \<subseteq> snd ` set xs \<union> set (map_values m)" for m
  proof (induction xs arbitrary: m)
    case (Cons x xs)
    obtain k v where x: "x = (k, v)" by (cases x)
    from Cons.IH [of "map_set k v m"] map_set_values [of k v m] show ?case by (auto simp: x)
  qed simp
  from this [of "[]"] show ?thesis by (simp add: new_Map_def map_values_def)
qed

lemma participants_cloned:
  "list_all (\<lambda>p. p_namespaceId p \<noteq> None) (map_values (cloneReadonlyMap cloneParticipant m))"
proof -
  have "set (map_values (cloneReadonlyMap cloneParticipant m)) \<subseteq> cloneParticipant ` snd ` set m"
    unfolding cloneReadonlyMap_def by (rule order_trans [OF new_Map_values]) (auto intro: rev_image_eqI)
  then show ?thesis by (auto simp: list_all_iff dest!: subsetD)
qed

lemma participants_fixed:
  assumes "map_wf m" and "list_all (\<lambda>p. p_namespaceId p \<noteq> None) (map_values m)"
  shows "cloneReadonlyMap cloneParticipant m = m"
  using assms unfolding cloneReadonlyMap_eq [OF assms(1)]
  by (intro map_idI) (auto simp: list_all_iff map_values_def intro!: cloneParticipant_id)

lemma withDefaultNamespace_has: "map_has (withDefaultNamespace m) DEFAULT_NAMESPACE_ID"
  by (simp add: withDefaultNamespace_def Let_def DEFAULT_NAMESPACE_def collaborationNamespace_def jsmap_simps)

lemma withDefaultNamespace_wf [simp]: "map_wf (withDefaultNamespace m)"
  by (simp add: withDefaultNamespace_def Let_def jsmap_wf)

lemma withDefaultNamespace_id: "map_wf m \<Longrightarrow> map_has m DEFAULT_NAMESPACE_ID \<Longrightarrow> withDefaultNamespace m = m"
  by (simp add: withDefaultNamespace_def Let_def DEFAULT_NAMESPACE_def collaborationNamespace_def)

lemma frozen_freezeSnapshot [simp]: "frozen (freezeSnapshot s)"
  by (simp add: frozen_def freezeSnapshot_def participants_cloned [simplified] withDefaultNamespace_has)

lemma freezeSnapshot_id: "frozen s \<Longrightarrow> freezeSnapshot s = s"
  by (simp add: frozen_def freezeSnapshot_def participants_fixed withDefaultNamespace_id)

lemma freezeSnapshot_idem [simp]: "freezeSnapshot (freezeSnapshot s) = freezeSnapshot s"
  by (simp add: freezeSnapshot_id)

lemma frozen_participant:
  assumes "frozen s"
  shows "frozen (s\<lparr>sn_participants := map_set k (cloneParticipant p) (sn_participants s)\<rparr>)"
proof -
  have "set (map_values (map_set k (cloneParticipant p) (sn_participants s)))
      \<subseteq> insert (cloneParticipant p) (set (map_values (sn_participants s)))" by (rule map_set_values)
  with assms show ?thesis by (fastforce simp: frozen_def list_all_iff map_wf_set)
qed

lemma withParticipant_frozen [snapshot_updates]:
  assumes "frozen s"
  shows "withParticipant s p = s\<lparr>sn_participants := map_set (p_actorId p) (cloneParticipant p) (sn_participants s)\<rparr>"
proof -
  have wf: "map_wf (sn_participants s)" using assms by (simp add: frozen_def)
  have "cloneReadonlyMap cloneParticipant (map_set (p_actorId p) p (sn_participants s)) =
      map_set (p_actorId p) (cloneParticipant p) (map (\<lambda>(k, v). (k, cloneParticipant v)) (sn_participants s))"
    using wf by (simp add: cloneReadonlyMap_eq map_wf_set map_set_map)
  also have "map (\<lambda>(k, v). (k, cloneParticipant v)) (sn_participants s) = sn_participants s"
    using assms participants_fixed [of "sn_participants s"] cloneReadonlyMap_eq [OF wf, of cloneParticipant]
    by (simp add: frozen_def)
  finally show ?thesis
    using assms wf by (simp add: withParticipant_def freezeSnapshot_def frozen_def withDefaultNamespace_id)
qed

lemma with_frozen [snapshot_updates]:
  assumes "frozen s"
  shows "withArtifact s a = s\<lparr>sn_artifacts := map_set (wa_artifactId a) a (sn_artifacts s)\<rparr>"
    and "withLink s l = s\<lparr>sn_links := map_set (ln_linkId l) l (sn_links s)\<rparr>"
    and "withSession s x = s\<lparr>sn_sessions := map_set (se_sessionId x) x (sn_sessions s)\<rparr>"
    and "withCapability s c = s\<lparr>sn_capabilities := map_set (sc_capabilityId c) c (sn_capabilities s)\<rparr>"
    and "withPolicyContext s pc = s\<lparr>sn_policyContext := pc\<rparr>"
    and "withRetiredEntity s t = s\<lparr>sn_retiredEntities := sn_retiredEntities s @ [t]\<rparr>"
    and "withSnapshotRef s r = s\<lparr>sn_snapshotRef := r\<rparr>"
    and "appendHeartbeat s hb = s\<lparr>sn_heartbeatLog := sn_heartbeatLog s @ [hb]\<rparr>"
    and "withNamespace s n = s\<lparr>sn_namespaces := map_set (cn_namespaceId n) n (sn_namespaces s)\<rparr>"
    and "withTranscript s tr = s\<lparr>sn_transcripts := map_set (pt_actorId tr) tr (sn_transcripts s)\<rparr>"
    and "withTranscriptAccessRequest s q =
      s\<lparr>sn_transcriptAccessRequests := map_set (ta_requestId q) q (sn_transcriptAccessRequests s)\<rparr>"
proof -
  note wf = assms [unfolded frozen_def]
  have fr: "frozen s' \<Longrightarrow> freezeSnapshot s' = s'" for s' by (rule freezeSnapshot_id)
  show "withArtifact s a = s\<lparr>sn_artifacts := map_set (wa_artifactId a) a (sn_artifacts s)\<rparr>"
    unfolding withArtifact_def using wf by (subst fr) (simp_all add: frozen_def map_wf_set)
  show "withLink s l = s\<lparr>sn_links := map_set (ln_linkId l) l (sn_links s)\<rparr>"
    unfolding withLink_def using wf by (subst fr) (simp_all add: frozen_def map_wf_set)
  show "withSession s x = s\<lparr>sn_sessions := map_set (se_sessionId x) x (sn_sessions s)\<rparr>"
    unfolding withSession_def using wf by (subst fr) (simp_all add: frozen_def map_wf_set)
  show "withCapability s c = s\<lparr>sn_capabilities := map_set (sc_capabilityId c) c (sn_capabilities s)\<rparr>"
    unfolding withCapability_def using wf by (subst fr) (simp_all add: frozen_def map_wf_set)
  show "withPolicyContext s pc = s\<lparr>sn_policyContext := pc\<rparr>"
    unfolding withPolicyContext_def using wf by (subst fr) (simp_all add: frozen_def)
  show "withRetiredEntity s t = s\<lparr>sn_retiredEntities := sn_retiredEntities s @ [t]\<rparr>"
    unfolding withRetiredEntity_def using wf by (subst fr) (simp_all add: frozen_def)
  show "withSnapshotRef s r = s\<lparr>sn_snapshotRef := r\<rparr>"
    unfolding withSnapshotRef_def using wf by (subst fr) (simp_all add: frozen_def)
  show "appendHeartbeat s hb = s\<lparr>sn_heartbeatLog := sn_heartbeatLog s @ [hb]\<rparr>"
    unfolding appendHeartbeat_def using wf by (subst fr) (simp_all add: frozen_def)
  show "withNamespace s n = s\<lparr>sn_namespaces := map_set (cn_namespaceId n) n (sn_namespaces s)\<rparr>"
    unfolding withNamespace_def using wf by (subst fr) (simp_all add: frozen_def map_wf_set jsmap_simps)
  show "withTranscript s tr = s\<lparr>sn_transcripts := map_set (pt_actorId tr) tr (sn_transcripts s)\<rparr>"
    unfolding withTranscript_def using wf by (subst fr) (simp_all add: frozen_def map_wf_set)
  show "withTranscriptAccessRequest s q =
      s\<lparr>sn_transcriptAccessRequests := map_set (ta_requestId q) q (sn_transcriptAccessRequests s)\<rparr>"
    unfolding withTranscriptAccessRequest_def using wf by (subst fr) (simp_all add: frozen_def map_wf_set)
qed

lemma frozen_fields [snapshot_updates]:
  "frozen s \<Longrightarrow> map_wf A \<Longrightarrow> frozen (s\<lparr>sn_artifacts := A\<rparr>)"
  "frozen s \<Longrightarrow> map_wf L \<Longrightarrow> frozen (s\<lparr>sn_links := L\<rparr>)"
  "frozen s \<Longrightarrow> map_wf S \<Longrightarrow> frozen (s\<lparr>sn_sessions := S\<rparr>)"
  "frozen s \<Longrightarrow> map_wf C \<Longrightarrow> frozen (s\<lparr>sn_capabilities := C\<rparr>)"
  "frozen s \<Longrightarrow> map_wf T \<Longrightarrow> frozen (s\<lparr>sn_transcripts := T\<rparr>)"
  "frozen s \<Longrightarrow> frozen (s\<lparr>sn_heartbeatLog := hb\<rparr>)"
  "frozen s \<Longrightarrow> frozen (s\<lparr>sn_auditTail := ob\<rparr>)"
  "frozen s \<Longrightarrow> frozen (s\<lparr>sn_snapshotRef := rf\<rparr>)"
  "frozen s \<Longrightarrow> frozen (s\<lparr>sn_epochId := ep\<rparr>)"
  by (simp_all add: frozen_def)

lemma frozen_map_wf [snapshot_updates]:
  "frozen s \<Longrightarrow> map_wf (sn_participants s)" "frozen s \<Longrightarrow> map_wf (sn_artifacts s)"
  "frozen s \<Longrightarrow> map_wf (sn_links s)" "frozen s \<Longrightarrow> map_wf (sn_sessions s)"
  "frozen s \<Longrightarrow> map_wf (sn_capabilities s)" "frozen s \<Longrightarrow> map_wf (sn_transcripts s)"
  by (simp_all add: frozen_def)

lemma frozen_with [simp]:
  "frozen (withParticipant s p)" "frozen (withArtifact s a)" "frozen (withLink s l)" "frozen (withSession s x)"
  "frozen (withCapability s c)" "frozen (withPolicyContext s pc)" "frozen (withRetiredEntity s t)"
  "frozen (withSnapshotRef s r)" "frozen (appendHeartbeat s hb)" "frozen (withNamespace s n)"
  "frozen (withTranscript s tr)" "frozen (withTranscriptAccessRequest s q)" "frozen (collaborationSnapshot init)"
  by (simp_all add: withParticipant_def withArtifact_def withLink_def withSession_def withCapability_def
      withPolicyContext_def withRetiredEntity_def withSnapshotRef_def appendHeartbeat_def withNamespace_def
      withTranscript_def withTranscriptAccessRequest_def collaborationSnapshot_def)

text \<open>Appending an observation never fails and adds exactly the numbered entry.\<close>

lemma appendObservation_frozen [snapshot_updates]:
  "frozen s \<Longrightarrow> appendObservation s src payload t =
    Inr (s\<lparr>sn_auditTail := sn_auditTail s @
      [\<lparr>ob_sequenceNo = nextSequenceNo (sn_auditTail s), ob_source = src, ob_payloadRef = payload, ob_receivedAt = t\<rparr>]\<rparr>)"
  by (simp add: appendObservation_def Let_def appendToObservationStream_def assertAppendOnlyOrder_def
      freezeSnapshot_id frozen_def)

lemma nextSequenceNo_numbered:
  assumes "\<forall>i<length tail. ob_sequenceNo (tail ! i) = int i + 1"
  shows "nextSequenceNo tail = int (length tail) + 1"
proof (cases "tail = []")
  case False
  then have "ob_sequenceNo (last tail) = int (length tail - 1) + 1"
    using assms by (simp add: last_conv_nth)
  with False show ?thesis by (simp add: nextSequenceNo_def arr_last_def of_nat_diff Suc_leI)
qed (simp add: nextSequenceNo_def)

end
