(* ===== verification/Core_Integrity.thy ===== *)
theory Core_Integrity
  imports Core_Snapshot
begin

text \<open>
  \<open>packages/core/src/consistency/snapshotIntegrity.ts\<close>: the referential integrity of a
  snapshot. A check returns \<open>Some\<close> violation or \<open>None\<close>; the first violation found is the
  result. \<open>integrity\<close> states declaratively what the checks establish.
\<close>

section \<open>Checks\<close>

definition fail ::
  "core_violation_code \<Rightarrow> string \<Rightarrow> string \<Rightarrow> string option \<Rightarrow> string option \<Rightarrow> core_violation option" where
  "fail code message path expected actual = Some (coreViolation code message (Some path) expected actual)"

text \<open>\<open>if (check !== undefined) return check;\<close> and its loop.\<close>

definition or_else :: "'v option \<Rightarrow> 'v option \<Rightarrow> 'v option" where
  "or_else a b = (case a of Some v \<Rightarrow> Some v | None \<Rightarrow> b)"

fun first_violation :: "('a \<Rightarrow> 'v option) \<Rightarrow> 'a list \<Rightarrow> 'v option" where
  "first_violation f [] = None"
| "first_violation f (x # xs) = or_else (f x) (first_violation f xs)"

definition bracket :: "string \<Rightarrow> string \<Rightarrow> string \<Rightarrow> string" where
  "bracket coll key suffix = coll @ ''['' @ key @ '']'' @ suffix"

definition requireRegisteredActor :: "actor_id \<Rightarrow> actor_id list \<Rightarrow> string \<Rightarrow> core_violation option" where
  "requireRegisteredActor a ids path =
     (if a \<notin> set ids then fail ActorNotFound (''unregistered actor '' @ a) path None None else None)"

definition validateActorRef ::
  "actor_ref \<Rightarrow> (actor_id, participant) jsmap \<Rightarrow> string \<Rightarrow> core_violation option" where
  "validateActorRef ref participants path =
     (case resolveActorRef ref participants of
        Inr _ \<Rightarrow> None
      | Inl (NotFound _) \<Rightarrow> fail ActorNotFound (''unregistered actor '' @ ar_actorId ref) path None None
      | Inl (KindMismatch _ _ actual) \<Rightarrow>
          fail ActorKindMismatch
            (''actor kind mismatch for '' @ ar_actorId ref @ '': ref='' @ actor_kind_name (ar_kind ref) @
               '', registered='' @ actor_kind_name actual)
            path (Some (actor_kind_name (ar_kind ref))) (Some (actor_kind_name actual)))"

definition validateParticipants :: "snapshot \<Rightarrow> core_violation option" where
  "validateParticipants s = first_violation (\<lambda>(key, p).
     if key \<noteq> p_actorId p
     then fail SnapshotIntegrity ''participant map key does not match actorId''
            (bracket ''participants'' key '''') None None
     else case p_namespaceId p of
            None \<Rightarrow> None
          | Some n \<Rightarrow>
              if \<not> map_has (sn_namespaces s) n
              then fail SnapshotIntegrity ''participant namespace is not registered''
                     (bracket ''participants'' key ''.namespaceId'') None None
              else None) (sn_participants s)"

definition validateNamespaces :: "snapshot \<Rightarrow> core_violation option" where
  "validateNamespaces s = first_violation (\<lambda>(key, n).
     if key \<noteq> cn_namespaceId n
     then fail SnapshotIntegrity ''namespace map key does not match namespaceId''
            (bracket ''namespaces'' key '''') None None
     else None) (sn_namespaces s)"

definition validateTranscripts :: "snapshot \<Rightarrow> actor_id list \<Rightarrow> core_violation option" where
  "validateTranscripts s ids = first_violation (\<lambda>(key, t).
     if key \<noteq> pt_actorId t
     then fail SnapshotIntegrity ''transcript map key does not match actorId''
            (bracket ''transcripts'' key '''') None None
     else or_else (requireRegisteredActor (pt_actorId t) ids (bracket ''transcripts'' key ''.actorId''))
       (if \<not> map_has (sn_namespaces s) (pt_namespaceId t)
        then fail SnapshotIntegrity ''transcript namespace is not registered''
               (bracket ''transcripts'' key ''.namespaceId'') None None
        else None)) (sn_transcripts s)"

definition validateTranscriptAccessRequests :: "snapshot \<Rightarrow> actor_id list \<Rightarrow> core_violation option" where
  "validateTranscriptAccessRequests s ids = first_violation (\<lambda>(key, r).
     if key \<noteq> ta_requestId r
     then fail SnapshotIntegrity ''transcript access request map key does not match requestId''
            (bracket ''transcriptAccessRequests'' key '''') None None
     else or_else (validateActorRef (ta_requester r) (sn_participants s)
              (bracket ''transcriptAccessRequests'' key ''.requester''))
       (or_else (requireRegisteredActor (ta_subjectActorId r) ids
              (bracket ''transcriptAccessRequests'' key ''.subjectActorId''))
         (if \<not> map_has (sn_namespaces s) (ta_subjectNamespaceId r)
          then fail SnapshotIntegrity ''transcript access request namespace is not registered''
                 (bracket ''transcriptAccessRequests'' key ''.subjectNamespaceId'') None None
          else None))) (sn_transcriptAccessRequests s)"

definition validateArtifacts :: "snapshot \<Rightarrow> core_violation option" where
  "validateArtifacts s = first_violation (\<lambda>(key, a).
     if key \<noteq> wa_artifactId a
     then fail SnapshotIntegrity ''artifact map key does not match artifactId''
            (bracket ''artifacts'' key '''') None None
     else or_else (validateActorRef (wa_owner a) (sn_participants s)
                     (bracket ''artifacts'' (wa_artifactId a) ''.owner'')) None) (sn_artifacts s)"

definition validateCapabilityScope :: "snapshot \<Rightarrow> scoped_capability \<Rightarrow> core_violation option" where
  "validateCapabilityScope s c =
     (let path = bracket ''capabilities'' (sc_capabilityId c) ''.scope''
      in case sc_scope c of
           ScopeArtifact a \<Rightarrow>
             if \<not> map_has (sn_artifacts s) a
             then fail SnapshotIntegrity ''capability scope references missing artifact'' path None None else None
         | ScopeSession x \<Rightarrow>
             if \<not> map_has (sn_sessions s) x
             then fail SnapshotIntegrity ''capability scope references missing session'' path None None else None
         | ScopeTranscript a n \<Rightarrow>
             if \<not> map_has (sn_participants s) a
             then fail SnapshotIntegrity ''capability scope references missing transcript actor'' path None None
             else if \<not> map_has (sn_namespaces s) n
             then fail SnapshotIntegrity ''capability scope references missing transcript namespace'' path None None
             else None)"

definition validateCapabilities :: "snapshot \<Rightarrow> actor_id list \<Rightarrow> core_violation option" where
  "validateCapabilities s ids = first_violation (\<lambda>(key, c).
     if key \<noteq> sc_capabilityId c
     then fail SnapshotIntegrity ''capability map key does not match capabilityId''
            (bracket ''capabilities'' key '''') None None
     else or_else (requireRegisteredActor (sc_holder c) ids
                     (bracket ''capabilities'' (sc_capabilityId c) ''.holder''))
            (validateCapabilityScope s c)) (sn_capabilities s)"

definition validateSessions :: "snapshot \<Rightarrow> actor_id list \<Rightarrow> core_violation option" where
  "validateSessions s ids = first_violation (\<lambda>(key, x).
     if key \<noteq> se_sessionId x
     then fail SnapshotIntegrity ''session map key does not match sessionId''
            (bracket ''sessions'' key '''') None None
     else or_else (requireRegisteredActor (se_controller x) ids
                     (bracket ''sessions'' (se_sessionId x) ''.controller''))
            (first_violation (\<lambda>member. requireRegisteredActor member ids
                     (bracket ''sessions'' (se_sessionId x) ''.participants''))
               (se_participants x))) (sn_sessions s)"

definition validateLinkEndpoint :: "link_endpoint \<Rightarrow> snapshot \<Rightarrow> string \<Rightarrow> core_violation option" where
  "validateLinkEndpoint e s path =
     (case e of
        EndParticipant a \<Rightarrow> requireRegisteredActor a (map_keys (sn_participants s)) path
      | EndArtifact a \<Rightarrow>
          if \<not> map_has (sn_artifacts s) a
          then fail SnapshotIntegrity (''link endpoint references missing artifact '' @ a) path None None
          else None)"

definition validateLinks :: "snapshot \<Rightarrow> core_violation option" where
  "validateLinks s = first_violation (\<lambda>(key, l).
     if key \<noteq> ln_linkId l
     then fail SnapshotIntegrity ''link map key does not match linkId'' (bracket ''links'' key '''') None None
     else or_else (validateLinkEndpoint (ln_from l) s (bracket ''links'' (ln_linkId l) ''.from''))
            (validateLinkEndpoint (ln_to l) s (bracket ''links'' (ln_linkId l) ''.to''))) (sn_links s)"

fun liveEntityExists :: "snapshot \<Rightarrow> string \<Rightarrow> retired_entity_kind \<Rightarrow> bool" where
  "liveEntityExists s i RKParticipant = map_has (sn_participants s) i"
| "liveEntityExists s i RKArtifact = map_has (sn_artifacts s) i"
| "liveEntityExists s i RKSession = map_has (sn_sessions s) i"
| "liveEntityExists s i RKCapability = map_has (sn_capabilities s) i"
| "liveEntityExists s i RKLink = map_has (sn_links s) i"

definition validateRetiredEntities :: "snapshot \<Rightarrow> core_violation option" where
  "validateRetiredEntities s = first_violation (\<lambda>t.
     if liveEntityExists s (et_entityId t) (et_entityKind t)
     then fail SnapshotIntegrity (''live entity still present for tombstone '' @ et_entityId t)
            ''retiredEntities'' None None
     else None) (sn_retiredEntities s)"

definition validatePolicyContext :: "policy_context \<Rightarrow> actor_id list \<Rightarrow> core_violation option" where
  "validatePolicyContext c ids =
     (case pc_approvalState c of
        AwaitingReview reviewers \<Rightarrow>
          first_violation (\<lambda>r.
            if r \<notin> set ids
            then fail SnapshotIntegrity (''policy reviewer '' @ r @ '' is not a registered participant'')
                   ''policyContext.approvalState.reviewers'' None None
            else None) reviewers
      | _ \<Rightarrow> None)"

definition validateAuditTail ::
  "observation_entry list \<Rightarrow> (actor_id, participant) jsmap \<Rightarrow> core_violation option" where
  "validateAuditTail tail participants = first_violation (\<lambda>(i, e).
     if ob_sequenceNo e \<noteq> int i + 1
     then fail ObservationSequenceInvalid
            (''auditTail sequence gap at index '' @ show_nat i @ '': expected '' @ show_nat (i + 1) @
               '', got '' @ show_int (ob_sequenceNo e))
            (bracket ''auditTail'' (show_nat i) ''.sequenceNo'')
            (Some (show_nat (i + 1))) (Some (show_int (ob_sequenceNo e)))
     else validateActorRef (ob_source e) participants (bracket ''auditTail'' (show_nat i) ''.source''))
     (enumerate 0 tail)"

definition validateSnapshotIntegrityResult :: "snapshot \<Rightarrow> core_violation + unit" where
  "validateSnapshotIntegrityResult s =
     (let participantIds = new_Set (map_keys (sn_participants s))
      in case or_else (validateParticipants s)
             (or_else (validateArtifacts s)
             (or_else (validatePolicyContext (sn_policyContext s) participantIds)
             (or_else (validateAuditTail (sn_auditTail s) (sn_participants s))
             (or_else (validateCapabilities s participantIds)
             (or_else (validateSessions s participantIds)
             (or_else (validateLinks s)
             (or_else (validateRetiredEntities s)
             (or_else (validateNamespaces s)
             (or_else (validateTranscripts s participantIds)
                      (validateTranscriptAccessRequests s participantIds)))))))))) of
           Some v \<Rightarrow> Inl v
         | None \<Rightarrow> Inr ())"

text \<open>\<open>validateSnapshotIntegrity\<close> throws the violation: the same sum.\<close>

definition validateSnapshotIntegrity :: "snapshot \<Rightarrow> core_violation + unit" where
  "validateSnapshotIntegrity s =
     (case validateSnapshotIntegrityResult s of Inl v \<Rightarrow> Inl v | Inr _ \<Rightarrow> Inr ())"

section \<open>What integrity means\<close>

definition registered :: "snapshot \<Rightarrow> actor_id \<Rightarrow> bool" where
  "registered s a \<longleftrightarrow> map_has (sn_participants s) a"

definition resolves :: "snapshot \<Rightarrow> actor_ref \<Rightarrow> bool" where
  "resolves s r \<longleftrightarrow> (\<exists>p. map_get (sn_participants s) (ar_actorId r) = Some p \<and> p_kind p = ar_kind r)"

fun endpoint_ok :: "snapshot \<Rightarrow> link_endpoint \<Rightarrow> bool" where
  "endpoint_ok s (EndParticipant a) = registered s a"
| "endpoint_ok s (EndArtifact a) = map_has (sn_artifacts s) a"

fun scope_ok :: "snapshot \<Rightarrow> capability_scope \<Rightarrow> bool" where
  "scope_ok s (ScopeArtifact a) = map_has (sn_artifacts s) a"
| "scope_ok s (ScopeSession x) = map_has (sn_sessions s) x"
| "scope_ok s (ScopeTranscript a n) = (registered s a \<and> map_has (sn_namespaces s) n)"

fun reviewers_of :: "approval_state \<Rightarrow> string list" where
  "reviewers_of (AwaitingReview rs) = rs"
| "reviewers_of _ = []"

definition participants_ok :: "snapshot \<Rightarrow> bool" where
  "participants_ok s \<longleftrightarrow> (\<forall>(k, p)\<in>set (sn_participants s).
     k = p_actorId p \<and> (\<forall>n. p_namespaceId p = Some n \<longrightarrow> map_has (sn_namespaces s) n))"

definition artifacts_ok :: "snapshot \<Rightarrow> bool" where
  "artifacts_ok s \<longleftrightarrow> (\<forall>(k, a)\<in>set (sn_artifacts s). k = wa_artifactId a \<and> resolves s (wa_owner a))"

definition capabilities_ok :: "snapshot \<Rightarrow> bool" where
  "capabilities_ok s \<longleftrightarrow> (\<forall>(k, c)\<in>set (sn_capabilities s).
     k = sc_capabilityId c \<and> registered s (sc_holder c) \<and> scope_ok s (sc_scope c))"

definition sessions_ok :: "snapshot \<Rightarrow> bool" where
  "sessions_ok s \<longleftrightarrow> (\<forall>(k, x)\<in>set (sn_sessions s).
     k = se_sessionId x \<and> registered s (se_controller x) \<and> (\<forall>m\<in>set (se_participants x). registered s m))"

definition links_ok :: "snapshot \<Rightarrow> bool" where
  "links_ok s \<longleftrightarrow> (\<forall>(k, l)\<in>set (sn_links s).
     k = ln_linkId l \<and> endpoint_ok s (ln_from l) \<and> endpoint_ok s (ln_to l))"

definition audit_ok :: "snapshot \<Rightarrow> bool" where
  "audit_ok s \<longleftrightarrow>
     (\<forall>i<length (sn_auditTail s). ob_sequenceNo (sn_auditTail s ! i) = int i + 1) \<and>
     (\<forall>e\<in>set (sn_auditTail s). resolves s (ob_source e))"

definition tombstones_ok :: "snapshot \<Rightarrow> bool" where
  "tombstones_ok s \<longleftrightarrow> (\<forall>t\<in>set (sn_retiredEntities s). \<not> liveEntityExists s (et_entityId t) (et_entityKind t))"

definition namespaces_ok :: "snapshot \<Rightarrow> bool" where
  "namespaces_ok s \<longleftrightarrow> (\<forall>(k, n)\<in>set (sn_namespaces s). k = cn_namespaceId n)"

definition transcripts_ok :: "snapshot \<Rightarrow> bool" where
  "transcripts_ok s \<longleftrightarrow> (\<forall>(k, t)\<in>set (sn_transcripts s).
     k = pt_actorId t \<and> registered s (pt_actorId t) \<and> map_has (sn_namespaces s) (pt_namespaceId t))"

definition requests_ok :: "snapshot \<Rightarrow> bool" where
  "requests_ok s \<longleftrightarrow> (\<forall>(k, r)\<in>set (sn_transcriptAccessRequests s).
     k = ta_requestId r \<and> resolves s (ta_requester r) \<and> registered s (ta_subjectActorId r) \<and>
     map_has (sn_namespaces s) (ta_subjectNamespaceId r))"

definition integrity :: "snapshot \<Rightarrow> bool" where
  "integrity s \<longleftrightarrow>
     participants_ok s \<and> artifacts_ok s \<and>
     (\<forall>r\<in>set (reviewers_of (pc_approvalState (sn_policyContext s))). registered s r) \<and>
     audit_ok s \<and> capabilities_ok s \<and> sessions_ok s \<and> links_ok s \<and> tombstones_ok s \<and>
     namespaces_ok s \<and> transcripts_ok s \<and> requests_ok s"

lemmas integrity_parts = participants_ok_def artifacts_ok_def audit_ok_def capabilities_ok_def sessions_ok_def
  links_ok_def tombstones_ok_def namespaces_ok_def transcripts_ok_def requests_ok_def

section \<open>The checks decide integrity\<close>

lemma or_else_None [simp]: "or_else a b = None \<longleftrightarrow> a = None \<and> b = None"
  by (auto simp: or_else_def split: option.splits)

lemma first_violation_None: "first_violation f xs = None \<longleftrightarrow> (\<forall>x\<in>set xs. f x = None)"
  by (induction xs) auto

lemma fail_not_None [simp]: "fail c m p e a \<noteq> None"
  by (simp add: fail_def)

lemma requireRegisteredActor_None [simp]:
  "requireRegisteredActor a (map_keys (sn_participants s)) path = None \<longleftrightarrow> registered s a"
  "requireRegisteredActor a (new_Set (map_keys (sn_participants s))) path = None \<longleftrightarrow> registered s a"
  by (simp_all add: requireRegisteredActor_def registered_def map_has_keys map_keys_def)

lemma validateActorRef_None [simp]:
  "validateActorRef ref (sn_participants s) path = None \<longleftrightarrow> resolves s ref"
  by (auto simp: validateActorRef_def resolveActorRef_def resolves_def split: option.splits)

lemma validateParticipants_None: "validateParticipants s = None \<longleftrightarrow> participants_ok s"
  by (auto simp: validateParticipants_def first_violation_None participants_ok_def split: option.splits if_splits)

lemma validateArtifacts_None: "validateArtifacts s = None \<longleftrightarrow> artifacts_ok s"
  by (auto simp: validateArtifacts_def first_violation_None artifacts_ok_def split: if_splits)

lemma validatePolicyContext_None:
  "validatePolicyContext c (new_Set (map_keys (sn_participants s))) = None \<longleftrightarrow>
    (\<forall>r\<in>set (reviewers_of (pc_approvalState c)). registered s r)"
  by (cases "pc_approvalState c")
     (auto simp: validatePolicyContext_def first_violation_None registered_def map_has_keys map_keys_def
       split: if_splits)

lemma validateAuditTail_None: "validateAuditTail (sn_auditTail s) (sn_participants s) = None \<longleftrightarrow> audit_ok s"
proof -
  let ?t = "sn_auditTail s"
  have "validateAuditTail ?t (sn_participants s) = None \<longleftrightarrow>
      (\<forall>x\<in>set (enumerate 0 ?t). ob_sequenceNo (snd x) = int (fst x) + 1 \<and> resolves s (ob_source (snd x)))"
    unfolding validateAuditTail_def first_violation_None by (intro ball_cong refl) (simp split: prod.splits)
  also have "\<dots> \<longleftrightarrow> (\<forall>i<length ?t. ob_sequenceNo (?t ! i) = int i + 1 \<and> resolves s (ob_source (?t ! i)))"
    by (rule ball_enumerate [where P = "\<lambda>i e. ob_sequenceNo e = int i + 1 \<and> resolves s (ob_source e)"])
  also have "\<dots> \<longleftrightarrow> audit_ok s"
    unfolding audit_ok_def all_set_conv_all_nth by blast
  finally show ?thesis .
qed

lemma validateCapabilities_None:
  "validateCapabilities s (new_Set (map_keys (sn_participants s))) = None \<longleftrightarrow> capabilities_ok s"
proof -
  have "validateCapabilityScope s c = None \<longleftrightarrow> scope_ok s (sc_scope c)" for c
    by (auto simp: validateCapabilityScope_def Let_def registered_def split: capability_scope.splits if_splits)
  then show ?thesis
    by (auto simp: validateCapabilities_def first_violation_None capabilities_ok_def split: if_splits)
qed

lemma validateSessions_None:
  "validateSessions s (new_Set (map_keys (sn_participants s))) = None \<longleftrightarrow> sessions_ok s"
  by (auto simp: validateSessions_def first_violation_None sessions_ok_def split: if_splits)

lemma validateLinks_None: "validateLinks s = None \<longleftrightarrow> links_ok s"
proof -
  have "validateLinkEndpoint e s path = None \<longleftrightarrow> endpoint_ok s e" for e path
    by (cases e) (auto simp: validateLinkEndpoint_def split: if_splits)
  then show ?thesis
    by (auto simp: validateLinks_def first_violation_None links_ok_def split: if_splits)
qed

lemma validateRetiredEntities_None: "validateRetiredEntities s = None \<longleftrightarrow> tombstones_ok s"
  by (auto simp: validateRetiredEntities_def first_violation_None tombstones_ok_def split: if_splits)

lemma validateNamespaces_None: "validateNamespaces s = None \<longleftrightarrow> namespaces_ok s"
  by (auto simp: validateNamespaces_def first_violation_None namespaces_ok_def split: if_splits)

lemma validateTranscripts_None:
  "validateTranscripts s (new_Set (map_keys (sn_participants s))) = None \<longleftrightarrow> transcripts_ok s"
  by (auto simp: validateTranscripts_def first_violation_None transcripts_ok_def split: if_splits)

lemma validateTranscriptAccessRequests_None:
  "validateTranscriptAccessRequests s (new_Set (map_keys (sn_participants s))) = None \<longleftrightarrow> requests_ok s"
  by (auto simp: validateTranscriptAccessRequests_def first_violation_None requests_ok_def split: if_splits)

lemmas checks_None = validateParticipants_None validateArtifacts_None validatePolicyContext_None
  validateAuditTail_None validateCapabilities_None validateSessions_None validateLinks_None
  validateRetiredEntities_None validateNamespaces_None validateTranscripts_None
  validateTranscriptAccessRequests_None

lemma validateSnapshotIntegrityResult_ok: "validateSnapshotIntegrityResult s = Inr () \<longleftrightarrow> integrity s"
proof -
  have res: "(case x of Some v \<Rightarrow> Inl v | None \<Rightarrow> Inr ()) = Inr () \<longleftrightarrow> x = None" for x :: "core_violation option"
    by (cases x) auto
  show ?thesis
    unfolding validateSnapshotIntegrityResult_def Let_def res or_else_None checks_None integrity_def ..
qed

end
