(* ===== verification/Core_Change.thy ===== *)
theory Core_Change
  imports Core_Integrity
begin

text \<open>
  \<open>packages/core/src/coordination/coordinationChange.ts\<close> and \<open>validation.ts\<close>: intents,
  proposed and committed changes, and the checks on a chain of committed changes.
\<close>

section \<open>Intents and changes\<close>

datatype change_visibility = VInternal | VExternal | VAdministrative

datatype operation_scalar = ScalarString string | ScalarNumber js_number | ScalarBool bool

type_synonym scalar_inputs = "(string, operation_scalar) jsmap"

record coordination_intent =
  in_initiator :: actor_ref
  in_operationTypeId :: operation_type_id
  in_matchBindings :: "match_binding list"
  in_targets :: "target_ref list"
  in_inputContentRefs :: "content_ref list option"
  in_scalarInputs :: "scalar_inputs option"
  in_external :: "evidence_ref list option"

record proposed_change =
  pc_intent :: coordination_intent
  pc_beforeRef :: snapshot_ref

record coordination_change =
  cc_changeId :: change_id
  cc_recordedAt :: timestamp
  cc_epochId :: epoch_id
  cc_operationTypeId :: operation_type_id
  cc_templateRef :: "operation_template_ref option"
  cc_beforeRef :: snapshot_ref
  cc_afterRef :: snapshot_ref
  cc_matchBindings :: "match_binding list"
  cc_targets :: "target_ref list"
  cc_initiator :: actor_ref
  cc_involved :: "actor_ref list"
  cc_authorization :: "evidence_ref list"
  cc_external :: "evidence_ref list"
  cc_createdSessionRefs :: "session_id list"
  cc_visibility :: change_visibility

definition coordinationIntent ::
  "actor_ref \<Rightarrow> operation_type_id \<Rightarrow> match_binding list \<Rightarrow> evidence_ref list option \<Rightarrow>
    content_ref list option \<Rightarrow> scalar_inputs option \<Rightarrow> coordination_intent" where
  "coordinationIntent initiator op bindings ext contents scalars =
     \<lparr>in_initiator = initiator, in_operationTypeId = op, in_matchBindings = bindings,
      in_targets = targetsFromMatchBindings bindings, in_inputContentRefs = contents,
      in_scalarInputs = scalars, in_external = ext\<rparr>"

definition coordinationIntentFromTargets ::
  "actor_ref \<Rightarrow> operation_type_id \<Rightarrow> target_ref list \<Rightarrow> evidence_ref list option \<Rightarrow>
    content_ref list option \<Rightarrow> scalar_inputs option \<Rightarrow> coordination_intent" where
  "coordinationIntentFromTargets initiator op targets ext contents scalars =
     coordinationIntent initiator op (matchBindingsFromTargets targets) ext contents scalars"

definition proposedChange :: "coordination_intent \<Rightarrow> snapshot_ref \<Rightarrow> proposed_change" where
  "proposedChange i before = \<lparr>pc_intent = i, pc_beforeRef = before\<rparr>"

record change_init =
  ci_changeId :: change_id
  ci_recordedAt :: timestamp
  ci_epochId :: epoch_id
  ci_operationTypeId :: operation_type_id
  ci_templateRef :: "operation_template_ref option"
  ci_beforeRef :: snapshot_ref
  ci_afterRef :: snapshot_ref
  ci_matchBindings :: "match_binding list option"
  ci_targets :: "target_ref list option"
  ci_initiator :: actor_ref
  ci_involved :: "actor_ref list option"
  ci_authorization :: "evidence_ref list option"
  ci_external :: "evidence_ref list option"
  ci_createdSessionRefs :: "session_id list option"
  ci_visibility :: change_visibility

definition coordinationChange :: "change_init \<Rightarrow> coordination_change" where
  "coordinationChange init =
     (let targets = (case ci_targets init of
                       Some ts \<Rightarrow> ts
                     | None \<Rightarrow> (case ci_matchBindings init of
                                 Some bs \<Rightarrow> targetsFromMatchBindings bs | None \<Rightarrow> []));
          matchBindings = (case ci_matchBindings init of
                             Some bs \<Rightarrow> bs | None \<Rightarrow> matchBindingsFromTargets targets)
      in \<lparr>cc_changeId = ci_changeId init, cc_recordedAt = ci_recordedAt init, cc_epochId = ci_epochId init,
          cc_operationTypeId = ci_operationTypeId init, cc_templateRef = ci_templateRef init,
          cc_beforeRef = ci_beforeRef init, cc_afterRef = ci_afterRef init,
          cc_matchBindings = matchBindings, cc_targets = targets, cc_initiator = ci_initiator init,
          cc_involved = opt_default [] (ci_involved init),
          cc_authorization = opt_default [] (ci_authorization init),
          cc_external = opt_default [] (ci_external init),
          cc_createdSessionRefs = opt_default [] (ci_createdSessionRefs init),
          cc_visibility = ci_visibility init\<rparr>)"

section \<open>Chain and epoch checks (validation.ts)\<close>

fun chain_loop :: "nat \<Rightarrow> coordination_change list \<Rightarrow> core_violation + unit" where
  "chain_loop i (prev # cur # rest) =
     (if cc_beforeRef cur \<noteq> cc_afterRef prev
      then Inl (coreViolation BeforeRefChainBroken (''beforeRef chain broken at '' @ cc_changeId cur)
             (Some (bracket ''changes'' (show_nat i) ''.beforeRef''))
             (Some (cc_afterRef prev)) (Some (cc_beforeRef cur)))
      else chain_loop (Suc i) (cur # rest))"
| "chain_loop i _ = Inr ()"

definition validateBeforeRefChainResult :: "coordination_change list \<Rightarrow> core_violation + unit" where
  "validateBeforeRefChainResult changes = chain_loop 1 changes"

definition validateBeforeRefChain :: "coordination_change list \<Rightarrow> core_violation + unit" where
  "validateBeforeRefChain changes =
     (case validateBeforeRefChainResult changes of Inl v \<Rightarrow> Inl v | Inr _ \<Rightarrow> Inr ())"

fun epoch_loop :: "epoch_id \<Rightarrow> coordination_change list \<Rightarrow> core_violation + unit" where
  "epoch_loop epoch [] = Inr ()"
| "epoch_loop epoch (c # cs) =
     (if cc_epochId c \<noteq> epoch
      then Inl (coreViolation EpochMismatch (''epoch mismatch at '' @ cc_changeId c)
             (Some ''epochId'') (Some epoch) (Some (cc_epochId c)))
      else epoch_loop epoch cs)"

definition validateEpochConsistentResult :: "coordination_change list \<Rightarrow> core_violation + unit" where
  "validateEpochConsistentResult changes =
     (case changes of [] \<Rightarrow> Inr () | c # _ \<Rightarrow> epoch_loop (cc_epochId c) changes)"

definition validateEpochConsistent :: "coordination_change list \<Rightarrow> core_violation + unit" where
  "validateEpochConsistent changes =
     (case validateEpochConsistentResult changes of Inl v \<Rightarrow> Inl v | Inr _ \<Rightarrow> Inr ())"

section \<open>What the checks decide\<close>

definition chained :: "coordination_change list \<Rightarrow> bool" where
  "chained cs \<longleftrightarrow> successively (\<lambda>a b. cc_beforeRef b = cc_afterRef a) cs"

definition same_epoch :: "coordination_change list \<Rightarrow> bool" where
  "same_epoch cs \<longleftrightarrow> (\<forall>a\<in>set cs. \<forall>b\<in>set cs. cc_epochId a = cc_epochId b)"

lemma chain_loop_ok: "chain_loop i cs = Inr () \<longleftrightarrow> chained cs"
  by (induction i cs rule: chain_loop.induct) (auto simp: chained_def)

lemma validateBeforeRefChain_ok:
  "validateBeforeRefChain cs = Inr () \<longleftrightarrow> chained cs"
  "validateBeforeRefChainResult cs = Inr () \<longleftrightarrow> chained cs"
proof -
  show res: "validateBeforeRefChainResult cs = Inr () \<longleftrightarrow> chained cs"
    unfolding validateBeforeRefChainResult_def by (rule chain_loop_ok)
  show "validateBeforeRefChain cs = Inr () \<longleftrightarrow> chained cs"
    unfolding res [symmetric] by (simp add: validateBeforeRefChain_def split: sum.splits)
qed

lemma epoch_loop_ok: "epoch_loop e cs = Inr () \<longleftrightarrow> (\<forall>c\<in>set cs. cc_epochId c = e)"
  by (induction e cs rule: epoch_loop.induct) auto

lemma validateEpochConsistent_ok:
  "validateEpochConsistent cs = Inr () \<longleftrightarrow> same_epoch cs"
  "validateEpochConsistentResult cs = Inr () \<longleftrightarrow> same_epoch cs"
proof -
  have "validateEpochConsistentResult cs = Inr () \<longleftrightarrow> same_epoch cs"
    by (cases cs) (auto simp: validateEpochConsistentResult_def epoch_loop_ok same_epoch_def)
  then show "validateEpochConsistentResult cs = Inr () \<longleftrightarrow> same_epoch cs"
    and "validateEpochConsistent cs = Inr () \<longleftrightarrow> same_epoch cs"
    by (auto simp: validateEpochConsistent_def split: sum.splits)
qed

lemma chained_append:
  "chained (xs @ [c]) \<longleftrightarrow> chained xs \<and> (xs = [] \<or> cc_beforeRef c = cc_afterRef (last xs))"
  by (cases xs rule: rev_cases) (auto simp: chained_def successively_append_iff)

end
