(* ===== verification/Core_Footprint.thy ===== *)
theory Core_Footprint
  imports Core_Change
begin

text \<open>
  \<open>packages/core/src/structure/{boundary,isolation,validation,operators}.ts\<close>: footprints as
  five Sets of ids, isolation, coverage, and the translation of composition intents.
\<close>

section \<open>Boundaries (boundary.ts)\<close>

record port =
  po_name :: string
  po_typeTag :: string

type_synonym interface = "port list"

record footprint =
  fp_artifactIds :: "artifact_id list"
  fp_participantIds :: "actor_id list"
  fp_sessionIds :: "session_id list"
  fp_capabilityIds :: "capability_id list"
  fp_linkIds :: "link_id list"

definition emptyFootprint :: footprint where
  "emptyFootprint = \<lparr>fp_artifactIds = [], fp_participantIds = [], fp_sessionIds = [],
     fp_capabilityIds = [], fp_linkIds = []\<rparr>"

definition mkFootprint ::
  "artifact_id list \<Rightarrow> actor_id list \<Rightarrow> session_id list \<Rightarrow> capability_id list \<Rightarrow> link_id list \<Rightarrow> footprint" where
  "mkFootprint arts parts sess caps lnks =
     \<lparr>fp_artifactIds = new_Set arts, fp_participantIds = new_Set parts, fp_sessionIds = new_Set sess,
      fp_capabilityIds = new_Set caps, fp_linkIds = new_Set lnks\<rparr>"

definition mergeFootprints :: "footprint \<Rightarrow> footprint \<Rightarrow> footprint" where
  "mergeFootprints a b =
     mkFootprint (fp_artifactIds a @ fp_artifactIds b) (fp_participantIds a @ fp_participantIds b)
       (fp_sessionIds a @ fp_sessionIds b) (fp_capabilityIds a @ fp_capabilityIds b) (fp_linkIds a @ fp_linkIds b)"

record port_binding =
  pb_port :: port
  pb_ref :: string

datatype boundary = Goal "port_binding list" | Outcome "port_binding list"

section \<open>Isolation (isolation.ts)\<close>

fun setsOverlap :: "'a list \<Rightarrow> 'a list \<Rightarrow> bool" where
  "setsOverlap [] b = False"
| "setsOverlap (v # a) b = (if v \<in> set b then True else setsOverlap a b)"

definition disjoint :: "footprint \<Rightarrow> footprint \<Rightarrow> bool" where
  "disjoint a b =
     (\<not> setsOverlap (fp_artifactIds a) (fp_artifactIds b) \<and>
      \<not> setsOverlap (fp_participantIds a) (fp_participantIds b) \<and>
      \<not> setsOverlap (fp_sessionIds a) (fp_sessionIds b) \<and>
      \<not> setsOverlap (fp_capabilityIds a) (fp_capabilityIds b) \<and>
      \<not> setsOverlap (fp_linkIds a) (fp_linkIds b))"

definition overlaps :: "footprint \<Rightarrow> footprint \<Rightarrow> bool" where
  "overlaps a b = (\<not> disjoint a b)"

definition ids_of_kind :: "target_kind \<Rightarrow> target_ref list \<Rightarrow> string list" where
  "ids_of_kind k targets = map tr_id (filter (\<lambda>t. tr_kind t = k) targets)"

definition footprintFromTargets :: "target_ref list \<Rightarrow> footprint" where
  "footprintFromTargets targets =
     mkFootprint (ids_of_kind TArtifact targets) (ids_of_kind TParticipant targets)
       (ids_of_kind TSession targets) (ids_of_kind TCapability targets) (ids_of_kind TLink targets)"

definition mergeSessionFootprint :: "footprint \<Rightarrow> session_id list \<Rightarrow> footprint" where
  "mergeSessionFootprint f refs =
     (if length refs = 0 then f
      else mkFootprint (fp_artifactIds f) (fp_participantIds f) (fp_sessionIds f @ refs)
             (fp_capabilityIds f) (fp_linkIds f))"

definition footprintOfChange :: "coordination_change \<Rightarrow> footprint" where
  "footprintOfChange c = mergeSessionFootprint (footprintFromTargets (cc_targets c)) (cc_createdSessionRefs c)"

definition footprintOfCoordinationIntent :: "coordination_intent \<Rightarrow> footprint" where
  "footprintOfCoordinationIntent i = footprintFromTargets (in_targets i)"

section \<open>Composition intents (operators.ts)\<close>

datatype composition_operator = OpAttach | OpDelegate | OpFork | OpNest | OpRewire | OpIsolate | OpClose

fun operationTypeForOperator :: "composition_operator \<Rightarrow> string" where
  "operationTypeForOperator OpAttach = ''introduce_artifact''"
| "operationTypeForOperator OpDelegate = ''delegate''"
| "operationTypeForOperator OpFork = ''fork_branch''"
| "operationTypeForOperator OpNest = ''create_session''"
| "operationTypeForOperator OpRewire = ''transfer_session''"
| "operationTypeForOperator OpIsolate = ''introduce_artifact''"
| "operationTypeForOperator OpClose = ''publish_artifact''"

record composition_intent =
  co_operator :: composition_operator
  co_initiator :: actor_ref
  co_footprint :: footprint
  co_targets :: "target_ref list"
  co_inputContentRefs :: "content_ref list option"
  co_interface :: "interface option"
  co_binds :: "boundary option"

definition compositionIntent ::
  "composition_operator \<Rightarrow> actor_ref \<Rightarrow> footprint \<Rightarrow> target_ref list \<Rightarrow> content_ref list option \<Rightarrow>
    interface option \<Rightarrow> boundary option \<Rightarrow> composition_intent" where
  "compositionIntent op initiator f targets contents iface binds =
     \<lparr>co_operator = op, co_initiator = initiator, co_footprint = f, co_targets = targets,
      co_inputContentRefs = contents, co_interface = iface, co_binds = binds\<rparr>"

definition toCoordinationIntent :: "composition_intent \<Rightarrow> coordination_intent" where
  "toCoordinationIntent c =
     coordinationIntentFromTargets (co_initiator c) (operationTypeForOperator (co_operator c)) (co_targets c)
       None (co_inputContentRefs c) None"

definition requestedIsolationScope :: "composition_intent \<Rightarrow> footprint" where
  "requestedIsolationScope c = co_footprint c"

definition effectiveFootprintOfCompositionIntent :: "composition_intent \<Rightarrow> footprint" where
  "effectiveFootprintOfCompositionIntent c = footprintFromTargets (co_targets c)"

definition footprintOfCompositionIntent :: "composition_intent \<Rightarrow> footprint" where
  "footprintOfCompositionIntent c = requestedIsolationScope c"

definition compatibleConcurrently :: "composition_intent \<Rightarrow> composition_intent \<Rightarrow> bool" where
  "compatibleConcurrently a b =
     disjoint (effectiveFootprintOfCompositionIntent a) (effectiveFootprintOfCompositionIntent b)"

section \<open>Coverage (validation.ts)\<close>

fun coversSet :: "'a list \<Rightarrow> 'a list \<Rightarrow> bool" where
  "coversSet outer [] = True"
| "coversSet outer (v # inner) = (if v \<notin> set outer then False else coversSet outer inner)"

definition footprintCovers :: "footprint \<Rightarrow> footprint \<Rightarrow> bool" where
  "footprintCovers outer inner =
     (coversSet (fp_artifactIds outer) (fp_artifactIds inner) \<and>
      coversSet (fp_participantIds outer) (fp_participantIds inner) \<and>
      coversSet (fp_sessionIds outer) (fp_sessionIds inner) \<and>
      coversSet (fp_capabilityIds outer) (fp_capabilityIds inner) \<and>
      coversSet (fp_linkIds outer) (fp_linkIds inner))"

definition footprintCoversTargets :: "footprint \<Rightarrow> target_ref list \<Rightarrow> bool" where
  "footprintCoversTargets f targets = footprintCovers f (footprintFromTargets targets)"

definition validateCompositionIntentFootprint :: "composition_intent \<Rightarrow> core_violation + unit" where
  "validateCompositionIntentFootprint i =
     (if \<not> footprintCoversTargets (co_footprint i) (co_targets i)
      then Inl (coreViolation FootprintUndercoversTargets
             ''CompositionIntent footprint does not cover all targets; concurrent isolation and admission may diverge''
             None None None)
      else Inr ())"

section \<open>Footprints as sets of targets\<close>

fun dimension :: "footprint \<Rightarrow> target_kind \<Rightarrow> string list" where
  "dimension f TArtifact = fp_artifactIds f"
| "dimension f TParticipant = fp_participantIds f"
| "dimension f TSession = fp_sessionIds f"
| "dimension f TCapability = fp_capabilityIds f"
| "dimension f TLink = fp_linkIds f"

definition touched :: "footprint \<Rightarrow> target_ref set" where
  "touched f = {t. tr_id t \<in> set (dimension f (tr_kind t))}"

lemma targetRef_inject [simp]: "targetRef k i = targetRef k' i' \<longleftrightarrow> k = k' \<and> i = i'"
  by (simp add: targetRef_def)

lemma targetRef_sel [simp]: "tr_kind (targetRef k i) = k" "tr_id (targetRef k i) = i"
  by (simp_all add: targetRef_def)

lemma targetRef_surj [simp]: "targetRef (tr_kind t) (tr_id t) = t"
  by (simp add: targetRef_def)

lemma all_kinds: "(\<forall>k. P k) \<longleftrightarrow> P TArtifact \<and> P TParticipant \<and> P TSession \<and> P TCapability \<and> P TLink"
  by (metis target_kind.exhaust)

lemma setsOverlap_iff: "setsOverlap a b \<longleftrightarrow> set a \<inter> set b \<noteq> {}"
  by (induction a) auto

lemma coversSet_iff: "coversSet outer inner \<longleftrightarrow> set inner \<subseteq> set outer"
  by (induction inner) auto

lemma disjoint_iff_touched: "disjoint a b \<longleftrightarrow> touched a \<inter> touched b = {}"
proof -
  have "disjoint a b \<longleftrightarrow> (\<forall>k. set (dimension a k) \<inter> set (dimension b k) = {})"
    unfolding all_kinds by (simp add: disjoint_def setsOverlap_iff)
  also have "\<dots> \<longleftrightarrow> touched a \<inter> touched b = {}"
  proof
    assume dis: "touched a \<inter> touched b = {}"
    have "i \<notin> set (dimension a k) \<inter> set (dimension b k)" for k i
    proof
      assume "i \<in> set (dimension a k) \<inter> set (dimension b k)"
      then have "targetRef k i \<in> touched a \<inter> touched b" by (simp add: touched_def)
      with dis show False by simp
    qed
    then show "\<forall>k. set (dimension a k) \<inter> set (dimension b k) = {}" by blast
  qed (auto simp: touched_def)
  finally show ?thesis .
qed

lemma covers_iff_touched: "footprintCovers outer inner \<longleftrightarrow> touched inner \<subseteq> touched outer"
proof -
  have "footprintCovers outer inner \<longleftrightarrow> (\<forall>k. set (dimension inner k) \<subseteq> set (dimension outer k))"
    unfolding all_kinds by (simp add: footprintCovers_def coversSet_iff)
  also have "\<dots> \<longleftrightarrow> touched inner \<subseteq> touched outer"
  proof
    assume sub: "touched inner \<subseteq> touched outer"
    have "i \<in> set (dimension outer k)" if "i \<in> set (dimension inner k)" for k i
      using subsetD [OF sub, of "targetRef k i"] that by (simp add: touched_def)
    then show "\<forall>k. set (dimension inner k) \<subseteq> set (dimension outer k)" by blast
  qed (auto simp: touched_def)
  finally show ?thesis .
qed

lemma touched_footprintFromTargets: "touched (footprintFromTargets ts) = set ts"
proof -
  have "set (dimension (footprintFromTargets ts) k) = tr_id ` {t \<in> set ts. tr_kind t = k}" for k
    by (cases k) (simp_all add: footprintFromTargets_def mkFootprint_def ids_of_kind_def)
  then have "touched (footprintFromTargets ts) = {t. \<exists>u\<in>set ts. tr_kind u = tr_kind t \<and> tr_id u = tr_id t}"
    by (auto simp: touched_def image_iff)
  also have "\<dots> = set ts" by (auto, metis targetRef_surj)
  finally show ?thesis .
qed

lemma touched_merge: "touched (mergeFootprints a b) = touched a \<union> touched b"
proof -
  have "set (dimension (mergeFootprints a b) k) = set (dimension a k) \<union> set (dimension b k)" for k
    by (cases k) (simp_all add: mergeFootprints_def mkFootprint_def)
  then show ?thesis by (auto simp: touched_def)
qed

lemma touched_change:
  "touched (footprintOfChange c) = set (cc_targets c) \<union> targetRef TSession ` set (cc_createdSessionRefs c)"
proof -
  have "set (dimension (mergeSessionFootprint f refs) k) =
      set (dimension f k) \<union> (if k = TSession then set refs else {})" for f refs k
    by (cases k) (simp_all add: mergeSessionFootprint_def mkFootprint_def)
  then have "touched (mergeSessionFootprint f refs) = touched f \<union> targetRef TSession ` set refs" for f refs
    by (auto simp: touched_def image_iff split: if_splits) (metis targetRef_surj)
  then show ?thesis by (simp add: footprintOfChange_def touched_footprintFromTargets)
qed

end
