(* ===== verification/Core_Trace.thy ===== *)
theory Core_Trace
  imports Core_Footprint
begin

text \<open>
  \<open>packages/core/src/structure/{trace,derive,crossEpochRunHistory}.ts\<close>,
  \<open>coordination/schemaAdmissionReceipt.ts\<close> and \<open>consistency/index.ts\<close>: run histories, their
  validation, their agreement with a snapshot, and the read-only diagnostic view.
\<close>

section \<open>Histories (trace.ts)\<close>

datatype trace_segment = SegObservation observation_entry | SegRewrite coordination_change

type_synonym run_history = "trace_segment list"

text \<open>A validated history wraps the segments it was promoted from.\<close>

datatype validated_history = Validated (vh_segments: "trace_segment list")

definition emptyRunHistory :: run_history where
  "emptyRunHistory = []"

definition appendTraceSegment :: "run_history \<Rightarrow> trace_segment \<Rightarrow> run_history" where
  "appendTraceSegment h s = h @ [s]"

definition appendObservationSegment :: "run_history \<Rightarrow> observation_entry \<Rightarrow> run_history" where
  "appendObservationSegment h e = appendTraceSegment h (SegObservation e)"

definition appendRewriteSegment :: "run_history \<Rightarrow> coordination_change \<Rightarrow> run_history" where
  "appendRewriteSegment h c = appendTraceSegment h (SegRewrite c)"

definition composeSerialHistory :: "run_history \<Rightarrow> run_history \<Rightarrow> run_history" where
  "composeSerialHistory a b = a @ b"

fun segmentFootprint :: "trace_segment \<Rightarrow> footprint" where
  "segmentFootprint (SegObservation e) =
     footprintFromTargets [\<lparr>tr_kind = TParticipant, tr_id = ar_actorId (ob_source e)\<rparr>]"
| "segmentFootprint (SegRewrite c) = footprintOfChange c"

definition footprintsOverlap :: "footprint \<Rightarrow> footprint \<Rightarrow> bool" where
  "footprintsOverlap a b =
     (setsOverlap (fp_artifactIds a) (fp_artifactIds b) \<or>
      setsOverlap (fp_participantIds a) (fp_participantIds b) \<or>
      setsOverlap (fp_sessionIds a) (fp_sessionIds b) \<or>
      setsOverlap (fp_capabilityIds a) (fp_capabilityIds b) \<or>
      setsOverlap (fp_linkIds a) (fp_linkIds b))"

definition sliceRunHistory :: "run_history \<Rightarrow> footprint \<Rightarrow> run_history" where
  "sliceRunHistory h scope = filter (\<lambda>s. footprintsOverlap (segmentFootprint s) scope) h"

definition rewriteSegments :: "run_history \<Rightarrow> coordination_change list" where
  "rewriteSegments h =
     List.map_filter (\<lambda>s. case s of SegRewrite c \<Rightarrow> Some c | SegObservation _ \<Rightarrow> None) h"

definition observationSegments :: "run_history \<Rightarrow> observation_entry list" where
  "observationSegments h =
     List.map_filter (\<lambda>s. case s of SegObservation e \<Rightarrow> Some e | SegRewrite _ \<Rightarrow> None) h"

fun observation_loop :: "int \<Rightarrow> run_history \<Rightarrow> core_violation + unit" where
  "observation_loop expected [] = Inr ()"
| "observation_loop expected (SegRewrite c # h) = observation_loop expected h"
| "observation_loop expected (SegObservation e # h) =
     (if ob_sequenceNo e \<noteq> expected
      then Inl (coreViolation ObservationSequenceInvalid
             (''expected observation sequence '' @ show_int expected @ '', got '' @ show_int (ob_sequenceNo e))
             None (Some (show_int expected)) (Some (show_int (ob_sequenceNo e))))
      else observation_loop (expected + 1) h)"

definition validateObservationSequence :: "run_history \<Rightarrow> core_violation + unit" where
  "validateObservationSequence h = observation_loop 1 h"

definition validateRunHistory :: "run_history \<Rightarrow> core_violation + validated_history" where
  "validateRunHistory h =
     (case validateObservationSequence h of
        Inl v \<Rightarrow> Inl v
      | Inr _ \<Rightarrow>
          (let changes = rewriteSegments h
           in if length changes > 0
              then (case validateBeforeRefChain changes of
                      Inl v \<Rightarrow> Inl v
                    | Inr _ \<Rightarrow>
                        (case validateEpochConsistent changes of
                           Inl v \<Rightarrow> Inl v
                         | Inr _ \<Rightarrow> Inr (Validated h)))
              else Inr (Validated h)))"

section \<open>Agreement with a snapshot (consistency/index.ts)\<close>

definition observationEntryMismatch :: "observation_entry \<Rightarrow> observation_entry \<Rightarrow> string option" where
  "observationEntryMismatch l r =
     (if ob_sequenceNo l \<noteq> ob_sequenceNo r then Some ''sequenceNo''
      else if ob_payloadRef l \<noteq> ob_payloadRef r then Some ''payloadRef''
      else if ob_receivedAt l \<noteq> ob_receivedAt r then Some ''receivedAt''
      else if ar_actorId (ob_source l) \<noteq> ar_actorId (ob_source r) then Some ''source.actorId''
      else if ar_kind (ob_source l) \<noteq> ar_kind (ob_source r) then Some ''source.kind''
      else None)"

fun mismatch_loop :: "nat \<Rightarrow> observation_entry list \<Rightarrow> observation_entry list \<Rightarrow> core_violation + unit" where
  "mismatch_loop i (l # ls) (r # rs) =
     (case observationEntryMismatch l r of
        Some mismatch \<Rightarrow> Inl (coreViolation AuditTailHistoryMismatch
            (''auditTail/history observation mismatch at index '' @ show_nat i @ '': '' @ mismatch)
            (Some (bracket ''auditTail'' (show_nat i) '''')) None None)
      | None \<Rightarrow> mismatch_loop (Suc i) ls rs)"
| "mismatch_loop i _ _ = Inr ()"

definition validateAuditTailMatchesHistoryResult :: "snapshot \<Rightarrow> run_history \<Rightarrow> core_violation + unit" where
  "validateAuditTailMatchesHistoryResult s h =
     (let fromHistory = observationSegments h; fromSnapshot = sn_auditTail s
      in if length fromHistory \<noteq> length fromSnapshot
         then Inl (coreViolation AuditTailHistoryMismatch
                (''auditTail/history observation count mismatch: snapshot='' @ show_nat (length fromSnapshot) @
                   '', history='' @ show_nat (length fromHistory)) None None None)
         else mismatch_loop 0 fromHistory fromSnapshot)"

definition validateAuditTailMatchesHistory :: "snapshot \<Rightarrow> run_history \<Rightarrow> core_violation + unit" where
  "validateAuditTailMatchesHistory s h =
     (case validateAuditTailMatchesHistoryResult s h of Inl v \<Rightarrow> Inl v | Inr _ \<Rightarrow> Inr ())"

definition validateCollaborationWorld :: "snapshot \<Rightarrow> run_history option \<Rightarrow> core_violation + unit" where
  "validateCollaborationWorld s h =
     (case validateSnapshotIntegrityResult s of
        Inl v \<Rightarrow> Inl v
      | Inr _ \<Rightarrow> (case h of None \<Rightarrow> Inr () | Some hist \<Rightarrow> validateAuditTailMatchesHistory s hist))"

section \<open>Cross-epoch histories (schemaAdmissionReceipt.ts, crossEpochRunHistory.ts)\<close>

record schema_epoch_binding =
  sb_activationDomainId :: string
  sb_bindingGeneration :: int
  sb_epochId :: epoch_id
  sb_epochOrdinal :: int
  sb_schemaRef :: schema_ref
  sb_policyRef :: policy_ref
  sb_handlerManifestRef :: handler_manifest_ref
  sb_runtimeHead :: snapshot_ref
  sb_admissionId :: string
  sb_previousBindingGeneration :: "int option"
  sb_activatedBy :: string
  sb_activatedAt :: string

record schema_admission_receipt =
  rc_admissionId :: string
  rc_activationDomainId :: string
  rc_fromBinding :: schema_epoch_binding
  rc_toBinding :: schema_epoch_binding
  rc_beforeSnapshotRef :: snapshot_ref
  rc_afterSnapshotRef :: snapshot_ref
  rc_extensionPlanRef :: string
  rc_fourViewEvidenceRef :: "string option"
  rc_nativeOccurrenceEvidenceRef :: "string option"
  rc_replayEvidenceRef :: "string option"
  rc_qualificationEvidenceRef :: "string option"
  rc_authorizationEvidenceRef :: "string option"
  rc_runtimeReadinessEvidenceRef :: "string option"
  rc_admissionTombstoneId :: string
  rc_committedBy :: string
  rc_committedAt :: string
  rc_storeSequence :: int
  rc_correlationId :: string
  rc_occurrenceId :: string
  rc_idempotencyKey :: string
  rc_planDigest :: string

record epoch_run_segment =
  es_epochId :: epoch_id
  es_history :: validated_history

record cross_epoch_history =
  ce_epochs :: "epoch_run_segment list"
  ce_admissions :: "schema_admission_receipt list"

fun admissions_loop :: "schema_admission_receipt list \<Rightarrow> epoch_run_segment list \<Rightarrow> string + unit" where
  "admissions_loop (a # as) (e # e' # es) =
     (if sb_epochId (rc_fromBinding a) \<noteq> es_epochId e
      then Inl ''cross_epoch_history_invalid: admission from epoch mismatch''
      else if sb_epochId (rc_toBinding a) \<noteq> es_epochId e'
      then Inl ''cross_epoch_history_invalid: admission to epoch mismatch''
      else if rc_beforeSnapshotRef a \<noteq> sb_runtimeHead (rc_fromBinding a)
      then Inl ''cross_epoch_history_invalid: beforeRef mismatch''
      else admissions_loop as (e' # es))"
| "admissions_loop _ _ = Inr ()"

definition validateCrossEpochRunHistory :: "cross_epoch_history \<Rightarrow> string + unit" where
  "validateCrossEpochRunHistory h =
     (if length (ce_admissions h) \<noteq> length (ce_epochs h) - 1
      then Inl (''cross_epoch_history_invalid: admissions='' @ show_nat (length (ce_admissions h)) @
             '' epochs='' @ show_nat (length (ce_epochs h)))
      else admissions_loop (ce_admissions h) (ce_epochs h))"

section \<open>Diagnostic view (derive.ts)\<close>

datatype diagnostic_view =
    ViewSerial "diagnostic_view list"
  | ViewParallel "diagnostic_view list"
  | ViewNest diagnostic_view string
  | ViewBox (vb_participantId: "actor_id option") (vb_artifactId: "artifact_id option")

definition targets_of_kind :: "target_kind \<Rightarrow> target_ref list \<Rightarrow> target_ref list" where
  "targets_of_kind k ts = filter (\<lambda>t. tr_kind t = k) ts"

definition diagnosticStepFromChange :: "coordination_change \<Rightarrow> diagnostic_view" where
  "diagnosticStepFromChange c =
     (if cc_operationTypeId c = ''create_session'' then
        (let sessionRef = arr_get (cc_createdSessionRefs c) 0;
             participantTargets = targets_of_kind TParticipant (cc_targets c);
             inner = (if length participantTargets \<le> 1
                      then (case arr_get participantTargets 0 of
                              Some t \<Rightarrow> ViewBox (Some (tr_id t)) None
                            | None \<Rightarrow> ViewBox (Some (ar_actorId (cc_initiator c))) None)
                      else ViewParallel (map (\<lambda>t. ViewBox (Some (tr_id t)) None) participantTargets))
         in ViewNest inner (case sessionRef of None \<Rightarrow> ''session'' | Some r \<Rightarrow> r))
      else if cc_operationTypeId c = ''fork_branch'' then
        (let participantTargets = targets_of_kind TParticipant (cc_targets c);
             branchIds = (if length participantTargets > 0 then map tr_id participantTargets
                          else [ar_actorId (cc_initiator c)])
         in ViewParallel (map (\<lambda>i. ViewBox (Some i) None) branchIds))
      else
        ViewBox (map_option tr_id (List.find (\<lambda>t. tr_kind t = TParticipant) (cc_targets c)))
                (map_option tr_id (List.find (\<lambda>t. tr_kind t = TArtifact) (cc_targets c))))"

definition deriveFromSnapshotOnly :: "snapshot \<Rightarrow> diagnostic_view" where
  "deriveFromSnapshotOnly s =
     (case map_values (sn_participants s) of
        [] \<Rightarrow> ViewBox None None
      | [p] \<Rightarrow> ViewBox (Some (p_actorId p)) None
      | ps \<Rightarrow> ViewParallel (map (\<lambda>p. ViewBox (Some (p_actorId p)) None) ps))"

definition deriveDiagnosticSummary :: "snapshot \<Rightarrow> run_history \<Rightarrow> diagnostic_view" where
  "deriveDiagnosticSummary s h =
     (let changes = rewriteSegments h
      in if length changes = 0 then deriveFromSnapshotOnly s
         else (case map diagnosticStepFromChange changes of
                 [single] \<Rightarrow> single
               | views \<Rightarrow> ViewSerial views))"

record snapshot_stats =
  st_participants :: nat
  st_artifacts :: nat
  st_links :: nat
  st_sessions :: nat
  st_capabilities :: nat
  st_observations :: nat
  st_changes :: nat

definition deriveSnapshotStats :: "snapshot \<Rightarrow> snapshot_stats" where
  "deriveSnapshotStats s =
     \<lparr>st_participants = length (sn_participants s), st_artifacts = length (sn_artifacts s),
      st_links = length (sn_links s), st_sessions = length (sn_sessions s),
      st_capabilities = length (sn_capabilities s), st_observations = length (sn_auditTail s),
      st_changes = 0\<rparr>"

definition deriveSnapshotStatsWithHistory :: "snapshot \<Rightarrow> run_history \<Rightarrow> snapshot_stats" where
  "deriveSnapshotStatsWithHistory s h = (deriveSnapshotStats s)\<lparr>st_changes := length (rewriteSegments h)\<rparr>"

section \<open>Lemmas\<close>

lemma segments_simps [simp]:
  "rewriteSegments [] = []" "observationSegments [] = []"
  "rewriteSegments (SegRewrite c # h) = c # rewriteSegments h"
  "rewriteSegments (SegObservation e # h) = rewriteSegments h"
  "observationSegments (SegRewrite c # h) = observationSegments h"
  "observationSegments (SegObservation e # h) = e # observationSegments h"
  by (simp_all add: rewriteSegments_def observationSegments_def List.map_filter_simps)

lemma segments_append [simp]:
  "rewriteSegments (a @ b) = rewriteSegments a @ rewriteSegments b"
  "observationSegments (a @ b) = observationSegments a @ observationSegments b"
  by (simp_all add: rewriteSegments_def observationSegments_def map_filter_def)

lemma observation_loop_ok:
  "observation_loop n h = Inr () \<longleftrightarrow> (\<forall>i<length (observationSegments h). ob_sequenceNo (observationSegments h ! i) = n + int i)"
proof (induction n h rule: observation_loop.induct)
  case (3 n e h)
  show ?case
  proof (cases "ob_sequenceNo e = n")
    case True
    with 3 show ?thesis by (auto simp: All_less_Suc2 add.assoc)
  next
    case False
    then show ?thesis by (auto intro!: exI [of _ 0])
  qed
qed auto

definition valid_history :: "run_history \<Rightarrow> bool" where
  "valid_history h \<longleftrightarrow>
     (\<forall>i<length (observationSegments h). ob_sequenceNo (observationSegments h ! i) = int i + 1) \<and>
     chained (rewriteSegments h) \<and> same_epoch (rewriteSegments h)"

lemma validateRunHistory_ok:
  "validateRunHistory h = (if valid_history h then Inr (Validated h) else validateRunHistory h)"
  "(\<exists>v. validateRunHistory h = Inl v) \<longleftrightarrow> \<not> valid_history h"
proof -
  have o: "validateObservationSequence h = Inr () \<longleftrightarrow>
      (\<forall>i<length (observationSegments h). ob_sequenceNo (observationSegments h ! i) = int i + 1)"
    by (simp add: validateObservationSequence_def observation_loop_ok add.commute)
  have e: "chained [] \<and> same_epoch []" by (simp add: chained_def same_epoch_def)
  have "validateRunHistory h = Inr (Validated h)" if "valid_history h"
    using that by (simp add: validateRunHistory_def valid_history_def o [symmetric]
        validateBeforeRefChain_ok(1) [symmetric] validateEpochConsistent_ok(1) [symmetric] Let_def)
  moreover have "\<exists>v. validateRunHistory h = Inl v" if "\<not> valid_history h"
    using that e unfolding valid_history_def o [symmetric]
      validateBeforeRefChain_ok(1) [symmetric] validateEpochConsistent_ok(1) [symmetric]
    by (cases "rewriteSegments h") (auto simp: validateRunHistory_def Let_def
        validateBeforeRefChain_ok validateEpochConsistent_ok split: sum.splits)
  ultimately show "validateRunHistory h = (if valid_history h then Inr (Validated h) else validateRunHistory h)"
    and "(\<exists>v. validateRunHistory h = Inl v) \<longleftrightarrow> \<not> valid_history h" by auto
qed

lemma observationEntryMismatch_None: "observationEntryMismatch l r = None \<longleftrightarrow> l = r"
  by (auto simp: observationEntryMismatch_def intro!: observation_entry.equality actor_ref.equality)

lemma mismatch_loop_ok: "length ls = length rs \<Longrightarrow> mismatch_loop i ls rs = Inr () \<longleftrightarrow> ls = rs"
proof (induction i ls rs rule: mismatch_loop.induct)
  case (1 i l ls r rs)
  then show ?case
    using observationEntryMismatch_None [of l r] by (auto split: option.splits)
qed auto

lemma mismatch_loop_refl [simp]: "mismatch_loop i xs xs = Inr ()"
  by (simp add: mismatch_loop_ok)

lemma validateAuditTail_history_ok:
  "validateAuditTailMatchesHistory s h = Inr () \<longleftrightarrow> observationSegments h = sn_auditTail s"
  by (auto simp: validateAuditTailMatchesHistory_def validateAuditTailMatchesHistoryResult_def Let_def
      mismatch_loop_ok split: sum.splits)

end
