(* ===== verification/Core_StartCondition.thy ===== *)
theory Core_StartCondition
  imports Core_Nodes
begin

text \<open>
  \<open>packages/core/src/coordination/{startCondition,agentManifest}.ts\<close>: start-condition
  expressions, their canonicalization from a parsed JSON value, and the dispatch priority of
  a manifest. Strings are ASCII where \<open>trim\<close> and \<open>toLowerCase\<close> look at them.
\<close>

section \<open>String tests\<close>

definition is_space :: "char \<Rightarrow> bool" where
  "is_space c \<longleftrightarrow> c \<in> {CHR '' '', CHR 0x09, CHR 0x0A, CHR 0x0B, CHR 0x0C, CHR 0x0D}"

definition trim :: "string \<Rightarrow> string" where
  "trim s = rev (dropWhile is_space (rev (dropWhile is_space s)))"

definition lower_char :: "char \<Rightarrow> char" where
  "lower_char c = (let n = (of_char c :: nat) in if 65 \<le> n \<and> n \<le> 90 then char_of (n + 32) else c)"

definition toLowerCase :: "string \<Rightarrow> string" where
  "toLowerCase s = map lower_char s"

section \<open>Expressions (startCondition.ts)\<close>

type_synonym condition_params = "(string \<times> js_value) list"

record condition_atom =
  ca_evaluator :: string
  ca_params :: condition_params

datatype start_condition =
    CondAtom condition_atom
  | CondAnd "start_condition list"
  | CondOr "start_condition list"
  | CondNot start_condition

definition conditionAtom :: "string \<Rightarrow> condition_params \<Rightarrow> start_condition" where
  "conditionAtom e ps = CondAtom \<lparr>ca_evaluator = e, ca_params = ps\<rparr>"

definition ALWAYS_CONDITION :: start_condition where
  "ALWAYS_CONDITION = conditionAtom ''always'' []"

definition NEVER_CONDITION :: start_condition where
  "NEVER_CONDITION = conditionAtom ''never'' []"

definition ALWAYS_ALIASES :: "string list" where
  "ALWAYS_ALIASES = [''always'', ''true'', ''unconditional'', ''immediately'', ''now'']"

definition NEVER_ALIASES :: "string list" where
  "NEVER_ALIASES = [''never'', ''false'', ''manual'']"

fun asAtomParams :: "js_value \<Rightarrow> condition_params" where
  "asAtomParams (JObject props) = props"
| "asAtomParams _ = []"

function normalizeStartCondition :: "js_value \<Rightarrow> start_condition" where
  "normalizeStartCondition v =
     (case v of
        JUndefined \<Rightarrow> ALWAYS_CONDITION
      | JNull \<Rightarrow> ALWAYS_CONDITION
      | JString s \<Rightarrow>
          (let trimmed = toLowerCase (trim s)
           in if length trimmed = 0 \<or> trimmed \<in> set ALWAYS_ALIASES then ALWAYS_CONDITION
              else if trimmed \<in> set NEVER_ALIASES then NEVER_CONDITION
              else ALWAYS_CONDITION)
      | JBool _ \<Rightarrow> ALWAYS_CONDITION
      | JNumber _ \<Rightarrow> ALWAYS_CONDITION
      | JArray _ \<Rightarrow> ALWAYS_CONDITION
      | JObject _ \<Rightarrow>
          (let evaluator = js_string (js_field v ''evaluator''); op = js_field v ''operator''
           in if evaluator \<noteq> None \<and> op = JUndefined
              then conditionAtom (the evaluator) (asAtomParams (js_field v ''params''))
              else if op = JString ''atom'' then
                (let atom = js_field v ''atom'' in
                 case js_string (js_field atom ''evaluator'') of
                   Some e \<Rightarrow> if length e > 0 then conditionAtom e (asAtomParams (js_field atom ''params''))
                             else ALWAYS_CONDITION
                 | None \<Rightarrow> ALWAYS_CONDITION)
              else if op = JString ''and'' then
                CondAnd (map normalizeStartCondition (js_elements (js_field v ''operands'')))
              else if op = JString ''or'' then
                CondOr (map normalizeStartCondition (js_elements (js_field v ''operands'')))
              else if op = JString ''not'' then
                CondNot (if js_field v ''operand'' = JUndefined then ALWAYS_CONDITION
                         else normalizeStartCondition (js_field v ''operand''))
              else ALWAYS_CONDITION))"
  by pat_completeness auto
termination
proof (relation "measure size", goal_cases)
  case (2 v) then show ?case by (auto dest!: js_elements_size simp del: js_field.simps)
next
  case (3 v) then show ?case by (auto dest!: js_elements_size simp del: js_field.simps)
next
  case (4 v) then show ?case by (auto dest!: js_field_size simp del: js_field.simps)
qed simp

declare normalizeStartCondition.simps [simp del]

section \<open>Canonical form\<close>

text \<open>The JSON value of an expression.\<close>

fun encode_condition :: "start_condition \<Rightarrow> js_value" where
  "encode_condition (CondAtom a) =
     JObject [(''operator'', JString ''atom''),
              (''atom'', JObject [(''evaluator'', JString (ca_evaluator a)), (''params'', JObject (ca_params a))])]"
| "encode_condition (CondAnd cs) =
     JObject [(''operator'', JString ''and''), (''operands'', JArray (map encode_condition cs))]"
| "encode_condition (CondOr cs) =
     JObject [(''operator'', JString ''or''), (''operands'', JArray (map encode_condition cs))]"
| "encode_condition (CondNot c) =
     JObject [(''operator'', JString ''not''), (''operand'', encode_condition c)]"

fun named_atoms :: "start_condition \<Rightarrow> bool" where
  "named_atoms (CondAtom a) = (ca_evaluator a \<noteq> [])"
| "named_atoms (CondAnd cs) = list_all named_atoms cs"
| "named_atoms (CondOr cs) = list_all named_atoms cs"
| "named_atoms (CondNot c) = named_atoms c"

lemma encode_defined [simp]: "encode_condition c \<noteq> JUndefined"
  by (cases c) auto

lemma normalize_encode: "named_atoms c \<Longrightarrow> normalizeStartCondition (encode_condition c) = c"
proof (induction c)
  case (CondAtom a)
  then show ?case
    by (subst normalizeStartCondition.simps) (simp add: map_get_def Let_def conditionAtom_def)
next
  case (CondAnd cs)
  then have "map (normalizeStartCondition \<circ> encode_condition) cs = cs"
    by (intro map_idI) (simp add: list_all_iff)
  then show ?case by (subst normalizeStartCondition.simps) (simp add: map_get_def Let_def)
next
  case (CondOr cs)
  then have "map (normalizeStartCondition \<circ> encode_condition) cs = cs"
    by (intro map_idI) (simp add: list_all_iff)
  then show ?case by (subst normalizeStartCondition.simps) (simp add: map_get_def Let_def)
next
  case (CondNot c)
  then show ?case by (subst normalizeStartCondition.simps) (simp add: map_get_def Let_def)
qed

section \<open>Manifests (agentManifest.ts)\<close>

record footprint_hint =
  fh_artifactIds :: "string list option"
  fh_participantIds :: "string list option"
  fh_sessionIds :: "string list option"

record agent_manifest =
  am_agentId :: string
  am_kind :: actor_kind
  am_systemPrompt :: string
  am_assignedTask :: string
  am_model :: "string option"
  am_provider :: "string option"
  am_startCondition :: start_condition
  am_footprintHint :: "footprint_hint option"
  am_maxTurns :: "js_number option"
  am_maxTimeMs :: "js_number option"
  am_priority :: "js_number option"
  am_heartbeatIntervalMs :: js_number
  am_designedBy :: actor_id

definition DEFAULT_AGENT_PRIORITY :: js_number where
  "DEFAULT_AGENT_PRIORITY = Fin 0"

definition manifestPriority :: "agent_manifest \<Rightarrow> js_number" where
  "manifestPriority m =
     (case am_priority m of
        None \<Rightarrow> DEFAULT_AGENT_PRIORITY
      | Some d \<Rightarrow> if \<not> isFinite d then DEFAULT_AGENT_PRIORITY else d)"

lemma manifestPriority_finite: "isFinite (manifestPriority m)"
  by (auto simp: manifestPriority_def DEFAULT_AGENT_PRIORITY_def split: option.splits)

end
