(* ===== verification/Core_Transcript.thy ===== *)
theory Core_Transcript
  imports Core_Integrity
begin

text \<open>
  \<open>packages/core/src/coordination/transcriptVisibility.ts\<close>: who sees which transcript, and
  what a reader without access learns from the summary.
\<close>

datatype transcript_visibility =
    VisFull participant_transcript
  | VisSummary participant_transcript
  | VisAbsent

definition namespaceOf :: "snapshot \<Rightarrow> actor_id \<Rightarrow> string" where
  "namespaceOf s a =
     (case map_get (sn_participants s) a of
        None \<Rightarrow> DEFAULT_NAMESPACE_ID
      | Some p \<Rightarrow> (case p_namespaceId p of None \<Rightarrow> DEFAULT_NAMESPACE_ID | Some n \<Rightarrow> n))"

definition hasApprovedTranscriptRead :: "snapshot \<Rightarrow> actor_id \<Rightarrow> actor_id \<Rightarrow> bool" where
  "hasApprovedTranscriptRead s reader subject =
     (if list_ex (\<lambda>c. sc_kind c = TranscriptRead \<and> sc_holder c = reader \<and>
            (case sc_scope c of ScopeTranscript a _ \<Rightarrow> a = subject | _ \<Rightarrow> False))
          (map_values (sn_capabilities s))
      then True
      else list_ex (\<lambda>r. ta_status r = AccessApproved \<and> ar_actorId (ta_requester r) = reader \<and>
            ta_subjectActorId r = subject) (map_values (sn_transcriptAccessRequests s)))"

definition visibleTranscript :: "snapshot \<Rightarrow> actor_id \<Rightarrow> actor_id \<Rightarrow> transcript_visibility" where
  "visibleTranscript s reader subject =
     (case map_get (sn_transcripts s) subject of
        None \<Rightarrow> VisAbsent
      | Some t \<Rightarrow>
          (if reader = subject \<or> namespaceOf s reader = namespaceOf s subject then VisFull t
           else if hasApprovedTranscriptRead s reader subject then VisFull t
           else VisSummary (summarizeTranscript t)))"

section \<open>What a reader may learn\<close>

definition may_read :: "snapshot \<Rightarrow> actor_id \<Rightarrow> actor_id \<Rightarrow> bool" where
  "may_read s reader subject \<longleftrightarrow>
     reader = subject \<or> namespaceOf s reader = namespaceOf s subject \<or>
     (\<exists>c\<in>set (map_values (sn_capabilities s)). \<exists>n.
        sc_kind c = TranscriptRead \<and> sc_holder c = reader \<and> sc_scope c = ScopeTranscript subject n) \<or>
     (\<exists>r\<in>set (map_values (sn_transcriptAccessRequests s)).
        ta_status r = AccessApproved \<and> ar_actorId (ta_requester r) = reader \<and> ta_subjectActorId r = subject)"

lemma hasApproved_iff:
  "may_read s reader subject \<longleftrightarrow> reader = subject \<or> namespaceOf s reader = namespaceOf s subject \<or>
     hasApprovedTranscriptRead s reader subject"
proof -
  have "(case sc_scope c of ScopeTranscript a _ \<Rightarrow> a = subject | _ \<Rightarrow> False) \<longleftrightarrow>
      (\<exists>n. sc_scope c = ScopeTranscript subject n)" for c
    by (auto split: capability_scope.splits)
  then show ?thesis by (auto simp: may_read_def hasApprovedTranscriptRead_def list_ex_iff)
qed

text \<open>Two message lists look alike when roles, tool-call ids and content lengths agree.\<close>

fun looks_alike :: "transcript_message \<Rightarrow> transcript_message \<Rightarrow> bool" where
  "looks_alike (MSystem a) (MSystem b) = (length a = length b)"
| "looks_alike (MUser a) (MUser b) = (length a = length b)"
| "looks_alike (MAssistant a _) (MAssistant b _) = (length a = length b)"
| "looks_alike (MTool i _) (MTool j _) = (i = j)"
| "looks_alike _ _ = False"

lemma content_summary_inj: "content_summary r a = content_summary r b \<longleftrightarrow> length a = length b"
  by (auto simp: content_summary_def dest: show_nat_inj)

lemma summarizeMessage_eq: "summarizeMessage m = summarizeMessage m' \<longleftrightarrow> looks_alike m m'"
  by (cases m; cases m') (auto simp: content_summary_inj)

lemma summarize_eq:
  "map summarizeMessage ms = map summarizeMessage ms' \<longleftrightarrow> list_all2 looks_alike ms ms'"
proof (induction ms arbitrary: ms')
  case (Cons m ms)
  then show ?case by (cases ms') (auto simp: summarizeMessage_eq)
qed simp

end
