(* ===== verification/Core_Properties.thy ===== *)
theory Core_Properties
  imports Core_Trace Core_StartCondition Core_Transcript
begin

text \<open>
  What the collaboration core (\<open>packages/core\<close>) promises: integrity checks decide integrity,
  snapshot updates change what they name, observations stay numbered, footprints decide
  isolation, histories are promoted exactly when well formed, transcripts do not leak.
\<close>

section \<open>Snapshots\<close>

text \<open>C37. The eleven passes of the snapshot check accept a snapshot exactly when it is
  referentially closed: every key is the id of its entry, every owner, holder, controller,
  member, reviewer, link end, scope, source and namespace is registered (with the registered
  kind where a kind is given), observations are numbered from 1 without gaps and no retired
  entity is live. The throwing and the returning form agree.\<close>

theorem snapshot_check_decides_integrity:
  "(validateSnapshotIntegrityResult s = Inr () \<longleftrightarrow> integrity s) \<and>
   validateSnapshotIntegrity s = validateSnapshotIntegrityResult s"
  unfolding validateSnapshotIntegrityResult_ok
  by (auto simp: validateSnapshotIntegrity_def split: sum.splits)

text \<open>Appending an observation keeps the whole of integrity.\<close>

lemma integrity_audit_append:
  assumes "integrity s" and "resolves s src"
    and "s' = s\<lparr>sn_auditTail := sn_auditTail s @
      [\<lparr>ob_sequenceNo = int (length (sn_auditTail s)) + 1, ob_source = src, ob_payloadRef = p, ob_receivedAt = t\<rparr>]\<rparr>"
  shows "integrity s'"
proof -
  have same: "sn_participants s' = sn_participants s" "sn_artifacts s' = sn_artifacts s"
    "sn_sessions s' = sn_sessions s" "sn_capabilities s' = sn_capabilities s" "sn_links s' = sn_links s"
    "sn_namespaces s' = sn_namespaces s" "sn_transcripts s' = sn_transcripts s"
    "sn_transcriptAccessRequests s' = sn_transcriptAccessRequests s"
    "sn_retiredEntities s' = sn_retiredEntities s" "sn_policyContext s' = sn_policyContext s"
    by (simp_all add: assms(3))
  have reg: "registered s' = registered s" and res: "resolves s' = resolves s"
    by (auto simp: registered_def resolves_def same)
  have "endpoint_ok s' e = endpoint_ok s e" for e by (cases e) (simp_all add: reg same)
  moreover have "scope_ok s' c = scope_ok s c" for c by (cases c) (simp_all add: reg same)
  moreover have "liveEntityExists s' i k = liveEntityExists s i k" for i k by (cases k) (simp_all add: same)
  moreover have "audit_ok s'"
  proof -
    have "audit_ok s" using assms(1) by (simp add: integrity_def)
    then show ?thesis using assms(2) unfolding audit_ok_def res
      by (auto simp: assms(3) nth_append less_Suc_eq)
  qed
  ultimately show ?thesis
    using assms(1)
    by (simp add: integrity_def participants_ok_def artifacts_ok_def capabilities_ok_def sessions_ok_def
        links_ok_def tombstones_ok_def namespaces_ok_def transcripts_ok_def requests_ok_def reg res same)
qed

text \<open>Recording an observation of a registered source in a well-formed snapshot never
  throws: it appends exactly one entry, whose number is the length of the log plus one, and
  the snapshot stays frozen and keeps its integrity.\<close>

theorem appendObservation_numbers:
  assumes "frozen s" and "integrity s" and "resolves s src"
  shows "\<exists>s'. appendObservation s src payload tm = Inr s' \<and> frozen s' \<and> integrity s' \<and>
    sn_auditTail s' = sn_auditTail s @
      [\<lparr>ob_sequenceNo = int (length (sn_auditTail s)) + 1, ob_source = src, ob_payloadRef = payload,
        ob_receivedAt = tm\<rparr>]"
proof -
  have num: "nextSequenceNo (sn_auditTail s) = int (length (sn_auditTail s)) + 1"
    using assms(2) by (intro nextSequenceNo_numbered) (simp add: integrity_def audit_ok_def)
  let ?s = "s\<lparr>sn_auditTail := sn_auditTail s @
      [\<lparr>ob_sequenceNo = int (length (sn_auditTail s)) + 1, ob_source = src, ob_payloadRef = payload,
        ob_receivedAt = tm\<rparr>]\<rparr>"
  have "appendObservation s src payload tm = Inr ?s"
    using appendObservation_frozen [OF assms(1)] by (simp add: num)
  moreover have "frozen ?s" using assms(1) by (simp add: frozen_def)
  moreover have "integrity ?s" by (rule integrity_audit_append [OF assms(2,3) refl])
  ultimately show ?thesis by auto
qed

text \<open>A small world: one human and one agent.\<close>

definition example_snapshot :: snapshot where
  "example_snapshot =
     withParticipant
       (withParticipant
         (collaborationSnapshot
           \<lparr>si_snapshotRef = ''s0'', si_epochId = ''e1'', si_participants = None, si_artifacts = None,
            si_links = None, si_sessions = None, si_capabilities = None, si_policyContext = None,
            si_auditTail = None, si_retiredEntities = None, si_heartbeatLog = None, si_namespaces = None,
            si_transcripts = None, si_transcriptAccessRequests = None\<rparr>)
         (mk_participant ''h'' Human Active None None))
       (mk_participant ''a'' Agent Registered None None)"

lemma example_snapshot_frozen: "frozen example_snapshot"
  by (simp add: example_snapshot_def)

lemma example_snapshot_integrity: "integrity example_snapshot"
  unfolding validateSnapshotIntegrityResult_ok [symmetric] by code_simp

theorem appendObservation_numbers_witness:
  "\<exists>s'. appendObservation example_snapshot (actorRef ''a'' Agent) ''c1'' ''t'' = Inr s' \<and> frozen s' \<and>
    integrity s' \<and>
    sn_auditTail s' = sn_auditTail example_snapshot @
      [\<lparr>ob_sequenceNo = int (length (sn_auditTail example_snapshot)) + 1, ob_source = actorRef ''a'' Agent,
        ob_payloadRef = ''c1'', ob_receivedAt = ''t''\<rparr>]"
proof (rule appendObservation_numbers [OF example_snapshot_frozen example_snapshot_integrity])
  have "map_get (sn_participants example_snapshot) ''a'' = Some (mk_participant ''a'' Agent Registered None None)"
    by code_simp
  then show "resolves example_snapshot (actorRef ''a'' Agent)"
    by (simp add: resolves_def actorRef_def mk_participant_def)
qed

text \<open>Freezing reaches a fixed point in one step and does not depend on the caller's Maps
  being tidy; on a frozen snapshot the participant update sets exactly the entry of that
  actor, with the default namespace filled in, and leaves every other entry and every other
  part of the snapshot alone.\<close>

theorem withParticipant_updates:
  "freezeSnapshot (freezeSnapshot s) = freezeSnapshot s \<and>
   (let s' = withParticipant (freezeSnapshot s) p in
      map_get (sn_participants s') k =
        (if k = p_actorId p
         then Some (p\<lparr>p_namespaceId := Some (resolveNamespaceId (p_namespaceId p))\<rparr>)
         else map_get (sn_participants (freezeSnapshot s)) k) \<and>
      s'\<lparr>sn_participants := []\<rparr> = (freezeSnapshot s)\<lparr>sn_participants := []\<rparr>)"
proof -
  have "cloneParticipant p = p\<lparr>p_namespaceId := Some (resolveNamespaceId (p_namespaceId p))\<rparr>"
    by (intro participant.equality) simp_all
  then show ?thesis
    by (simp add: snapshot_updates Let_def jsmap_simps)
qed

section \<open>Footprints\<close>

text \<open>C38. Two composition intents are admitted to run concurrently exactly when they name no
  common target. If each declared footprint passes its check and the declared footprints are
  isolated, then the intents are concurrent, and so are the coordination intents they
  translate to: the admission view and the isolation view cannot diverge.\<close>

theorem concurrent_composition:
  "(compatibleConcurrently a b \<longleftrightarrow> set (co_targets a) \<inter> set (co_targets b) = {}) \<and>
   (validateCompositionIntentFootprint a = Inr () \<longleftrightarrow> set (co_targets a) \<subseteq> touched (co_footprint a)) \<and>
   (validateCompositionIntentFootprint a = Inr () \<and> validateCompositionIntentFootprint b = Inr () \<and>
      disjoint (requestedIsolationScope a) (requestedIsolationScope b) \<longrightarrow>
      compatibleConcurrently a b \<and>
      disjoint (footprintOfCoordinationIntent (toCoordinationIntent a))
        (footprintOfCoordinationIntent (toCoordinationIntent b)))"
proof -
  have conc: "compatibleConcurrently a b \<longleftrightarrow> set (co_targets a) \<inter> set (co_targets b) = {}"
    by (simp add: compatibleConcurrently_def effectiveFootprintOfCompositionIntent_def disjoint_iff_touched
        touched_footprintFromTargets)
  have check: "validateCompositionIntentFootprint c = Inr () \<longleftrightarrow> set (co_targets c) \<subseteq> touched (co_footprint c)" for c
    by (simp add: validateCompositionIntentFootprint_def footprintCoversTargets_def covers_iff_touched
        touched_footprintFromTargets)
  have foot: "touched (footprintOfCoordinationIntent (toCoordinationIntent c)) = set (co_targets c)" for c
    by (simp add: footprintOfCoordinationIntent_def toCoordinationIntent_def coordinationIntentFromTargets_def
        coordinationIntent_def touched_footprintFromTargets targets_of_bindings_of_targets)
  show ?thesis
    unfolding conc check disjoint_iff_touched foot requestedIsolationScope_def by blast
qed

definition example_composition :: "artifact_id \<Rightarrow> composition_intent" where
  "example_composition i =
     compositionIntent OpAttach (actorRef ''h'' Human) (footprintFromTargets [targetRef TArtifact i])
       [targetRef TArtifact i] None None None"

theorem concurrent_composition_witness:
  "validateCompositionIntentFootprint (example_composition ''x'') = Inr () \<and>
   validateCompositionIntentFootprint (example_composition ''y'') = Inr () \<and>
   disjoint (requestedIsolationScope (example_composition ''x'')) (requestedIsolationScope (example_composition ''y'')) \<and>
   compatibleConcurrently (example_composition ''x'') (example_composition ''y'')"
proof -
  have pre: "validateCompositionIntentFootprint (example_composition ''x'') = Inr () \<and>
      validateCompositionIntentFootprint (example_composition ''y'') = Inr () \<and>
      disjoint (requestedIsolationScope (example_composition ''x''))
        (requestedIsolationScope (example_composition ''y''))"
    by code_simp
  with concurrent_composition [of "example_composition ''x''" "example_composition ''y''"] show ?thesis
    by blast
qed

text \<open>Slicing a run history by a footprint keeps, in order, exactly the segments that touch
  it: observations whose source is in it and changes one of whose targets or created sessions
  is; slicing distributes over serial composition and a slice by the whole footprint of a
  change contains that change whenever the change touches anything.\<close>

theorem sliceRunHistory_touches:
  "sliceRunHistory (composeSerialHistory h1 h2) f = sliceRunHistory h1 f @ sliceRunHistory h2 f \<and>
   (SegObservation e \<in> set (sliceRunHistory h1 f) \<longleftrightarrow>
      SegObservation e \<in> set h1 \<and> targetRef TParticipant (ar_actorId (ob_source e)) \<in> touched f) \<and>
   (SegRewrite c \<in> set (sliceRunHistory h1 f) \<longleftrightarrow>
      SegRewrite c \<in> set h1 \<and>
      (\<exists>t\<in>touched f. t \<in> set (cc_targets c) \<or> t \<in> targetRef TSession ` set (cc_createdSessionRefs c)))"
proof -
  have ov: "footprintsOverlap a b \<longleftrightarrow> touched a \<inter> touched b \<noteq> {}" for a b
    unfolding disjoint_iff_touched [symmetric] by (auto simp: footprintsOverlap_def disjoint_def)
  have obs: "touched (segmentFootprint (SegObservation e)) = {targetRef TParticipant (ar_actorId (ob_source e))}"
    by (simp add: touched_footprintFromTargets targetRef_def)
  have chg: "touched (segmentFootprint (SegRewrite c)) =
      set (cc_targets c) \<union> targetRef TSession ` set (cc_createdSessionRefs c)"
    by (simp add: touched_change)
  show ?thesis
    unfolding sliceRunHistory_def composeSerialHistory_def set_filter mem_Collect_eq ov obs chg by auto
qed

section \<open>Histories\<close>

text \<open>A run history is promoted to a validated history, unchanged, exactly when its
  observations are numbered 1, 2, 3, ... in order, each change starts at the snapshot the
  previous change ended in, and all changes are of one epoch; otherwise a violation is
  returned.\<close>

theorem validateRunHistory_decides:
  "(validateRunHistory h = Inr (Validated h) \<longleftrightarrow> valid_history h) \<and>
   ((\<exists>v. validateRunHistory h = Inl v) \<longleftrightarrow> \<not> valid_history h)"
  using validateRunHistory_ok [of h] by (metis Inl_Inr_False)

text \<open>The check of a world against its history passes exactly when the snapshot has its
  integrity and its observation log is, entry by entry, the sequence of observations of the
  history.\<close>

theorem validateCollaborationWorld_decides:
  "(validateCollaborationWorld s (Some h) = Inr () \<longleftrightarrow> integrity s \<and> observationSegments h = sn_auditTail s) \<and>
   (validateCollaborationWorld s None = Inr () \<longleftrightarrow> integrity s)"
  unfolding validateCollaborationWorld_def validateSnapshotIntegrityResult_ok [symmetric]
    validateAuditTail_history_ok [symmetric]
  by (auto split: sum.splits)

section \<open>Transcripts\<close>

text \<open>C39. A transcript is shown in full exactly to its subject, to readers in the subject's
  namespace and to readers holding a transcript-read capability or an approved request for
  that subject. Any other reader gets a summary, and two worlds that differ only in the
  subject's transcript show that reader the same thing as soon as the two transcripts have
  the same rows up to tool-call ids and content lengths: nothing else leaks.\<close>

theorem visibleTranscript_no_leak:
  assumes "map_get (sn_transcripts s) subject = Some t"
    and "s' = s\<lparr>sn_transcripts := map_set subject (t\<lparr>pt_messages := ms\<rparr>) (sn_transcripts s)\<rparr>"
  shows "(visibleTranscript s reader subject = VisFull t \<longleftrightarrow> may_read s reader subject) \<and>
    (\<not> may_read s reader subject \<longrightarrow>
      (visibleTranscript s' reader subject = visibleTranscript s reader subject \<longleftrightarrow>
        list_all2 looks_alike ms (pt_messages t)))"
proof -
  have full: "visibleTranscript s reader subject = VisFull t \<longleftrightarrow> may_read s reader subject"
    using assms(1) by (simp add: visibleTranscript_def hasApproved_iff)
  have transcript: "map_get (sn_transcripts s') subject = Some (t\<lparr>pt_messages := ms\<rparr>)"
    by (simp add: assms(2))
  have same: "namespaceOf s' = namespaceOf s" "hasApprovedTranscriptRead s' = hasApprovedTranscriptRead s"
    by (auto simp: assms(2) namespaceOf_def hasApprovedTranscriptRead_def fun_eq_iff)
  have "visibleTranscript s reader subject = VisSummary (summarizeTranscript t)"
    and "visibleTranscript s' reader subject = VisSummary (summarizeTranscript (t\<lparr>pt_messages := ms\<rparr>))"
    if "\<not> may_read s reader subject"
    using that assms(1) transcript by (simp_all add: visibleTranscript_def hasApproved_iff same)
  moreover have "summarizeTranscript (t\<lparr>pt_messages := ms\<rparr>) = summarizeTranscript t \<longleftrightarrow>
      list_all2 looks_alike ms (pt_messages t)"
    unfolding summarize_eq [symmetric] summarizeTranscript_def by (cases t) simp
  ultimately show ?thesis using full by simp
qed

definition example_transcripts :: "snapshot" where
  "example_transcripts =
     withTranscript
       (withParticipant
         (withNamespace example_snapshot (collaborationNamespace ''lab'' ''Lab'' []))
         (mk_participant ''b'' Agent Active None (Some ''lab'')))
       (participantTranscript ''b'' [MUser ''hello''] (Some ''lab'') (Some 1))"

theorem visibleTranscript_no_leak_witness:
  "\<not> may_read example_transcripts ''a'' ''b'' \<and>
   visibleTranscript
     (example_transcripts\<lparr>sn_transcripts :=
        map_set ''b'' (participantTranscript ''b'' [MUser ''HELLO''] (Some ''lab'') (Some 1))
          (sn_transcripts example_transcripts)\<rparr>) ''a'' ''b''
   = visibleTranscript example_transcripts ''a'' ''b''"
proof -
  let ?t = "participantTranscript ''b'' [MUser ''hello''] (Some ''lab'') (Some 1)"
  have t: "map_get (sn_transcripts example_transcripts) ''b'' = Some ?t" by code_simp
  have no: "\<not> may_read example_transcripts ''a'' ''b''" unfolding hasApproved_iff by code_simp
  have alike: "list_all2 looks_alike [MUser ''HELLO''] (pt_messages ?t)" by code_simp
  have upd: "?t\<lparr>pt_messages := [MUser ''HELLO'']\<rparr> = participantTranscript ''b'' [MUser ''HELLO''] (Some ''lab'') (Some 1)"
    by (simp add: participantTranscript_def)
  from visibleTranscript_no_leak [OF t refl, of "''a''" "[MUser ''HELLO'']"] no alike show ?thesis
    unfolding upd by simp
qed

section \<open>Intents and start conditions\<close>

text \<open>A coordination intent built from targets carries exactly those targets, and a change
  record keeps targets and bindings consistent however it was initialised: from bindings the
  targets are the ids they bind, from targets alone the bindings are the plain ones that bind
  them; only bindings in one of the five plain roles survive the way back from targets.\<close>

theorem targets_and_bindings:
  "in_targets (coordinationIntentFromTargets who op ts ext contents scalars) = ts \<and>
   (ci_targets init = None \<or> ci_matchBindings init = None \<longrightarrow>
      cc_targets (coordinationChange init) = targetsFromMatchBindings (cc_matchBindings (coordinationChange init))) \<and>
   (matchBindingsFromTargets (targetsFromMatchBindings bs) = bs \<longleftrightarrow>
      (\<forall>b\<in>set bs. roleOf b \<in> {RArtifact, RParticipant, RCapability, RSession, RLink}))"
proof (intro conjI)
  show "in_targets (coordinationIntentFromTargets who op ts ext contents scalars) = ts"
    by (simp add: coordinationIntentFromTargets_def coordinationIntent_def targets_of_bindings_of_targets)
  show "ci_targets init = None \<or> ci_matchBindings init = None \<longrightarrow>
      cc_targets (coordinationChange init) = targetsFromMatchBindings (cc_matchBindings (coordinationChange init))"
    by (auto simp: coordinationChange_def Let_def targets_of_bindings_of_targets split: option.splits)
  show "matchBindingsFromTargets (targetsFromMatchBindings bs) = bs \<longleftrightarrow>
      (\<forall>b\<in>set bs. roleOf b \<in> {RArtifact, RParticipant, RCapability, RSession, RLink})"
    by (simp add: bindings_of_targets_of_bindings list_all_iff plain_binding_def)
qed

definition example_init :: change_init where
  "example_init =
     \<lparr>ci_changeId = ''c'', ci_recordedAt = ''t'', ci_epochId = ''e1'', ci_operationTypeId = ''delegate'',
      ci_templateRef = None, ci_beforeRef = ''s0'', ci_afterRef = ''s1'',
      ci_matchBindings = Some [BFrom ''a'', BTo ''h''], ci_targets = None, ci_initiator = actorRef ''a'' Agent,
      ci_involved = None, ci_authorization = None, ci_external = None, ci_createdSessionRefs = None,
      ci_visibility = VInternal\<rparr>"

theorem targets_and_bindings_witness:
  "ci_targets example_init = None \<and>
   cc_targets (coordinationChange example_init) =
     targetsFromMatchBindings (cc_matchBindings (coordinationChange example_init))"
  using targets_and_bindings [of "actorRef ''a'' Agent" "''x''" "[]" None None None example_init "[]"]
  by (simp add: example_init_def)

text \<open>C40. Canonicalising the JSON form of a start condition returns the same condition, for
  every tree of and, or, not whose atoms all have a non-empty evaluator name (an atom with an
  empty one becomes \<open>always\<close>), so the stored canonical form survives any number of round trips.
  A string becomes \<open>never\<close> when it is a never alias after trimming, in lower case, and \<open>always\<close>
  otherwise.\<close>

theorem normalizeStartCondition_canonical:
  "(named_atoms c \<longrightarrow> normalizeStartCondition (encode_condition c) = c) \<and>
   normalizeStartCondition (JString s) =
     (if toLowerCase (trim s) \<in> set NEVER_ALIASES then NEVER_CONDITION else ALWAYS_CONDITION)"
proof
  show "named_atoms c \<longrightarrow> normalizeStartCondition (encode_condition c) = c"
    by (simp add: normalize_encode)
  have "list_all (\<lambda>x. x \<notin> set NEVER_ALIASES) ALWAYS_ALIASES" by code_simp
  then have "set ALWAYS_ALIASES \<inter> set NEVER_ALIASES = {}" by (auto simp: list_all_iff)
  moreover have "[] \<notin> set NEVER_ALIASES" by (simp add: NEVER_ALIASES_def)
  ultimately show "normalizeStartCondition (JString s) =
     (if toLowerCase (trim s) \<in> set NEVER_ALIASES then NEVER_CONDITION else ALWAYS_CONDITION)"
    by (subst normalizeStartCondition.simps) (auto simp: Let_def)
qed

theorem normalizeStartCondition_canonical_witness:
  "normalizeStartCondition (encode_condition (CondNot (CondAnd [ALWAYS_CONDITION, NEVER_CONDITION]))) =
    CondNot (CondAnd [ALWAYS_CONDITION, NEVER_CONDITION])"
  using normalizeStartCondition_canonical [of "CondNot (CondAnd [ALWAYS_CONDITION, NEVER_CONDITION])"]
  by (simp add: ALWAYS_CONDITION_def NEVER_CONDITION_def conditionAtom_def)

end
