(* ===== verification/Runtime_Base.thy ===== *)
theory Runtime_Base
  imports Core_Trace Core_StartCondition
begin

text \<open>
  \<open>packages/runtime/src/{foundation,cluster}\<close> and \<open>replay\<close>: runtime violations, event kinds,
  match witnesses, replay recipes and their detached copies, lifecycle transitions and the
  start-condition evaluators.
\<close>

section \<open>Violations (errors.ts)\<close>

datatype runtime_violation_code =
    AdmissionRejected
  | TemplateNotFound
  | PolicyDenied
  | ResourceConflict
  | ApplyFailed
  | CommitAtomicFailed
  | ReplayMismatch
  | ReplayChainBroken
  | ObserveInvalid
  | ContentRefUnavailable
  | CodecInvalid

record violation_details =
  vd_path :: "string option"
  vd_operationTypeId :: "operation_type_id option"
  vd_cause :: "core_violation option"
  vd_expected :: "string option"
  vd_actual :: "string option"

definition no_details :: violation_details where
  "no_details = \<lparr>vd_path = None, vd_operationTypeId = None, vd_cause = None, vd_expected = None, vd_actual = None\<rparr>"

record runtime_violation =
  rv_code :: runtime_violation_code
  rv_message :: string
  rv_details :: violation_details

definition runtimeViolation :: "runtime_violation_code \<Rightarrow> string \<Rightarrow> violation_details \<Rightarrow> runtime_violation" where
  "runtimeViolation code message details = \<lparr>rv_code = code, rv_message = message, rv_details = details\<rparr>"

section \<open>Event kinds (eventKind.ts)\<close>

type_synonym event_kind = change_visibility

definition eventKindFromVisibility :: "change_visibility \<Rightarrow> event_kind" where
  "eventKindFromVisibility v = v"

definition visibilityFromEventKind :: "event_kind \<Rightarrow> change_visibility" where
  "visibilityFromEventKind k = k"

section \<open>Match witnesses (matchWitness.ts)\<close>

record match_witness =
  mw_domainSize :: int
  mw_codomainSize :: int
  mw_embedding :: "int list"

definition matchWitnessFromBindings :: "match_binding list \<Rightarrow> match_witness" where
  "matchWitnessFromBindings bindings =
     (let size = int (length bindings)
      in \<lparr>mw_domainSize = size, mw_codomainSize = size, mw_embedding = map int [0..<length bindings]\<rparr>)"

fun embedding_loop :: "int \<Rightarrow> int list \<Rightarrow> int list \<Rightarrow> bool" where
  "embedding_loop codomain seen [] = True"
| "embedding_loop codomain seen (index # rest) =
     (if index < 0 \<or> codomain \<le> index then False
      else if index \<in> set seen then False
      else embedding_loop codomain (set_add index seen) rest)"

definition verifyMatchWitness :: "match_witness \<Rightarrow> match_binding list \<Rightarrow> bool" where
  "verifyMatchWitness w bindings =
     (if mw_domainSize w \<noteq> int (length bindings) then False
      else if mw_codomainSize w < mw_domainSize w then False
      else if \<not> embedding_loop (mw_codomainSize w) [] (mw_embedding w) then False
      else int (length (mw_embedding w)) = mw_domainSize w)"

section \<open>Recipes (complementSelector.ts, recipe.ts)\<close>

record complement_selector = cs_tag :: int

definition DEFAULT_COMPLEMENT_TAG :: int where
  "DEFAULT_COMPLEMENT_TAG = 0"

definition defaultComplementSelector :: complement_selector where
  "defaultComplementSelector = \<lparr>cs_tag = DEFAULT_COMPLEMENT_TAG\<rparr>"

definition complementTagFromSelector :: "complement_selector \<Rightarrow> int" where
  "complementTagFromSelector s = cs_tag s"

record replay_recipe =
  rp_epochId :: epoch_id
  rp_operationTypeId :: operation_type_id
  rp_templateRef :: "operation_template_ref option"
  rp_matchBindings :: "match_binding list"
  rp_matchWitness :: match_witness
  rp_complementTag :: int
  rp_kind :: event_kind
  rp_authorization :: "evidence_ref list"
  rp_external :: "evidence_ref list"
  rp_createdSessionRefs :: "session_id list"
  rp_freshLinkRefs :: "link_id list"
  rp_inputContentRefs :: "content_ref list"
  rp_scalarInputs :: scalar_inputs
  rp_emittedAt :: "timestamp option"
  rp_visibility :: change_visibility

record recipe_init =
  ri_epochId :: epoch_id
  ri_operationTypeId :: operation_type_id
  ri_templateRef :: "operation_template_ref option"
  ri_matchBindings :: "match_binding list"
  ri_matchWitness :: "match_witness option"
  ri_complementSelector :: "complement_selector option"
  ri_kind :: "event_kind option"
  ri_authorization :: "evidence_ref list option"
  ri_external :: "evidence_ref list option"
  ri_createdSessionRefs :: "session_id list option"
  ri_freshLinkRefs :: "link_id list option"
  ri_inputContentRefs :: "content_ref list option"
  ri_scalarInputs :: "scalar_inputs option"
  ri_emittedAt :: "timestamp option"
  ri_visibility :: change_visibility

definition replayRecipe :: "recipe_init \<Rightarrow> replay_recipe" where
  "replayRecipe init =
     (let witness = opt_default (matchWitnessFromBindings (ri_matchBindings init)) (ri_matchWitness init);
          complement = opt_default defaultComplementSelector (ri_complementSelector init);
          visibility = ri_visibility init;
          kind = opt_default (eventKindFromVisibility visibility) (ri_kind init)
      in \<lparr>rp_epochId = ri_epochId init, rp_operationTypeId = ri_operationTypeId init,
          rp_templateRef = ri_templateRef init, rp_matchBindings = ri_matchBindings init,
          rp_matchWitness = witness, rp_complementTag = complementTagFromSelector complement, rp_kind = kind,
          rp_authorization = opt_default [] (ri_authorization init),
          rp_external = opt_default [] (ri_external init),
          rp_createdSessionRefs = opt_default [] (ri_createdSessionRefs init),
          rp_freshLinkRefs = opt_default [] (ri_freshLinkRefs init),
          rp_inputContentRefs = opt_default [] (ri_inputContentRefs init),
          rp_scalarInputs = new_Map (opt_default [] (ri_scalarInputs init)),
          rp_emittedAt = ri_emittedAt init, rp_visibility = visibility\<rparr>)"

definition replayRecipeFromChange :: "coordination_change \<Rightarrow> replay_recipe" where
  "replayRecipeFromChange c =
     replayRecipe
       \<lparr>ri_epochId = cc_epochId c, ri_operationTypeId = cc_operationTypeId c, ri_templateRef = cc_templateRef c,
        ri_matchBindings = cc_matchBindings c, ri_matchWitness = None, ri_complementSelector = None,
        ri_kind = Some (eventKindFromVisibility (cc_visibility c)),
        ri_authorization = Some (cc_authorization c), ri_external = Some (cc_external c),
        ri_createdSessionRefs = Some (cc_createdSessionRefs c), ri_freshLinkRefs = Some [],
        ri_inputContentRefs = Some [], ri_scalarInputs = Some [], ri_emittedAt = None,
        ri_visibility = cc_visibility c\<rparr>"

definition coordinationChangeFromCommit ::
  "replay_recipe \<Rightarrow> change_id \<Rightarrow> timestamp \<Rightarrow> snapshot_ref \<Rightarrow> snapshot_ref \<Rightarrow> actor_ref \<Rightarrow> actor_ref list \<Rightarrow>
    coordination_change" where
  "coordinationChangeFromCommit recipe changeId recordedAt beforeRef afterRef initiator involved =
     coordinationChange
       \<lparr>ci_changeId = changeId, ci_recordedAt = recordedAt, ci_epochId = rp_epochId recipe,
        ci_operationTypeId = rp_operationTypeId recipe, ci_templateRef = rp_templateRef recipe,
        ci_beforeRef = beforeRef, ci_afterRef = afterRef,
        ci_matchBindings = Some (rp_matchBindings recipe),
        ci_targets = Some (targetsFromMatchBindings (rp_matchBindings recipe)),
        ci_initiator = initiator, ci_involved = Some involved,
        ci_authorization = Some (rp_authorization recipe), ci_external = Some (rp_external recipe),
        ci_createdSessionRefs = Some (rp_createdSessionRefs recipe), ci_visibility = rp_visibility recipe\<rparr>"

definition withRecipeSessions :: "replay_recipe \<Rightarrow> session_id list \<Rightarrow> replay_recipe" where
  "withRecipeSessions r refs = r\<lparr>rp_createdSessionRefs := refs\<rparr>"

definition withRecipeAuthorization :: "replay_recipe \<Rightarrow> evidence_ref list \<Rightarrow> replay_recipe" where
  "withRecipeAuthorization r auth = r\<lparr>rp_authorization := auth\<rparr>"

definition withHeartbeatEmittedAt :: "replay_recipe \<Rightarrow> timestamp \<Rightarrow> replay_recipe" where
  "withHeartbeatEmittedAt r t = r\<lparr>rp_emittedAt := Some t\<rparr>"

section \<open>Detached copies (authoritySnapshot.ts)\<close>

definition snapshotTemplateRef :: "operation_template_ref \<Rightarrow> operation_template_ref" where
  "snapshotTemplateRef v = \<lparr>ot_operationTypeId = ot_operationTypeId v, ot_revision = ot_revision v\<rparr>"

definition snapshotMatchBinding :: "match_binding \<Rightarrow> match_binding" where
  "snapshotMatchBinding b = b"

definition snapshotTargetRef :: "target_ref \<Rightarrow> target_ref" where
  "snapshotTargetRef v = \<lparr>tr_kind = tr_kind v, tr_id = tr_id v\<rparr>"

definition snapshotActorRef :: "actor_ref \<Rightarrow> actor_ref" where
  "snapshotActorRef v = \<lparr>ar_actorId = ar_actorId v, ar_kind = ar_kind v\<rparr>"

definition snapshotEvidenceRef :: "evidence_ref \<Rightarrow> evidence_ref" where
  "snapshotEvidenceRef v =
     \<lparr>ev_evidenceId = ev_evidenceId v, ev_kind = ev_kind v, ev_contentRef = ev_contentRef v\<rparr>"

definition snapshotMatchWitness :: "match_witness \<Rightarrow> match_witness" where
  "snapshotMatchWitness v =
     \<lparr>mw_domainSize = mw_domainSize v, mw_codomainSize = mw_codomainSize v,
      mw_embedding = cloneReadonlyArray (\<lambda>x. x) (mw_embedding v)\<rparr>"

definition snapshotScalarInputs :: "scalar_inputs \<Rightarrow> scalar_inputs" where
  "snapshotScalarInputs v = fold (\<lambda>(name, scalar) copy. map_set name scalar copy) v []"

definition snapshotCoordinationChange :: "coordination_change \<Rightarrow> coordination_change" where
  "snapshotCoordinationChange v =
     \<lparr>cc_changeId = cc_changeId v, cc_recordedAt = cc_recordedAt v, cc_epochId = cc_epochId v,
      cc_operationTypeId = cc_operationTypeId v,
      cc_templateRef = map_option snapshotTemplateRef (cc_templateRef v),
      cc_beforeRef = cc_beforeRef v, cc_afterRef = cc_afterRef v,
      cc_matchBindings = cloneReadonlyArray snapshotMatchBinding (cc_matchBindings v),
      cc_targets = cloneReadonlyArray snapshotTargetRef (cc_targets v),
      cc_initiator = snapshotActorRef (cc_initiator v),
      cc_involved = cloneReadonlyArray snapshotActorRef (cc_involved v),
      cc_authorization = cloneReadonlyArray snapshotEvidenceRef (cc_authorization v),
      cc_external = cloneReadonlyArray snapshotEvidenceRef (cc_external v),
      cc_createdSessionRefs = cloneReadonlyArray (\<lambda>x. x) (cc_createdSessionRefs v),
      cc_visibility = cc_visibility v\<rparr>"

definition snapshotReplayRecipe :: "replay_recipe \<Rightarrow> replay_recipe" where
  "snapshotReplayRecipe v =
     \<lparr>rp_epochId = rp_epochId v, rp_operationTypeId = rp_operationTypeId v,
      rp_templateRef = map_option snapshotTemplateRef (rp_templateRef v),
      rp_matchBindings = cloneReadonlyArray snapshotMatchBinding (rp_matchBindings v),
      rp_matchWitness = snapshotMatchWitness (rp_matchWitness v),
      rp_complementTag = rp_complementTag v, rp_kind = rp_kind v,
      rp_authorization = cloneReadonlyArray snapshotEvidenceRef (rp_authorization v),
      rp_external = cloneReadonlyArray snapshotEvidenceRef (rp_external v),
      rp_createdSessionRefs = cloneReadonlyArray (\<lambda>x. x) (rp_createdSessionRefs v),
      rp_freshLinkRefs = cloneReadonlyArray (\<lambda>x. x) (rp_freshLinkRefs v),
      rp_inputContentRefs = cloneReadonlyArray (\<lambda>x. x) (rp_inputContentRefs v),
      rp_scalarInputs = snapshotScalarInputs (rp_scalarInputs v),
      rp_emittedAt = rp_emittedAt v, rp_visibility = rp_visibility v\<rparr>"

section \<open>Lifecycle transitions (lifecycleTransitions.ts)\<close>

text \<open>The arrow of the registry keys and of the messages, in UTF-8.\<close>

definition arrow :: string where
  "arrow = [CHR 0xE2, CHR 0x86, CHR 0x92]"

definition transition_key :: "participation_status \<Rightarrow> participation_status \<Rightarrow> string" where
  "transition_key from to = status_name from @ arrow @ status_name to"

type_synonym transition_validator = "participation_status \<Rightarrow> bool"

definition LIFECYCLE_TRANSITIONS :: "(string, transition_validator) jsmap" where
  "LIFECYCLE_TRANSITIONS =
     new_Map
       [(''registered'' @ arrow @ ''active'', \<lambda>s. s = Registered),
        (''waiting'' @ arrow @ ''active'', \<lambda>s. s = Waiting),
        (''active'' @ arrow @ ''done'', \<lambda>s. s = Active),
        (''active'' @ arrow @ ''retired'', \<lambda>s. s = Active),
        (''active'' @ arrow @ ''waiting'', \<lambda>s. s = Active),
        (''active'' @ arrow @ ''blocked'', \<lambda>s. s = Active),
        (''done'' @ arrow @ ''retired'', \<lambda>s. s = Done),
        (''blocked'' @ arrow @ ''active'', \<lambda>s. s = Blocked)]"

definition validateTransition :: "participation_status \<Rightarrow> participation_status \<Rightarrow> bool" where
  "validateTransition from to =
     (case map_get LIFECYCLE_TRANSITIONS (transition_key from to) of
        None \<Rightarrow> False
      | Some validator \<Rightarrow> validator from)"

text \<open>\<open>s.split(sep)[1]\<close>: what lies between the first and the second separator.\<close>

fun split_first :: "string \<Rightarrow> string \<Rightarrow> string \<times> string option" where
  "split_first sep [] = ([], None)"
| "split_first sep (c # s) =
     (if take (length sep) (c # s) = sep then ([], Some (drop (length sep) (c # s)))
      else (case split_first sep s of (a, b) \<Rightarrow> (c # a, b)))"

definition split_second :: "string \<Rightarrow> string \<Rightarrow> string option" where
  "split_second sep s = map_option (\<lambda>rest. fst (split_first sep rest)) (snd (split_first sep s))"

definition validTransitionsFrom :: "participation_status \<Rightarrow> string option list" where
  "validTransitionsFrom from =
     fold (\<lambda>(key, validator) results. if validator from then results @ [split_second arrow key] else results)
       LIFECYCLE_TRANSITIONS []"

section \<open>Start conditions at run time (conditionEvaluatorRegistry.ts)\<close>

text \<open>
  An evaluator may throw: the registered ones cast a parameter to a string array without
  checking it, and calling \<open>every\<close> on anything else is a type error (\<open>Inl\<close>).
\<close>

record evaluation_context =
  ec_snapshot :: snapshot
  ec_targetAgent :: actor_id

type_synonym condition_evaluator = "condition_params \<Rightarrow> evaluation_context \<Rightarrow> string + bool"
type_synonym condition_registry = "(string, condition_evaluator) jsmap"

definition register_evaluator :: "string \<Rightarrow> condition_evaluator \<Rightarrow> condition_registry \<Rightarrow> condition_registry" where
  "register_evaluator name e r = map_set name e r"

text \<open>\<open>xs.every(f)\<close> and \<open>xs.some(f)\<close> with short circuit.\<close>

fun every_m :: "('a \<Rightarrow> 'e + bool) \<Rightarrow> 'a list \<Rightarrow> 'e + bool" where
  "every_m f [] = Inr True"
| "every_m f (x # xs) =
     (case f x of Inl e \<Rightarrow> Inl e | Inr b \<Rightarrow> if b then every_m f xs else Inr False)"

fun some_m :: "('a \<Rightarrow> 'e + bool) \<Rightarrow> 'a list \<Rightarrow> 'e + bool" where
  "some_m f [] = Inr False"
| "some_m f (x # xs) =
     (case f x of Inl e \<Rightarrow> Inl e | Inr b \<Rightarrow> if b then Inr True else some_m f xs)"

lemma every_m_cong [fundef_cong]:
  "xs = ys \<Longrightarrow> (\<And>x. x \<in> set ys \<Longrightarrow> f x = g x) \<Longrightarrow> every_m f xs = every_m g ys"
  by (induction ys arbitrary: xs) (auto split: sum.splits)

lemma some_m_cong [fundef_cong]:
  "xs = ys \<Longrightarrow> (\<And>x. x \<in> set ys \<Longrightarrow> f x = g x) \<Longrightarrow> some_m f xs = some_m g ys"
  by (induction ys arbitrary: xs) (auto split: sum.splits)

definition evaluateAtom :: "condition_registry \<Rightarrow> condition_atom \<Rightarrow> evaluation_context \<Rightarrow> string + bool" where
  "evaluateAtom r a ctx =
     (case map_get r (ca_evaluator a) of
        None \<Rightarrow> Inr False
      | Some e \<Rightarrow> e (ca_params a) ctx)"

fun evaluateExpression ::
  "condition_registry \<Rightarrow> start_condition \<Rightarrow> evaluation_context \<Rightarrow> string + bool" where
  "evaluateExpression r (CondAtom a) ctx = evaluateAtom r a ctx"
| "evaluateExpression r (CondAnd cs) ctx = every_m (\<lambda>c. evaluateExpression r c ctx) cs"
| "evaluateExpression r (CondOr cs) ctx = some_m (\<lambda>c. evaluateExpression r c ctx) cs"
| "evaluateExpression r (CondNot c) ctx = map_sum (\<lambda>e. e) Not (evaluateExpression r c ctx)"

text \<open>
  \<open>agents === undefined || agents.length === 0\<close>, then \<open>agents.every(test)\<close>: \<open>Inl\<close> when the
  value has no \<open>every\<close> method.
\<close>

definition all_agents :: "(js_value \<Rightarrow> bool) \<Rightarrow> js_value \<Rightarrow> string + bool" where
  "all_agents test agents =
     (case agents of
        JUndefined \<Rightarrow> Inr False
      | JArray xs \<Rightarrow> if xs = [] then Inr False else every_m (\<lambda>x. Inr (test x)) xs
      | JString s \<Rightarrow> if s = [] then Inr False else Inl ''agents.every is not a function''
      | JObject props \<Rightarrow>
          if js_field agents ''length'' = JNumber (Fin 0) then Inr False
          else Inl ''agents.every is not a function''
      | JNull \<Rightarrow> Inl ''Cannot read properties of null''
      | _ \<Rightarrow> Inl ''agents.every is not a function'')"

definition status_of :: "evaluation_context \<Rightarrow> js_value \<Rightarrow> participation_status option" where
  "status_of ctx v =
     (case js_string v of
        None \<Rightarrow> None
      | Some a \<Rightarrow> map_option p_status (map_get (sn_participants (ec_snapshot ctx)) a))"

definition agentsDone :: condition_evaluator where
  "agentsDone params ctx =
     all_agents (\<lambda>a. status_of ctx a = Some Done \<or> status_of ctx a = Some Retired)
       (js_field (JObject params) ''agents'')"

definition agentsActive :: condition_evaluator where
  "agentsActive params ctx =
     all_agents (\<lambda>a. status_of ctx a = Some Active) (js_field (JObject params) ''agents'')"

definition artifactPublished :: condition_evaluator where
  "artifactPublished params ctx =
     (let v = js_field (JObject params) ''artifactId''
      in if v = JUndefined then Inr False
         else case js_string v of
                None \<Rightarrow> Inr False
              | Some a \<Rightarrow>
                  (case map_get (sn_artifacts (ec_snapshot ctx)) a of
                     None \<Rightarrow> Inr False
                   | Some w \<Rightarrow> Inr (wa_lifecycle w = LPublished)))"

definition createDefaultConditionRegistry :: condition_registry where
  "createDefaultConditionRegistry =
     register_evaluator ''artifactPublished'' artifactPublished
       (register_evaluator ''agentsActive'' agentsActive
         (register_evaluator ''agentsDone'' agentsDone
           (register_evaluator ''never'' (\<lambda>_ _. Inr False)
             (register_evaluator ''always'' (\<lambda>_ _. Inr True) []))))"

section \<open>Lemmas\<close>

text \<open>Copies of immutable data are the data; scalar inputs are rebuilt as an object.\<close>

lemma snapshot_id [simp]:
  "snapshotTemplateRef t = t" "snapshotMatchBinding b = b" "snapshotTargetRef g = g" "snapshotActorRef a = a"
  "snapshotEvidenceRef e = e" "snapshotMatchWitness w = w"
  by (simp_all add: snapshotTemplateRef_def snapshotMatchBinding_def snapshotTargetRef_def snapshotActorRef_def
      snapshotEvidenceRef_def snapshotMatchWitness_def)

lemma snapshot_id_fun:
  "snapshotTemplateRef = (\<lambda>x. x)" "snapshotMatchBinding = (\<lambda>x. x)" "snapshotTargetRef = (\<lambda>x. x)"
  "snapshotActorRef = (\<lambda>x. x)" "snapshotEvidenceRef = (\<lambda>x. x)"
  by (rule ext, simp)+

lemma snapshotScalarInputs_new_Map: "snapshotScalarInputs v = new_Map v"
  by (simp add: snapshotScalarInputs_def new_Map_def)

lemma snapshotCoordinationChange_id [simp]: "snapshotCoordinationChange c = c"
  by (simp add: snapshotCoordinationChange_def snapshot_id_fun option.map_ident)

lemma snapshotReplayRecipe_eq: "snapshotReplayRecipe r = r\<lparr>rp_scalarInputs := new_Map (rp_scalarInputs r)\<rparr>"
  by (simp add: snapshotReplayRecipe_def snapshot_id_fun option.map_ident snapshotScalarInputs_new_Map)

definition tidy_recipe :: "replay_recipe \<Rightarrow> bool" where
  "tidy_recipe r \<longleftrightarrow> map_wf (rp_scalarInputs r)"

lemma snapshotReplayRecipe_id: "tidy_recipe r \<Longrightarrow> snapshotReplayRecipe r = r"
  by (simp add: snapshotReplayRecipe_eq tidy_recipe_def)

lemma tidy_replayRecipe [simp]: "tidy_recipe (replayRecipe init)"
  by (simp add: tidy_recipe_def replayRecipe_def Let_def)

lemma tidy_snapshotReplayRecipe [simp]: "tidy_recipe (snapshotReplayRecipe r)"
  by (simp add: tidy_recipe_def snapshotReplayRecipe_eq)

text \<open>Witnesses are injective embeddings.\<close>

lemma embedding_loop_iff:
  "distinct seen \<Longrightarrow> embedding_loop n seen xs \<longleftrightarrow>
    set xs \<subseteq> {0..<n} \<and> distinct xs \<and> set xs \<inter> set seen = {}"
proof (induction n seen xs rule: embedding_loop.induct)
  case (2 n seen i rest)
  then show ?case by (cases "i < 0 \<or> n \<le> i \<or> i \<in> set seen") auto
qed simp

lemma verifyMatchWitness_iff:
  "verifyMatchWitness w bs \<longleftrightarrow>
    mw_domainSize w = int (length bs) \<and> int (length bs) \<le> mw_codomainSize w \<and>
    length (mw_embedding w) = length bs \<and> distinct (mw_embedding w) \<and>
    set (mw_embedding w) \<subseteq> {0..<mw_codomainSize w}"
  by (auto simp: verifyMatchWitness_def embedding_loop_iff)

lemma matchWitness_verifies: "verifyMatchWitness (matchWitnessFromBindings bs) bs"
  by (auto simp: verifyMatchWitness_iff matchWitnessFromBindings_def Let_def distinct_map)

text \<open>The eight transitions.\<close>

definition LIFECYCLE :: "(participation_status \<times> participation_status) list" where
  "LIFECYCLE =
     [(Registered, Active), (Waiting, Active), (Active, Done), (Active, Retired), (Active, Waiting),
      (Active, Blocked), (Done, Retired), (Blocked, Active)]"

lemma status_all: "(\<forall>s. P s) \<longleftrightarrow> P Registered \<and> P Active \<and> P Waiting \<and> P Blocked \<and> P Done \<and> P Retired"
  by (metis participation_status.exhaust)

lemma validateTransition_table:
  "list_all (\<lambda>a. list_all (\<lambda>b. validateTransition a b = ((a, b) \<in> set LIFECYCLE)) PARTICIPATION_STATUSES)
    PARTICIPATION_STATUSES"
  by code_simp

lemma PARTICIPATION_STATUSES_all: "s \<in> set PARTICIPATION_STATUSES"
  by (cases s) (simp_all add: PARTICIPATION_STATUSES_def)

lemma validateTransition_iff: "validateTransition a b \<longleftrightarrow> (a, b) \<in> set LIFECYCLE"
  using validateTransition_table PARTICIPATION_STATUSES_all by (auto simp: list_all_iff)

lemma validTransitionsFrom_table:
  "list_all (\<lambda>a. validTransitionsFrom a = map (Some \<circ> status_name) (filter (validateTransition a) 
      (map snd (filter (\<lambda>(x, y). x = a) LIFECYCLE)))) PARTICIPATION_STATUSES"
  by code_simp

text \<open>Recipes and changes.\<close>

lemma coordinationChangeFromCommit_simps [simp]:
  "cc_changeId (coordinationChangeFromCommit r cid t b a i who) = cid"
  "cc_recordedAt (coordinationChangeFromCommit r cid t b a i who) = t"
  "cc_epochId (coordinationChangeFromCommit r cid t b a i who) = rp_epochId r"
  "cc_operationTypeId (coordinationChangeFromCommit r cid t b a i who) = rp_operationTypeId r"
  "cc_templateRef (coordinationChangeFromCommit r cid t b a i who) = rp_templateRef r"
  "cc_beforeRef (coordinationChangeFromCommit r cid t b a i who) = b"
  "cc_afterRef (coordinationChangeFromCommit r cid t b a i who) = a"
  "cc_matchBindings (coordinationChangeFromCommit r cid t b a i who) = rp_matchBindings r"
  "cc_targets (coordinationChangeFromCommit r cid t b a i who) = targetsFromMatchBindings (rp_matchBindings r)"
  "cc_initiator (coordinationChangeFromCommit r cid t b a i who) = i"
  "cc_involved (coordinationChangeFromCommit r cid t b a i who) = who"
  "cc_authorization (coordinationChangeFromCommit r cid t b a i who) = rp_authorization r"
  "cc_external (coordinationChangeFromCommit r cid t b a i who) = rp_external r"
  "cc_createdSessionRefs (coordinationChangeFromCommit r cid t b a i who) = rp_createdSessionRefs r"
  "cc_visibility (coordinationChangeFromCommit r cid t b a i who) = rp_visibility r"
  by (simp_all add: coordinationChangeFromCommit_def coordinationChange_def Let_def opt_default_def)

text \<open>Short-circuit evaluation without exceptions.\<close>

lemma every_m_Inr: "(\<And>x. x \<in> set xs \<Longrightarrow> f x = Inr (p x)) \<Longrightarrow> every_m f xs = Inr (list_all p xs)"
  by (induction xs) auto

lemma some_m_Inr: "(\<And>x. x \<in> set xs \<Longrightarrow> f x = Inr (p x)) \<Longrightarrow> some_m f xs = Inr (list_ex p xs)"
  by (induction xs) auto

end
