(* ===== verification/Runtime_Schema.thy ===== *)
theory Runtime_Schema
  imports Runtime_Base
begin

text \<open>
  \<open>packages/runtime/src/schema\<close>, \<open>engine/activeSchemaContext.ts\<close> and
  \<open>ports/policyEvaluator.ts\<close>: operation templates and their conditions, the template registry,
  the default schema, the active schema context and the two policies.
\<close>

section \<open>Templates (operationTemplate.ts)\<close>

datatype condition_kind =
    TaskExists
  | TaskNotExists
  | SessionExists
  | SessionControllerMatches
  | DelegatorHolds
  | DelegateeCanAccept
  | ParticipantRegistered

fun condition_kind_name :: "condition_kind \<Rightarrow> string" where
  "condition_kind_name TaskExists = ''task.exists''"
| "condition_kind_name TaskNotExists = ''task.not_exists''"
| "condition_kind_name SessionExists = ''session.exists''"
| "condition_kind_name SessionControllerMatches = ''session.controller_matches''"
| "condition_kind_name DelegatorHolds = ''delegator.holds''"
| "condition_kind_name DelegateeCanAccept = ''delegatee.can_accept''"
| "condition_kind_name ParticipantRegistered = ''participant.registered''"

record template_condition =
  tc_kind :: condition_kind
  tc_bindings :: "(string, binding_role) jsmap"

record operation_template =
  op_operationTypeId :: operation_type_id
  op_templateRef :: operation_template_ref
  op_description :: string
  op_requiredRoles :: "binding_role list"
  op_requires :: "template_condition list"
  op_ensures :: "template_condition list"
  op_defaultVisibility :: change_visibility
  op_mayCreateSessions :: bool

section \<open>Conditions (conditionEvaluator.ts)\<close>

definition bindingByRole :: "match_binding list \<Rightarrow> binding_role \<Rightarrow> match_binding option" where
  "bindingByRole bindings role = List.find (\<lambda>b. roleOf b = role) bindings"

definition artifactIdFromRole :: "match_binding list \<Rightarrow> binding_role \<Rightarrow> artifact_id option" where
  "artifactIdFromRole bindings role =
     (case bindingByRole bindings role of
        Some (BTask i) \<Rightarrow> Some i
      | Some (BArtifact i) \<Rightarrow> Some i
      | _ \<Rightarrow> None)"

definition actorIdFromRole :: "match_binding list \<Rightarrow> binding_role \<Rightarrow> actor_id option" where
  "actorIdFromRole bindings role =
     (case bindingByRole bindings role of
        Some (BFrom i) \<Rightarrow> Some i
      | Some (BTo i) \<Rightarrow> Some i
      | Some (BDelegator i) \<Rightarrow> Some i
      | Some (BDelegatee i) \<Rightarrow> Some i
      | Some (BParticipant i) \<Rightarrow> Some i
      | _ \<Rightarrow> None)"

definition capabilityIdFromRole :: "match_binding list \<Rightarrow> binding_role \<Rightarrow> capability_id option" where
  "capabilityIdFromRole bindings role =
     (case bindingByRole bindings role of Some (BCapability i) \<Rightarrow> Some i | _ \<Rightarrow> None)"

definition sessionIdFromRole :: "match_binding list \<Rightarrow> binding_role \<Rightarrow> session_id option" where
  "sessionIdFromRole bindings role =
     (case bindingByRole bindings role of Some (BSession i) \<Rightarrow> Some i | _ \<Rightarrow> None)"

text \<open>\<open>resolveRole(bindings, condition.bindings, param) ?? fallback\<close>.\<close>

definition resolveRole :: "template_condition \<Rightarrow> string \<Rightarrow> binding_role \<Rightarrow> binding_role" where
  "resolveRole c param fallback = opt_default fallback (map_get (tc_bindings c) param)"

definition evaluateDelegatorHolds :: "snapshot \<Rightarrow> match_binding list \<Rightarrow> template_condition \<Rightarrow> bool" where
  "evaluateDelegatorHolds s bindings c =
     (let artifactId = artifactIdFromRole bindings (resolveRole c ''task'' RTask);
          actorId = actorIdFromRole bindings (resolveRole c ''from'' RFrom);
          capabilityId = capabilityIdFromRole bindings (resolveRole c ''capability'' RCapability)
      in case (artifactId, actorId) of
           (Some art, Some act) \<Rightarrow>
             (case capabilityId of
                None \<Rightarrow> map_option (\<lambda>a. ar_actorId (wa_owner a)) (map_get (sn_artifacts s) art) = Some act
              | Some capId \<Rightarrow>
                  (case map_get (sn_capabilities s) capId of
                     None \<Rightarrow> False
                   | Some cap \<Rightarrow> sc_holder cap = act \<and> sc_scope cap = ScopeArtifact art))
         | _ \<Rightarrow> False)"

definition evaluateSessionController :: "snapshot \<Rightarrow> match_binding list \<Rightarrow> template_condition \<Rightarrow> bool" where
  "evaluateSessionController s bindings c =
     (let sessionId = sessionIdFromRole bindings (resolveRole c ''session'' RSession);
          actorId = actorIdFromRole bindings (resolveRole c ''from'' RFrom)
      in case (sessionId, actorId) of
           (Some sess, Some act) \<Rightarrow> map_option se_controller (map_get (sn_sessions s) sess) = Some act
         | _ \<Rightarrow> False)"

definition evaluateCondition :: "snapshot \<Rightarrow> match_binding list \<Rightarrow> template_condition \<Rightarrow> bool" where
  "evaluateCondition s bindings c =
     (case tc_kind c of
        TaskExists \<Rightarrow>
          (case artifactIdFromRole bindings (resolveRole c ''task'' RTask) of
             None \<Rightarrow> False | Some i \<Rightarrow> map_has (sn_artifacts s) i)
      | TaskNotExists \<Rightarrow>
          (case artifactIdFromRole bindings (resolveRole c ''task'' RTask) of
             None \<Rightarrow> False | Some i \<Rightarrow> \<not> map_has (sn_artifacts s) i)
      | SessionExists \<Rightarrow>
          (case sessionIdFromRole bindings (resolveRole c ''session'' RSession) of
             None \<Rightarrow> False | Some i \<Rightarrow> map_has (sn_sessions s) i)
      | SessionControllerMatches \<Rightarrow> evaluateSessionController s bindings c
      | DelegatorHolds \<Rightarrow> evaluateDelegatorHolds s bindings c
      | DelegateeCanAccept \<Rightarrow>
          (case actorIdFromRole bindings (resolveRole c ''to'' RTo) of
             None \<Rightarrow> False | Some i \<Rightarrow> map_has (sn_participants s) i)
      | ParticipantRegistered \<Rightarrow>
          (case actorIdFromRole bindings (resolveRole c ''participant'' RFrom) of
             None \<Rightarrow> False | Some i \<Rightarrow> map_has (sn_participants s) i))"

fun evaluateRequires ::
  "snapshot \<Rightarrow> match_binding list \<Rightarrow> template_condition list \<Rightarrow> template_condition option" where
  "evaluateRequires s bindings [] = None"
| "evaluateRequires s bindings (c # cs) =
     (if \<not> evaluateCondition s bindings c then Some c else evaluateRequires s bindings cs)"

definition evaluateEnsures ::
  "snapshot \<Rightarrow> match_binding list \<Rightarrow> template_condition list \<Rightarrow> template_condition option" where
  "evaluateEnsures s bindings ensures = evaluateRequires s bindings ensures"

section \<open>Versioned registries\<close>

text \<open>
  The template registry and the handler registry keep the same contract: an entry is found
  under its type id and revision, and the first revision registered for a type id is the one
  found without a revision. Keys join type id and revision with an at sign, so the contract
  is stated for type ids without one.
\<close>

definition plain_id :: "string \<Rightarrow> bool" where
  "plain_id i \<longleftrightarrow> CHR ''@'' \<notin> set i"

locale versioned_registry =
  fixes empty :: "'r"
    and get :: "'r \<Rightarrow> string \<Rightarrow> string option \<Rightarrow> 'v option"
    and put :: "string \<Rightarrow> string \<Rightarrow> 'v \<Rightarrow> 'r \<Rightarrow> 'r"
    and fits :: "string \<Rightarrow> string \<Rightarrow> 'v \<Rightarrow> bool"
  assumes get_empty: "get empty i w = None"
    and get_put_revision: "plain_id i \<Longrightarrow> plain_id j \<Longrightarrow> fits i rv v \<Longrightarrow>
      get (put i rv v r) j (Some rv') = (if i = j \<and> rv = rv' then Some v else get r j (Some rv'))"
    and get_put_default: "plain_id i \<Longrightarrow> plain_id j \<Longrightarrow> fits i rv v \<Longrightarrow>
      get (put i rv v r) j None = (if i = j \<and> get r j None = None then Some v else get r j None)"
begin

definition put_all :: "(string \<times> string \<times> 'v) list \<Rightarrow> 'r \<Rightarrow> 'r" where
  "put_all entries r = fold (\<lambda>(i, rv, v). put i rv v) entries r"

definition admissible :: "(string \<times> string \<times> 'v) list \<Rightarrow> bool" where
  "admissible entries = list_all (\<lambda>(i, rv, v). plain_id i \<and> fits i rv v) entries"

lemma put_all_revision:
  assumes "admissible entries" and "plain_id j"
    and "distinct (map (\<lambda>(i, rv, v). (i, rv)) entries)" and "(j, rv, v) \<in> set entries"
  shows "get (put_all entries r) j (Some rv) = Some v"
  using assms
proof (induction entries arbitrary: r rule: rev_induct)
  case (snoc e entries)
  obtain i rv' v' where e: "e = (i, rv', v')" by (metis prod_cases3)
  with snoc.prems(1) have ok: "plain_id i" "fits i rv' v'" "admissible entries"
    by (simp_all add: admissible_def)
  show ?case
  proof (cases "i = j \<and> rv' = rv")
    case True
    have "(j, rv) \<notin> (\<lambda>(i, rv, v). (i, rv)) ` set entries" using snoc.prems(3) e True by auto
    then have "(j, rv, v) \<notin> set entries" by (metis (mono_tags, lifting) case_prod_conv image_eqI)
    with snoc.prems(4) e have "v' = v" by auto
    with True ok snoc.prems(2) show ?thesis by (simp add: put_all_def e get_put_revision)
  next
    case False
    with snoc.prems e have "(j, rv, v) \<in> set entries" by auto
    with snoc.IH [of r] snoc.prems e False ok show ?thesis by (auto simp: put_all_def get_put_revision)
  qed
qed simp

lemma put_all_default_kept:
  assumes "admissible entries" and "plain_id j" and "get r j None = Some v"
  shows "get (put_all entries r) j None = Some v"
  using assms
proof (induction entries arbitrary: r)
  case (Cons e entries)
  obtain i rv v' where e: "e = (i, rv, v')" by (metis prod_cases3)
  with Cons.prems have "get (put i rv v' r) j None = Some v" by (simp add: get_put_default admissible_def)
  with Cons.IH [of "put i rv v' r"] Cons.prems e show ?case by (simp add: put_all_def admissible_def)
qed (simp add: put_all_def)

lemma put_all_default:
  assumes "admissible entries" and "plain_id j" and "get r j None = None"
  shows "get (put_all entries r) j None = map_option (\<lambda>(i, rv, v). v) (List.find (\<lambda>(i, rv, v). i = j) entries)"
  using assms
proof (induction entries arbitrary: r)
  case (Cons e entries)
  obtain i rv v where e: "e = (i, rv, v)" by (metis prod_cases3)
  with Cons.prems have ok: "plain_id i" "fits i rv v" "admissible entries" by (simp_all add: admissible_def)
  show ?case
  proof (cases "i = j")
    case True
    with Cons.prems ok have "get (put i rv v r) j None = Some v" by (simp add: get_put_default)
    with put_all_default_kept [of entries j "put i rv v r" v] Cons.prems e True ok show ?thesis
      by (simp add: put_all_def)
  next
    case False
    with Cons.prems ok have "get (put i rv v r) j None = None" by (simp add: get_put_default)
    with Cons.IH [of "put i rv v r"] Cons.prems e False ok show ?thesis by (simp add: put_all_def)
  qed
qed (simp add: put_all_def)

end

section \<open>Template registry (templateRegistry.ts)\<close>

type_synonym template_registry = "(string, operation_template) jsmap"

definition templateKey :: "operation_type_id \<Rightarrow> string \<Rightarrow> string" where
  "templateKey i rv = i @ ''@'' @ rv"

definition template_get ::
  "template_registry \<Rightarrow> operation_type_id \<Rightarrow> string option \<Rightarrow> operation_template option" where
  "template_get r i rv =
     (case rv of Some v \<Rightarrow> map_get r (templateKey i v) | None \<Rightarrow> map_get r i)"

definition template_register :: "operation_template \<Rightarrow> template_registry \<Rightarrow> template_registry" where
  "template_register t r =
     (let r1 = map_set (templateKey (op_operationTypeId t) (ot_revision (op_templateRef t))) t r
      in if \<not> map_has r1 (op_operationTypeId t) then map_set (op_operationTypeId t) t r1 else r1)"

definition template_list :: "template_registry \<Rightarrow> operation_template list" where
  "template_list r =
     snd (fold (\<lambda>t (seen, result).
       let key = templateKey (op_operationTypeId t) (ot_revision (op_templateRef t))
       in if key \<in> set seen then (seen, result) else (set_add key seen, result @ [t])) (map_values r) ([], []))"

lemma templateKey_eq: "plain_id i \<Longrightarrow> plain_id j \<Longrightarrow> templateKey i a = templateKey j b \<longleftrightarrow> i = j \<and> a = b"
  using append_sep_eq [of "CHR ''@''" i j a b] by (auto simp: templateKey_def plain_id_def)

lemma templateKey_not_plain: "plain_id j \<Longrightarrow> templateKey i a \<noteq> j"
  by (auto simp: templateKey_def plain_id_def)

text \<open>The registry files a template under its own type id and revision.\<close>

definition template_put ::
  "operation_type_id \<Rightarrow> string \<Rightarrow> operation_template \<Rightarrow> template_registry \<Rightarrow> template_registry" where
  "template_put i rv t r = template_register t r"

definition template_fits :: "operation_type_id \<Rightarrow> string \<Rightarrow> operation_template \<Rightarrow> bool" where
  "template_fits i rv t \<longleftrightarrow> op_operationTypeId t = i \<and> ot_revision (op_templateRef t) = rv"

interpretation templates: versioned_registry "[]" template_get template_put template_fits
proof
  fix i j :: operation_type_id and rv rv' :: string and w :: "string option" and t r
  show "template_get [] i w = None"
    by (simp add: template_get_def split: option.splits)
  assume "plain_id i" "plain_id j" "template_fits i rv t"
  then show "template_get (template_put i rv t r) j (Some rv') =
      (if i = j \<and> rv = rv' then Some t else template_get r j (Some rv'))"
    and "template_get (template_put i rv t r) j None =
      (if i = j \<and> template_get r j None = None then Some t else template_get r j None)"
    by (auto simp: template_get_def template_put_def template_fits_def template_register_def Let_def
        jsmap_simps templateKey_eq templateKey_not_plain templateKey_not_plain [symmetric] map_has_get)
qed

section \<open>Schemas (orchestrationSchema.ts)\<close>

datatype structural_mode = Cartesian | Affine | Relevant | Linear

record object_type_declaration =
  ob_objectTypeId :: string
  ob_structuralMode :: structural_mode
  ob_codecRef :: string
  ob_description :: string
  ob_metadata :: "(string, string) jsmap"

record port_declaration =
  pd_portName :: string
  pd_position :: int
  pd_objectTypeId :: string

record port_contract =
  pk_inputs :: "port_declaration list"
  pk_outputs :: "port_declaration list"
  pk_requires :: "template_condition list"
  pk_ensures :: "template_condition list"

record operation_type_declaration =
  od_operationTypeId :: operation_type_id
  od_templateRef :: operation_template_ref
  od_portContract :: port_contract
  od_requiredRoles :: "binding_role list"
  od_defaultVisibility :: change_visibility
  od_mayCreateSessions :: bool

record resource_rule =
  rr_ruleId :: string
  rr_objectTypeId :: "string option"
  rr_structuralMode :: structural_mode
  rr_capacity :: "int option"
  rr_allowsCopy :: bool
  rr_allowsDrop :: bool
  rr_requiresQuiescence :: bool

record orchestration_schema =
  os_schemaId :: string
  os_wireVersion :: int
  os_objectTypes :: "(string, object_type_declaration) jsmap"
  os_operationTypes :: "(operation_type_id, operation_type_declaration) jsmap"
  os_templates :: "operation_template list"
  os_resourceRules :: "resource_rule list"

text \<open>\<open>DetachedReadonlyMap\<close>: a Map built from its entries.\<close>

definition detachedReadonlyMap :: "('k \<times> 'v) list \<Rightarrow> ('k, 'v) jsmap" where
  "detachedReadonlyMap entries = new_Map entries"

definition snapshotCondition :: "template_condition \<Rightarrow> template_condition" where
  "snapshotCondition c = \<lparr>tc_kind = tc_kind c, tc_bindings = new_Map (tc_bindings c)\<rparr>"

definition snapshotPortContract :: "port_contract \<Rightarrow> port_contract" where
  "snapshotPortContract c =
     \<lparr>pk_inputs = map (\<lambda>d. d) (pk_inputs c), pk_outputs = map (\<lambda>d. d) (pk_outputs c),
      pk_requires = map snapshotCondition (pk_requires c), pk_ensures = map snapshotCondition (pk_ensures c)\<rparr>"

definition snapshotTemplate :: "operation_template \<Rightarrow> operation_template" where
  "snapshotTemplate t =
     \<lparr>op_operationTypeId = op_operationTypeId t, op_templateRef = op_templateRef t,
      op_description = op_description t, op_requiredRoles = op_requiredRoles t,
      op_requires = map snapshotCondition (op_requires t), op_ensures = map snapshotCondition (op_ensures t),
      op_defaultVisibility = op_defaultVisibility t, op_mayCreateSessions = op_mayCreateSessions t\<rparr>"

definition snapshotObjectType :: "object_type_declaration \<Rightarrow> object_type_declaration" where
  "snapshotObjectType d =
     \<lparr>ob_objectTypeId = ob_objectTypeId d, ob_structuralMode = ob_structuralMode d, ob_codecRef = ob_codecRef d,
      ob_description = ob_description d, ob_metadata = new_Map (ob_metadata d)\<rparr>"

definition snapshotOperationType :: "operation_type_declaration \<Rightarrow> operation_type_declaration" where
  "snapshotOperationType d =
     \<lparr>od_operationTypeId = od_operationTypeId d, od_templateRef = od_templateRef d,
      od_portContract = snapshotPortContract (od_portContract d), od_requiredRoles = od_requiredRoles d,
      od_defaultVisibility = od_defaultVisibility d, od_mayCreateSessions = od_mayCreateSessions d\<rparr>"

definition snapshotResourceRule :: "resource_rule \<Rightarrow> resource_rule" where
  "snapshotResourceRule r =
     \<lparr>rr_ruleId = rr_ruleId r, rr_objectTypeId = rr_objectTypeId r, rr_structuralMode = rr_structuralMode r,
      rr_capacity = rr_capacity r, rr_allowsCopy = rr_allowsCopy r, rr_allowsDrop = rr_allowsDrop r,
      rr_requiresQuiescence = rr_requiresQuiescence r\<rparr>"

definition snapshotOrchestrationSchema :: "orchestration_schema \<Rightarrow> orchestration_schema" where
  "snapshotOrchestrationSchema s =
     \<lparr>os_schemaId = os_schemaId s, os_wireVersion = os_wireVersion s,
      os_objectTypes = detachedReadonlyMap (map (\<lambda>(i, d). (i, snapshotObjectType d)) (os_objectTypes s)),
      os_operationTypes = detachedReadonlyMap (map (\<lambda>(i, d). (i, snapshotOperationType d)) (os_operationTypes s)),
      os_templates = map snapshotTemplate (os_templates s),
      os_resourceRules = map snapshotResourceRule (os_resourceRules s)\<rparr>"

definition allowedOperationsFromSchema :: "orchestration_schema \<Rightarrow> operation_type_id list" where
  "allowedOperationsFromSchema s = new_Set (map_keys (os_operationTypes s))"

definition resolveTemplate ::
  "orchestration_schema \<Rightarrow> operation_type_id \<Rightarrow> string option \<Rightarrow> operation_template option" where
  "resolveTemplate s i revision =
     (case revision of
        Some rv \<Rightarrow>
          List.find (\<lambda>t. op_operationTypeId t = i \<and> ot_revision (op_templateRef t) = rv) (os_templates s)
      | None \<Rightarrow>
          (case map_get (os_operationTypes s) i of
             None \<Rightarrow> None
           | Some d \<Rightarrow>
               List.find (\<lambda>t. op_operationTypeId t = i \<and>
                   ot_revision (op_templateRef t) = ot_revision (od_templateRef d)) (os_templates s)))"

definition portContractFromTemplate :: "operation_template \<Rightarrow> port_contract" where
  "portContractFromTemplate t =
     \<lparr>pk_inputs = [], pk_outputs = [], pk_requires = op_requires t, pk_ensures = op_ensures t\<rparr>"

definition operationDeclarationFromTemplate :: "operation_template \<Rightarrow> operation_type_declaration" where
  "operationDeclarationFromTemplate t =
     \<lparr>od_operationTypeId = op_operationTypeId t, od_templateRef = op_templateRef t,
      od_portContract = portContractFromTemplate t, od_requiredRoles = op_requiredRoles t,
      od_defaultVisibility = op_defaultVisibility t, od_mayCreateSessions = op_mayCreateSessions t\<rparr>"

section \<open>Active context (activeSchemaContext.ts)\<close>

record active_schema_context =
  ax_epochId :: epoch_id
  ax_schema :: orchestration_schema
  ax_binding :: "schema_epoch_binding option"
  ax_allowedOperations :: "operation_type_id list"

definition snapshotSchemaEpochBinding :: "schema_epoch_binding \<Rightarrow> schema_epoch_binding" where
  "snapshotSchemaEpochBinding b =
     \<lparr>sb_activationDomainId = sb_activationDomainId b, sb_bindingGeneration = sb_bindingGeneration b,
      sb_epochId = sb_epochId b, sb_epochOrdinal = sb_epochOrdinal b, sb_schemaRef = sb_schemaRef b,
      sb_policyRef = sb_policyRef b, sb_handlerManifestRef = sb_handlerManifestRef b,
      sb_runtimeHead = sb_runtimeHead b, sb_admissionId = sb_admissionId b,
      sb_previousBindingGeneration = sb_previousBindingGeneration b,
      sb_activatedBy = sb_activatedBy b, sb_activatedAt = sb_activatedAt b\<rparr>"

definition createActiveSchemaContext ::
  "orchestration_schema \<Rightarrow> epoch_id \<Rightarrow> schema_epoch_binding option \<Rightarrow> active_schema_context" where
  "createActiveSchemaContext s epoch binding =
     (let schema = snapshotOrchestrationSchema s
      in \<lparr>ax_epochId = epoch, ax_schema = schema,
          ax_binding = map_option snapshotSchemaEpochBinding binding,
          ax_allowedOperations = allowedOperationsFromSchema schema\<rparr>)"

definition getTemplate ::
  "active_schema_context \<Rightarrow> operation_type_id \<Rightarrow> string option \<Rightarrow> operation_template option" where
  "getTemplate ctx i revision = resolveTemplate (ax_schema ctx) i revision"

section \<open>Policies (policyEvaluator.ts)\<close>

datatype policy_decision = PolicyAllow "evidence_ref list" | PolicyDeny string

record policy_input =
  pi_snapshot :: snapshot
  pi_intent :: coordination_intent
  pi_template :: operation_template
  pi_effectiveFootprint :: footprint
  pi_policyRevision :: "string option"

type_synonym policy_evaluator = "policy_input \<Rightarrow> policy_decision"

definition denyByDefaultPolicyEvaluator :: policy_evaluator where
  "denyByDefaultPolicyEvaluator i = PolicyDeny ''no explicit policy authorization''"

definition hasRoleBinding :: "match_binding list \<Rightarrow> binding_role \<Rightarrow> bool" where
  "hasRoleBinding bindings role = list_ex (\<lambda>b. roleOf b = role) bindings"

definition SELF_LIFECYCLE_OPERATIONS :: "string list" where
  "SELF_LIFECYCLE_OPERATIONS = [''commit_transcript'', ''emit_heartbeat'']"

fun missing_role_loop :: "match_binding list \<Rightarrow> binding_role list \<Rightarrow> binding_role option" where
  "missing_role_loop bindings [] = None"
| "missing_role_loop bindings (r # rs) =
     (if \<not> hasRoleBinding bindings r then Some r else missing_role_loop bindings rs)"

definition templateAwarePolicyEvaluator :: policy_evaluator where
  "templateAwarePolicyEvaluator i =
     (let intent = pi_intent i; template = pi_template i; who = ar_actorId (in_initiator intent)
      in if in_operationTypeId intent \<noteq> op_operationTypeId template
         then PolicyDeny (''operation type mismatch: intent '' @ in_operationTypeId intent @ '' vs template '' @
                op_operationTypeId template)
         else case map_get (sn_participants (pi_snapshot i)) who of
                None \<Rightarrow> PolicyDeny (''initiator '' @ who @ '' not found in participants'')
              | Some p \<Rightarrow>
                  (if p_status p \<noteq> Active \<and> in_operationTypeId intent \<notin> set SELF_LIFECYCLE_OPERATIONS
                   then PolicyDeny (''initiator '' @ who @ '' status is '' @ status_name (p_status p) @ '', not active'')
                   else case missing_role_loop (in_matchBindings intent) (op_requiredRoles template) of
                          Some r \<Rightarrow> PolicyDeny (''missing required role binding: '' @ role_name r)
                        | None \<Rightarrow> PolicyAllow []))"

end
