(* ===== verification/Runtime_DefaultSchema.thy ===== *)
theory Runtime_DefaultSchema
  imports Runtime_Schema
begin

text \<open>
  \<open>packages/runtime/src/schema/defaultSchema.ts\<close>: the twelve operation templates and the schema
  built from them.
\<close>

section \<open>Templates\<close>

definition INTRODUCE_ARTIFACT :: operation_template where
  "INTRODUCE_ARTIFACT =
     \<lparr>op_operationTypeId = ''introduce_artifact'',
      op_templateRef = \<lparr>ot_operationTypeId = ''introduce_artifact'', ot_revision = ''1''\<rparr>,
      op_description = ''Introduce a new work artifact with write-lock capability'',
      op_requiredRoles = [RTask, RFrom],
      op_requires =
         [\<lparr>tc_kind = ParticipantRegistered, tc_bindings = [(''participant'', RFrom)]\<rparr>,
          \<lparr>tc_kind = TaskNotExists, tc_bindings = [(''task'', RTask)]\<rparr>],
      op_ensures =
         [\<lparr>tc_kind = TaskExists, tc_bindings = [(''task'', RTask)]\<rparr>,
          \<lparr>tc_kind = DelegatorHolds, tc_bindings = [(''task'', RTask), (''from'', RFrom)]\<rparr>],
      op_defaultVisibility = VExternal,
      op_mayCreateSessions = False\<rparr>"

definition DELEGATE :: operation_template where
  "DELEGATE =
     \<lparr>op_operationTypeId = ''delegate'',
      op_templateRef = \<lparr>ot_operationTypeId = ''delegate'', ot_revision = ''1''\<rparr>,
      op_description = ''Delegate task ownership and scoped capability to another participant'',
      op_requiredRoles = [RTask, RFrom, RTo, RCapability],
      op_requires =
         [\<lparr>tc_kind = TaskExists, tc_bindings = [(''task'', RTask)]\<rparr>,
          \<lparr>tc_kind = DelegatorHolds, tc_bindings = [(''task'', RTask), (''from'', RFrom), (''capability'', RCapability)]\<rparr>,
          \<lparr>tc_kind = DelegateeCanAccept, tc_bindings = [(''to'', RTo)]\<rparr>],
      op_ensures =
         [\<lparr>tc_kind = TaskExists, tc_bindings = [(''task'', RTask)]\<rparr>,
          \<lparr>tc_kind = DelegatorHolds, tc_bindings = [(''task'', RTask), (''from'', RTo), (''capability'', RCapability)]\<rparr>],
      op_defaultVisibility = VExternal,
      op_mayCreateSessions = True\<rparr>"

definition FORK_BRANCH :: operation_template where
  "FORK_BRANCH =
     \<lparr>op_operationTypeId = ''fork_branch'',
      op_templateRef = \<lparr>ot_operationTypeId = ''fork_branch'', ot_revision = ''1''\<rparr>,
      op_description = ''Open a parallel branch (optional task intro + parallel_with links)'',
      op_requiredRoles = [RFrom],
      op_requires =
         [\<lparr>tc_kind = ParticipantRegistered, tc_bindings = [(''participant'', RFrom)]\<rparr>],
      op_ensures =
         [\<lparr>tc_kind = ParticipantRegistered, tc_bindings = [(''participant'', RFrom)]\<rparr>],
      op_defaultVisibility = VExternal,
      op_mayCreateSessions = False\<rparr>"

definition CREATE_SESSION :: operation_template where
  "CREATE_SESSION =
     \<lparr>op_operationTypeId = ''create_session'',
      op_templateRef = \<lparr>ot_operationTypeId = ''create_session'', ot_revision = ''1''\<rparr>,
      op_description = ''Open a communication session with controller and participants'',
      op_requiredRoles = [RFrom],
      op_requires =
         [\<lparr>tc_kind = ParticipantRegistered, tc_bindings = [(''participant'', RFrom)]\<rparr>],
      op_ensures =
         [\<lparr>tc_kind = ParticipantRegistered, tc_bindings = [(''participant'', RFrom)]\<rparr>],
      op_defaultVisibility = VExternal,
      op_mayCreateSessions = True\<rparr>"

definition PUBLISH_ARTIFACT :: operation_template where
  "PUBLISH_ARTIFACT =
     \<lparr>op_operationTypeId = ''publish_artifact'',
      op_templateRef = \<lparr>ot_operationTypeId = ''publish_artifact'', ot_revision = ''1''\<rparr>,
      op_description = ''Publish a work artifact (lifecycle transition)'',
      op_requiredRoles = [RTask, RFrom],
      op_requires =
         [\<lparr>tc_kind = TaskExists, tc_bindings = [(''task'', RTask)]\<rparr>,
          \<lparr>tc_kind = DelegatorHolds, tc_bindings = [(''task'', RTask), (''from'', RFrom)]\<rparr>],
      op_ensures =
         [\<lparr>tc_kind = TaskExists, tc_bindings = [(''task'', RTask)]\<rparr>],
      op_defaultVisibility = VExternal,
      op_mayCreateSessions = False\<rparr>"

definition TRANSFER_SESSION :: operation_template where
  "TRANSFER_SESSION =
     \<lparr>op_operationTypeId = ''transfer_session'',
      op_templateRef = \<lparr>ot_operationTypeId = ''transfer_session'', ot_revision = ''1''\<rparr>,
      op_description = ''Transfer session controller to another participant'',
      op_requiredRoles = [RSession, RFrom, RTo],
      op_requires =
         [\<lparr>tc_kind = SessionExists, tc_bindings = [(''session'', RSession)]\<rparr>,
          \<lparr>tc_kind = SessionControllerMatches, tc_bindings = [(''session'', RSession), (''from'', RFrom)]\<rparr>,
          \<lparr>tc_kind = ParticipantRegistered, tc_bindings = [(''participant'', RFrom)]\<rparr>,
          \<lparr>tc_kind = ParticipantRegistered, tc_bindings = [(''participant'', RTo)]\<rparr>],
      op_ensures =
         [\<lparr>tc_kind = SessionExists, tc_bindings = [(''session'', RSession)]\<rparr>],
      op_defaultVisibility = VExternal,
      op_mayCreateSessions = False\<rparr>"

definition REGISTER_PARTICIPANT :: operation_template where
  "REGISTER_PARTICIPANT =
     \<lparr>op_operationTypeId = ''register_participant'',
      op_templateRef = \<lparr>ot_operationTypeId = ''register_participant'', ot_revision = ''1''\<rparr>,
      op_description = ''Register a new agent participant in the coordination world'',
      op_requiredRoles = [RFrom, RParticipant],
      op_requires =
         [\<lparr>tc_kind = ParticipantRegistered, tc_bindings = [(''participant'', RFrom)]\<rparr>],
      op_ensures =
         [\<lparr>tc_kind = ParticipantRegistered, tc_bindings = [(''participant'', RParticipant)]\<rparr>],
      op_defaultVisibility = VExternal,
      op_mayCreateSessions = False\<rparr>"

definition ACTIVATE_PARTICIPANT :: operation_template where
  "ACTIVATE_PARTICIPANT =
     \<lparr>op_operationTypeId = ''activate_participant'',
      op_templateRef = \<lparr>ot_operationTypeId = ''activate_participant'', ot_revision = ''1''\<rparr>,
      op_description = ''Admit a registered participant to active and bind its content-addressed manifest (ADR-0015)'',
      op_requiredRoles = [RFrom, RParticipant],
      op_requires =
         [\<lparr>tc_kind = ParticipantRegistered, tc_bindings = [(''participant'', RParticipant)]\<rparr>],
      op_ensures =
         [\<lparr>tc_kind = ParticipantRegistered, tc_bindings = [(''participant'', RParticipant)]\<rparr>],
      op_defaultVisibility = VExternal,
      op_mayCreateSessions = False\<rparr>"

definition SIGNAL_DONE :: operation_template where
  "SIGNAL_DONE =
     \<lparr>op_operationTypeId = ''signal_done'',
      op_templateRef = \<lparr>ot_operationTypeId = ''signal_done'', ot_revision = ''1''\<rparr>,
      op_description = ''Signal that an agent has completed its work'',
      op_requiredRoles = [RFrom],
      op_requires =
         [\<lparr>tc_kind = ParticipantRegistered, tc_bindings = [(''participant'', RFrom)]\<rparr>],
      op_ensures =
         [\<lparr>tc_kind = ParticipantRegistered, tc_bindings = [(''participant'', RFrom)]\<rparr>],
      op_defaultVisibility = VExternal,
      op_mayCreateSessions = False\<rparr>"

definition RETIRE_PARTICIPANT :: operation_template where
  "RETIRE_PARTICIPANT =
     \<lparr>op_operationTypeId = ''retire_participant'',
      op_templateRef = \<lparr>ot_operationTypeId = ''retire_participant'', ot_revision = ''1''\<rparr>,
      op_description = ''Retire a participant from the coordination world'',
      op_requiredRoles = [RFrom, RParticipant],
      op_requires =
         [\<lparr>tc_kind = ParticipantRegistered, tc_bindings = [(''participant'', RFrom)]\<rparr>],
      op_ensures =
         [\<lparr>tc_kind = ParticipantRegistered, tc_bindings = [(''participant'', RParticipant)]\<rparr>],
      op_defaultVisibility = VExternal,
      op_mayCreateSessions = False\<rparr>"

definition COMMIT_TRANSCRIPT :: operation_template where
  "COMMIT_TRANSCRIPT =
     \<lparr>op_operationTypeId = ''commit_transcript'',
      op_templateRef = \<lparr>ot_operationTypeId = ''commit_transcript'', ot_revision = ''1''\<rparr>,
      op_description = ''Commit this participant's LLM transcript onto the shared world (ADR-0021)'',
      op_requiredRoles = [RFrom],
      op_requires =
         [\<lparr>tc_kind = ParticipantRegistered, tc_bindings = [(''participant'', RFrom)]\<rparr>],
      op_ensures =
         [\<lparr>tc_kind = ParticipantRegistered, tc_bindings = [(''participant'', RFrom)]\<rparr>],
      op_defaultVisibility = VInternal,
      op_mayCreateSessions = False\<rparr>"

definition EMIT_HEARTBEAT :: operation_template where
  "EMIT_HEARTBEAT =
     \<lparr>op_operationTypeId = ''emit_heartbeat'',
      op_templateRef = \<lparr>ot_operationTypeId = ''emit_heartbeat'', ot_revision = ''1''\<rparr>,
      op_description = ''Emit a heartbeat signal proving agent liveness'',
      op_requiredRoles = [RFrom],
      op_requires =
         [\<lparr>tc_kind = ParticipantRegistered, tc_bindings = [(''participant'', RFrom)]\<rparr>],
      op_ensures =
         [\<lparr>tc_kind = ParticipantRegistered, tc_bindings = [(''participant'', RFrom)]\<rparr>],
      op_defaultVisibility = VInternal,
      op_mayCreateSessions = False\<rparr>"

definition DEFAULT_TEMPLATES :: "operation_template list" where
  "DEFAULT_TEMPLATES =
     [INTRODUCE_ARTIFACT, DELEGATE, CREATE_SESSION, FORK_BRANCH, PUBLISH_ARTIFACT, TRANSFER_SESSION, REGISTER_PARTICIPANT, ACTIVATE_PARTICIPANT, SIGNAL_DONE, RETIRE_PARTICIPANT, EMIT_HEARTBEAT, COMMIT_TRANSCRIPT]"

section \<open>The schema\<close>

definition DEFAULT_OBJECT_TYPES :: "object_type_declaration list" where
  "DEFAULT_OBJECT_TYPES =
     [\<lparr>ob_objectTypeId = ''artifact'', ob_structuralMode = Affine, ob_codecRef = ''cantilune/work-artifact@1'',
       ob_description = ''Work artifact node'', ob_metadata = []\<rparr>,
      \<lparr>ob_objectTypeId = ''capability'', ob_structuralMode = Linear, ob_codecRef = ''cantilune/scoped-capability@1'',
       ob_description = ''Scoped capability token'', ob_metadata = []\<rparr>]"

definition buildOrchestrationSchema :: "string \<Rightarrow> operation_template list option \<Rightarrow> orchestration_schema" where
  "buildOrchestrationSchema schemaIdValue arg =
     (let templates = opt_default DEFAULT_TEMPLATES arg
      in \<lparr>os_schemaId = schemaIdValue, os_wireVersion = 1,
          os_objectTypes = new_Map (map (\<lambda>o1. (ob_objectTypeId o1, o1)) DEFAULT_OBJECT_TYPES),
          os_operationTypes =
            new_Map (map (\<lambda>t. (op_operationTypeId t, operationDeclarationFromTemplate t)) templates),
          os_templates = templates,
          os_resourceRules = []\<rparr>)"

definition createDefaultSchema :: "string option \<Rightarrow> orchestration_schema" where
  "createDefaultSchema i = buildOrchestrationSchema (opt_default ''default-v1'' i) None"

definition defaultTemplates :: "operation_template list" where
  "defaultTemplates = DEFAULT_TEMPLATES"

section \<open>Lemmas\<close>

lemmas default_template_defs = INTRODUCE_ARTIFACT_def DELEGATE_def CREATE_SESSION_def FORK_BRANCH_def
  PUBLISH_ARTIFACT_def TRANSFER_SESSION_def REGISTER_PARTICIPANT_def ACTIVATE_PARTICIPANT_def
  SIGNAL_DONE_def RETIRE_PARTICIPANT_def EMIT_HEARTBEAT_def COMMIT_TRANSCRIPT_def

lemma evaluateRequires_None:
  "evaluateRequires s bs cs = None \<longleftrightarrow> (\<forall>c\<in>set cs. evaluateCondition s bs c)"
  by (induction cs) auto

lemma evaluateRequires_Some:
  "evaluateRequires s bs cs = Some c \<Longrightarrow> c \<in> set cs \<and> \<not> evaluateCondition s bs c"
  by (induction cs) (auto split: if_splits)

lemma missing_role_None:
  "missing_role_loop bs rs = None \<longleftrightarrow> set rs \<subseteq> roleOf ` set bs"
  by (induction rs) (auto simp: hasRoleBinding_def list_ex_iff image_iff)

text \<open>Every default template is found, under its type id and under its revision.\<close>

lemma default_templates_resolve:
  "list_all (\<lambda>t. resolveTemplate (snapshotOrchestrationSchema (createDefaultSchema n)) (op_operationTypeId t) None = Some t \<and>
      resolveTemplate (snapshotOrchestrationSchema (createDefaultSchema n)) (op_operationTypeId t)
        (Some (ot_revision (op_templateRef t))) = Some t) DEFAULT_TEMPLATES"
proof -
  have "resolveTemplate (snapshotOrchestrationSchema (createDefaultSchema n)) =
      resolveTemplate (snapshotOrchestrationSchema (createDefaultSchema None))"
    by (intro ext) (simp add: resolveTemplate_def snapshotOrchestrationSchema_def createDefaultSchema_def
        buildOrchestrationSchema_def Let_def cong: option.case_cong)
  moreover have "list_all (\<lambda>t. resolveTemplate (snapshotOrchestrationSchema (createDefaultSchema None)) (op_operationTypeId t) None = Some t \<and>
      resolveTemplate (snapshotOrchestrationSchema (createDefaultSchema None)) (op_operationTypeId t)
        (Some (ot_revision (op_templateRef t))) = Some t) DEFAULT_TEMPLATES"
    by code_simp
  ultimately show ?thesis by simp
qed

end
