(* ===== verification/Runtime_Handlers.thy ===== *)
theory Runtime_Handlers
  imports Runtime_DefaultSchema
begin

text \<open>
  \<open>packages/runtime/src/execution\<close>: the operation handlers, their registry, the application of
  a recipe, the allocation of fresh references and the content check of a commit.

  A handler returns an apply result, or throws a runtime violation (\<open>Inl\<close>) when it has to
  name an actor that is not registered.
\<close>

section \<open>Results and registry (applyContext.ts, handlerRegistry.ts)\<close>

record apply_context = ac_template :: operation_template

datatype apply_result =
    ApplyOk (ap_after: snapshot) (ap_involved: "actor_ref list") (ap_createdSessionRefs: "session_id list")
  | ApplyFail (ap_reason: string)

type_synonym operation_handler =
  "snapshot \<Rightarrow> replay_recipe \<Rightarrow> apply_context \<Rightarrow> runtime_violation + apply_result"

type_synonym handler_registry = "(string, operation_handler) jsmap"

definition handlerKey :: "operation_type_id \<Rightarrow> string option \<Rightarrow> string" where
  "handlerKey i revision = (case revision of Some rv \<Rightarrow> i @ ''@'' @ rv | None \<Rightarrow> i)"

definition handler_register ::
  "operation_type_id \<Rightarrow> operation_handler \<Rightarrow> string option \<Rightarrow> handler_registry \<Rightarrow> handler_registry" where
  "handler_register i h revision r =
     (let r1 = map_set (handlerKey i revision) h r
      in case revision of
           None \<Rightarrow> map_set i h r1
         | Some _ \<Rightarrow> if \<not> map_has r1 i then map_set i h r1 else r1)"

definition handler_get :: "handler_registry \<Rightarrow> operation_type_id \<Rightarrow> string option \<Rightarrow> operation_handler option" where
  "handler_get r i revision =
     (case revision of Some rv \<Rightarrow> map_get r (handlerKey i (Some rv)) | None \<Rightarrow> map_get r i)"

section \<open>Actor references (participantRef.ts)\<close>

text \<open>Sequencing of throwing steps.\<close>

definition and_then :: "'e + 'a \<Rightarrow> ('a \<Rightarrow> 'e + 'b) \<Rightarrow> 'e + 'b" where
  "and_then m f = (case m of Inl e \<Rightarrow> Inl e | Inr x \<Rightarrow> f x)"

definition actorRefFromSnapshot :: "snapshot \<Rightarrow> actor_id \<Rightarrow> runtime_violation + actor_ref" where
  "actorRefFromSnapshot s a =
     (case map_get (sn_participants s) a of
        None \<Rightarrow> Inl (runtimeViolation ApplyFailed
                  (''cannot build an actor ref for '' @ [CHR 0x22] @ a @ [CHR 0x22] @
                     '': no such participant in the snapshot'')
                  (no_details\<lparr>vd_path := Some ''snapshot.participants''\<rparr>))
      | Some p \<Rightarrow> Inr (actorRef a (p_kind p)))"

fun actorRefsFromSnapshot :: "snapshot \<Rightarrow> actor_id list \<Rightarrow> runtime_violation + actor_ref list" where
  "actorRefsFromSnapshot s [] = Inr []"
| "actorRefsFromSnapshot s (a # as) =
     and_then (actorRefFromSnapshot s a) (\<lambda>r. map_sum (\<lambda>e. e) (\<lambda>rs. r # rs) (actorRefsFromSnapshot s as))"

text \<open>\<open>{ ok: true, after, involved: actorRefsFromSnapshot(world, ids), createdSessionRefs }\<close>.\<close>

definition ok_result ::
  "snapshot \<Rightarrow> snapshot \<Rightarrow> actor_id list \<Rightarrow> session_id list \<Rightarrow> runtime_violation + apply_result" where
  "ok_result after world ids sessions =
     map_sum (\<lambda>e. e) (\<lambda>involved. ApplyOk after involved sessions) (actorRefsFromSnapshot world ids)"

definition fail_result :: "string \<Rightarrow> runtime_violation + apply_result" where
  "fail_result reason = Inr (ApplyFail reason)"

section \<open>Artifacts\<close>

definition defaultWriteLockId :: "artifact_id \<Rightarrow> capability_id" where
  "defaultWriteLockId task = ''write-lock-'' @ task"

definition introduceArtifactHandler :: operation_handler where
  "introduceArtifactHandler before recipe ctx =
     (case (artifactIdFromRole (rp_matchBindings recipe) RTask, actorIdFromRole (rp_matchBindings recipe) RFrom) of
        (Some taskId, Some fromId) \<Rightarrow>
          (if map_has (sn_artifacts before) taskId
           then fail_result (''artifact already exists: '' @ taskId)
           else case arr_get (rp_inputContentRefs recipe) 0 of
                  None \<Rightarrow> fail_result ''introduce_artifact requires an input contentRef''
                | Some content \<Rightarrow>
                    and_then (actorRefFromSnapshot before fromId) (\<lambda>owner.
                      let capabilityId = opt_default (defaultWriteLockId taskId)
                            (capabilityIdFromRole (rp_matchBindings recipe) RCapability);
                          task = workArtifact taskId ''Task'' content owner (Some LActive);
                          writeLock = scopedCapability capabilityId WriteLock fromId (ScopeArtifact taskId);
                          after = withCapability (withArtifact before task) writeLock
                      in ok_result after before [fromId] []))
      | _ \<Rightarrow> fail_result ''introduce_artifact requires task and from bindings'')"

definition taskIdFromRecipe :: "replay_recipe \<Rightarrow> string option" where
  "taskIdFromRecipe recipe =
     (case artifactIdFromRole (rp_matchBindings recipe) RTask of
        Some i \<Rightarrow> Some i
      | None \<Rightarrow> artifactIdFromRole (rp_matchBindings recipe) RArtifact)"

definition publishArtifactHandler :: operation_handler where
  "publishArtifactHandler before recipe ctx =
     (case taskIdFromRecipe recipe of
        None \<Rightarrow> fail_result ''publish_artifact requires task binding''
      | Some artifactId \<Rightarrow>
          (case map_get (sn_artifacts before) artifactId of
             None \<Rightarrow> fail_result (''artifact not found: '' @ artifactId)
           | Some artifact \<Rightarrow>
               (let after = withArtifact before (withArtifactLifecycle artifact LPublished)
                in case actorIdFromRole (rp_matchBindings recipe) RFrom of
                     Some fromId \<Rightarrow> ok_result after before [fromId] []
                   | None \<Rightarrow> ok_result after before [] [])))"

section \<open>Sessions and delegation\<close>

definition participant_ids :: "match_binding list \<Rightarrow> actor_id list" where
  "participant_ids bs = List.map_filter (\<lambda>b. case b of BParticipant a \<Rightarrow> Some a | _ \<Rightarrow> None) bs"

definition sessionParticipants :: "replay_recipe \<Rightarrow> actor_id \<Rightarrow> actor_id list" where
  "sessionParticipants recipe controller =
     new_Set (controller # participant_ids (rp_matchBindings recipe))"

fun session_link_loop ::
  "actor_id \<Rightarrow> link_id list \<Rightarrow> nat \<Rightarrow> actor_id list \<Rightarrow> snapshot \<Rightarrow> snapshot option" where
  "session_link_loop controller refs i [] after = Some after"
| "session_link_loop controller refs i (m # ms) after =
     (if m = controller then session_link_loop controller refs i ms after
      else case arr_get refs i of
             None \<Rightarrow> None
           | Some linkRef \<Rightarrow>
               session_link_loop controller refs (Suc i) ms
                 (withLink after (collaborationLink linkRef NestedIn (EndParticipant controller) (EndParticipant m))))"

definition createSessionHandler :: operation_handler where
  "createSessionHandler before recipe ctx =
     (case actorIdFromRole (rp_matchBindings recipe) RFrom of
        None \<Rightarrow> fail_result ''create_session requires from binding''
      | Some controllerId \<Rightarrow>
          (case (case arr_get (rp_createdSessionRefs recipe) 0 of
                   Some i \<Rightarrow> Some i
                 | None \<Rightarrow> sessionIdFromRole (rp_matchBindings recipe) RSession) of
             None \<Rightarrow> fail_result ''create_session recipe missing session ref''
           | Some sessionId \<Rightarrow>
               (if map_has (sn_sessions before) sessionId
                then fail_result (''session already exists: '' @ sessionId)
                else let participants = sessionParticipants recipe controllerId;
                         opened = withSession before
                                    (communicationSession sessionId controllerId participants None)
                     in case session_link_loop controllerId (rp_freshLinkRefs recipe) 0 participants opened of
                          None \<Rightarrow> fail_result ''create_session recipe missing freshLinkRefs''
                        | Some after \<Rightarrow> ok_result after before participants [sessionId])))"

definition transferSessionHandler :: operation_handler where
  "transferSessionHandler before recipe ctx =
     (let fromBinding = actorIdFromRole (rp_matchBindings recipe) RFrom
      in case (sessionIdFromRole (rp_matchBindings recipe) RSession, actorIdFromRole (rp_matchBindings recipe) RTo) of
           (Some sessionId, Some toId) \<Rightarrow>
             (case map_get (sn_sessions before) sessionId of
                None \<Rightarrow> fail_result (''session not found: '' @ sessionId)
              | Some session \<Rightarrow>
                  (if fromBinding \<noteq> None \<and> Some (se_controller session) \<noteq> fromBinding
                   then fail_result ''transfer_session requires from to be current controller''
                   else let participants = (if toId \<in> set (se_participants session) then se_participants session
                                            else se_participants session @ [toId]);
                            after = withSession before (communicationSession (se_sessionId session) toId participants
                                      (Some (se_visibility session)));
                            involvedIds = (case fromBinding of Some a \<Rightarrow> [a] | None \<Rightarrow> []) @ [toId]
                        in ok_result after before involvedIds []))
         | _ \<Rightarrow> fail_result ''transfer_session requires session and to bindings'')"

definition reviewerParticipantId :: "replay_recipe \<Rightarrow> actor_id \<Rightarrow> actor_id \<Rightarrow> actor_id option" where
  "reviewerParticipantId recipe fromId toId =
     (case List.find (\<lambda>b. case b of BParticipant a \<Rightarrow> a \<noteq> fromId \<and> a \<noteq> toId | _ \<Rightarrow> False)
             (rp_matchBindings recipe) of
        Some (BParticipant a) \<Rightarrow> Some a
      | _ \<Rightarrow> None)"

text \<open>The reviewer's registration and link, when there is a reviewer and a fresh link id.\<close>

definition link_reviewer :: "snapshot \<Rightarrow> actor_id option \<Rightarrow> link_id option \<Rightarrow> actor_id \<Rightarrow> snapshot" where
  "link_reviewer after reviewer linkRef toId =
     (case (reviewer, linkRef) of
        (Some reviewerId, Some l) \<Rightarrow>
          (let registered = (if \<not> map_has (sn_participants after) reviewerId
                             then withParticipant after (mk_participant reviewerId Reviewer Active None None)
                             else after)
           in withLink registered (collaborationLink l WaitsFor (EndParticipant reviewerId) (EndParticipant toId)))
      | _ \<Rightarrow> after)"

definition delegateHandler :: operation_handler where
  "delegateHandler before recipe ctx =
     (case (artifactIdFromRole (rp_matchBindings recipe) RTask, actorIdFromRole (rp_matchBindings recipe) RFrom,
            actorIdFromRole (rp_matchBindings recipe) RTo, capabilityIdFromRole (rp_matchBindings recipe) RCapability) of
        (Some taskId, Some fromId, Some toId, Some capId) \<Rightarrow>
          (case (map_get (sn_artifacts before) taskId, map_get (sn_capabilities before) capId) of
             (Some task, Some writeLock) \<Rightarrow>
               and_then (actorRefFromSnapshot before toId) (\<lambda>toRef.
                 let owned = withArtifact before (withArtifactOwner task toRef);
                     held = withCapability owned (withCapabilityHolder writeLock toId)
                 in case arr_get (rp_createdSessionRefs recipe) 0 of
                      None \<Rightarrow> fail_result ''delegate recipe missing createdSessionRefs[0]''
                    | Some sessionId \<Rightarrow>
                        (let opened = withSession held (communicationSession sessionId toId [toId, fromId] None);
                             after = link_reviewer opened (reviewerParticipantId recipe fromId toId)
                                       (arr_get (rp_freshLinkRefs recipe) 0) toId
                         in ok_result after before [fromId, toId] [sessionId]))
           | _ \<Rightarrow> fail_result ''missing task or capability before delegate'')
      | _ \<Rightarrow> fail_result ''delegate requires task/from/to/capability bindings'')"

section \<open>Branches\<close>

definition applyTaskArtifact ::
  "snapshot \<Rightarrow> replay_recipe \<Rightarrow> actor_id \<Rightarrow> runtime_violation + (string + snapshot)" where
  "applyTaskArtifact before recipe controller =
     (case artifactIdFromRole (rp_matchBindings recipe) RTask of
        None \<Rightarrow>
          (if length (rp_inputContentRefs recipe) > 0
           then Inr (Inl ''fork_branch input contentRef requires a task binding'')
           else Inr (Inr before))
      | Some taskId \<Rightarrow>
          (if map_has (sn_artifacts before) taskId then Inr (Inl (''artifact already exists: '' @ taskId))
           else case arr_get (rp_inputContentRefs recipe) 0 of
                  None \<Rightarrow> Inr (Inl ''fork_branch with a task binding requires an input contentRef'')
                | Some content \<Rightarrow>
                    and_then (actorRefFromSnapshot before controller) (\<lambda>owner.
                      let capabilityId = opt_default (defaultWriteLockId taskId)
                            (capabilityIdFromRole (rp_matchBindings recipe) RCapability);
                          task = workArtifact taskId ''Task'' content owner (Some LActive);
                          writeLock = scopedCapability capabilityId WriteLock controller (ScopeArtifact taskId)
                      in Inr (Inr (withCapability (withArtifact before task) writeLock)))))"

text \<open>The pairs \<open>(participants[i], participants[j])\<close> with \<open>i < j\<close>, in the order of the two loops.\<close>

fun pairs_in_order :: "'a list \<Rightarrow> ('a \<times> 'a) list" where
  "pairs_in_order [] = []"
| "pairs_in_order (x # xs) = map (Pair x) xs @ pairs_in_order xs"

fun pair_link_loop ::
  "link_id list \<Rightarrow> nat \<Rightarrow> (actor_id \<times> actor_id) list \<Rightarrow> snapshot \<Rightarrow> snapshot option" where
  "pair_link_loop refs i [] after = Some after"
| "pair_link_loop refs i ((left, right) # ps) after =
     (case arr_get refs i of
        None \<Rightarrow> None
      | Some linkRef \<Rightarrow>
          pair_link_loop refs (Suc i) ps
            (withLink after (collaborationLink linkRef ParallelWith (EndParticipant left) (EndParticipant right))))"

definition linkPeersPairwise :: "snapshot \<Rightarrow> replay_recipe \<Rightarrow> actor_id list \<Rightarrow> string + snapshot" where
  "linkPeersPairwise before recipe participants =
     (case pair_link_loop (rp_freshLinkRefs recipe) 0 (pairs_in_order participants) before of
        None \<Rightarrow> Inl ''fork_branch recipe missing freshLinkRefs''
      | Some after \<Rightarrow> Inr after)"

definition forkBranchHandler :: operation_handler where
  "forkBranchHandler before recipe ctx =
     (case actorIdFromRole (rp_matchBindings recipe) RFrom of
        None \<Rightarrow> fail_result ''fork_branch requires from binding''
      | Some controllerId \<Rightarrow>
          and_then (applyTaskArtifact before recipe controllerId) (\<lambda>withTask.
            case withTask of
              Inl reason \<Rightarrow> fail_result reason
            | Inr tasked \<Rightarrow>
                (case linkPeersPairwise tasked recipe (sessionParticipants recipe controllerId) of
                   Inl reason \<Rightarrow> fail_result reason
                 | Inr after \<Rightarrow> ok_result after before [controllerId] [])))"

section \<open>Participants\<close>

definition registerParticipantHandler :: operation_handler where
  "registerParticipantHandler before recipe ctx =
     (case actorIdFromRole (rp_matchBindings recipe) RFrom of
        None \<Rightarrow> fail_result ''register_participant requires 'from' binding''
      | Some fromId \<Rightarrow>
          (case actorIdFromRole (rp_matchBindings recipe) RParticipant of
             None \<Rightarrow> fail_result ''register_participant requires 'participant' binding''
           | Some targetId \<Rightarrow>
               (case map_get (sn_participants before) fromId of
                  None \<Rightarrow> fail_result (''initiator not found: '' @ fromId)
                | Some fromParticipant \<Rightarrow>
                    (if p_status fromParticipant \<noteq> Active
                     then fail_result (''initiator must be active, got: '' @ status_name (p_status fromParticipant))
                     else if map_has (sn_participants before) targetId
                     then fail_result ''participant already registered''
                     else let after = withParticipant before (mk_participant targetId Agent Registered None None)
                          in ok_result after after [fromId, targetId] []))))"

definition activateParticipantHandler :: operation_handler where
  "activateParticipantHandler before recipe ctx =
     (case actorIdFromRole (rp_matchBindings recipe) RFrom of
        None \<Rightarrow> fail_result ''activate_participant requires 'from' binding''
      | Some fromId \<Rightarrow>
          (case actorIdFromRole (rp_matchBindings recipe) RParticipant of
             None \<Rightarrow> fail_result ''activate_participant requires 'participant' binding''
           | Some targetId \<Rightarrow>
               (case map_get (sn_participants before) fromId of
                  None \<Rightarrow> fail_result (''initiator not found: '' @ fromId)
                | Some fromParticipant \<Rightarrow>
                    (if p_status fromParticipant \<noteq> Active
                     then fail_result (''initiator must be active, got: '' @ status_name (p_status fromParticipant))
                     else case map_get (sn_participants before) targetId of
                            None \<Rightarrow> fail_result (''participant not found: '' @ targetId)
                          | Some target \<Rightarrow>
                              (let manifestRef = arr_get (rp_inputContentRefs recipe) 0
                               in if \<not> validateTransition (p_status target) Active
                                  then fail_result (''invalid lifecycle transition: '' @
                                         status_name (p_status target) @ '' '' @ arrow @ '' active'')
                                  else if p_kind target = Agent \<and> manifestRef = None
                                  then fail_result ''activate_participant requires a manifest ref for agent participants''
                                  else if p_kind target \<noteq> Agent \<and> manifestRef \<noteq> None
                                  then fail_result (''activate_participant does not accept a manifest ref for non-agent participants (kind: '' @
                                         actor_kind_name (p_kind target) @ '')'')
                                  else let after = withParticipant before
                                             (mk_participant targetId (p_kind target) Active manifestRef None)
                                       in ok_result after after [fromId, targetId] [])))))"

definition signalDoneHandler :: operation_handler where
  "signalDoneHandler before recipe ctx =
     (case actorIdFromRole (rp_matchBindings recipe) RFrom of
        None \<Rightarrow> fail_result ''signal_done requires 'from' binding''
      | Some fromId \<Rightarrow>
          (case map_get (sn_participants before) fromId of
             None \<Rightarrow> fail_result (''participant not found: '' @ fromId)
           | Some p \<Rightarrow>
               (if \<not> validateTransition (p_status p) Done
                then fail_result (''invalid lifecycle transition: '' @ status_name (p_status p) @ '' '' @ arrow @ '' done'')
                else let after = withParticipant before (mk_participant fromId (p_kind p) Done None None)
                     in ok_result after before [fromId] [])))"

definition retireParticipantHandler :: operation_handler where
  "retireParticipantHandler before recipe ctx =
     (case actorIdFromRole (rp_matchBindings recipe) RFrom of
        None \<Rightarrow> fail_result ''retire_participant requires 'from' binding''
      | Some fromId \<Rightarrow>
          (let targetId = opt_default fromId (actorIdFromRole (rp_matchBindings recipe) RParticipant)
           in case map_get (sn_participants before) targetId of
                None \<Rightarrow> fail_result (''participant not found: '' @ targetId)
              | Some p \<Rightarrow>
                  (if \<not> validateTransition (p_status p) Retired
                   then fail_result (''invalid lifecycle transition: '' @ status_name (p_status p) @ '' '' @ arrow @ '' retired'')
                   else let after = withParticipant before (mk_participant targetId (p_kind p) Retired None None)
                        in ok_result after before [fromId, targetId] [])))"

section \<open>Heartbeats and transcripts\<close>

fun js_int :: "js_number \<Rightarrow> int" where
  "js_int (Fin q) = \<lfloor>q\<rfloor>"
| "js_int _ = 0"

definition natural_input :: "operation_scalar option \<Rightarrow> int option" where
  "natural_input v =
     (case v of
        Some (ScalarNumber n) \<Rightarrow> if isSafeInteger n \<and> \<not> js_int n < 0 then Some (js_int n) else None
      | _ \<Rightarrow> None)"

definition emitHeartbeatHandler :: operation_handler where
  "emitHeartbeatHandler before recipe ctx =
     (case actorIdFromRole (rp_matchBindings recipe) RFrom of
        None \<Rightarrow> fail_result ''emit_heartbeat requires 'from' binding''
      | Some fromId \<Rightarrow>
          (let missing = (case map_get (sn_participants before) fromId of
                            None \<Rightarrow> True | Some p \<Rightarrow> p_status p = Retired)
           in if missing then fail_result ''cannot heartbeat from non-existent or retired participant''
              else case rp_emittedAt recipe of
                     None \<Rightarrow> fail_result ''emit_heartbeat recipe missing replay-authoritative emittedAt''
                   | Some emittedAt \<Rightarrow>
                       (if length (map_keys (rp_scalarInputs recipe)) \<noteq> 2 \<or>
                           \<not> map_has (rp_scalarInputs recipe) ''turnCount'' \<or>
                           \<not> map_has (rp_scalarInputs recipe) ''lastAction''
                        then fail_result (''emit_heartbeat requires exactly scalar inputs 'turnCount' and 'lastAction'' @ [CHR 0x27])
                        else case natural_input (map_get (rp_scalarInputs recipe) ''turnCount'') of
                               None \<Rightarrow> fail_result ''emit_heartbeat scalar input 'turnCount' must be a non-negative safe integer''
                             | Some turnCount \<Rightarrow>
                                 (case map_get (rp_scalarInputs recipe) ''lastAction'' of
                                    Some (ScalarString lastAction) \<Rightarrow>
                                      (if length lastAction = 0
                                       then fail_result ''emit_heartbeat scalar input 'lastAction' must be a non-empty string''
                                       else let after = appendHeartbeat before
                                                  \<lparr>hb_agentId = fromId,
                                                   hb_sequenceNo = nextHeartbeatSeq (sn_heartbeatLog before) fromId,
                                                   hb_emittedAt = emittedAt, hb_turnCount = turnCount,
                                                   hb_lastAction = lastAction\<rparr>
                                            in ok_result after before [fromId] [])
                                  | _ \<Rightarrow> fail_result ''emit_heartbeat scalar input 'lastAction' must be a non-empty string''))))"

definition isTranscriptMessage :: "js_value \<Rightarrow> bool" where
  "isTranscriptMessage v =
     (case js_string (js_field v ''content'') of
        None \<Rightarrow> False
      | Some _ \<Rightarrow>
          (if js_field v ''role'' = JString ''system'' \<or> js_field v ''role'' = JString ''user'' \<or>
              js_field v ''role'' = JString ''assistant''
           then True
           else js_field v ''role'' = JString ''tool'' \<and> js_string (js_field v ''toolCallId'') \<noteq> None))"

text \<open>A parsed row as a message, after the type guard.\<close>

definition transcript_row :: "js_value \<Rightarrow> transcript_message" where
  "transcript_row v =
     (let content = opt_default [] (js_string (js_field v ''content''))
      in if js_field v ''role'' = JString ''system'' then MSystem content
         else if js_field v ''role'' = JString ''user'' then MUser content
         else if js_field v ''role'' = JString ''assistant'' then
           MAssistant content (case js_field v ''toolCalls'' of JUndefined \<Rightarrow> None | w \<Rightarrow> Some w)
         else MTool (opt_default [] (js_string (js_field v ''toolCallId''))) content)"

definition commitTranscriptHandler :: operation_handler where
  "commitTranscriptHandler before recipe ctx =
     (case actorIdFromRole (rp_matchBindings recipe) RFrom of
        None \<Rightarrow> fail_result ''commit_transcript requires 'from' binding''
      | Some fromId \<Rightarrow>
          (case map_get (sn_participants before) fromId of
             None \<Rightarrow> fail_result ''cannot commit transcript for missing or retired participant''
           | Some current \<Rightarrow>
               (if p_status current = Retired
                then fail_result ''cannot commit transcript for missing or retired participant''
                else case map_get (rp_scalarInputs recipe) ''messagesJson'' of
                       Some (ScalarString messagesJson) \<Rightarrow>
                         (if length messagesJson = 0
                          then fail_result (''commit_transcript requires scalar input 'messagesJson'' @ [CHR 0x27])
                          else case JSON_parse messagesJson of
                                 None \<Rightarrow> fail_result ''commit_transcript messagesJson is not valid JSON''
                               | Some (JArray rows) \<Rightarrow>
                                   (if \<not> list_all isTranscriptMessage rows
                                    then fail_result ''commit_transcript messagesJson must be a TranscriptMessage array''
                                    else let revision =
                                               (case natural_input (map_get (rp_scalarInputs recipe) ''revision'') of
                                                  Some n \<Rightarrow> n
                                                | None \<Rightarrow>
                                                    opt_default 0 (map_option pt_revision
                                                      (map_get (sn_transcripts before) fromId)) + 1);
                                             after = withTranscript before
                                               (participantTranscript fromId (map transcript_row rows)
                                                 (Some (resolveNamespaceId (p_namespaceId current))) (Some revision))
                                         in ok_result after before [fromId] [])
                               | Some _ \<Rightarrow> fail_result ''commit_transcript messagesJson must be a TranscriptMessage array'')
                     | _ \<Rightarrow> fail_result (''commit_transcript requires scalar input 'messagesJson'' @ [CHR 0x27]))))"

end
