(* ===== verification/Runtime_Apply.thy ===== *)
theory Runtime_Apply
  imports Runtime_Handlers
begin

text \<open>
  \<open>packages/runtime/src/execution/{handlers/index,applyChange,replayKernel,allocateFreshRefs,
  contentRefAvailability}.ts\<close>: the default handler registry, the application of a recipe, the
  allocation of the fresh ids a recipe needs and the content check of a commit. The id
  generator is a parameter: a record of functions over a state of its own.
\<close>

section \<open>Default handlers (handlers/index.ts)\<close>

definition DEFAULT_HANDLERS :: "(operation_type_id \<times> string \<times> operation_handler) list" where
  "DEFAULT_HANDLERS =
     [(''introduce_artifact'', ''1'', introduceArtifactHandler),
      (''delegate'', ''1'', delegateHandler),
      (''create_session'', ''1'', createSessionHandler),
      (''fork_branch'', ''1'', forkBranchHandler),
      (''publish_artifact'', ''1'', publishArtifactHandler),
      (''transfer_session'', ''1'', transferSessionHandler),
      (''register_participant'', ''1'', registerParticipantHandler),
      (''activate_participant'', ''1'', activateParticipantHandler),
      (''signal_done'', ''1'', signalDoneHandler),
      (''retire_participant'', ''1'', retireParticipantHandler),
      (''emit_heartbeat'', ''1'', emitHeartbeatHandler),
      (''commit_transcript'', ''1'', commitTranscriptHandler)]"

definition createDefaultHandlers :: handler_registry where
  "createDefaultHandlers = fold (\<lambda>(i, rv, h) r. handler_register i h (Some rv) r) DEFAULT_HANDLERS []"

definition handler_put ::
  "operation_type_id \<Rightarrow> string \<Rightarrow> operation_handler \<Rightarrow> handler_registry \<Rightarrow> handler_registry" where
  "handler_put i rv h r = handler_register i h (Some rv) r"

lemma handlerKey_templateKey: "handlerKey i (Some rv) = templateKey i rv"
  by (simp add: handlerKey_def templateKey_def)

interpretation handlers: versioned_registry "[]" handler_get handler_put "\<lambda>_ _ _. True"
proof
  fix i j :: operation_type_id and rv rv' :: string and w :: "string option" and h r
  show "handler_get [] i w = None"
    by (simp add: handler_get_def split: option.splits)
  assume "plain_id i" "plain_id j"
  then show "handler_get (handler_put i rv h r) j (Some rv') =
      (if i = j \<and> rv = rv' then Some h else handler_get r j (Some rv'))"
    and "handler_get (handler_put i rv h r) j None =
      (if i = j \<and> handler_get r j None = None then Some h else handler_get r j None)"
    by (auto simp: handler_get_def handler_put_def handler_register_def handlerKey_templateKey Let_def
        jsmap_simps templateKey_eq templateKey_not_plain templateKey_not_plain [symmetric] map_has_get)
qed

section \<open>Application (applyChange.ts, replayKernel.ts)\<close>

definition applyRecipe ::
  "snapshot \<Rightarrow> replay_recipe \<Rightarrow> handler_registry \<Rightarrow> apply_context \<Rightarrow> runtime_violation + apply_result" where
  "applyRecipe before recipe registry ctx =
     (let revision = map_option ot_revision (rp_templateRef recipe)
      in case handler_get registry (rp_operationTypeId recipe) revision of
           None \<Rightarrow> fail_result (''no handler for '' @ rp_operationTypeId recipe @ ''@'' @ opt_default ''default'' revision)
         | Some handler \<Rightarrow> handler before recipe ctx)"

definition replayKernelRun ::
  "replay_recipe \<Rightarrow> snapshot \<Rightarrow> handler_registry \<Rightarrow> apply_context \<Rightarrow> runtime_violation + apply_result" where
  "replayKernelRun recipe source registry ctx = applyRecipe source recipe registry ctx"

section \<open>Fresh references (idGenerator.ts, allocateFreshRefs.ts)\<close>

record 'g id_generator =
  ig_changeId :: "'g \<Rightarrow> change_id \<times> 'g"
  ig_snapshotRef :: "'g \<Rightarrow> snapshot_ref \<times> 'g"
  ig_sessionId :: "'g \<Rightarrow> session_id \<times> 'g"
  ig_linkId :: "'g \<Rightarrow> link_id \<times> 'g"

definition countDelegateReviewerLinks :: "replay_recipe \<Rightarrow> nat" where
  "countDelegateReviewerLinks recipe =
     (let fromActorId = actorIdFromRole (rp_matchBindings recipe) RFrom;
          reviewers = filter (\<lambda>a. Some a \<noteq> fromActorId \<and> BTo a \<notin> set (rp_matchBindings recipe))
                        (participant_ids (rp_matchBindings recipe))
      in if length reviewers > 0 then 1 else 0)"

definition countCreateSessionLinks :: "replay_recipe \<Rightarrow> nat" where
  "countCreateSessionLinks recipe =
     (let controllerId = actorIdFromRole (rp_matchBindings recipe) RFrom
      in length (filter (\<lambda>a. Some a \<noteq> controllerId) (participant_ids (rp_matchBindings recipe))))"

definition countForkLinks :: "replay_recipe \<Rightarrow> nat" where
  "countForkLinks recipe =
     (case actorIdFromRole (rp_matchBindings recipe) RFrom of
        None \<Rightarrow> 0
      | Some controllerId \<Rightarrow>
          (let unique = new_Set (controllerId # participant_ids (rp_matchBindings recipe))
           in if length unique < 2 then 0 else length unique * (length unique - 1) div 2))"

fun take_ids :: "('g \<Rightarrow> 'i \<times> 'g) \<Rightarrow> nat \<Rightarrow> 'g \<Rightarrow> 'i list \<times> 'g" where
  "take_ids next 0 g = ([], g)"
| "take_ids next (Suc n) g = (let (i, g1) = next g; (is, g2) = take_ids next n g1 in (i # is, g2))"

definition link_count :: "replay_recipe \<Rightarrow> operation_type_id \<Rightarrow> nat" where
  "link_count recipe op =
     (if op = ''delegate'' then countDelegateReviewerLinks recipe
      else if op = ''create_session'' then countCreateSessionLinks recipe
      else if op = ''fork_branch'' then countForkLinks recipe else 0)"

definition allocateFreshRefsForRecipe ::
  "'g id_generator \<Rightarrow> replay_recipe \<Rightarrow> operation_type_id \<Rightarrow> 'g \<Rightarrow> replay_recipe \<times> 'g" where
  "allocateFreshRefsForRecipe gen recipe op g =
     (let (links, g1) = take_ids (ig_linkId gen) (link_count recipe op) g;
          (sessions, g2) =
            (if length (rp_createdSessionRefs recipe) > 0 then (rp_createdSessionRefs recipe, g1)
             else if op = ''delegate'' \<or> op = ''create_session'' then
               (let (i, g2) = ig_sessionId gen g1 in ([i], g2))
             else ([], g1))
      in (recipe\<lparr>rp_freshLinkRefs := links, rp_createdSessionRefs := sessions\<rparr>, g2))"

section \<open>Content availability (contentRefAuthority.ts, contentRefAvailability.ts)\<close>

text \<open>
  The authority is a parameter: \<open>None\<close> is an exception, \<open>Some b\<close> says whether the answer was
  the literal \<open>true\<close>.
\<close>

type_synonym content_authority = "content_ref \<Rightarrow> bool option"

definition changedArtifactContentRefs :: "snapshot \<Rightarrow> snapshot \<Rightarrow> content_ref list" where
  "changedArtifactContentRefs before after =
     map (\<lambda>(i, a). wa_contentRef a)
       (filter (\<lambda>(i, a). map_option wa_contentRef (map_get (sn_artifacts before) i) \<noteq> Some (wa_contentRef a))
         (sn_artifacts after))"

fun content_loop ::
  "content_authority \<Rightarrow> operation_type_id \<Rightarrow> content_ref list \<Rightarrow> runtime_violation option" where
  "content_loop authority op [] = None"
| "content_loop authority op (r # rs) =
     (if authority r = Some True then content_loop authority op rs
      else Some (runtimeViolation ContentRefUnavailable
             (''contentRef is not available from the authoritative store: '' @ r)
             (no_details\<lparr>vd_operationTypeId := Some op, vd_path := Some ''artifacts.contentRef'', vd_actual := Some r\<rparr>)))"

definition validateCommitContentAvailability ::
  "snapshot \<Rightarrow> snapshot \<Rightarrow> operation_type_id \<Rightarrow> content_authority option \<Rightarrow> runtime_violation option" where
  "validateCommitContentAvailability before after op authority =
     (let introduced = changedArtifactContentRefs before after
      in if length introduced = 0 then None
         else case authority of
                None \<Rightarrow> Some (runtimeViolation ContentRefUnavailable
                          (op @ '' introduces content but no ContentRefAuthority is configured'')
                          (no_details\<lparr>vd_operationTypeId := Some op, vd_path := Some ''artifacts.contentRef''\<rparr>))
              | Some av \<Rightarrow> content_loop av op introduced)"

end
