(* ===== verification/Runtime_Effects.thy ===== *)
theory Runtime_Effects
  imports Runtime_Apply
begin

text \<open>
  What a successful operation does to the world: which entities it may write, how each
  component may evolve, and that the references allocated for a recipe suffice for it.
\<close>

section \<open>Evolution and writes\<close>

definition participants_evolve :: "snapshot \<Rightarrow> snapshot \<Rightarrow> bool" where
  "participants_evolve s s' \<longleftrightarrow> (\<forall>a p. map_get (sn_participants s) a = Some p \<longrightarrow>
     (\<exists>p'. map_get (sn_participants s') a = Some p' \<and> p_kind p' = p_kind p \<and>
       (p_status p' = p_status p \<or> validateTransition (p_status p) (p_status p'))))"

definition artifacts_evolve :: "snapshot \<Rightarrow> snapshot \<Rightarrow> bool" where
  "artifacts_evolve s s' \<longleftrightarrow> (\<forall>i a. map_get (sn_artifacts s) i = Some a \<longrightarrow>
     (\<exists>a'. map_get (sn_artifacts s') i = Some a' \<and> wa_kind a' = wa_kind a \<and> wa_contentRef a' = wa_contentRef a))"

definition nothing_lost :: "snapshot \<Rightarrow> snapshot \<Rightarrow> bool" where
  "nothing_lost s s' \<longleftrightarrow>
     (\<forall>k. map_has (sn_capabilities s) k \<longrightarrow> map_has (sn_capabilities s') k) \<and>
     (\<forall>k. map_has (sn_sessions s) k \<longrightarrow> map_has (sn_sessions s') k) \<and>
     (\<forall>k. map_has (sn_links s) k \<longrightarrow> map_has (sn_links s') k) \<and>
     (\<forall>k. map_has (sn_transcripts s) k \<longrightarrow> map_has (sn_transcripts s') k) \<and>
     (\<exists>new. sn_heartbeatLog s' = sn_heartbeatLog s @ new)"

definition frame_kept :: "snapshot \<Rightarrow> snapshot \<Rightarrow> bool" where
  "frame_kept s s' \<longleftrightarrow>
     sn_snapshotRef s' = sn_snapshotRef s \<and> sn_epochId s' = sn_epochId s \<and>
     sn_policyContext s' = sn_policyContext s \<and> sn_auditTail s' = sn_auditTail s \<and>
     sn_retiredEntities s' = sn_retiredEntities s \<and> sn_namespaces s' = sn_namespaces s \<and>
     sn_transcriptAccessRequests s' = sn_transcriptAccessRequests s"

fun entity_changed :: "snapshot \<Rightarrow> snapshot \<Rightarrow> target_kind \<Rightarrow> string \<Rightarrow> bool" where
  "entity_changed s s' TArtifact i = (map_get (sn_artifacts s') i \<noteq> map_get (sn_artifacts s) i)"
| "entity_changed s s' TParticipant i = (map_get (sn_participants s') i \<noteq> map_get (sn_participants s) i)"
| "entity_changed s s' TSession i = (map_get (sn_sessions s') i \<noteq> map_get (sn_sessions s) i)"
| "entity_changed s s' TCapability i = (map_get (sn_capabilities s') i \<noteq> map_get (sn_capabilities s) i)"
| "entity_changed s s' TLink i = (map_get (sn_links s') i \<noteq> map_get (sn_links s) i)"

text \<open>
  What an operation may write: what its bindings name, the sessions and links allocated for
  it, and the write lock it derives from the name of the task when no capability is bound.
\<close>

definition may_write :: "replay_recipe \<Rightarrow> target_ref set" where
  "may_write r =
     set (targetsFromMatchBindings (rp_matchBindings r)) \<union>
     targetRef TSession ` set (rp_createdSessionRefs r) \<union> targetRef TLink ` set (rp_freshLinkRefs r) \<union>
     {targetRef TCapability (defaultWriteLockId i) | i. artifactIdFromRole (rp_matchBindings r) RTask = Some i \<and>
        capabilityIdFromRole (rp_matchBindings r) RCapability = None}"

definition writes_within :: "replay_recipe \<Rightarrow> snapshot \<Rightarrow> snapshot \<Rightarrow> bool" where
  "writes_within r s s' \<longleftrightarrow> (\<forall>k i. entity_changed s s' k i \<longrightarrow> targetRef k i \<in> may_write r)"

text \<open>
  Transcripts and heartbeats are not targets: only the initiator's own transcript may change, and
  only while that participant is registered and not retired; new heartbeats are the initiator's.
\<close>

definition own_records :: "replay_recipe \<Rightarrow> snapshot \<Rightarrow> snapshot \<Rightarrow> bool" where
  "own_records r s s' \<longleftrightarrow>
     (\<forall>a. map_get (sn_transcripts s') a \<noteq> map_get (sn_transcripts s) a \<longrightarrow>
        actorIdFromRole (rp_matchBindings r) RFrom = Some a \<and>
        (\<exists>p. map_get (sn_participants s) a = Some p \<and> p_status p \<noteq> Retired) \<and>
        (\<exists>t. map_get (sn_transcripts s') a = Some t \<and> pt_actorId t = a)) \<and>
     (\<exists>new. sn_heartbeatLog s' = sn_heartbeatLog s @ new \<and>
        (\<forall>h\<in>set new. actorIdFromRole (rp_matchBindings r) RFrom = Some (hb_agentId h)))"

definition operates :: "replay_recipe \<Rightarrow> snapshot \<Rightarrow> snapshot \<Rightarrow> bool" where
  "operates r s s' \<longleftrightarrow> frozen s' \<and> frame_kept s s' \<and> participants_evolve s s' \<and> artifacts_evolve s s' \<and>
     nothing_lost s s' \<and> writes_within r s s' \<and> own_records r s s'"

lemmas operates_parts = operates_def frame_kept_def participants_evolve_def artifacts_evolve_def
  nothing_lost_def writes_within_def own_records_def

section \<open>Bindings\<close>

lemma find_role: "List.find (\<lambda>b. roleOf b = r) bs = Some b \<Longrightarrow> b \<in> set bs \<and> roleOf b = r"
  by (auto dest: find_Some_mem)

lemma role_target:
  "artifactIdFromRole bs r = Some i \<Longrightarrow> targetRef TArtifact i \<in> set (targetsFromMatchBindings bs)"
  "actorIdFromRole bs r = Some i \<Longrightarrow> targetRef TParticipant i \<in> set (targetsFromMatchBindings bs)"
  "capabilityIdFromRole bs r = Some i \<Longrightarrow> targetRef TCapability i \<in> set (targetsFromMatchBindings bs)"
  "sessionIdFromRole bs r = Some i \<Longrightarrow> targetRef TSession i \<in> set (targetsFromMatchBindings bs)"
  by (force simp: artifactIdFromRole_def actorIdFromRole_def capabilityIdFromRole_def sessionIdFromRole_def
      bindingByRole_def targetsFromMatchBindings_def split: option.splits match_binding.splits dest!: find_role)+

lemma role_may_write:
  "artifactIdFromRole (rp_matchBindings r) o1 = Some i \<Longrightarrow> targetRef TArtifact i \<in> may_write r"
  "actorIdFromRole (rp_matchBindings r) o1 = Some i \<Longrightarrow> targetRef TParticipant i \<in> may_write r"
  "capabilityIdFromRole (rp_matchBindings r) o1 = Some i \<Longrightarrow> targetRef TCapability i \<in> may_write r"
  "sessionIdFromRole (rp_matchBindings r) o1 = Some i \<Longrightarrow> targetRef TSession i \<in> may_write r"
  by (simp_all add: may_write_def role_target)

lemma arr_get_mem: "arr_get xs i = Some x \<Longrightarrow> x \<in> set xs"
  by (auto simp: arr_get_def split: if_splits)

lemma fresh_may_write:
  "arr_get (rp_createdSessionRefs r) n = Some i \<Longrightarrow> targetRef TSession i \<in> may_write r"
  "arr_get (rp_freshLinkRefs r) n = Some i \<Longrightarrow> targetRef TLink i \<in> may_write r"
  "i \<in> set (rp_freshLinkRefs r) \<Longrightarrow> targetRef TLink i \<in> may_write r"
  by (auto simp: may_write_def dest: arr_get_mem)

lemma lock_may_write:
  "artifactIdFromRole (rp_matchBindings r) RTask = Some i \<Longrightarrow>
    targetRef TCapability (opt_default (defaultWriteLockId i) (capabilityIdFromRole (rp_matchBindings r) RCapability))
      \<in> may_write r"
  by (cases "capabilityIdFromRole (rp_matchBindings r) RCapability")
     (auto simp: opt_default_def may_write_def role_target)

lemmas may_write = role_may_write fresh_may_write lock_may_write

section \<open>Results\<close>

lemma fail_not_ok [simp]: "fail_result reason \<noteq> Inr (ApplyOk a i ss)"
  by (simp add: fail_result_def)

lemma ok_result_ok [simp]:
  "ok_result after w ids ss = Inr (ApplyOk a i ss') \<longleftrightarrow>
    a = after \<and> ss' = ss \<and> actorRefsFromSnapshot w ids = Inr i"
  by (auto simp: ok_result_def map_sum_def split: sum.splits)

lemma ok_result_not_fail [simp]: "ok_result after w ids ss \<noteq> Inr (ApplyFail reason)"
  by (auto simp: ok_result_def map_sum_def split: sum.splits)

lemma and_then_Inr [simp]: "and_then m f = Inr y \<longleftrightarrow> (\<exists>x. m = Inr x \<and> f x = Inr y)"
  by (auto simp: and_then_def split: sum.splits)

lemma actorRefFromSnapshot_Inr [simp]:
  "actorRefFromSnapshot s a = Inr r \<longleftrightarrow> (\<exists>p. map_get (sn_participants s) a = Some p \<and> r = actorRef a (p_kind p))"
  by (auto simp: actorRefFromSnapshot_def split: option.splits)

lemma actorRefsFromSnapshot_Inr:
  "actorRefsFromSnapshot s ids = Inr rs \<Longrightarrow> map ar_actorId rs = ids \<and> (\<forall>r\<in>set rs. resolves s r)"
proof (induction ids arbitrary: rs)
  case (Cons a ids)
  then show ?case
    by (cases "actorRefsFromSnapshot s ids") (auto simp: resolves_def actorRef_def)
qed simp

section \<open>Link loops\<close>

definition links_added :: "link_id list \<Rightarrow> snapshot \<Rightarrow> snapshot \<Rightarrow> bool" where
  "links_added refs s s' \<longleftrightarrow> frozen s' \<and> (\<exists>L. s' = s\<lparr>sn_links := L\<rparr> \<and>
     (\<forall>k. k \<notin> set refs \<longrightarrow> map_get L k = map_get (sn_links s) k) \<and>
     (\<forall>k. map_has (sn_links s) k \<longrightarrow> map_has L k))"

lemma links_added_refl: "frozen s \<Longrightarrow> links_added refs s s"
  by (auto simp: links_added_def intro!: exI [of _ "sn_links s"])

lemma links_added_step:
  assumes "links_added refs (withLink s l) s'" and "frozen s" and "ln_linkId l \<in> set refs"
  shows "links_added refs s s'"
proof -
  have w: "withLink s l = s\<lparr>sn_links := map_set (ln_linkId l) l (sn_links s)\<rparr>"
    by (rule with_frozen [OF assms(2)])
  from assms(1) obtain L where L: "frozen s'" "s' = (withLink s l)\<lparr>sn_links := L\<rparr>"
    "\<forall>k. k \<notin> set refs \<longrightarrow> map_get L k = map_get (sn_links (withLink s l)) k"
    "\<forall>k. map_has (sn_links (withLink s l)) k \<longrightarrow> map_has L k"
    by (auto simp: links_added_def)
  have "s' = s\<lparr>sn_links := L\<rparr>" using L(2) by (simp add: w)
  moreover have "\<forall>k. k \<notin> set refs \<longrightarrow> map_get L k = map_get (sn_links s) k"
    using L(3) assms(3) by (auto simp: w jsmap_simps)
  moreover have "\<forall>k. map_has (sn_links s) k \<longrightarrow> map_has L k"
    using L(4) by (simp add: w jsmap_simps)
  ultimately show ?thesis using L(1) by (auto simp: links_added_def)
qed

lemma collaborationLink_id [simp]: "ln_linkId (collaborationLink i k f t) = i"
  by (simp add: collaborationLink_def)

lemma session_link_loop_added:
  "frozen s \<Longrightarrow> session_link_loop c refs i ms s = Some s' \<Longrightarrow> links_added refs s s'"
proof (induction c refs i ms s rule: session_link_loop.induct)
  case (2 c refs i m ms s)
  show ?case
  proof (cases "m = c")
    case True
    with 2 show ?thesis by simp
  next
    case False
    with "2.prems" obtain l where l: "arr_get refs i = Some l" by (auto split: option.splits)
    let ?l = "collaborationLink l NestedIn (EndParticipant c) (EndParticipant m)"
    have "links_added refs (withLink s ?l) s'" using "2.IH"(2) [OF False l] "2.prems" False l by simp
    then show ?thesis
      by (rule links_added_step) (use "2.prems" arr_get_mem [OF l] in simp_all)
  qed
qed (simp add: links_added_refl)

lemma pair_link_loop_added:
  "frozen s \<Longrightarrow> pair_link_loop refs i ps s = Some s' \<Longrightarrow> links_added refs s s'"
proof (induction refs i ps s rule: pair_link_loop.induct)
  case (2 refs i left right ps s)
  from "2.prems" obtain l where l: "arr_get refs i = Some l" by (auto split: option.splits)
  let ?l = "collaborationLink l ParallelWith (EndParticipant left) (EndParticipant right)"
  have "links_added refs (withLink s ?l) s'" using "2.IH" [OF l] "2.prems" l by simp
  then show ?case
    by (rule links_added_step) (use "2.prems" arr_get_mem [OF l] in simp_all)
qed (simp add: links_added_refl)

section \<open>Operation effects\<close>

lemma operatesI:
  assumes "frozen s'" "frame_kept s s'" "participants_evolve s s'" "artifacts_evolve s s'" "nothing_lost s s'" "own_records r s s'"
    and "\<And>i. map_get (sn_artifacts s') i \<noteq> map_get (sn_artifacts s) i \<Longrightarrow> targetRef TArtifact i \<in> may_write r"
    and "\<And>i. map_get (sn_participants s') i \<noteq> map_get (sn_participants s) i \<Longrightarrow> targetRef TParticipant i \<in> may_write r"
    and "\<And>i. map_get (sn_sessions s') i \<noteq> map_get (sn_sessions s) i \<Longrightarrow> targetRef TSession i \<in> may_write r"
    and "\<And>i. map_get (sn_capabilities s') i \<noteq> map_get (sn_capabilities s) i \<Longrightarrow> targetRef TCapability i \<in> may_write r"
    and "\<And>i. map_get (sn_links s') i \<noteq> map_get (sn_links s) i \<Longrightarrow> targetRef TLink i \<in> may_write r"
  shows "operates r s s'"
proof -
  have "entity_changed s s' k i \<Longrightarrow> targetRef k i \<in> may_write r" for k i
    using assms(7-11) by (cases k) simp_all
  with assms(1-6) show ?thesis by (simp add: operates_def writes_within_def)
qed

lemma integrity_keys:
  assumes "integrity s" and "frozen s"
  shows "map_get (sn_artifacts s) i = Some a \<Longrightarrow> wa_artifactId a = i"
    and "map_get (sn_capabilities s) i = Some c \<Longrightarrow> sc_capabilityId c = i"
    and "map_get (sn_sessions s) i = Some x \<Longrightarrow> se_sessionId x = i"
    and "map_get (sn_participants s) i = Some p \<Longrightarrow> p_actorId p = i"
  using assms by (fastforce simp: integrity_def integrity_parts dest: map_get_mem)+

lemmas edit_simps = map_wf_set frozen_participant snapshot_updates jsmap_simps workArtifact_def scopedCapability_def communicationSession_def
  withArtifactOwner_def withCapabilityHolder_def withArtifactLifecycle_def mk_participant_def

lemmas operates_simps = edit_simps frame_kept_def participants_evolve_def artifacts_evolve_def nothing_lost_def own_records_def map_has_get

lemma evolve_refl [simp]:
  "sn_participants s' = sn_participants s \<Longrightarrow> participants_evolve s s'"
  "sn_artifacts s' = sn_artifacts s \<Longrightarrow> artifacts_evolve s s'"
  by (auto simp: participants_evolve_def artifacts_evolve_def)

abbreviation "bs_task r \<equiv> artifactIdFromRole (rp_matchBindings r) RTask"
abbreviation "bs_from r \<equiv> actorIdFromRole (rp_matchBindings r) RFrom"
abbreviation "bs_to r \<equiv> actorIdFromRole (rp_matchBindings r) RTo"
abbreviation "bs_target r \<equiv> actorIdFromRole (rp_matchBindings r) RParticipant"
abbreviation "bs_cap r \<equiv> capabilityIdFromRole (rp_matchBindings r) RCapability"
abbreviation "bs_session r \<equiv> sessionIdFromRole (rp_matchBindings r) RSession"

lemma introduce_ok:
  "introduceArtifactHandler s r ctx = Inr (ApplyOk s' us ss) \<longleftrightarrow>
    (\<exists>t f c p. bs_task r = Some t \<and> bs_from r = Some f \<and> \<not> map_has (sn_artifacts s) t \<and>
      arr_get (rp_inputContentRefs r) 0 = Some c \<and> map_get (sn_participants s) f = Some p \<and>
      s' = withCapability (withArtifact s (workArtifact t ''Task'' c (actorRef f (p_kind p)) (Some LActive)))
        (scopedCapability (opt_default (defaultWriteLockId t) (bs_cap r)) WriteLock f (ScopeArtifact t)) \<and>
      us = [actorRef f (p_kind p)] \<and> ss = [])"
  by (auto simp: introduceArtifactHandler_def Let_def split: option.splits if_splits)


lemma introduce_operates:
  assumes "introduceArtifactHandler s r ctx = Inr (ApplyOk s' us ss)" and fr: "frozen s"
  shows "operates r s s'"
proof -
  from assms(1) obtain t f c and p :: participant where t: "bs_task r = Some t" and new: "\<not> map_has (sn_artifacts s) t"
    and s': "s' = withCapability (withArtifact s (workArtifact t ''Task'' c (actorRef f (p_kind p)) (Some LActive)))
      (scopedCapability (opt_default (defaultWriteLockId t) (bs_cap r)) WriteLock f (ScopeArtifact t))"
    unfolding introduce_ok by blast
  show ?thesis
    unfolding s' by (rule operatesI)
      (use fr new role_may_write(1) [OF t] lock_may_write [OF t] in \<open>auto simp: operates_simps split: if_splits\<close>)
qed

lemma taskId_may_write: "taskIdFromRecipe r = Some i \<Longrightarrow> targetRef TArtifact i \<in> may_write r"
  by (auto simp: taskIdFromRecipe_def role_may_write split: option.splits)

lemma publish_ok:
  "publishArtifactHandler s r ctx = Inr (ApplyOk s' us ss) \<longleftrightarrow>
    (\<exists>i a. taskIdFromRecipe r = Some i \<and> map_get (sn_artifacts s) i = Some a \<and>
      s' = withArtifact s (withArtifactLifecycle a LPublished) \<and> ss = [] \<and>
      actorRefsFromSnapshot s (case bs_from r of None \<Rightarrow> [] | Some f \<Rightarrow> [f]) = Inr us)"
  by (auto simp: publishArtifactHandler_def Let_def split: option.splits if_splits)

lemma publish_operates:
  assumes "publishArtifactHandler s r ctx = Inr (ApplyOk s' us ss)" and fr: "frozen s" and int: "integrity s"
  shows "operates r s s'"
proof -
  from assms(1) obtain i a where i: "taskIdFromRecipe r = Some i" and a: "map_get (sn_artifacts s) i = Some a"
    and s': "s' = withArtifact s (withArtifactLifecycle a LPublished)"
    unfolding publish_ok by blast
  show ?thesis
    unfolding s' by (rule operatesI)
      (use fr a taskId_may_write [OF i] integrity_keys(1) [OF int fr a] in
        \<open>auto simp: operates_simps split: if_splits\<close>)
qed

lemma create_session_ok:
  "createSessionHandler s r ctx = Inr (ApplyOk s' us ss) \<longleftrightarrow>
    (\<exists>c i. bs_from r = Some c \<and>
      (case arr_get (rp_createdSessionRefs r) 0 of Some j \<Rightarrow> Some j | None \<Rightarrow> bs_session r) = Some i \<and>
      \<not> map_has (sn_sessions s) i \<and> ss = [i] \<and>
      session_link_loop c (rp_freshLinkRefs r) 0 (sessionParticipants r c)
        (withSession s (communicationSession i c (sessionParticipants r c) None)) = Some s' \<and>
      actorRefsFromSnapshot s (sessionParticipants r c) = Inr us)"
  by (auto simp: createSessionHandler_def Let_def split: option.splits if_splits)

lemma create_session_operates:
  assumes "createSessionHandler s r ctx = Inr (ApplyOk s' us ss)" and fr: "frozen s"
  shows "operates r s s'"
proof -
  from assms(1) obtain c i where i: "(case arr_get (rp_createdSessionRefs r) 0 of Some j \<Rightarrow> Some j | None \<Rightarrow> bs_session r) = Some i"
    and new: "\<not> map_has (sn_sessions s) i"
    and loop: "session_link_loop c (rp_freshLinkRefs r) 0 (sessionParticipants r c)
        (withSession s (communicationSession i c (sessionParticipants r c) None)) = Some s'"
    unfolding create_session_ok by blast
  have mw: "targetRef TSession i \<in> may_write r"
    using i by (auto intro: fresh_may_write role_may_write split: option.splits)
  from session_link_loop_added [OF frozen_with(4) loop] obtain L where s': "frozen s'"
    "s' = (withSession s (communicationSession i c (sessionParticipants r c) None))\<lparr>sn_links := L\<rparr>"
    "\<forall>k. k \<notin> set (rp_freshLinkRefs r) \<longrightarrow> map_get L k = map_get (sn_links s) k"
    "\<forall>k. map_has (sn_links s) k \<longrightarrow> map_has L k"
    using fr by (auto simp: links_added_def snapshot_updates)
  show ?thesis
    by (rule operatesI)
      (use fr new mw s' in \<open>auto simp: operates_simps intro: fresh_may_write(3) split: if_splits\<close>)
qed

lemma transfer_session_ok:
  "transferSessionHandler s r ctx = Inr (ApplyOk s' us ss) \<longleftrightarrow>
    (\<exists>i b x. bs_session r = Some i \<and> bs_to r = Some b \<and> map_get (sn_sessions s) i = Some x \<and>
      (\<forall>f. bs_from r = Some f \<longrightarrow> se_controller x = f) \<and> ss = [] \<and>
      s' = withSession s (communicationSession (se_sessionId x) b
        (if b \<in> set (se_participants x) then se_participants x else se_participants x @ [b]) (Some (se_visibility x))) \<and>
      actorRefsFromSnapshot s ((case bs_from r of None \<Rightarrow> [] | Some f \<Rightarrow> [f]) @ [b]) = Inr us)"
  by (auto simp: transferSessionHandler_def Let_def split: option.splits if_splits)

lemma transfer_session_operates:
  assumes "transferSessionHandler s r ctx = Inr (ApplyOk s' us ss)" and fr: "frozen s" and int: "integrity s"
  shows "operates r s s'"
proof -
  from assms(1) obtain i b x where i: "bs_session r = Some i" and x: "map_get (sn_sessions s) i = Some x"
    and s': "s' = withSession s (communicationSession (se_sessionId x) b
        (if b \<in> set (se_participants x) then se_participants x else se_participants x @ [b]) (Some (se_visibility x)))"
    unfolding transfer_session_ok by blast
  show ?thesis
    unfolding s' by (rule operatesI)
      (use fr x role_may_write(4) [OF i] integrity_keys(3) [OF int fr x] in
        \<open>auto simp: operates_simps split: if_splits\<close>)
qed

lemma delegate_ok:
  "delegateHandler s r ctx = Inr (ApplyOk s' us ss) \<longleftrightarrow>
    (\<exists>t f b k a c i p. bs_task r = Some t \<and> bs_from r = Some f \<and> bs_to r = Some b \<and> bs_cap r = Some k \<and>
      map_get (sn_artifacts s) t = Some a \<and> map_get (sn_capabilities s) k = Some c \<and>
      map_get (sn_participants s) b = Some p \<and> arr_get (rp_createdSessionRefs r) 0 = Some i \<and> ss = [i] \<and>
      s' = link_reviewer
        (withSession (withCapability (withArtifact s (withArtifactOwner a (actorRef b (p_kind p))))
           (withCapabilityHolder c b)) (communicationSession i b [b, f] None))
        (reviewerParticipantId r f b) (arr_get (rp_freshLinkRefs r) 0) b \<and>
      actorRefsFromSnapshot s [f, b] = Inr us)"
  by (auto simp: delegateHandler_def Let_def split: option.splits if_splits)

lemma reviewer_may_write:
  "reviewerParticipantId r f b = Some a \<Longrightarrow> targetRef TParticipant a \<in> may_write r"
  by (force simp: reviewerParticipantId_def may_write_def targetsFromMatchBindings_def
      split: option.splits match_binding.splits dest!: find_Some_mem)

lemma link_reviewer_effect:
  assumes fr: "frozen s"
  obtains P L where "link_reviewer s rv lk b = s\<lparr>sn_participants := P, sn_links := L\<rparr>"
    and "frozen (s\<lparr>sn_participants := P, sn_links := L\<rparr>)"
    and "\<And>k. map_get P k \<noteq> map_get (sn_participants s) k \<Longrightarrow> rv = Some k \<and> map_get (sn_participants s) k = None"
    and "\<And>k. map_get L k \<noteq> map_get (sn_links s) k \<Longrightarrow> lk = Some k"
    and "\<And>k. map_has (sn_links s) k \<Longrightarrow> map_has L k"
proof (cases "\<exists>a i. rv = Some a \<and> lk = Some i")
  case False
  then have "link_reviewer s rv lk b = s\<lparr>sn_participants := sn_participants s, sn_links := sn_links s\<rparr>"
    by (cases rv; cases lk) (simp_all add: link_reviewer_def)
  with that [where P = "sn_participants s" and L = "sn_links s"] fr show ?thesis by simp
next
  case True
  then obtain a i where ai: "rv = Some a" "lk = Some i" by blast
  let ?p = "mk_participant a Reviewer Active None None"
  let ?s = "if map_has (sn_participants s) a then s else withParticipant s ?p"
  let ?l = "collaborationLink i WaitsFor (EndParticipant a) (EndParticipant b)"
  have f: "frozen ?s" using fr by simp
  have s: "?s = s\<lparr>sn_participants := sn_participants ?s\<rparr>" using fr by (simp add: snapshot_updates)
  have e: "link_reviewer s rv lk b = withLink ?s ?l" by (simp add: link_reviewer_def ai Let_def)
  also have "\<dots> = ?s\<lparr>sn_links := map_set i ?l (sn_links ?s)\<rparr>" using with_frozen(2) [OF f] by simp
  also have "sn_links ?s = sn_links s" by (subst s) simp
  finally have e': "link_reviewer s rv lk b = s\<lparr>sn_participants := sn_participants ?s, sn_links := map_set i ?l (sn_links s)\<rparr>"
    by (subst (asm) s) simp
  show ?thesis
  proof (rule that [OF e'])
    show "frozen (s\<lparr>sn_participants := sn_participants ?s, sn_links := map_set i ?l (sn_links s)\<rparr>)"
      unfolding e' [symmetric] e by simp
    show "map_get (sn_participants ?s) k \<noteq> map_get (sn_participants s) k \<Longrightarrow>
        rv = Some k \<and> map_get (sn_participants s) k = None" for k
      using fr by (auto simp: ai snapshot_updates jsmap_simps mk_participant_def map_has_get split: if_splits)
  qed (auto simp: ai jsmap_simps split: if_splits)
qed

lemma delegate_operates:
  assumes "delegateHandler s r ctx = Inr (ApplyOk s' us ss)" and fr: "frozen s" and int: "integrity s"
  shows "operates r s s'"
proof -
  from assms(1) obtain t f b k a c i and p :: participant where t: "bs_task r = Some t" and k: "bs_cap r = Some k"
    and a: "map_get (sn_artifacts s) t = Some a" and c: "map_get (sn_capabilities s) k = Some c"
    and i: "arr_get (rp_createdSessionRefs r) 0 = Some i"
    and s': "s' = link_reviewer
        (withSession (withCapability (withArtifact s (withArtifactOwner a (actorRef b (p_kind p))))
           (withCapabilityHolder c b)) (communicationSession i b [b, f] None))
        (reviewerParticipantId r f b) (arr_get (rp_freshLinkRefs r) 0) b"
    unfolding delegate_ok by blast
  let ?o = "withSession (withCapability (withArtifact s (withArtifactOwner a (actorRef b (p_kind p))))
           (withCapabilityHolder c b)) (communicationSession i b [b, f] None)"
  obtain P L where e: "s' = ?o\<lparr>sn_participants := P, sn_links := L\<rparr>"
    and fr': "frozen (?o\<lparr>sn_participants := P, sn_links := L\<rparr>)"
    and P: "\<And>x. map_get P x \<noteq> map_get (sn_participants ?o) x \<Longrightarrow>
      reviewerParticipantId r f b = Some x \<and> map_get (sn_participants ?o) x = None"
    and L: "\<And>x. map_get L x \<noteq> map_get (sn_links ?o) x \<Longrightarrow> arr_get (rp_freshLinkRefs r) 0 = Some x"
    and L': "\<And>x. map_has (sn_links ?o) x \<Longrightarrow> map_has L x"
    unfolding s' by (rule link_reviewer_effect [of ?o "reviewerParticipantId r f b" "arr_get (rp_freshLinkRefs r) 0" b]) simp_all
  have base: "sn_participants ?o = sn_participants s" "sn_links ?o = sn_links s"
    using fr by (simp_all add: edit_simps)
  have keep: "map_get P x = Some q" if "map_get (sn_participants s) x = Some q" for x q
    using P [of x] that by (auto simp: base)
  show ?thesis
    unfolding e
    by (rule operatesI [OF fr'])
      (use fr a c P L L' keep role_may_write(1) [OF t] role_may_write(3) [OF k] fresh_may_write(1) [OF i]
          integrity_keys(1) [OF int fr a] integrity_keys(2) [OF int fr c] in
        \<open>auto simp: operates_simps intro: reviewer_may_write fresh_may_write(2) split: if_splits\<close>)
qed


lemma result_ok [simp]:
  "case_option (fail_result m) f x = Inr (ApplyOk a i ss) \<longleftrightarrow> (\<exists>y. x = Some y \<and> f y = Inr (ApplyOk a i ss))"
  "case_sum fail_result g w = Inr (ApplyOk a i ss) \<longleftrightarrow> (\<exists>y. w = Inr y \<and> g y = Inr (ApplyOk a i ss))"
  "(if c then fail_result m else d) = Inr (ApplyOk a i ss) \<longleftrightarrow> \<not> c \<and> d = Inr (ApplyOk a i ss)"
  "case_operation_scalar fs (\<lambda>_. fail_result m) (\<lambda>_. fail_result m) v = Inr (ApplyOk a i ss) \<longleftrightarrow>
    (\<exists>y. v = ScalarString y \<and> fs y = Inr (ApplyOk a i ss))"
  "case_js_value (fail_result m) (fail_result m) (\<lambda>_. fail_result m) (\<lambda>_. fail_result m) (\<lambda>_. fail_result m)
     fa (\<lambda>_. fail_result m) j = Inr (ApplyOk a i ss) \<longleftrightarrow> (\<exists>y. j = JArray y \<and> fa y = Inr (ApplyOk a i ss))"
  by (auto split: option.splits sum.splits operation_scalar.splits js_value.splits)

lemma linkPeersPairwise_Inr [simp]:
  "linkPeersPairwise s r ps = Inr s' \<longleftrightarrow> pair_link_loop (rp_freshLinkRefs r) 0 (pairs_in_order ps) s = Some s'"
  by (simp add: linkPeersPairwise_def split: option.splits)

lemma natural_input_Some: "natural_input v = Some n \<Longrightarrow> \<exists>q. v = Some q"
  by (auto simp: natural_input_def split: option.splits operation_scalar.splits)

lemma task_artifact_ok:
  "applyTaskArtifact s r c = Inr (Inr s') \<longleftrightarrow>
    (bs_task r = None \<and> rp_inputContentRefs r = [] \<and> s' = s) \<or>
    (\<exists>t ct p. bs_task r = Some t \<and> \<not> map_has (sn_artifacts s) t \<and> arr_get (rp_inputContentRefs r) 0 = Some ct \<and>
      map_get (sn_participants s) c = Some p \<and>
      s' = withCapability (withArtifact s (workArtifact t ''Task'' ct (actorRef c (p_kind p)) (Some LActive)))
        (scopedCapability (opt_default (defaultWriteLockId t) (bs_cap r)) WriteLock c (ScopeArtifact t)))"
  by (auto simp: applyTaskArtifact_def Let_def split: option.splits if_splits)

lemma fork_branch_ok:
  "forkBranchHandler s r ctx = Inr (ApplyOk s' us ss) \<longleftrightarrow>
    (\<exists>c m. bs_from r = Some c \<and> applyTaskArtifact s r c = Inr (Inr m) \<and>
      pair_link_loop (rp_freshLinkRefs r) 0 (pairs_in_order (sessionParticipants r c)) m = Some s' \<and> ss = [] \<and>
      actorRefsFromSnapshot s [c] = Inr us)"
  by (auto simp: forkBranchHandler_def)

lemma fork_branch_operates:
  assumes "forkBranchHandler s r ctx = Inr (ApplyOk s' us ss)" and fr: "frozen s"
  shows "operates r s s'"
proof -
  from assms(1) obtain c m where m: "applyTaskArtifact s r c = Inr (Inr m)"
    and loop: "pair_link_loop (rp_freshLinkRefs r) 0 (pairs_in_order (sessionParticipants r c)) m = Some s'"
    unfolding fork_branch_ok by blast
  have om: "operates r s m" using m unfolding task_artifact_ok
  proof (elim disjE exE conjE)
    assume "m = s"
    then show ?thesis by (intro operatesI) (use fr in \<open>auto simp: operates_simps\<close>)
  next
    fix t ct and p :: participant
    assume t: "bs_task r = Some t" and new: "\<not> map_has (sn_artifacts s) t"
      and e: "m = withCapability (withArtifact s (workArtifact t ''Task'' ct (actorRef c (p_kind p)) (Some LActive)))
        (scopedCapability (opt_default (defaultWriteLockId t) (bs_cap r)) WriteLock c (ScopeArtifact t))"
    show ?thesis unfolding e by (rule operatesI)
      (use fr new role_may_write(1) [OF t] lock_may_write [OF t] in \<open>auto simp: operates_simps split: if_splits\<close>)
  qed
  then have fm: "frozen m" by (simp add: operates_def)
  from pair_link_loop_added [OF fm loop] obtain L where s': "frozen s'" "s' = m\<lparr>sn_links := L\<rparr>"
    "\<forall>k. k \<notin> set (rp_freshLinkRefs r) \<longrightarrow> map_get L k = map_get (sn_links m) k"
    "\<forall>k. map_has (sn_links m) k \<longrightarrow> map_has L k"
    by (auto simp: links_added_def)
  have wm: "entity_changed s m k i \<Longrightarrow> targetRef k i \<in> may_write r" for k i
    using om by (auto simp: operates_def writes_within_def)
  show ?thesis
  proof (rule operatesI)
    show "frozen s'" by (rule s')
    show "frame_kept s s'" "participants_evolve s s'" "artifacts_evolve s s'" "nothing_lost s s'" "own_records r s s'"
      using om s' by (auto simp: operates_parts)
    show "targetRef TArtifact i \<in> may_write r" if "map_get (sn_artifacts s') i \<noteq> map_get (sn_artifacts s) i" for i
      using wm [of TArtifact i] that s' by simp
    show "targetRef TParticipant i \<in> may_write r" if "map_get (sn_participants s') i \<noteq> map_get (sn_participants s) i" for i
      using wm [of TParticipant i] that s' by simp
    show "targetRef TSession i \<in> may_write r" if "map_get (sn_sessions s') i \<noteq> map_get (sn_sessions s) i" for i
      using wm [of TSession i] that s' by simp
    show "targetRef TCapability i \<in> may_write r" if "map_get (sn_capabilities s') i \<noteq> map_get (sn_capabilities s) i" for i
      using wm [of TCapability i] that s' by simp
    show "targetRef TLink i \<in> may_write r" if "map_get (sn_links s') i \<noteq> map_get (sn_links s) i" for i
      using wm [of TLink i] that s' fresh_may_write(3) [of i r] by (cases "i \<in> set (rp_freshLinkRefs r)") auto
  qed
qed

text \<open>The four operations that rebuild one participant.\<close>

lemma participant_operates:
  assumes fr: "frozen s" and s': "s' = withParticipant s (mk_participant a k st m n)"
    and old: "\<And>p. map_get (sn_participants s) a = Some p \<Longrightarrow> p_kind p = k \<and> validateTransition (p_status p) st"
    and mw: "targetRef TParticipant a \<in> may_write r"
  shows "operates r s s'"
proof -
  have e: "s' = s\<lparr>sn_participants := map_set a (mk_participant a k st m n) (sn_participants s)\<rparr>"
    using fr s' by (simp add: snapshot_updates mk_participant_def) (simp add: cloneParticipant_def)
  have f: "frozen s'" by (simp add: s')
  show ?thesis
    by (rule operatesI [OF f])
      (use old mw in \<open>auto simp: e operates_simps split: if_splits\<close>)
qed

lemma register_ok:
  "registerParticipantHandler s r ctx = Inr (ApplyOk s' us ss) \<longleftrightarrow>
    (\<exists>f a p. bs_from r = Some f \<and> bs_target r = Some a \<and> map_get (sn_participants s) f = Some p \<and> p_status p = Active \<and>
      \<not> map_has (sn_participants s) a \<and> ss = [] \<and>
      s' = withParticipant s (mk_participant a Agent Registered None None) \<and> actorRefsFromSnapshot s' [f, a] = Inr us)"
  by (auto simp: registerParticipantHandler_def Let_def split: option.splits if_splits)

lemma activate_ok:
  "activateParticipantHandler s r ctx = Inr (ApplyOk s' us ss) \<longleftrightarrow>
    (\<exists>f a p q. bs_from r = Some f \<and> bs_target r = Some a \<and> map_get (sn_participants s) f = Some p \<and> p_status p = Active \<and>
      map_get (sn_participants s) a = Some q \<and> validateTransition (p_status q) Active \<and>
      (p_kind q = Agent \<longleftrightarrow> arr_get (rp_inputContentRefs r) 0 \<noteq> None) \<and> ss = [] \<and>
      s' = withParticipant s (mk_participant a (p_kind q) Active (arr_get (rp_inputContentRefs r) 0) None) \<and>
      actorRefsFromSnapshot s' [f, a] = Inr us)"
  by (auto simp: activateParticipantHandler_def Let_def split: option.splits if_splits)

lemma signal_done_ok:
  "signalDoneHandler s r ctx = Inr (ApplyOk s' us ss) \<longleftrightarrow>
    (\<exists>f p. bs_from r = Some f \<and> map_get (sn_participants s) f = Some p \<and> validateTransition (p_status p) Done \<and> ss = [] \<and>
      s' = withParticipant s (mk_participant f (p_kind p) Done None None) \<and> actorRefsFromSnapshot s [f] = Inr us)"
  by (auto simp: signalDoneHandler_def Let_def split: option.splits if_splits)

lemma retire_ok:
  "retireParticipantHandler s r ctx = Inr (ApplyOk s' us ss) \<longleftrightarrow>
    (\<exists>f a p. bs_from r = Some f \<and> a = opt_default f (bs_target r) \<and> map_get (sn_participants s) a = Some p \<and>
      validateTransition (p_status p) Retired \<and> ss = [] \<and>
      s' = withParticipant s (mk_participant a (p_kind p) Retired None None) \<and> actorRefsFromSnapshot s [f, a] = Inr us)"
  by (auto simp: retireParticipantHandler_def Let_def split: option.splits if_splits)

lemma register_operates:
  "registerParticipantHandler s r ctx = Inr (ApplyOk s' us ss) \<Longrightarrow> frozen s \<Longrightarrow> operates r s s'"
  unfolding register_ok by (elim exE conjE) (rule participant_operates, auto simp: map_has_get role_may_write)

lemma activate_operates:
  "activateParticipantHandler s r ctx = Inr (ApplyOk s' us ss) \<Longrightarrow> frozen s \<Longrightarrow> operates r s s'"
  unfolding activate_ok by (elim exE conjE) (rule participant_operates, auto simp: role_may_write)

lemma signal_done_operates:
  "signalDoneHandler s r ctx = Inr (ApplyOk s' us ss) \<Longrightarrow> frozen s \<Longrightarrow> operates r s s'"
  unfolding signal_done_ok by (elim exE conjE) (rule participant_operates, auto simp: role_may_write)

lemma retire_operates:
  "retireParticipantHandler s r ctx = Inr (ApplyOk s' us ss) \<Longrightarrow> frozen s \<Longrightarrow> operates r s s'"
  unfolding retire_ok
  by (cases "bs_target r"; elim exE conjE) (rule participant_operates, auto simp: role_may_write opt_default_def)+

lemma heartbeat_ok:
  "emitHeartbeatHandler s r ctx = Inr (ApplyOk s' us ss) \<longleftrightarrow>
    (\<exists>f p t n act. bs_from r = Some f \<and> map_get (sn_participants s) f = Some p \<and> p_status p \<noteq> Retired \<and>
      rp_emittedAt r = Some t \<and> length (map_keys (rp_scalarInputs r)) = 2 \<and>
      natural_input (map_get (rp_scalarInputs r) ''turnCount'') = Some n \<and>
      map_get (rp_scalarInputs r) ''lastAction'' = Some (ScalarString act) \<and> act \<noteq> [] \<and> ss = [] \<and>
      s' = appendHeartbeat s \<lparr>hb_agentId = f, hb_sequenceNo = nextHeartbeatSeq (sn_heartbeatLog s) f,
        hb_emittedAt = t, hb_turnCount = n, hb_lastAction = act\<rparr> \<and> actorRefsFromSnapshot s [f] = Inr us)"
  by (auto simp: emitHeartbeatHandler_def Let_def map_has_get intro: natural_input_Some)

lemma heartbeat_operates:
  "emitHeartbeatHandler s r ctx = Inr (ApplyOk s' us ss) \<Longrightarrow> frozen s \<Longrightarrow> operates r s s'"
  unfolding heartbeat_ok by (elim exE conjE) (rule operatesI, auto simp: operates_simps)

lemma transcript_ok:
  "commitTranscriptHandler s r ctx = Inr (ApplyOk s' us ss) \<longleftrightarrow>
    (\<exists>f p js rows. bs_from r = Some f \<and> map_get (sn_participants s) f = Some p \<and> p_status p \<noteq> Retired \<and>
      map_get (rp_scalarInputs r) ''messagesJson'' = Some (ScalarString js) \<and> js \<noteq> [] \<and>
      JSON_parse js = Some (JArray rows) \<and> list_all isTranscriptMessage rows \<and> ss = [] \<and>
      s' = withTranscript s (participantTranscript f (map transcript_row rows)
        (Some (resolveNamespaceId (p_namespaceId p)))
        (Some (case natural_input (map_get (rp_scalarInputs r) ''revision'') of Some n \<Rightarrow> n
               | None \<Rightarrow> opt_default 0 (map_option pt_revision (map_get (sn_transcripts s) f)) + 1))) \<and>
      actorRefsFromSnapshot s [f] = Inr us)"
  by (auto simp: commitTranscriptHandler_def Let_def)

lemma transcript_operates:
  "commitTranscriptHandler s r ctx = Inr (ApplyOk s' us ss) \<Longrightarrow> frozen s \<Longrightarrow> operates r s s'"
  unfolding transcript_ok
  by (elim exE conjE) (rule operatesI, auto simp: operates_simps participantTranscript_def)

section \<open>Applying a recipe\<close>

lemma handler_register_values:
  "set (map_values (handler_register i h rv r)) \<subseteq> insert h (set (map_values r))"
proof -
  have *: "set (map_values (map_set k h q)) \<subseteq> insert h (set (map_values r))"
    if "set (map_values q) \<subseteq> insert h (set (map_values r))" for k q
    using map_set_values [of k h q] that by blast
  show ?thesis by (auto simp: handler_register_def Let_def split: option.splits dest!: *[THEN subsetD, rotated])
qed

lemma createDefaultHandlers_values:
  "set (map_values createDefaultHandlers) \<subseteq> set (map (snd \<circ> snd) DEFAULT_HANDLERS)"
proof -
  have "set (map_values (fold (\<lambda>(i, rv, h) r. handler_register i h (Some rv) r) hs r))
      \<subseteq> set (map (snd \<circ> snd) hs) \<union> set (map_values r)" for hs r
  proof (induction hs arbitrary: r)
    case (Cons x hs)
    obtain i rv h where x: "x = (i, rv, h)" by (cases x)
    from Cons.IH [of "handler_register i h (Some rv) r"] handler_register_values [of i h "Some rv" r]
    show ?case by (auto simp: x)
  qed simp
  from this [of DEFAULT_HANDLERS "[]"] show ?thesis by (simp add: createDefaultHandlers_def map_values_def)
qed

lemma handler_get_default:
  assumes "handler_get createDefaultHandlers i rv = Some h"
  shows "h \<in> set (map (snd \<circ> snd) DEFAULT_HANDLERS)"
proof -
  from assms obtain k where "map_get createDefaultHandlers k = Some h"
    by (auto simp: handler_get_def split: option.splits)
  then have "h \<in> set (map_values createDefaultHandlers)" by (force simp: map_values_def dest: map_get_mem)
  with createDefaultHandlers_values show ?thesis by blast
qed

lemma handler_operates:
  assumes h: "h \<in> set (map (snd \<circ> snd) DEFAULT_HANDLERS)"
    and ok: "h s r ctx = Inr (ApplyOk s' us ss)" and fr: "frozen s" and int: "integrity s"
  shows "operates r s s'"
  using h ok introduce_operates [OF _ fr] delegate_operates [OF _ fr int] create_session_operates [OF _ fr]
    fork_branch_operates [OF _ fr] publish_operates [OF _ fr int] transfer_session_operates [OF _ fr int]
    register_operates [OF _ fr] activate_operates [OF _ fr] signal_done_operates [OF _ fr]
    retire_operates [OF _ fr] heartbeat_operates [OF _ fr] transcript_operates [OF _ fr]
  by (auto simp: DEFAULT_HANDLERS_def)

lemma resolves_evolve: "participants_evolve s s' \<Longrightarrow> resolves s u \<Longrightarrow> resolves s' u"
  by (fastforce simp: participants_evolve_def resolves_def split: option.splits)

lemma handler_involved:
  assumes h: "h \<in> set (map (snd \<circ> snd) DEFAULT_HANDLERS)"
    and ok: "h s r ctx = Inr (ApplyOk s' us ss)"
  shows "\<exists>ids. actorRefsFromSnapshot s ids = Inr us \<or> actorRefsFromSnapshot s' ids = Inr us"
proof -
  have 1: "introduceArtifactHandler s r ctx = Inr (ApplyOk s' us ss) \<Longrightarrow> \<exists>ids. actorRefsFromSnapshot s ids = Inr us"
    unfolding introduce_ok by (elim exE conjE) (rule_tac x = "[f]" in exI, simp)
  have 2: "forkBranchHandler s r ctx = Inr (ApplyOk s' us ss) \<Longrightarrow> \<exists>ids. actorRefsFromSnapshot s ids = Inr us"
    unfolding fork_branch_ok by blast
  have 3: "heartbeat s r ctx = Inr (ApplyOk s' us ss) \<Longrightarrow> \<exists>ids. actorRefsFromSnapshot s ids = Inr us"
    if "heartbeat = emitHeartbeatHandler \<or> heartbeat = signalDoneHandler \<or> heartbeat = commitTranscriptHandler" for heartbeat
    using that unfolding heartbeat_ok signal_done_ok transcript_ok by (elim disjE) (simp_all only: heartbeat_ok signal_done_ok transcript_ok, blast+)
  show ?thesis
    using h ok 1 2 3
    by (auto simp only: DEFAULT_HANDLERS_def list.map comp_def snd_conv set_simps insert_iff empty_iff
        delegate_ok create_session_ok publish_ok transfer_session_ok register_ok activate_ok retire_ok)
qed

lemma applyRecipe_operates:
  assumes ok: "applyRecipe s r createDefaultHandlers ctx = Inr (ApplyOk s' us ss)" and "frozen s" and "integrity s"
  shows "operates r s s'" and "\<forall>u\<in>set us. resolves s' u"
proof -
  from ok obtain rv h where g: "handler_get createDefaultHandlers (rp_operationTypeId r) rv = Some h"
    and k: "h s r ctx = Inr (ApplyOk s' us ss)"
    by (auto simp: applyRecipe_def Let_def)
  note h = handler_get_default [OF g]
  show o: "operates r s s'" by (rule handler_operates [OF h k assms(2,3)])
  from handler_involved [OF h k] obtain ids where "actorRefsFromSnapshot s ids = Inr us \<or> actorRefsFromSnapshot s' ids = Inr us" ..
  then show "\<forall>u\<in>set us. resolves s' u"
    using o by (auto dest!: actorRefsFromSnapshot_Inr intro: resolves_evolve simp: operates_def)
qed

end
