(* ===== verification/Runtime_Fresh.thy ===== *)
theory Runtime_Fresh
  imports Runtime_Effects
begin

text \<open>
  The references allocated for a recipe (allocateFreshRefs.ts) are the ones its handler needs:
  on an allocated recipe the structural operations succeed exactly when the world allows them.
\<close>

section \<open>Counting\<close>

lemma take_ids_length [simp]: "length (fst (take_ids next n g)) = n"
  by (induction n arbitrary: g) (auto simp: split_beta)

definition fresh_recipe :: "'g id_generator \<Rightarrow> replay_recipe \<Rightarrow> 'g \<Rightarrow> replay_recipe" where
  "fresh_recipe gen r g = fst (allocateFreshRefsForRecipe gen r (rp_operationTypeId r) g)"

lemma fresh_recipe_fields [simp]:
  "rp_matchBindings (fresh_recipe gen r g) = rp_matchBindings r"
  "rp_inputContentRefs (fresh_recipe gen r g) = rp_inputContentRefs r"
  "rp_operationTypeId (fresh_recipe gen r g) = rp_operationTypeId r"
  "rp_scalarInputs (fresh_recipe gen r g) = rp_scalarInputs r"
  "rp_templateRef (fresh_recipe gen r g) = rp_templateRef r"
  "length (rp_freshLinkRefs (fresh_recipe gen r g)) = link_count r (rp_operationTypeId r)"
  using take_ids_length [of "ig_linkId gen" "link_count r (rp_operationTypeId r)" g]
  by (simp_all add: fresh_recipe_def allocateFreshRefsForRecipe_def split_beta)

lemma fresh_session:
  assumes "rp_operationTypeId r = ''delegate'' \<or> rp_operationTypeId r = ''create_session''"
  obtains i where "arr_get (rp_createdSessionRefs (fresh_recipe gen r g)) 0 = Some i"
  using that assms
  by (cases "rp_createdSessionRefs r")
     (auto simp: fresh_recipe_def allocateFreshRefsForRecipe_def split_beta arr_get_def)

lemma sessionParticipants_fresh [simp]: "sessionParticipants (fresh_recipe gen r g) c = sessionParticipants r c"
  by (simp add: sessionParticipants_def)

section \<open>The loops\<close>

lemma session_link_loop_defined:
  "session_link_loop c refs i ms s \<noteq> None \<longleftrightarrow>
    (filter (\<lambda>m. m \<noteq> c) ms = [] \<or> i + length (filter (\<lambda>m. m \<noteq> c) ms) \<le> length refs)"
proof (induction c refs i ms s rule: session_link_loop.induct)
  case (2 c refs i m ms s)
  then show ?case by (cases "m = c"; cases "i < length refs") (auto simp: arr_get_def)
qed simp

lemma pair_link_loop_defined:
  "pair_link_loop refs i ps s \<noteq> None \<longleftrightarrow> (ps = [] \<or> i + length ps \<le> length refs)"
proof (induction refs i ps s rule: pair_link_loop.induct)
  case (2 refs i left right ps s)
  then show ?case by (cases "i < length refs") (auto simp: arr_get_def)
qed simp

lemma length_pairs_in_order: "2 * length (pairs_in_order xs) = length xs * (length xs - 1)"
proof (induction xs)
  case (Cons x xs)
  then show ?case by (cases xs) (auto simp: algebra_simps)
qed simp

lemma filter_new_Set_le: "length (filter P (new_Set xs)) \<le> length (filter P xs)"
proof -
  have "length (filter P (new_Set xs)) = card (set (filter P (new_Set xs)))"
    by (rule distinct_card [symmetric]) simp
  also have "\<dots> = card (set (filter P xs))" by simp
  also have "\<dots> \<le> length (filter P xs)" by (rule card_length)
  finally show ?thesis .
qed

lemma create_session_links:
  assumes "rp_operationTypeId r = ''create_session''" and "bs_from r = Some c"
  shows "session_link_loop c (rp_freshLinkRefs (fresh_recipe gen r g)) 0 (sessionParticipants r c) s \<noteq> None"
proof -
  have "length (filter (\<lambda>m. m \<noteq> c) (sessionParticipants r c)) \<le>
      length (filter (\<lambda>m. m \<noteq> c) (c # participant_ids (rp_matchBindings r)))"
    unfolding sessionParticipants_def by (rule filter_new_Set_le)
  with assms show ?thesis
    by (simp only: session_link_loop_defined fresh_recipe_fields)
       (simp add: link_count_def countCreateSessionLinks_def)
qed

lemma fork_branch_links:
  assumes "rp_operationTypeId r = ''fork_branch''" and "bs_from r = Some c"
  shows "pair_link_loop (rp_freshLinkRefs (fresh_recipe gen r g)) 0 (pairs_in_order (sessionParticipants r c)) s \<noteq> None"
proof -
  let ?n = "length (sessionParticipants r c)"
  have "length (pairs_in_order (sessionParticipants r c)) = ?n * (?n - 1) div 2"
    using length_pairs_in_order [of "sessionParticipants r c"] by simp
  with assms show ?thesis
    by (simp only: pair_link_loop_defined fresh_recipe_fields)
       (auto simp: link_count_def countForkLinks_def sessionParticipants_def Let_def)
qed

section \<open>Success\<close>

lemma map_sum_Inr [simp]: "map_sum (\<lambda>e. e) f m = Inr y \<longleftrightarrow> (\<exists>x. m = Inr x \<and> y = f x)"
  by (cases m) auto

lemma actorRefsFromSnapshot_defined:
  "(\<exists>us. actorRefsFromSnapshot s ids = Inr us) \<longleftrightarrow> (\<forall>a\<in>set ids. registered s a)"
proof (induction ids)
  case (Cons a ids)
  have "(\<exists>us. actorRefsFromSnapshot s (a # ids) = Inr us) \<longleftrightarrow>
      registered s a \<and> (\<exists>us. actorRefsFromSnapshot s ids = Inr us)"
    by (auto simp: registered_def map_has_get)
  with Cons.IH show ?case by simp
qed simp

definition succeeds :: "runtime_violation + apply_result \<Rightarrow> bool" where
  "succeeds m \<longleftrightarrow> (case m of Inr (ApplyOk _ _ _) \<Rightarrow> True | _ \<Rightarrow> False)"

lemma succeeds_iff: "succeeds m \<longleftrightarrow> (\<exists>s us ss. m = Inr (ApplyOk s us ss))"
  by (auto simp: succeeds_def split: sum.splits apply_result.splits)

lemma create_session_succeeds:
  assumes "rp_operationTypeId r = ''create_session''"
  shows "succeeds (createSessionHandler s (fresh_recipe gen r g) ctx) \<longleftrightarrow>
    (\<exists>c i. bs_from r = Some c \<and> arr_get (rp_createdSessionRefs (fresh_recipe gen r g)) 0 = Some i \<and>
      \<not> map_has (sn_sessions s) i \<and> (\<forall>a\<in>set (c # participant_ids (rp_matchBindings r)). registered s a))"
proof -
  obtain i where i: "arr_get (rp_createdSessionRefs (fresh_recipe gen r g)) 0 = Some i"
    by (rule fresh_session [of r gen g]) (use assms in auto)
  have us: "(\<exists>us. actorRefsFromSnapshot s (sessionParticipants r c) = Inr us) \<longleftrightarrow>
      (\<forall>a\<in>set (c # participant_ids (rp_matchBindings r)). registered s a)" for c
    by (simp add: actorRefsFromSnapshot_defined sessionParticipants_def)
  have "succeeds (createSessionHandler s (fresh_recipe gen r g) ctx) \<longleftrightarrow>
    (\<exists>c. bs_from r = Some c \<and> \<not> map_has (sn_sessions s) i \<and>
      session_link_loop c (rp_freshLinkRefs (fresh_recipe gen r g)) 0 (sessionParticipants r c)
        (withSession s (communicationSession i c (sessionParticipants r c) None)) \<noteq> None \<and>
      (\<exists>us. actorRefsFromSnapshot s (sessionParticipants r c) = Inr us))"
    by (auto simp: succeeds_iff create_session_ok i)
  then show ?thesis unfolding us using create_session_links [OF assms, of _ gen g] by (fastforce simp: i)
qed

lemma fork_branch_succeeds:
  assumes "rp_operationTypeId r = ''fork_branch''"
  shows "succeeds (forkBranchHandler s (fresh_recipe gen r g) ctx) \<longleftrightarrow>
    (\<exists>c. bs_from r = Some c \<and> registered s c \<and>
      (case bs_task r of None \<Rightarrow> rp_inputContentRefs r = []
       | Some t \<Rightarrow> \<not> map_has (sn_artifacts s) t \<and> rp_inputContentRefs r \<noteq> []))"
proof -
  have "succeeds (forkBranchHandler s (fresh_recipe gen r g) ctx) \<longleftrightarrow>
    (\<exists>c m. bs_from r = Some c \<and> applyTaskArtifact s (fresh_recipe gen r g) c = Inr (Inr m) \<and>
      pair_link_loop (rp_freshLinkRefs (fresh_recipe gen r g)) 0 (pairs_in_order (sessionParticipants r c)) m \<noteq> None \<and>
      registered s c)"
    by (auto simp: succeeds_iff fork_branch_ok registered_def map_has_get)
  also have "\<dots> \<longleftrightarrow> (\<exists>c. bs_from r = Some c \<and> registered s c \<and>
      (\<exists>m. applyTaskArtifact s (fresh_recipe gen r g) c = Inr (Inr m)))"
    using fork_branch_links [OF assms, of _ gen g] by blast
  finally show ?thesis
    by (cases "bs_task r"; cases "rp_inputContentRefs r")
     (auto simp: task_artifact_ok map_has_get arr_get_def registered_def)
qed

lemma delegate_succeeds:
  assumes "rp_operationTypeId r = ''delegate''"
  shows "succeeds (delegateHandler s (fresh_recipe gen r g) ctx) \<longleftrightarrow>
    (\<exists>t f b k. bs_task r = Some t \<and> bs_from r = Some f \<and> bs_to r = Some b \<and> bs_cap r = Some k \<and>
      map_has (sn_artifacts s) t \<and> map_has (sn_capabilities s) k \<and> registered s f \<and> registered s b)"
proof -
  obtain i where i: "arr_get (rp_createdSessionRefs (fresh_recipe gen r g)) 0 = Some i"
    by (rule fresh_session [of r gen g]) (use assms in auto)
  show ?thesis by (auto simp: succeeds_iff delegate_ok i map_has_get registered_def)
qed

end
