(* ===== verification/Runtime_Locks.thy ===== *)
theory Runtime_Locks
  imports Runtime_Fresh
begin

text \<open>
  \<open>packages/runtime/src/memory/memoryLockTable.ts\<close>: leases on footprints. Every reading of the
  clock (\<open>Date.now()\<close>) is an argument of the operation that makes it; \<open>acquire\<close> reads the clock
  twice, once to drop expired leases and once to date the new one.
\<close>

section \<open>The table\<close>

type_synonym admitted_id = string
type_synonym millis = int

record lock_entry =
  le_admittedId :: admitted_id
  le_footprint :: footprint
  le_expiresAt :: "millis option"

type_synonym lock_table = "lock_entry list"

definition lock_expired :: "millis \<Rightarrow> lock_entry \<Rightarrow> bool" where
  "lock_expired now e = (case le_expiresAt e of Some t \<Rightarrow> t \<le> now | None \<Rightarrow> False)"

text \<open>The descending loop of \<open>releaseExpired\<close>: \<open>i\<close> is one more than the index looked at.\<close>

fun expire_loop :: "millis \<Rightarrow> nat \<Rightarrow> lock_table \<Rightarrow> lock_table" where
  "expire_loop now 0 locks = locks"
| "expire_loop now (Suc i) locks =
     expire_loop now i
       (case arr_get locks i of
          Some e \<Rightarrow> if lock_expired now e then take i locks @ drop (Suc i) locks else locks
        | None \<Rightarrow> locks)"

definition releaseExpired :: "millis \<Rightarrow> lock_table \<Rightarrow> lock_table" where
  "releaseExpired now locks = expire_loop now (length locks) locks"

fun conflict_loop :: "lock_table \<Rightarrow> footprint \<Rightarrow> bool" where
  "conflict_loop [] f = False"
| "conflict_loop (e # es) f = (if overlaps (le_footprint e) f then True else conflict_loop es f)"

definition acquire_lock ::
  "millis \<Rightarrow> millis \<Rightarrow> admitted_id \<Rightarrow> footprint \<Rightarrow> millis option \<Rightarrow> lock_table \<Rightarrow> bool \<times> lock_table" where
  "acquire_lock now now' i f lease locks =
     (let live = releaseExpired now locks
      in if conflict_loop live f then (False, live)
         else (True, live @ [\<lparr>le_admittedId = i, le_footprint = f, le_expiresAt = map_option (\<lambda>ms. now' + ms) lease\<rparr>]))"

fun remove_first :: "('a \<Rightarrow> bool) \<Rightarrow> 'a list \<Rightarrow> 'a list" where
  "remove_first p [] = []"
| "remove_first p (x # xs) = (if p x then xs else x # remove_first p xs)"

definition release_lock :: "admitted_id \<Rightarrow> lock_table \<Rightarrow> lock_table" where
  "release_lock i locks = remove_first (\<lambda>e. le_admittedId e = i) locks"

definition isHeld :: "millis \<Rightarrow> admitted_id \<Rightarrow> lock_table \<Rightarrow> bool \<times> lock_table" where
  "isHeld now i locks =
     (let live = releaseExpired now locks in (list_ex (\<lambda>e. le_admittedId e = i) live, live))"

definition heldLockCount :: "millis \<Rightarrow> lock_table \<Rightarrow> nat \<times> lock_table" where
  "heldLockCount now locks = (let live = releaseExpired now locks in (length live, live))"

section \<open>The contract of a lease table\<close>

text \<open>
  What the admission gateway relies on, whatever table is plugged in: the leases a table
  holds, seen as a list of an id, a footprint and a deadline.
\<close>

type_synonym 'i lease = "'i \<times> footprint \<times> millis option"

definition lease_live :: "millis \<Rightarrow> 'i lease \<Rightarrow> bool" where
  "lease_live now l \<longleftrightarrow> (case snd (snd l) of None \<Rightarrow> True | Some t \<Rightarrow> now < t)"

definition leases_exclusive :: "'i lease list \<Rightarrow> bool" where
  "leases_exclusive ls \<longleftrightarrow> sorted_wrt (\<lambda>a b. disjoint (fst (snd a)) (fst (snd b))) ls"

datatype 'i lease_command =
    Acquire millis millis 'i footprint "millis option"
  | Release 'i
  | Query millis

locale lease_table =
  fixes leases :: "'t \<Rightarrow> 'i lease list"
    and acquire :: "millis \<Rightarrow> millis \<Rightarrow> 'i \<Rightarrow> footprint \<Rightarrow> millis option \<Rightarrow> 't \<Rightarrow> bool \<times> 't"
    and release :: "'i \<Rightarrow> 't \<Rightarrow> 't"
    and expire :: "millis \<Rightarrow> 't \<Rightarrow> 't"
  assumes leases_expire: "leases (expire now t) = filter (lease_live now) (leases t)"
    and acquire_iff: "fst (acquire now now' i f d t) \<longleftrightarrow>
      list_all (\<lambda>l. disjoint (fst (snd l)) f) (leases (expire now t))"
    and acquire_granted: "fst (acquire now now' i f d t) \<Longrightarrow>
      leases (snd (acquire now now' i f d t)) = leases (expire now t) @ [(i, f, map_option ((+) now') d)]"
    and acquire_refused: "\<not> fst (acquire now now' i f d t) \<Longrightarrow>
      leases (snd (acquire now now' i f d t)) = leases (expire now t)"
    and leases_release: "leases (release i t) = remove_first (\<lambda>l. fst l = i) (leases t)"
begin

fun step :: "'i lease_command \<Rightarrow> 't \<Rightarrow> 't" where
  "step (Acquire now now' i f d) t = snd (acquire now now' i f d t)"
| "step (Release i) t = release i t"
| "step (Query now) t = expire now t"

lemma remove_first_subseq: "sorted_wrt R ls \<Longrightarrow> sorted_wrt R (remove_first p ls)"
proof (induction ls)
  case (Cons l ls)
  have "set (remove_first p ls) \<subseteq> set ls" by (induction ls) auto
  with Cons show ?case by auto
qed simp

lemma step_exclusive: "leases_exclusive (leases t) \<Longrightarrow> leases_exclusive (leases (step c t))"
proof (cases c)
  case (Acquire now now' i f d)
  assume ex: "leases_exclusive (leases t)"
  then have e: "leases_exclusive (leases (expire now t))"
    by (simp add: leases_exclusive_def leases_expire sorted_wrt_filter)
  show ?thesis
  proof (cases "fst (acquire now now' i f d t)")
    case True
    with e show ?thesis
      by (simp add: Acquire acquire_granted acquire_iff leases_exclusive_def sorted_wrt_append list_all_iff)
  next
    case False
    with e show ?thesis by (simp add: Acquire acquire_refused)
  qed
qed (simp_all add: leases_exclusive_def leases_release leases_expire remove_first_subseq sorted_wrt_filter)

lemma run_exclusive:
  assumes "leases t = []"
  shows "leases_exclusive (leases (fold step cs t))"
proof -
  have "leases_exclusive (leases u) \<Longrightarrow> leases_exclusive (leases (fold step cs u))" for u
    by (induction cs arbitrary: u) (simp_all add: step_exclusive)
  with assms show ?thesis by (simp add: leases_exclusive_def)
qed

text \<open>A lease is kept by everything but its own release and its expiry.\<close>

fun keeps :: "'i lease \<Rightarrow> 'i lease_command \<Rightarrow> bool" where
  "keeps l (Acquire now now' i f d) \<longleftrightarrow> lease_live now l"
| "keeps l (Release i) \<longleftrightarrow> i \<noteq> fst l"
| "keeps l (Query now) \<longleftrightarrow> lease_live now l"

lemma remove_first_keep: "l \<in> set ls \<Longrightarrow> \<not> p l \<Longrightarrow> l \<in> set (remove_first p ls)"
  by (induction ls) auto

lemma step_keeps: "l \<in> set (leases t) \<Longrightarrow> keeps l c \<Longrightarrow> l \<in> set (leases (step c t))"
proof (cases c)
  case (Acquire now now' i f d)
  assume "l \<in> set (leases t)" "keeps l c"
  then have "l \<in> set (leases (expire now t))" by (simp add: Acquire leases_expire)
  then show ?thesis
    by (cases "fst (acquire now now' i f d t)") (simp_all add: Acquire acquire_granted acquire_refused)
qed (auto simp: leases_release leases_expire intro: remove_first_keep)

lemma run_keeps: "l \<in> set (leases t) \<Longrightarrow> list_all (keeps l) cs \<Longrightarrow> l \<in> set (leases (fold step cs t))"
  by (induction cs arbitrary: t) (simp_all add: step_keeps)

text \<open>So a granted footprint stays refused to everybody else.\<close>

lemma granted_excludes:
  assumes "fst (acquire now now' i f d t)"
    and "list_all (keeps (i, f, map_option ((+) now') d)) cs"
    and "lease_live later (i, f, map_option ((+) now') d)" and "overlaps f g"
  shows "\<not> fst (acquire later later' j g d' (fold step cs (snd (acquire now now' i f d t))))"
proof -
  let ?l = "(i, f, map_option ((+) now') d)"
  have "?l \<in> set (leases (snd (acquire now now' i f d t)))" by (simp add: acquire_granted [OF assms(1)])
  from run_keeps [OF this assms(2)] assms(3)
  have "?l \<in> set (leases (expire later (fold step cs (snd (acquire now now' i f d t)))))"
    by (simp add: leases_expire)
  with assms(4) show ?thesis by (force simp: acquire_iff list_all_iff overlaps_def)
qed

end

section \<open>The table keeps the contract\<close>

lemma releaseExpired_filter: "releaseExpired now locks = filter (\<lambda>e. \<not> lock_expired now e) locks"
proof -
  have "expire_loop now i (a @ b) = filter (\<lambda>e. \<not> lock_expired now e) a @ b" if "length a = i" for i a b
    using that
  proof (induction i arbitrary: a b)
    case (Suc i)
    then obtain a' e where a: "a = a' @ [e]" "length a' = i" by (metis length_Suc_conv_rev)
    with Suc.IH [OF a(2), of "e # b"] Suc.IH [OF a(2), of b] show ?case by (simp add: arr_get_def nth_append)
  qed simp
  from this [of locks "length locks" "[]"] show ?thesis by (simp add: releaseExpired_def)
qed

lemma conflict_loop_iff: "conflict_loop es f \<longleftrightarrow> (\<exists>e\<in>set es. overlaps (le_footprint e) f)"
  by (induction es) auto

definition lock_lease :: "lock_entry \<Rightarrow> admitted_id lease" where
  "lock_lease e = (le_admittedId e, le_footprint e, le_expiresAt e)"

lemma lock_lease_live: "lease_live now (lock_lease e) \<longleftrightarrow> \<not> lock_expired now e"
  by (auto simp: lease_live_def lock_lease_def lock_expired_def split: option.splits)

interpretation locks: lease_table "map lock_lease" acquire_lock release_lock releaseExpired
proof
  fix now now' i f d t
  show "map lock_lease (releaseExpired now t) = filter (lease_live now) (map lock_lease t)"
    by (simp add: releaseExpired_filter filter_map comp_def lock_lease_live)
  show "fst (acquire_lock now now' i f d t) \<longleftrightarrow>
      list_all (\<lambda>l. disjoint (fst (snd l)) f) (map lock_lease (releaseExpired now t))"
    by (auto simp: acquire_lock_def Let_def conflict_loop_iff overlaps_def list_all_iff lock_lease_def)
  show "map lock_lease (snd (acquire_lock now now' i f d t)) =
      map lock_lease (releaseExpired now t) @ [(i, f, map_option ((+) now') d)]"
    if "fst (acquire_lock now now' i f d t)"
    using that by (simp add: acquire_lock_def Let_def lock_lease_def split: if_splits)
  show "map lock_lease (snd (acquire_lock now now' i f d t)) = map lock_lease (releaseExpired now t)"
    if "\<not> fst (acquire_lock now now' i f d t)"
    using that by (simp add: acquire_lock_def Let_def split: if_splits)
  show "map lock_lease (release_lock i t) = remove_first (\<lambda>l. fst l = i) (map lock_lease t)"
    unfolding release_lock_def by (induction t) (simp_all add: lock_lease_def)
qed

lemma isHeld_iff:
  "fst (isHeld now i t) \<longleftrightarrow> (\<exists>e\<in>set t. le_admittedId e = i \<and> \<not> lock_expired now e)"
  by (auto simp: isHeld_def Let_def releaseExpired_filter list_ex_iff)

lemma heldLockCount_eq: "fst (heldLockCount now t) = length (filter (\<lambda>e. \<not> lock_expired now e) t)"
  by (simp add: heldLockCount_def Let_def releaseExpired_filter)

end
