(* ===== verification/Runtime_Canonical.thy ===== *)
theory Runtime_Canonical
  imports Runtime_Locks "HOL-Library.Multiset"
begin

text \<open>
  \<open>packages/runtime/src/codec/canonicalSnapshot.ts\<close>: canonical equality of two worlds. Sorting
  uses \<open>localeCompare\<close>, a parameter; the texts of \<open>JSON.stringify\<close> that the code compares are
  written out for the frozen values it is applied to.
\<close>

section \<open>JSON texts\<close>

definition hex_digit :: "nat \<Rightarrow> char" where
  "hex_digit d = (if d < 10 then char_of (48 + d) else char_of (87 + d))"

text \<open>One character of a quoted string: the short escapes, the other control codes, itself.\<close>

definition short_escapes :: "(nat \<times> char) list" where
  "short_escapes =
     [(34, CHR 0x22), (92, CHR 0x5C), (8, CHR ''b''), (9, CHR ''t''), (10, CHR ''n''), (12, CHR ''f''), (13, CHR ''r'')]"

definition quote_char :: "char \<Rightarrow> string" where
  "quote_char c =
     (let n = of_char c :: nat
      in case map_of short_escapes n of
           Some e \<Rightarrow> [CHR 0x5C, e]
         | None \<Rightarrow>
             if n < 32 then [CHR 0x5C, CHR ''u'', CHR ''0'', CHR ''0'', hex_digit (n div 16), hex_digit (n mod 16)]
             else [c])"

definition json_quote :: "string \<Rightarrow> string" where
  "json_quote s = [CHR 0x22] @ concat (map quote_char s) @ [CHR 0x22]"

text \<open>An object with string properties, in the order of the clone.\<close>

definition json_property :: "string \<times> string \<Rightarrow> string" where
  "json_property kv = json_quote (fst kv) @ '':'' @ snd kv"

definition json_object :: "(string \<times> string) list \<Rightarrow> string" where
  "json_object kvs = ''{'' @ join '','' (map json_property kvs) @ ''}''"

fun scope_json :: "capability_scope \<Rightarrow> string" where
  "scope_json (ScopeArtifact a) =
     json_object [(''kind'', json_quote ''artifact''), (''artifactId'', json_quote a)]"
| "scope_json (ScopeTranscript a n) =
     json_object [(''kind'', json_quote ''transcript''), (''actorId'', json_quote a), (''namespaceId'', json_quote n)]"
| "scope_json (ScopeSession s) =
     json_object [(''kind'', json_quote ''session''), (''sessionId'', json_quote s)]"

fun endpoint_json :: "link_endpoint \<Rightarrow> string" where
  "endpoint_json (EndParticipant a) =
     json_object [(''kind'', json_quote ''participant''), (''actorId'', json_quote a)]"
| "endpoint_json (EndArtifact a) =
     json_object [(''kind'', json_quote ''artifact''), (''artifactId'', json_quote a)]"

fun approval_json :: "approval_state \<Rightarrow> string" where
  "approval_json ApprovalNone = json_object [(''kind'', json_quote ''none'')]"
| "approval_json (AwaitingReview rs) =
     json_object [(''kind'', json_quote ''awaiting_review''),
                  (''reviewers'', ''['' @ join '','' (map json_quote rs) @ '']'')]"
| "approval_json (Approved e) = json_object [(''kind'', json_quote ''approved''), (''evidenceRef'', json_quote e)]"
| "approval_json (Rejected e) = json_object [(''kind'', json_quote ''rejected''), (''evidenceRef'', json_quote e)]"

fun retry_json :: "retry_state \<Rightarrow> string" where
  "retry_json RetryIdle = json_object [(''kind'', json_quote ''idle'')]"
| "retry_json (AwaitingFeedback n) =
     json_object [(''kind'', json_quote ''awaiting_feedback''), (''attempt'', show_int n)]"
| "retry_json Exhausted = json_object [(''kind'', json_quote ''exhausted'')]"

section \<open>Canonical equality (canonicalSnapshot.ts)\<close>

definition sortedEntries :: "locale_compare \<Rightarrow> (string, 'v) jsmap \<Rightarrow> (string \<times> 'v) list" where
  "sortedEntries lc m = sort_by (\<lambda>l r. lc (fst l) (fst r)) m"

definition observationEqual :: "observation_entry \<Rightarrow> observation_entry \<Rightarrow> bool" where
  "observationEqual l r =
     (ob_sequenceNo l = ob_sequenceNo r \<and> ob_payloadRef l = ob_payloadRef r \<and>
      ob_receivedAt l = ob_receivedAt r \<and> ar_actorId (ob_source l) = ar_actorId (ob_source r) \<and>
      ar_kind (ob_source l) = ar_kind (ob_source r))"

text \<open>The index loops over two lists of the same length.\<close>

fun pairwise_loop :: "('a \<Rightarrow> 'a \<Rightarrow> bool) \<Rightarrow> 'a list \<Rightarrow> 'a list \<Rightarrow> bool" where
  "pairwise_loop eq (x # xs) (y # ys) = (if \<not> eq x y then False else pairwise_loop eq xs ys)"
| "pairwise_loop eq _ _ = True"

definition lists_equal :: "('a \<Rightarrow> 'a \<Rightarrow> bool) \<Rightarrow> 'a list \<Rightarrow> 'a list \<Rightarrow> bool" where
  "lists_equal eq xs ys = (if length xs \<noteq> length ys then False else pairwise_loop eq xs ys)"

definition auditTailsEqual :: "snapshot \<Rightarrow> snapshot \<Rightarrow> bool" where
  "auditTailsEqual l r = lists_equal observationEqual (sn_auditTail l) (sn_auditTail r)"

definition retiredEntitiesEqual :: "snapshot \<Rightarrow> snapshot \<Rightarrow> bool" where
  "retiredEntitiesEqual l r =
     lists_equal (\<lambda>a b. et_entityId a = et_entityId b \<and> et_entityKind a = et_entityKind b \<and>
         et_retiredAt a = et_retiredAt b \<and> et_reasonRef a = et_reasonRef b)
       (sn_retiredEntities l) (sn_retiredEntities r)"

definition heartbeatLogsEqual :: "snapshot \<Rightarrow> snapshot \<Rightarrow> bool" where
  "heartbeatLogsEqual l r =
     lists_equal (\<lambda>a b. hb_agentId a = hb_agentId b \<and> hb_sequenceNo a = hb_sequenceNo b \<and>
         hb_emittedAt a = hb_emittedAt b \<and> hb_turnCount a = hb_turnCount b \<and> hb_lastAction a = hb_lastAction b)
       (sn_heartbeatLog l) (sn_heartbeatLog r)"

definition participantsEqual :: "locale_compare \<Rightarrow> snapshot \<Rightarrow> snapshot \<Rightarrow> bool" where
  "participantsEqual lc l r =
     lists_equal (\<lambda>(i, p) (j, q). i = j \<and> p_actorId p = p_actorId q \<and> p_kind p = p_kind q \<and> p_status p = p_status q)
       (sortedEntries lc (sn_participants l)) (sortedEntries lc (sn_participants r))"

definition mapEntitiesEqual ::
  "locale_compare \<Rightarrow> ('v \<Rightarrow> 'v \<Rightarrow> bool) \<Rightarrow> (string, 'v) jsmap \<Rightarrow> (string, 'v) jsmap \<Rightarrow> bool" where
  "mapEntitiesEqual lc compare l r =
     lists_equal (\<lambda>(i, v) (j, w). i = j \<and> compare v w) (sortedEntries lc l) (sortedEntries lc r)"

definition compareArtifact :: "work_artifact \<Rightarrow> work_artifact \<Rightarrow> bool" where
  "compareArtifact l r =
     (wa_artifactId l = wa_artifactId r \<and> wa_kind l = wa_kind r \<and> wa_contentRef l = wa_contentRef r \<and>
      wa_lifecycle l = wa_lifecycle r \<and> ar_actorId (wa_owner l) = ar_actorId (wa_owner r) \<and>
      ar_kind (wa_owner l) = ar_kind (wa_owner r))"

definition compareCapability :: "scoped_capability \<Rightarrow> scoped_capability \<Rightarrow> bool" where
  "compareCapability l r =
     (sc_capabilityId l = sc_capabilityId r \<and> sc_kind l = sc_kind r \<and> sc_holder l = sc_holder r \<and>
      scope_json (sc_scope l) = scope_json (sc_scope r))"

definition compareSession :: "locale_compare \<Rightarrow> communication_session \<Rightarrow> communication_session \<Rightarrow> bool" where
  "compareSession lc l r =
     (se_sessionId l = se_sessionId r \<and> se_controller l = se_controller r \<and> se_visibility l = se_visibility r \<and>
      join '','' (sort_by lc (se_participants l)) = join '','' (sort_by lc (se_participants r)))"

definition compareLink :: "collaboration_link \<Rightarrow> collaboration_link \<Rightarrow> bool" where
  "compareLink l r =
     (ln_linkId l = ln_linkId r \<and> ln_kind l = ln_kind r \<and>
      endpoint_json (ln_from l) = endpoint_json (ln_from r) \<and> endpoint_json (ln_to l) = endpoint_json (ln_to r))"

definition policyContextsEqual :: "snapshot \<Rightarrow> snapshot \<Rightarrow> bool" where
  "policyContextsEqual l r =
     (approval_json (pc_approvalState (sn_policyContext l)) = approval_json (pc_approvalState (sn_policyContext r)) \<and>
      retry_json (pc_retryState (sn_policyContext l)) = retry_json (pc_retryState (sn_policyContext r)))"

definition snapshotsCanonicallyEqual :: "locale_compare \<Rightarrow> snapshot \<Rightarrow> snapshot \<Rightarrow> bool" where
  "snapshotsCanonicallyEqual lc l r =
     (if sn_epochId l \<noteq> sn_epochId r then False
      else if \<not> auditTailsEqual l r then False
      else if \<not> retiredEntitiesEqual l r then False
      else if \<not> participantsEqual lc l r then False
      else if \<not> mapEntitiesEqual lc compareArtifact (sn_artifacts l) (sn_artifacts r) then False
      else if \<not> mapEntitiesEqual lc compareCapability (sn_capabilities l) (sn_capabilities r) then False
      else if \<not> mapEntitiesEqual lc (compareSession lc) (sn_sessions l) (sn_sessions r) then False
      else if \<not> mapEntitiesEqual lc compareLink (sn_links l) (sn_links r) then False
      else if \<not> heartbeatLogsEqual l r then False
      else policyContextsEqual l r)"

section \<open>Quoting loses nothing\<close>

lemma hex_digit_inj:
  assumes "d < 16" and "e < 16" and "hex_digit d = hex_digit e"
  shows "d = e"
proof -
  have "of_char (hex_digit d) = (of_char (hex_digit e) :: nat)" by (simp add: assms(3))
  with assms(1,2) show ?thesis by (simp add: hex_digit_def split: if_splits)
qed

lemma short_escapes_inj:
  assumes "map_of short_escapes m = Some e" and "map_of short_escapes n = Some e"
  shows "m = n"
  using assms by (auto simp: short_escapes_def split: if_splits)

lemma short_escapes_char: "map_of short_escapes n = Some e \<Longrightarrow> e \<noteq> CHR ''u''"
  by (auto simp: short_escapes_def split: if_splits)

lemma quote_char_cases:
  obtains (short) e where "map_of short_escapes (of_char c) = Some e" "quote_char c = [CHR 0x5C, e]"
  | (code) "of_char c < (32 :: nat)" "quote_char c =
      [CHR 0x5C, CHR ''u'', CHR ''0'', CHR ''0'', hex_digit (of_char c div 16), hex_digit (of_char c mod 16)]"
  | (plain) "c \<noteq> CHR 0x5C" "c \<noteq> CHR 0x22" "quote_char c = [c]"
proof (cases "map_of short_escapes (of_char c)")
  case (Some e)
  then show ?thesis by (intro short) (simp_all add: quote_char_def Let_def)
next
  case None
  then have "c \<noteq> CHR 0x5C" "c \<noteq> CHR 0x22" by (auto simp: short_escapes_def)
  with None code plain show ?thesis by (cases "of_char c < (32 :: nat)") (simp_all add: quote_char_def Let_def)
qed

lemma code_digits:
  assumes "m < 32" "n < 32" "hex_digit (m div 16) = hex_digit (n div 16)" "hex_digit (m mod 16) = hex_digit (n mod 16)"
  shows "m = n"
proof -
  have "m div 16 = n div 16" by (rule hex_digit_inj) (use assms in auto)
  moreover have "m mod 16 = n mod 16" by (rule hex_digit_inj) (use assms in auto)
  ultimately show ?thesis by (metis div_mult_mod_eq)
qed

lemma quote_char_prefix:
  assumes "quote_char c @ s = quote_char d @ t"
  shows "c = d \<and> s = t"
  using assms
  by (cases c rule: quote_char_cases; cases d rule: quote_char_cases)
     (auto dest: short_escapes_inj short_escapes_char code_digits)

lemma quote_char_not_quote: "quote_char c @ s \<noteq> CHR 0x22 # t"
  by (cases c rule: quote_char_cases) auto

lemma json_quote_prefix:
  assumes "json_quote a @ s = json_quote b @ t"
  shows "a = b \<and> s = t"
proof -
  have "concat (map quote_char a) @ CHR 0x22 # s = concat (map quote_char b) @ CHR 0x22 # t"
    using assms by (simp add: json_quote_def)
  then show ?thesis
  proof (induction a arbitrary: b)
    case Nil
    then show ?case using quote_char_not_quote by (cases b) (auto dest: sym)
  next
    case (Cons c a)
    then obtain d b' where b: "b = d # b'" using quote_char_not_quote by (cases b) auto
    from Cons.prems have "quote_char c @ concat (map quote_char a) @ CHR 0x22 # s =
        quote_char d @ concat (map quote_char b') @ CHR 0x22 # t" by (simp add: b)
    from quote_char_prefix [OF this] Cons.IH [of b'] b show ?case by auto
  qed
qed

lemma json_quote_eq [simp]: "json_quote a = json_quote b \<longleftrightarrow> a = b"
  using json_quote_prefix [of a "[]" b "[]"] by auto

lemma json_quote_append_eq [simp]: "json_quote a @ s = json_quote b @ t \<longleftrightarrow> a = b \<and> s = t"
  using json_quote_prefix by blast

lemma scope_json_eq [simp]: "scope_json x = scope_json y \<longleftrightarrow> x = y"
  by (cases x; cases y) (auto simp: json_object_def json_property_def)

lemma endpoint_json_eq [simp]: "endpoint_json x = endpoint_json y \<longleftrightarrow> x = y"
  by (cases x; cases y) (auto simp: json_object_def json_property_def)

lemma json_quote_cons [simp]: "json_quote a \<noteq> CHR '']'' # s" "CHR '']'' # s \<noteq> json_quote a @ t"
  "json_quote a @ t \<noteq> CHR '']'' # s"
  by (simp_all add: json_quote_def)

lemma quote_list_eq:
  "join '','' (map json_quote xs) @ CHR '']'' # s = join '','' (map json_quote ys) @ CHR '']'' # t \<longleftrightarrow> xs = ys \<and> s = t"
proof (induction xs arbitrary: ys)
  case Nil
  then show ?case by (cases "('','', map json_quote ys)" rule: join.cases) auto
next
  case (Cons x xs)
  show ?case
  proof (cases ys)
    case Nil
    then show ?thesis by (cases xs) auto
  next
    case ys: (Cons y ys')
    show ?thesis using Cons.IH [of ys'] by (cases xs; cases ys') (auto simp: ys)
  qed
qed

lemma quote_list_inj [simp]: "join '','' (map json_quote xs) = join '','' (map json_quote ys) \<longleftrightarrow> xs = ys"
  using quote_list_eq [of xs "[]" ys "[]"] by auto

lemma show_int_inj: "show_int m = show_int n \<longleftrightarrow> m = n"
proof -
  have "show_digit d \<noteq> CHR ''-''" if "d < 10" for d
    using that by (auto simp: show_digit_def char_of_eq_iff take_bit_eq_mod)
  then have d: "CHR ''-'' \<notin> set (show_nat k)" for k
    using show_nat_digits [of "CHR ''-''" k] by metis
  have "show_nat k \<noteq> CHR ''-'' # show_nat j" for k j using d [of k] by (metis list.set_intros(1))
  then show ?thesis by (auto simp: show_int_def dest: show_nat_inj split: if_splits) (metis show_nat_inj)+
qed

lemma approval_json_eq [simp]: "approval_json x = approval_json y \<longleftrightarrow> x = y"
  by (cases x; cases y) (auto simp: json_object_def json_property_def quote_list_eq)

lemma retry_json_eq [simp]: "retry_json x = retry_json y \<longleftrightarrow> x = y"
  by (cases x; cases y) (auto simp: json_object_def json_property_def show_int_inj)

section \<open>Sorted entries\<close>

text \<open>What the ids of a world need of the collation: a total order that separates them.\<close>

definition collation :: "locale_compare \<Rightarrow> bool" where
  "collation lc \<longleftrightarrow> (\<forall>a b. lc a b \<le> 0 \<or> lc b a \<le> 0) \<and> (\<forall>a b. lc a b \<le> 0 \<and> lc b a \<le> 0 \<longrightarrow> a = b) \<and>
     (\<forall>a b c. lc a b \<le> 0 \<and> lc b c \<le> 0 \<longrightarrow> lc a c \<le> 0)"

lemma collation_total: "collation lc \<Longrightarrow> lc a b \<le> 0 \<or> lc b a \<le> 0"
  and collation_trans: "collation lc \<Longrightarrow> lc a b \<le> 0 \<Longrightarrow> lc b c \<le> 0 \<Longrightarrow> lc a c \<le> 0"
  and collation_antisym: "collation lc \<Longrightarrow> lc a b \<le> 0 \<Longrightarrow> lc b a \<le> 0 \<Longrightarrow> a = b"
  unfolding collation_def by blast+

lemma lists_equal_iff: "lists_equal eq xs ys \<longleftrightarrow> list_all2 eq xs ys"
proof -
  have "pairwise_loop eq xs ys \<longleftrightarrow> list_all2 eq xs ys" if "length xs = length ys"
    using that by (induction xs ys rule: list_induct2) auto
  then show ?thesis by (auto simp: lists_equal_def dest: list_all2_lengthD)
qed

lemma sort_by_sorted:
  assumes "\<And>a b. lc a b \<le> 0 \<or> lc b a \<le> (0 :: int)" and "\<And>a b c. lc a b \<le> 0 \<Longrightarrow> lc b c \<le> 0 \<Longrightarrow> lc a c \<le> 0"
  shows "sorted_wrt (\<lambda>a b. lc a b \<le> 0) (sort_by lc xs)"
proof -
  have ins: "sorted_wrt (\<lambda>a b. lc a b \<le> 0) ys \<Longrightarrow> sorted_wrt (\<lambda>a b. lc a b \<le> 0) (insert_by lc x ys)" for x ys
  proof (induction ys)
    case (Cons y ys)
    then show ?case using assms(1) [of x y] assms(2) [of x y] by auto
  qed simp
  show ?thesis unfolding sort_by_def by (induction xs) (simp_all add: ins)
qed

lemma mset_insert_by [simp]: "mset (insert_by lc x xs) = add_mset x (mset xs)"
  by (induction xs) auto

lemma mset_sort_by [simp]: "mset (sort_by lc xs) = mset xs"
  unfolding sort_by_def by (induction xs) auto

lemma sorted_wrt_unique:
  assumes "sorted_wrt R xs" "sorted_wrt R ys" "set xs = set ys" "distinct xs" "distinct ys"
    and anti: "\<And>a b. R a b \<Longrightarrow> R b a \<Longrightarrow> a = b"
  shows "xs = ys"
  using assms(1-5)
proof (induction xs arbitrary: ys)
  case (Cons x xs)
  then obtain y ys' where ys: "ys = y # ys'" by (cases ys) auto
  have "x = y"
  proof (rule ccontr)
    assume ne: "x \<noteq> y"
    then have "x \<in> set ys'" "y \<in> set xs" using Cons.prems(3) ys by auto
    then have "R y x" "R x y" using Cons.prems(1,2) ys by auto
    with anti ne show False by blast
  qed
  moreover have "set xs = set ys'" using Cons.prems(3-5) ys calculation by (auto simp: insert_eq_iff)
  ultimately show ?case using Cons ys by auto
qed simp

lemma sortedEntries_keys:
  assumes "collation lc" and "map_wf m"
  shows "sorted_wrt (\<lambda>a b. lc a b \<le> 0) (map fst (sortedEntries lc m))" and "distinct (map fst (sortedEntries lc m))"
    and "set (sortedEntries lc m) = set m" and "map_get m k = map_of (sortedEntries lc m) k"
proof -
  show d: "distinct (map fst (sortedEntries lc m))"
  proof -
    have "mset (map fst (sortedEntries lc m)) = mset (map fst m)" by (simp add: sortedEntries_def)
    with assms(2) show ?thesis unfolding map_wf_def by (metis mset_eq_imp_distinct_iff map_keys_def)
  qed
  show s: "set (sortedEntries lc m) = set m" by (simp add: sortedEntries_def)
  have "sorted_wrt (\<lambda>a b. lc (fst a) (fst b) \<le> 0) (sortedEntries lc m)"
    unfolding sortedEntries_def
    by (rule sort_by_sorted) (rule collation_total [OF assms(1)], rule collation_trans [OF assms(1)])
  then show "sorted_wrt (\<lambda>a b. lc a b \<le> 0) (map fst (sortedEntries lc m))" by (simp add: sorted_wrt_map)
  show "map_get m k = map_of (sortedEntries lc m) k"
    using map_of_inject_set [OF d, of m] s assms(2) by (simp add: map_get_def map_wf_def map_keys_def)
qed

lemma sortedEntries_equal:
  assumes lc: "collation lc" and l: "map_wf l" and r: "map_wf r"
  shows "list_all2 (\<lambda>(i, v) (j, w). i = j \<and> P v w) (sortedEntries lc l) (sortedEntries lc r) \<longleftrightarrow>
    (\<forall>k. rel_option P (map_get l k) (map_get r k))" (is "list_all2 ?R ?l ?r \<longleftrightarrow> _")
proof
  assume all: "list_all2 ?R ?l ?r"
  then have "rel_option P (map_of ?l k) (map_of ?r k)" for k
    by (induction rule: list_all2_induct) (auto split: if_splits)
  then show "\<forall>k. rel_option P (map_get l k) (map_get r k)"
    using sortedEntries_keys(4) [OF lc l] sortedEntries_keys(4) [OF lc r] by simp
next
  assume rel: "\<forall>k. rel_option P (map_get l k) (map_get r k)"
  have dom: "set (map fst ?l) = set (map fst ?r)"
  proof -
    have "k \<in> set (map fst ?l) \<longleftrightarrow> k \<in> set (map fst ?r)" for k
    proof -
      have "map_of ?l k = None \<longleftrightarrow> map_of ?r k = None"
        using rel [rule_format, of k] unfolding sortedEntries_keys(4) [OF lc l, of k] sortedEntries_keys(4) [OF lc r, of k]
        by (cases "map_of ?l k"; cases "map_of ?r k") simp_all
      then show ?thesis by (simp add: map_of_eq_None_iff)
    qed
    then show ?thesis by blast
  qed
  have keys: "map fst ?l = map fst ?r"
    by (rule sorted_wrt_unique [OF sortedEntries_keys(1) [OF lc l] sortedEntries_keys(1) [OF lc r] dom
          sortedEntries_keys(2) [OF lc l] sortedEntries_keys(2) [OF lc r]])
       (rule collation_antisym [OF lc])
  show "list_all2 ?R ?l ?r"
  proof (rule list_all2_all_nthI)
    show len: "length ?l = length ?r" using keys by (metis length_map)
    fix n assume n: "n < length ?l"
    obtain i v j w where iv: "?l ! n = (i, v)" and jw: "?r ! n = (j, w)" by (metis surj_pair)
    have "i = j" using keys n len iv jw by (metis fst_conv nth_map)
    moreover have "map_get l i = Some v"
      using n iv l sortedEntries_keys(3) [OF lc l] by (metis map_get_iff_mem nth_mem)
    moreover have "map_get r j = Some w"
      using n len jw r sortedEntries_keys(3) [OF lc r] by (metis map_get_iff_mem nth_mem)
    ultimately show "?R (?l ! n) (?r ! n)" using rel [rule_format, of i] iv jw by simp
  qed
qed

section \<open>What canonical equality compares\<close>

definition same_participant :: "participant \<Rightarrow> participant \<Rightarrow> bool" where
  "same_participant p q \<longleftrightarrow> p_actorId p = p_actorId q \<and> p_kind p = p_kind q \<and> p_status p = p_status q"

definition same_world :: "locale_compare \<Rightarrow> snapshot \<Rightarrow> snapshot \<Rightarrow> bool" where
  "same_world lc l r \<longleftrightarrow>
     sn_epochId l = sn_epochId r \<and> sn_auditTail l = sn_auditTail r \<and>
     sn_retiredEntities l = sn_retiredEntities r \<and> sn_heartbeatLog l = sn_heartbeatLog r \<and>
     sn_policyContext l = sn_policyContext r \<and>
     (\<forall>a. rel_option same_participant (map_get (sn_participants l) a) (map_get (sn_participants r) a)) \<and>
     (\<forall>i. map_get (sn_artifacts l) i = map_get (sn_artifacts r) i) \<and>
     (\<forall>i. map_get (sn_capabilities l) i = map_get (sn_capabilities r) i) \<and>
     (\<forall>i. rel_option (compareSession lc) (map_get (sn_sessions l) i) (map_get (sn_sessions r) i)) \<and>
     (\<forall>i. map_get (sn_links l) i = map_get (sn_links r) i)"

lemma compare_eq:
  "observationEqual = (=)" "compareArtifact = (=)" "compareCapability = (=)" "compareLink = (=)"
  by (auto simp: fun_eq_iff observationEqual_def compareArtifact_def compareCapability_def compareLink_def
      intro!: observation_entry.equality actor_ref.equality work_artifact.equality scoped_capability.equality
        collaboration_link.equality)

lemma mapEntitiesEqual_iff:
  "collation lc \<Longrightarrow> map_wf l \<Longrightarrow> map_wf r \<Longrightarrow>
    mapEntitiesEqual lc P l r \<longleftrightarrow> (\<forall>k. rel_option P (map_get l k) (map_get r k))"
  by (simp add: mapEntitiesEqual_def lists_equal_iff sortedEntries_equal)

lemma list_equalities:
  "auditTailsEqual l r \<longleftrightarrow> sn_auditTail l = sn_auditTail r"
  "retiredEntitiesEqual l r \<longleftrightarrow> sn_retiredEntities l = sn_retiredEntities r"
  "heartbeatLogsEqual l r \<longleftrightarrow> sn_heartbeatLog l = sn_heartbeatLog r"
  "policyContextsEqual l r \<longleftrightarrow> sn_policyContext l = sn_policyContext r"
proof -
  have t: "(et_entityId a = et_entityId b \<and> et_entityKind a = et_entityKind b \<and>
      et_retiredAt a = et_retiredAt b \<and> et_reasonRef a = et_reasonRef b) \<longleftrightarrow> a = b" for a b :: entity_tombstone
    by (auto intro: entity_tombstone.equality)
  have h: "(hb_agentId a = hb_agentId b \<and> hb_sequenceNo a = hb_sequenceNo b \<and> hb_emittedAt a = hb_emittedAt b \<and>
      hb_turnCount a = hb_turnCount b \<and> hb_lastAction a = hb_lastAction b) \<longleftrightarrow> a = b" for a b :: heartbeat_entry
    by (auto intro: heartbeat_entry.equality)
  show "auditTailsEqual l r \<longleftrightarrow> sn_auditTail l = sn_auditTail r"
    by (simp add: auditTailsEqual_def lists_equal_iff compare_eq list.rel_eq)
  show "retiredEntitiesEqual l r \<longleftrightarrow> sn_retiredEntities l = sn_retiredEntities r"
    by (simp add: retiredEntitiesEqual_def lists_equal_iff t list.rel_eq)
  show "heartbeatLogsEqual l r \<longleftrightarrow> sn_heartbeatLog l = sn_heartbeatLog r"
    by (simp add: heartbeatLogsEqual_def lists_equal_iff h list.rel_eq)
  show "policyContextsEqual l r \<longleftrightarrow> sn_policyContext l = sn_policyContext r"
    by (auto simp: policyContextsEqual_def intro: policy_context.equality)
qed

lemma snapshotsCanonicallyEqual_iff:
  assumes lc: "collation lc" and l: "frozen l" and r: "frozen r"
  shows "snapshotsCanonicallyEqual lc l r \<longleftrightarrow> same_world lc l r"
proof -
  note wf = frozen_map_wf [OF l] frozen_map_wf [OF r]
  have p: "participantsEqual lc l r \<longleftrightarrow>
      (\<forall>a. rel_option same_participant (map_get (sn_participants l) a) (map_get (sn_participants r) a))"
    using sortedEntries_equal [OF lc, of "sn_participants l" "sn_participants r" same_participant] wf
    by (simp add: participantsEqual_def lists_equal_iff same_participant_def [abs_def])
  show ?thesis
    unfolding snapshotsCanonicallyEqual_def same_world_def list_equalities p
    using wf by (auto simp: mapEntitiesEqual_iff [OF lc] compare_eq option.rel_eq)
qed

text \<open>Whatever the collation, a world equals itself.\<close>

lemma canonical_refl:
  assumes "sn_epochId l = sn_epochId r" "sn_auditTail l = sn_auditTail r" "sn_retiredEntities l = sn_retiredEntities r"
    "sn_participants l = sn_participants r" "sn_artifacts l = sn_artifacts r" "sn_capabilities l = sn_capabilities r"
    "sn_sessions l = sn_sessions r" "sn_links l = sn_links r" "sn_heartbeatLog l = sn_heartbeatLog r"
    "sn_policyContext l = sn_policyContext r"
  shows "snapshotsCanonicallyEqual lc l r"
proof -
  have r: "(\<And>x. P x x) \<Longrightarrow> lists_equal (\<lambda>(i, v) (j, w). i = j \<and> P v w) xs xs" for P and xs :: "(string \<times> 'v) list"
    by (auto simp: lists_equal_iff intro: list_all2_refl)
  have "participantsEqual lc l r"
    unfolding participantsEqual_def assms(4)
    using r [of "\<lambda>p q. p_actorId p = p_actorId q \<and> p_kind p = p_kind q \<and> p_status p = p_status q"] by simp
  moreover have "mapEntitiesEqual lc compareArtifact (sn_artifacts l) (sn_artifacts r)"
    "mapEntitiesEqual lc compareCapability (sn_capabilities l) (sn_capabilities r)"
    "mapEntitiesEqual lc compareLink (sn_links l) (sn_links r)"
    "mapEntitiesEqual lc (compareSession lc) (sn_sessions l) (sn_sessions r)"
    unfolding mapEntitiesEqual_def assms by (auto simp: compare_eq compareSession_def intro!: r)
  ultimately show ?thesis
    using assms by (simp add: snapshotsCanonicallyEqual_def list_equalities)
qed

end
