(* ===== verification/Runtime_Store.thy ===== *)
theory Runtime_Store
  imports Runtime_Canonical
begin

text \<open>
  \<open>packages/runtime/src/codec/observationBridge.ts\<close>, \<open>engine/epochTransitionSnapshot.ts\<close>,
  \<open>replay/recipeSidecar.ts\<close> and \<open>memory/{memoryStore,memoryChangeLog,memoryDurableCoordinator}.ts\<close>:
  the durable world of a runtime, that is the snapshots by ref with a head, the log of changes,
  the recipes by change, and the atomic commit over the three.
\<close>

section \<open>Unlogged head advances (observationBridge.ts)\<close>

text \<open>
  \<open>appendObservation\<close> numbers the entry it appends, so its order check never throws
  (\<open>appendObservation_total\<close>): the loop that replays audit entries is a fold.
\<close>

definition observed :: "observation_entry \<Rightarrow> snapshot \<Rightarrow> snapshot" where
  "observed e s = projr (appendObservation s (ob_source e) (ob_payloadRef e) (ob_receivedAt e))"

definition rebuild :: "snapshot \<Rightarrow> observation_entry list \<Rightarrow> snapshot" where
  "rebuild from entries = fold observed entries from"

definition isObservationOnlyAdvance :: "locale_compare \<Rightarrow> snapshot \<Rightarrow> snapshot \<Rightarrow> bool" where
  "isObservationOnlyAdvance lc from to =
     (if length (sn_auditTail to) \<le> length (sn_auditTail from) then False
      else let rebuilt = rebuild from (drop (length (sn_auditTail from)) (sn_auditTail to))
           in snapshotsCanonicallyEqual lc (withSnapshotRef rebuilt (sn_snapshotRef to)) to)"

definition isEpochOnlyAdvance :: "locale_compare \<Rightarrow> snapshot \<Rightarrow> snapshot \<Rightarrow> bool" where
  "isEpochOnlyAdvance lc from to =
     (if sn_snapshotRef from = sn_snapshotRef to \<or> sn_epochId from = sn_epochId to then False
      else snapshotsCanonicallyEqual lc from (to\<lparr>sn_epochId := sn_epochId from\<rparr>))"

definition isObservationAndEpochOnlyAdvance :: "locale_compare \<Rightarrow> snapshot \<Rightarrow> snapshot \<Rightarrow> bool" where
  "isObservationAndEpochOnlyAdvance lc from to =
     (if sn_snapshotRef from = sn_snapshotRef to \<or> sn_epochId from = sn_epochId to \<or>
         length (sn_auditTail to) \<le> length (sn_auditTail from)
      then False
      else let rebuilt = rebuild from (drop (length (sn_auditTail from)) (sn_auditTail to))
           in snapshotsCanonicallyEqual lc
                (rebuilt\<lparr>sn_snapshotRef := sn_snapshotRef to, sn_epochId := sn_epochId to\<rparr>) to)"

definition isVerifiableUnloggedAdvance :: "locale_compare \<Rightarrow> snapshot \<Rightarrow> snapshot \<Rightarrow> bool" where
  "isVerifiableUnloggedAdvance lc from to =
     (isObservationOnlyAdvance lc from to \<or> isEpochOnlyAdvance lc from to \<or>
      isObservationAndEpochOnlyAdvance lc from to)"

definition changeContinuesChain ::
  "locale_compare \<Rightarrow> coordination_change \<Rightarrow> coordination_change \<Rightarrow> (snapshot_ref \<Rightarrow> snapshot option) \<Rightarrow> bool" where
  "changeContinuesChain lc previous change resolve =
     (if cc_beforeRef change = cc_afterRef previous then True
      else case (resolve (cc_afterRef previous), resolve (cc_beforeRef change)) of
             (Some from, Some to) \<Rightarrow> isVerifiableUnloggedAdvance lc from to
           | _ \<Rightarrow> False)"

section \<open>Epoch transitions (epochTransitionSnapshot.ts)\<close>

text \<open>\<open>collaborationSnapshot(s)\<close> of a snapshot: every field of the initializer is given.\<close>

definition restored :: "snapshot \<Rightarrow> snapshot" where
  "restored s =
     collaborationSnapshot
       \<lparr>si_snapshotRef = sn_snapshotRef s, si_epochId = sn_epochId s, si_participants = Some (sn_participants s),
        si_artifacts = Some (sn_artifacts s), si_links = Some (sn_links s), si_sessions = Some (sn_sessions s),
        si_capabilities = Some (sn_capabilities s), si_policyContext = Some (sn_policyContext s),
        si_auditTail = Some (sn_auditTail s), si_retiredEntities = Some (sn_retiredEntities s),
        si_heartbeatLog = Some (sn_heartbeatLog s), si_namespaces = Some (sn_namespaces s),
        si_transcripts = Some (sn_transcripts s),
        si_transcriptAccessRequests = Some (sn_transcriptAccessRequests s)\<rparr>"

definition snapshotWithAdvancedEpoch :: "snapshot \<Rightarrow> snapshot_ref \<Rightarrow> epoch_id \<Rightarrow> snapshot" where
  "snapshotWithAdvancedEpoch before afterRef target =
     restored (before\<lparr>sn_snapshotRef := afterRef, sn_epochId := target\<rparr>)"

definition snapshotsEqualExceptEpochAndRef :: "locale_compare \<Rightarrow> snapshot \<Rightarrow> snapshot \<Rightarrow> bool" where
  "snapshotsEqualExceptEpochAndRef lc l r = isEpochOnlyAdvance lc l r"

section \<open>Snapshots (memoryStore.ts)\<close>

record memory_store =
  ms_snapshots :: "(snapshot_ref, snapshot) jsmap"
  ms_headRef :: "snapshot_ref option"

definition newMemoryStore :: "snapshot option \<Rightarrow> memory_store" where
  "newMemoryStore initial =
     (case initial of
        None \<Rightarrow> \<lparr>ms_snapshots = [], ms_headRef = None\<rparr>
      | Some s \<Rightarrow> (let stored = restored s
                   in \<lparr>ms_snapshots = map_set (sn_snapshotRef stored) stored [],
                       ms_headRef = Some (sn_snapshotRef stored)\<rparr>))"

definition store_get :: "memory_store \<Rightarrow> snapshot_ref \<Rightarrow> snapshot option" where
  "store_get m r = map_option restored (map_get (ms_snapshots m) r)"

definition store_put :: "snapshot \<Rightarrow> memory_store \<Rightarrow> bool \<times> memory_store" where
  "store_put s m =
     (let stored = restored s
      in (True, m\<lparr>ms_snapshots := map_set (sn_snapshotRef stored) stored (ms_snapshots m),
                  ms_headRef := Some (sn_snapshotRef stored)\<rparr>))"

definition putIfAbsent :: "snapshot \<Rightarrow> memory_store \<Rightarrow> bool \<times> memory_store" where
  "putIfAbsent s m =
     (if map_has (ms_snapshots m) (sn_snapshotRef s) then (False, m)
      else (True, m\<lparr>ms_snapshots := map_set (sn_snapshotRef s) (restored s) (ms_snapshots m)\<rparr>))"

definition setHead :: "snapshot_ref \<Rightarrow> memory_store \<Rightarrow> memory_store" where
  "setHead r m = m\<lparr>ms_headRef := Some r\<rparr>"

definition store_remove :: "snapshot_ref \<Rightarrow> memory_store \<Rightarrow> memory_store" where
  "store_remove r m =
     (let m1 = m\<lparr>ms_snapshots := map_delete r (ms_snapshots m)\<rparr>
      in if ms_headRef m1 = Some r then m1\<lparr>ms_headRef := None\<rparr> else m1)"

definition store_cas :: "snapshot_ref \<Rightarrow> snapshot \<Rightarrow> memory_store \<Rightarrow> bool \<times> memory_store" where
  "store_cas expected s m =
     (if ms_headRef m \<noteq> Some expected then (False, m)
      else let stored = restored s
           in (True, m\<lparr>ms_snapshots := map_set (sn_snapshotRef stored) stored (ms_snapshots m),
                       ms_headRef := Some (sn_snapshotRef stored)\<rparr>))"

definition allSnapshots :: "memory_store \<Rightarrow> snapshot list" where
  "allSnapshots m = map restored (map_values (ms_snapshots m))"

definition allRefs :: "memory_store \<Rightarrow> snapshot_ref list" where
  "allRefs m = map_keys (ms_snapshots m)"

section \<open>The log (memoryChangeLog.ts)\<close>

type_synonym change_log = "coordination_change list"

definition log_append :: "coordination_change \<Rightarrow> change_log \<Rightarrow> bool \<times> change_log" where
  "log_append c cs =
     (if list_ex (\<lambda>e. cc_changeId e = cc_changeId c) cs then (False, cs)
      else (True, cs @ [snapshotCoordinationChange c]))"

definition log_get :: "change_id \<Rightarrow> change_log \<Rightarrow> coordination_change option" where
  "log_get i cs = map_option snapshotCoordinationChange (List.find (\<lambda>c. cc_changeId c = i) cs)"

definition log_all :: "change_log \<Rightarrow> change_log" where
  "log_all cs = map snapshotCoordinationChange cs"

text \<open>The \<open>while (true)\<close> loop: \<open>None\<close> is a loop that does not return.\<close>

partial_function (option) chain_from_loop ::
  "change_log \<Rightarrow> snapshot_ref \<Rightarrow> change_log \<Rightarrow> change_log option" where
  "chain_from_loop cs cursor chain =
     (case List.find (\<lambda>c. cc_beforeRef c = cursor) cs of
        None \<Rightarrow> Some chain
      | Some next \<Rightarrow> chain_from_loop cs (cc_afterRef next) (chain @ [next]))"

definition buildChainFrom :: "change_log \<Rightarrow> snapshot_ref \<Rightarrow> change_log option" where
  "buildChainFrom cs from =
     (case List.find (\<lambda>c. cc_beforeRef c = from) cs of
        None \<Rightarrow> Some []
      | Some first \<Rightarrow> chain_from_loop cs (cc_afterRef first) [first])"

text \<open>\<open>filter\<close> with a callback that may not return.\<close>

fun filter_m :: "('a \<Rightarrow> bool option) \<Rightarrow> 'a list \<Rightarrow> 'a list option" where
  "filter_m f [] = Some []"
| "filter_m f (x # xs) =
     (case f x of
        None \<Rightarrow> None
      | Some b \<Rightarrow> map_option (\<lambda>ys. if b then x # ys else ys) (filter_m f xs))"

definition log_since :: "snapshot_ref \<Rightarrow> change_log \<Rightarrow> change_log option" where
  "log_since before cs =
     (case find_index (\<lambda>c. cc_beforeRef c = before) cs of
        None \<Rightarrow>
          map_option (map snapshotCoordinationChange)
            (filter_m (\<lambda>change. map_option (list_ex (\<lambda>c. cc_changeId c = cc_changeId change))
                (buildChainFrom cs before)) cs)
      | Some start \<Rightarrow> Some (map snapshotCoordinationChange (drop start cs)))"

section \<open>Recipes (recipeSidecar.ts)\<close>

type_synonym recipe_sidecar = "(change_id, replay_recipe) jsmap"

definition sidecar_put :: "change_id \<Rightarrow> replay_recipe \<Rightarrow> recipe_sidecar \<Rightarrow> recipe_sidecar" where
  "sidecar_put i r m = map_set i (snapshotReplayRecipe r) m"

definition sidecar_get :: "change_id \<Rightarrow> recipe_sidecar \<Rightarrow> replay_recipe option" where
  "sidecar_get i m = map_option snapshotReplayRecipe (map_get m i)"

definition recipeForChange :: "coordination_change \<Rightarrow> recipe_sidecar \<Rightarrow> replay_recipe" where
  "recipeForChange c m = snapshotReplayRecipe (opt_default (replayRecipeFromChange c) (map_get m (cc_changeId c)))"

section \<open>The coordinator (memoryDurableCoordinator.ts)\<close>

record memory_durable =
  md_store :: memory_store
  md_changelog :: change_log
  md_sidecar :: recipe_sidecar
  md_activeBinding :: "schema_epoch_binding option"

record durable_commit_input =
  dc_expectedHead :: snapshot_ref
  dc_after :: snapshot
  dc_change :: coordination_change
  dc_recipe :: replay_recipe

definition createMemoryRuntimePersistence ::
  "snapshot option \<Rightarrow> schema_epoch_binding option \<Rightarrow> memory_durable" where
  "createMemoryRuntimePersistence initial binding =
     \<lparr>md_store = newMemoryStore initial, md_changelog = [], md_sidecar = [],
      md_activeBinding = map_option snapshotSchemaEpochBinding binding\<rparr>"

definition durable_get :: "memory_durable \<Rightarrow> snapshot_ref \<Rightarrow> snapshot option" where
  "durable_get d r = store_get (md_store d) r"

definition durable_head :: "memory_durable \<Rightarrow> snapshot_ref option" where
  "durable_head d = ms_headRef (md_store d)"

definition durable_cas :: "snapshot_ref \<Rightarrow> snapshot \<Rightarrow> memory_durable \<Rightarrow> bool \<times> memory_durable" where
  "durable_cas expected s d =
     (case store_cas expected s (md_store d) of (ok, m) \<Rightarrow> (ok, d\<lparr>md_store := m\<rparr>))"

definition compareAndSwapHeadWithBinding ::
  "snapshot_ref \<Rightarrow> snapshot \<Rightarrow> schema_epoch_binding \<Rightarrow> memory_durable \<Rightarrow> bool \<times> memory_durable" where
  "compareAndSwapHeadWithBinding expected s binding d =
     (case store_cas expected s (md_store d) of
        (False, m) \<Rightarrow> (False, d\<lparr>md_store := m\<rparr>)
      | (True, m) \<Rightarrow> (True, d\<lparr>md_store := m, md_activeBinding := Some (snapshotSchemaEpochBinding binding)\<rparr>))"

text \<open>The reason of a refusal, or \<open>None\<close> for \<open>{ ok: true }\<close>.\<close>

definition durable_commit ::
  "locale_compare \<Rightarrow> durable_commit_input \<Rightarrow> memory_durable \<Rightarrow> string option \<times> memory_durable" where
  "durable_commit lc inp d =
     (if durable_head d \<noteq> Some (dc_expectedHead inp) then (Some ''head_mismatch'', d)
      else if list_ex (\<lambda>c. cc_changeId c = cc_changeId (dc_change inp)) (log_all (md_changelog d))
      then (Some ''duplicate_change_id'', d)
      else let previous = arr_last (log_all (md_changelog d))
           in if (case previous of
                    Some l \<Rightarrow> \<not> changeContinuesChain lc l (dc_change inp) (durable_get d)
                  | None \<Rightarrow> cc_beforeRef (dc_change inp) \<noteq> dc_expectedHead inp)
              then (Some ''chain_broken'', d)
              else case putIfAbsent (dc_after inp) (md_store d) of
                     (False, m) \<Rightarrow> (Some ''after_ref_collision'', d\<lparr>md_store := m\<rparr>)
                   | (True, m) \<Rightarrow>
                       (case log_append (dc_change inp) (md_changelog d) of
                          (False, cs) \<Rightarrow>
                            (Some ''changelog_append_failed'',
                             d\<lparr>md_store := store_remove (sn_snapshotRef (dc_after inp)) m, md_changelog := cs\<rparr>)
                        | (True, cs) \<Rightarrow>
                            (None,
                             d\<lparr>md_store := setHead (sn_snapshotRef (dc_after inp)) m, md_changelog := cs,
                               md_sidecar := sidecar_put (cc_changeId (dc_change inp)) (dc_recipe inp) (md_sidecar d)\<rparr>)))"

definition durable_changes :: "memory_durable \<Rightarrow> change_log" where
  "durable_changes d = log_all (md_changelog d)"

text \<open>\<open>all.findIndex((change, index) => ...)\<close> from the start index on.\<close>

definition durable_since :: "locale_compare \<Rightarrow> snapshot_ref \<Rightarrow> memory_durable \<Rightarrow> change_log option" where
  "durable_since lc fromRef d =
     (case log_since fromRef (md_changelog d) of
        None \<Rightarrow> None
      | Some direct \<Rightarrow>
          (if length direct > 0 then Some direct
           else case durable_get d fromRef of
                  None \<Rightarrow> Some []
                | Some from \<Rightarrow>
                    (let all = log_all (md_changelog d);
                         startAt = (case find_index (\<lambda>c. cc_afterRef c = fromRef) all of
                                      Some anchor \<Rightarrow> anchor + 1 | None \<Rightarrow> 0)
                     in case find_index (\<lambda>(index, c). \<not> index < startAt \<and>
                               (case durable_get d (cc_beforeRef c) of
                                  Some before \<Rightarrow> isVerifiableUnloggedAdvance lc from before
                                | None \<Rightarrow> False)) (enumerate 0 all) of
                          Some bridged \<Rightarrow> Some (drop bridged all)
                        | None \<Rightarrow> Some [])))"

definition durable_recipeForChange :: "coordination_change \<Rightarrow> memory_durable \<Rightarrow> replay_recipe" where
  "durable_recipeForChange c d = recipeForChange c (md_sidecar d)"

end
