(* ===== verification/Runtime_Durable.thy ===== *)
theory Runtime_Durable
  imports Runtime_Store
begin

text \<open>
  What the durable coordinator promises: refs resolve to frozen snapshots, a commit is all or
  nothing, a reading of the log always returns, unlogged head advances are recognised.
\<close>

section \<open>Snapshots and observations\<close>

lemma restored_freeze: "restored s = freezeSnapshot s"
  by (cases s) (simp add: restored_def collaborationSnapshot_def opt_default_def)

lemma restored_id: "frozen s \<Longrightarrow> restored s = s"
  by (simp add: restored_freeze freezeSnapshot_id)

lemma restored_frozen [simp]: "frozen (restored s)"
  by (simp add: restored_freeze)

lemma restored_ref [simp]: "sn_snapshotRef (restored s) = sn_snapshotRef s" "sn_epochId (restored s) = sn_epochId s"
  by (simp_all add: restored_freeze freezeSnapshot_def)

lemma appendObservation_total: "\<exists>s'. appendObservation s src payload t = Inr s'"
  by (simp add: appendObservation_def Let_def appendToObservationStream_def assertAppendOnlyOrder_def)

definition numbered :: "observation_entry list \<Rightarrow> observation_entry \<Rightarrow> observation_entry" where
  "numbered tail e = e\<lparr>ob_sequenceNo := nextSequenceNo tail\<rparr>"

lemma observed_frozen: "frozen s \<Longrightarrow> observed e s = s\<lparr>sn_auditTail := sn_auditTail s @ [numbered (sn_auditTail s) e]\<rparr>"
  by (cases e) (simp add: observed_def appendObservation_frozen numbered_def)

fun renumbered :: "observation_entry list \<Rightarrow> observation_entry list \<Rightarrow> observation_entry list" where
  "renumbered tail [] = tail"
| "renumbered tail (e # es) = renumbered (tail @ [numbered tail e]) es"

lemma rebuild_frozen:
  "frozen s \<Longrightarrow> rebuild s es = s\<lparr>sn_auditTail := renumbered (sn_auditTail s) es\<rparr>"
proof (induction es arbitrary: s)
  case (Cons e es)
  have "frozen (observed e s)" using Cons.prems by (simp add: observed_frozen frozen_fields)
  from Cons.IH [OF this] Cons.prems show ?case by (simp add: rebuild_def observed_frozen)
qed (simp add: rebuild_def)

section \<open>Reading the log\<close>

lemma snapshotCoordinationChange_map [simp]: "map snapshotCoordinationChange cs = cs"
  by (induction cs) simp_all

lemma log_all_eq [simp]: "log_all cs = cs"
  by (simp add: log_all_def)

lemma filter_m_Some: "(\<And>x. x \<in> set xs \<Longrightarrow> f x = Some (p x)) \<Longrightarrow> filter_m f xs = Some (filter p xs)"
  by (induction xs) auto

text \<open>\<open>since\<close> calls the chain loop only where it does not iterate: it always returns.\<close>

lemma log_since_eq:
  "log_since before cs = Some (case find_index (\<lambda>c. cc_beforeRef c = before) cs of None \<Rightarrow> [] | Some i \<Rightarrow> drop i cs)"
proof (cases "find_index (\<lambda>c. cc_beforeRef c = before) cs")
  case None
  then have "List.find (\<lambda>c. cc_beforeRef c = before) cs = None" by (simp add: find_index_None find_None_iff)
  then have "buildChainFrom cs before = Some []" by (simp add: buildChainFrom_def)
  then have "filter_m (\<lambda>change. map_option (list_ex (\<lambda>c. cc_changeId c = cc_changeId change)) (buildChainFrom cs before)) cs
      = Some (filter (\<lambda>_. False) cs)" by (intro filter_m_Some) simp
  with None show ?thesis by (simp add: log_since_def)
qed (simp add: log_since_def)

lemma durable_since_returns: "\<exists>cs. durable_since lc r d = Some cs"
  by (auto simp: durable_since_def log_since_eq Let_def split: option.splits)

text \<open>On a log whose refs are linked in order and used once, the chain loop returns the suffix.\<close>

definition ref_path :: "change_log \<Rightarrow> bool" where
  "ref_path cs \<longleftrightarrow> chained cs \<and> distinct (map cc_beforeRef cs) \<and> (cs \<noteq> [] \<longrightarrow> cc_afterRef (last cs) \<notin> set (map cc_beforeRef cs))"

lemma find_unique:
  assumes "distinct (map f xs)" and "i < length xs"
  shows "List.find (\<lambda>c. f c = f (xs ! i)) xs = Some (xs ! i)"
proof -
  have "List.find (\<lambda>c. f c = f (xs ! i)) xs \<noteq> None"
    unfolding find_None_iff using nth_mem [OF assms(2)] by blast
  then obtain y where y: "List.find (\<lambda>c. f c = f (xs ! i)) xs = Some y" by blast
  then have "y \<in> set xs" "f y = f (xs ! i)" by (auto dest: find_Some_mem)
  moreover have "inj_on f (set xs)" using assms(1) by (simp add: distinct_map)
  ultimately have "y = xs ! i" using assms(2) by (auto dest: inj_onD)
  with y show ?thesis by simp
qed

lemma chain_from_loop_suffix:
  assumes p: "ref_path cs" and "i < length cs"
  shows "chain_from_loop cs (cc_afterRef (cs ! i)) chain = Some (chain @ drop (Suc i) cs)"
  using assms(2)
proof (induction "length cs - i" arbitrary: i chain rule: less_induct)
  case less
  show ?case
  proof (cases "Suc i < length cs")
    case True
    then have link: "cc_beforeRef (cs ! Suc i) = cc_afterRef (cs ! i)"
      using p by (auto simp: ref_path_def chained_def successively_conv_nth)
    have "List.find (\<lambda>c. cc_beforeRef c = cc_afterRef (cs ! i)) cs = Some (cs ! Suc i)"
      using find_unique [of cc_beforeRef cs "Suc i"] p True link by (simp add: ref_path_def)
    then have "chain_from_loop cs (cc_afterRef (cs ! i)) chain =
        chain_from_loop cs (cc_afterRef (cs ! Suc i)) (chain @ [cs ! Suc i])"
      by (subst chain_from_loop.simps) simp
    also have "\<dots> = Some (chain @ drop (Suc i) cs)"
      using less.hyps [of "Suc i" "chain @ [cs ! Suc i]"] True less.prems by (simp add: Cons_nth_drop_Suc [symmetric])
    finally show ?thesis .
  next
    case False
    with less.prems have l: "length cs = Suc i" by simp
    then have "cs \<noteq> []" by auto
    with l have i: "cs ! i = last cs" "cs \<noteq> []" "drop (Suc i) cs = []"
      by (simp_all add: last_conv_nth)
    then have "List.find (\<lambda>c. cc_beforeRef c = cc_afterRef (cs ! i)) cs = None"
      using p by (auto simp: ref_path_def find_None_iff) (metis imageI)
    with i show ?thesis by (subst chain_from_loop.simps) simp
  qed
qed

lemma buildChainFrom_suffix:
  assumes "ref_path cs" and "i < length cs"
  shows "buildChainFrom cs (cc_beforeRef (cs ! i)) = Some (drop i cs)"
proof -
  have "List.find (\<lambda>c. cc_beforeRef c = cc_beforeRef (cs ! i)) cs = Some (cs ! i)"
    by (rule find_unique) (use assms in \<open>simp_all add: ref_path_def\<close>)
  with chain_from_loop_suffix [OF assms] assms(2) show ?thesis
    by (simp add: buildChainFrom_def Cons_nth_drop_Suc)
qed

section \<open>Unlogged advances\<close>

text \<open>An ingested observation is recognised, as is any positive number of them.\<close>

lemma renumbered_drop: "\<exists>new. renumbered tail es = tail @ new \<and> length new = length es \<and>
    map (\<lambda>e. (ob_source e, ob_payloadRef e, ob_receivedAt e)) new = map (\<lambda>e. (ob_source e, ob_payloadRef e, ob_receivedAt e)) es"
proof (induction es arbitrary: tail)
  case (Cons e es)
  from Cons.IH [of "tail @ [numbered tail e]"] show ?case by (auto simp: numbered_def)
qed simp

lemma renumbered_cong:
  "map (\<lambda>e. (ob_source e, ob_payloadRef e, ob_receivedAt e)) es = map (\<lambda>e. (ob_source e, ob_payloadRef e, ob_receivedAt e)) fs \<Longrightarrow>
    renumbered tail es = renumbered tail fs"
proof (induction es arbitrary: fs tail)
  case (Cons e es)
  then obtain f gs where fs: "fs = f # gs" by (cases fs) auto
  with Cons.prems have "numbered tail e = numbered tail f"
    unfolding numbered_def by (intro observation_entry.equality) auto
  with Cons fs show ?case by simp
qed simp

lemma renumbered_again: "renumbered tail (drop (length tail) (renumbered tail es)) = renumbered tail es"
  using renumbered_drop [of tail es] by (auto intro: renumbered_cong)

lemma observations_recognised:
  assumes "frozen s" and "es \<noteq> []" and t: "t = s\<lparr>sn_snapshotRef := r, sn_auditTail := renumbered (sn_auditTail s) es\<rparr>"
  shows "isObservationOnlyAdvance lc s t"
proof -
  obtain new where "renumbered (sn_auditTail s) es = sn_auditTail s @ new" "length new = length es"
    using renumbered_drop [of "sn_auditTail s" es] by blast
  with assms(2) have len: "\<not> length (sn_auditTail t) \<le> length (sn_auditTail s)" by (simp add: t)
  let ?r = "rebuild s (drop (length (sn_auditTail s)) (sn_auditTail t))"
  have "?r = s\<lparr>sn_auditTail := renumbered (sn_auditTail s) es\<rparr>" "frozen ?r"
    using rebuild_frozen [OF assms(1)] renumbered_again [of "sn_auditTail s" es] frozen_fields(7) [OF assms(1)]
    by (simp_all add: t)
  then have "withSnapshotRef ?r (sn_snapshotRef t) = t" by (simp add: with_frozen(7) t)
  then show ?thesis
    using len by (simp add: isObservationOnlyAdvance_def canonical_refl)
qed

lemma epoch_recognised:
  assumes "frozen s" and "r \<noteq> sn_snapshotRef s" and "e \<noteq> sn_epochId s"
  shows "isEpochOnlyAdvance lc s (snapshotWithAdvancedEpoch s r e)"
proof -
  have f: "frozen (s\<lparr>sn_snapshotRef := r, sn_epochId := e\<rparr>)" using assms(1) by (simp add: frozen_def)
  show ?thesis
    using assms(2,3)
    by (auto simp: isEpochOnlyAdvance_def snapshotWithAdvancedEpoch_def restored_id [OF f] intro!: canonical_refl)
qed

lemma observed_epoch_recognised:
  assumes "frozen s" and "es \<noteq> []" and "r \<noteq> sn_snapshotRef s" and "e \<noteq> sn_epochId s"
  shows "isObservationAndEpochOnlyAdvance lc s
    (snapshotWithAdvancedEpoch (s\<lparr>sn_auditTail := renumbered (sn_auditTail s) es\<rparr>) r e)" (is "isObservationAndEpochOnlyAdvance lc s ?t")
proof -
  obtain new where "renumbered (sn_auditTail s) es = sn_auditTail s @ new" "length new = length es"
    using renumbered_drop [of "sn_auditTail s" es] by blast
  then have len: "length (sn_auditTail s) < length (renumbered (sn_auditTail s) es)" using assms(2) by simp
  let ?r = "rebuild s (drop (length (sn_auditTail s)) (renumbered (sn_auditTail s) es))"
  have rb: "?r = s\<lparr>sn_auditTail := renumbered (sn_auditTail s) es\<rparr>" "frozen ?r"
    using rebuild_frozen [OF assms(1)] renumbered_again [of "sn_auditTail s" es] frozen_fields(7) [OF assms(1)] by simp_all
  then have "frozen (s\<lparr>sn_auditTail := renumbered (sn_auditTail s) es, sn_snapshotRef := r, sn_epochId := e\<rparr>)"
    by (simp add: frozen_def)
  then have t: "?t = s\<lparr>sn_auditTail := renumbered (sn_auditTail s) es, sn_snapshotRef := r, sn_epochId := e\<rparr>"
    by (simp add: snapshotWithAdvancedEpoch_def restored_id)
  show ?thesis
    using assms(3,4) len rb(1) unfolding t
    by (auto simp: isObservationAndEpochOnlyAdvance_def Let_def intro!: canonical_refl)
qed

text \<open>What a recognised advance preserves.\<close>

definition same_graph :: "locale_compare \<Rightarrow> snapshot \<Rightarrow> snapshot \<Rightarrow> bool" where
  "same_graph lc s t \<longleftrightarrow> same_world lc (s\<lparr>sn_epochId := sn_epochId t, sn_auditTail := sn_auditTail t\<rparr>) t"

lemma same_world_graph: "same_world lc s t \<Longrightarrow> sn_participants s = sn_participants u \<Longrightarrow>
    sn_artifacts s = sn_artifacts u \<Longrightarrow> sn_capabilities s = sn_capabilities u \<Longrightarrow> sn_sessions s = sn_sessions u \<Longrightarrow>
    sn_links s = sn_links u \<Longrightarrow> sn_retiredEntities s = sn_retiredEntities u \<Longrightarrow>
    sn_heartbeatLog s = sn_heartbeatLog u \<Longrightarrow> sn_policyContext s = sn_policyContext u \<Longrightarrow> same_graph lc u t"
  by (simp add: same_graph_def same_world_def)

lemma frozen_epoch_ref: "frozen s \<Longrightarrow> frozen (s\<lparr>sn_snapshotRef := r, sn_epochId := e\<rparr>)"
  by (simp add: frozen_def)

lemma unlogged_advance_sound:
  assumes lc: "collation lc" and s: "frozen s" and t: "frozen t" and adv: "isVerifiableUnloggedAdvance lc s t"
  shows "same_graph lc s t \<and> (\<exists>es. sn_auditTail t = renumbered (sn_auditTail s) es)"
proof -
  let ?es = "drop (length (sn_auditTail s)) (sn_auditTail t)"
  let ?r = "rebuild s ?es"
  have r: "?r = s\<lparr>sn_auditTail := renumbered (sn_auditTail s) ?es\<rparr>" "frozen ?r"
    using rebuild_frozen [OF s, of ?es] frozen_fields(7) [OF s] by simp_all
  consider (obs) "isObservationOnlyAdvance lc s t" | (ep) "isEpochOnlyAdvance lc s t"
    | (both) "isObservationAndEpochOnlyAdvance lc s t"
    using adv by (auto simp: isVerifiableUnloggedAdvance_def)
  then show ?thesis
  proof cases
    case obs
    then have "snapshotsCanonicallyEqual lc (withSnapshotRef ?r (sn_snapshotRef t)) t"
      by (simp add: isObservationOnlyAdvance_def Let_def split: if_splits)
    then have w: "same_world lc (withSnapshotRef ?r (sn_snapshotRef t)) t"
      using snapshotsCanonicallyEqual_iff [OF lc _ t] by simp
    then have w': "same_world lc (?r\<lparr>sn_snapshotRef := sn_snapshotRef t\<rparr>) t" by (simp add: with_frozen(7) [OF r(2)])
    have "same_graph lc s t" by (rule same_world_graph [OF w']) (simp_all add: r(1))
    moreover have "sn_auditTail t = renumbered (sn_auditTail s) ?es" using w' by (simp add: same_world_def r(1))
    ultimately show ?thesis by blast
  next
    case ep
    then have c: "snapshotsCanonicallyEqual lc s (t\<lparr>sn_epochId := sn_epochId s\<rparr>)"
      by (simp add: isEpochOnlyAdvance_def split: if_splits)
    have f: "frozen (t\<lparr>sn_epochId := sn_epochId s\<rparr>)" using t by (simp add: frozen_def)
    have w: "same_world lc s (t\<lparr>sn_epochId := sn_epochId s\<rparr>)"
      using c snapshotsCanonicallyEqual_iff [OF lc s f] by simp
    then have "same_graph lc s t" "sn_auditTail t = renumbered (sn_auditTail s) []"
      by (simp_all add: same_graph_def same_world_def)
    then show ?thesis by blast
  next
    case both
    then have c: "snapshotsCanonicallyEqual lc (?r\<lparr>sn_snapshotRef := sn_snapshotRef t, sn_epochId := sn_epochId t\<rparr>) t"
      by (simp add: isObservationAndEpochOnlyAdvance_def Let_def split: if_splits)
    have f: "frozen (?r\<lparr>sn_snapshotRef := sn_snapshotRef t, sn_epochId := sn_epochId t\<rparr>)"
      by (rule frozen_epoch_ref [OF r(2)])
    have w: "same_world lc (?r\<lparr>sn_snapshotRef := sn_snapshotRef t, sn_epochId := sn_epochId t\<rparr>) t"
      using c snapshotsCanonicallyEqual_iff [OF lc f t] by simp
    have "same_graph lc s t" by (rule same_world_graph [OF w]) (simp_all add: r(1))
    moreover have "sn_auditTail t = renumbered (sn_auditTail s) ?es" using w by (simp add: same_world_def r(1))
    ultimately show ?thesis by blast
  qed
qed

section \<open>The contract of a durable coordinator (durableCoordinator.ts)\<close>

text \<open>
  One transactional boundary for the head, the log and the recipes: a commit or a swap of the
  head either does all of its effects or nothing. What its clients rely on holds for every
  coordinator that keeps these laws.
\<close>

datatype durable_op = DurableCommit durable_commit_input | DurableSwap snapshot_ref snapshot

locale durable_coordinator =
  fixes get :: "'d \<Rightarrow> snapshot_ref \<Rightarrow> snapshot option"
    and head :: "'d \<Rightarrow> snapshot_ref option"
    and changes :: "'d \<Rightarrow> change_log"
    and commit :: "durable_commit_input \<Rightarrow> 'd \<Rightarrow> string option \<times> 'd"
    and swap :: "snapshot_ref \<Rightarrow> snapshot \<Rightarrow> 'd \<Rightarrow> bool \<times> 'd"
  assumes commit_ok: "commit i d = (None, d') \<Longrightarrow>
      head d = Some (dc_expectedHead i) \<and> get d (sn_snapshotRef (dc_after i)) = None \<and>
      head d' = Some (sn_snapshotRef (dc_after i)) \<and>
      get d' = (get d)(sn_snapshotRef (dc_after i) \<mapsto> restored (dc_after i)) \<and>
      changes d' = changes d @ [dc_change i] \<and> cc_changeId (dc_change i) \<notin> cc_changeId ` set (changes d)"
    and commit_refused: "commit i d = (Some e, d') \<Longrightarrow> d' = d"
    and swap_ok: "swap expected s d = (True, d') \<Longrightarrow>
      head d = Some expected \<and> head d' = Some (sn_snapshotRef s) \<and>
      get d' = (get d)(sn_snapshotRef s \<mapsto> restored s) \<and> changes d' = changes d"
    and swap_refused: "swap expected s d = (False, d') \<Longrightarrow> d' = d"
begin

fun run :: "durable_op list \<Rightarrow> 'd \<Rightarrow> 'd" where
  "run [] d = d"
| "run (DurableCommit i # ops) d = run ops (snd (commit i d))"
| "run (DurableSwap e s # ops) d = run ops (snd (swap e s d))"

text \<open>A swap that writes a ref nobody has used, as the runtime's swaps do.\<close>

fun fresh_run :: "durable_op list \<Rightarrow> 'd \<Rightarrow> bool" where
  "fresh_run [] d = True"
| "fresh_run (DurableCommit i # ops) d = fresh_run ops (snd (commit i d))"
| "fresh_run (DurableSwap e s # ops) d \<longleftrightarrow> get d (sn_snapshotRef s) = None \<and> fresh_run ops (snd (swap e s d))"

lemma commit_cases:
  obtains (ok) d' where "commit i d = (None, d')" | (refused) e where "commit i d = (Some e, d)"
proof (cases "commit i d")
  case (Pair r d')
  with ok refused commit_refused show ?thesis by (cases r) auto
qed

lemma swap_cases:
  obtains (ok) d' where "swap e s d = (True, d')" | (refused) "swap e s d = (False, d)"
proof (cases "swap e s d")
  case (Pair b d')
  with ok refused swap_refused show ?thesis by (cases b) auto
qed

lemma run_log: "\<exists>new. changes (run ops d) = changes d @ new"
proof (induction ops d rule: run.induct)
  case (2 i ops d)
  show ?case
    by (cases rule: commit_cases [of i d]) (use 2 in \<open>auto dest!: commit_ok\<close>)
next
  case (3 e s ops d)
  show ?case
    by (cases rule: swap_cases [of e s d]) (use 3 in \<open>auto dest!: swap_ok\<close>)
qed simp

lemma run_log_ids:
  "distinct (map cc_changeId (changes d)) \<Longrightarrow> distinct (map cc_changeId (changes (run ops d)))"
proof (induction ops d rule: run.induct)
  case (2 i ops d)
  show ?case
    by (cases rule: commit_cases [of i d]) (use 2 in \<open>auto dest!: commit_ok\<close>)
next
  case (3 e s ops d)
  show ?case
    by (cases rule: swap_cases [of e s d]) (use 3 in \<open>auto dest!: swap_ok\<close>)
qed simp

text \<open>Refs are immutable: what a ref resolves to never changes.\<close>

lemma run_get: "fresh_run ops d \<Longrightarrow> get d r = Some s \<Longrightarrow> get (run ops d) r = Some s"
proof (induction ops d rule: run.induct)
  case (2 i ops d)
  show ?case
    by (cases rule: commit_cases [of i d]; cases "r = sn_snapshotRef (dc_after i)")
       (use 2 in \<open>auto dest!: commit_ok\<close>)
next
  case (3 e u ops d)
  show ?case
    by (cases rule: swap_cases [of e u d]; cases "r = sn_snapshotRef u") (use 3 in \<open>auto dest!: swap_ok\<close>)
qed simp

end

section \<open>The memory coordinator keeps it\<close>

lemma store_get_set:
  "store_get (m\<lparr>ms_snapshots := map_set r (restored s) (ms_snapshots m)\<rparr>) = (store_get m)(r \<mapsto> restored s)"
  by (auto simp: fun_eq_iff store_get_def jsmap_simps restored_id)

lemma store_get_head [simp]: "store_get (m\<lparr>ms_headRef := h\<rparr>) = store_get m"
  by (auto simp: fun_eq_iff store_get_def)

lemma store_get_None: "store_get m r = None \<longleftrightarrow> \<not> map_has (ms_snapshots m) r"
  by (simp add: store_get_def map_has_get)

text \<open>The conditions of a commit.\<close>

definition commit_fits :: "locale_compare \<Rightarrow> durable_commit_input \<Rightarrow> memory_durable \<Rightarrow> bool" where
  "commit_fits lc i d \<longleftrightarrow>
     durable_head d = Some (dc_expectedHead i) \<and>
     cc_changeId (dc_change i) \<notin> cc_changeId ` set (md_changelog d) \<and>
     (case arr_last (md_changelog d) of
        Some l \<Rightarrow> changeContinuesChain lc l (dc_change i) (durable_get d)
      | None \<Rightarrow> cc_beforeRef (dc_change i) = dc_expectedHead i) \<and>
     durable_get d (sn_snapshotRef (dc_after i)) = None"

definition committed :: "durable_commit_input \<Rightarrow> memory_durable \<Rightarrow> memory_durable" where
  "committed i d =
     d\<lparr>md_store := \<lparr>ms_snapshots = map_set (sn_snapshotRef (dc_after i)) (restored (dc_after i)) (ms_snapshots (md_store d)),
                     ms_headRef = Some (sn_snapshotRef (dc_after i))\<rparr>,
       md_changelog := md_changelog d @ [dc_change i],
       md_sidecar := map_set (cc_changeId (dc_change i)) (snapshotReplayRecipe (dc_recipe i)) (md_sidecar d)\<rparr>"

lemma log_append_eq:
  "log_append c cs = (if cc_changeId c \<in> cc_changeId ` set cs then (False, cs) else (True, cs @ [c]))"
  by (auto simp: log_append_def list_ex_iff intro: rev_image_eqI)

lemma duplicate_iff: "list_ex (\<lambda>c. cc_changeId c = i) cs \<longleftrightarrow> i \<in> cc_changeId ` set cs"
  by (auto simp: list_ex_iff intro: rev_image_eqI)

lemma durable_commit_fits: "commit_fits lc i d \<Longrightarrow> durable_commit lc i d = (None, committed i d)"
  by (cases "arr_last (md_changelog d)")
     (auto simp: durable_commit_def commit_fits_def Let_def putIfAbsent_def log_append_eq duplicate_iff durable_get_def
       store_get_None setHead_def sidecar_put_def committed_def)

lemma durable_commit_not_fits: "\<not> commit_fits lc i d \<Longrightarrow> \<exists>e. durable_commit lc i d = (Some e, d)"
  by (cases "arr_last (md_changelog d)")
     (auto simp: durable_commit_def commit_fits_def Let_def putIfAbsent_def log_append_eq duplicate_iff durable_get_def
       store_get_None)

lemma durable_commit_None: "durable_commit lc i d = (None, d') \<longleftrightarrow> commit_fits lc i d \<and> d' = committed i d"
  using durable_commit_fits [of lc i d] durable_commit_not_fits [of lc i d] by (cases "commit_fits lc i d") auto

lemma durable_commit_Some: "durable_commit lc i d = (Some e, d') \<Longrightarrow> \<not> commit_fits lc i d \<and> d' = d"
  using durable_commit_fits [of lc i d] durable_commit_not_fits [of lc i d] by (cases "commit_fits lc i d") auto

lemma committed_simps [simp]:
  "durable_head (committed i d) = Some (sn_snapshotRef (dc_after i))"
  "durable_get (committed i d) = (durable_get d)(sn_snapshotRef (dc_after i) \<mapsto> restored (dc_after i))"
  "durable_changes (committed i d) = durable_changes d @ [dc_change i]"
  "md_changelog (committed i d) = md_changelog d @ [dc_change i]"
  by (auto simp: committed_def durable_head_def durable_changes_def durable_get_def fun_eq_iff store_get_def
      jsmap_simps restored_id)

lemma durable_cas_eq:
  "durable_cas expected s d =
    (if durable_head d = Some expected
     then (True, d\<lparr>md_store := \<lparr>ms_snapshots = map_set (sn_snapshotRef s) (restored s) (ms_snapshots (md_store d)),
                                 ms_headRef = Some (sn_snapshotRef s)\<rparr>\<rparr>)
     else (False, d))"
  by (auto simp: durable_cas_def store_cas_def durable_head_def Let_def)

interpretation memory: durable_coordinator durable_get durable_head durable_changes "durable_commit lc" durable_cas
  for lc :: locale_compare
proof
  fix i d d' e s expected
  show "durable_head d = Some (dc_expectedHead i) \<and> durable_get d (sn_snapshotRef (dc_after i)) = None \<and>
      durable_head d' = Some (sn_snapshotRef (dc_after i)) \<and>
      durable_get d' = (durable_get d)(sn_snapshotRef (dc_after i) \<mapsto> restored (dc_after i)) \<and>
      durable_changes d' = durable_changes d @ [dc_change i] \<and>
      cc_changeId (dc_change i) \<notin> cc_changeId ` set (durable_changes d)"
    if "durable_commit lc i d = (None, d')"
    using that by (auto simp: durable_commit_None commit_fits_def durable_changes_def)
  show "d' = d" if "durable_commit lc i d = (Some e, d')"
    using durable_commit_Some [OF that] by simp
  show "durable_head d = Some expected \<and> durable_head d' = Some (sn_snapshotRef s) \<and>
      durable_get d' = (durable_get d)(sn_snapshotRef s \<mapsto> restored s) \<and> durable_changes d' = durable_changes d"
    if "durable_cas expected s d = (True, d')"
    using that
    by (auto simp: durable_cas_eq durable_head_def durable_changes_def durable_get_def fun_eq_iff store_get_def
        jsmap_simps restored_id split: if_splits)
  show "d' = d" if "durable_cas expected s d = (False, d')"
    using that by (simp add: durable_cas_eq split: if_splits)
qed

text \<open>The recipe of a committed change is the one committed with it.\<close>

lemma recipe_committed:
  "durable_recipeForChange (dc_change i) (committed i d) = snapshotReplayRecipe (dc_recipe i)"
  by (simp add: durable_recipeForChange_def recipeForChange_def committed_def opt_default_def snapshotReplayRecipe_id)

end
