(* ===== verification/Runtime_Admission.thy ===== *)
theory Runtime_Admission
  imports Runtime_Durable
begin

text \<open>
  \<open>packages/runtime/src/admission\<close>: from an intent to an admission ticket. The gateway checks the
  principal, the head, the schema, the roles, the preconditions and the policy, takes a lease
  on the footprint and registers what was admitted; the registry resolves a ticket for commit.

  The two readers of the clock (lock table, registry) take their readings as arguments. The
  registry and the gateway share one lock table, as \<open>createCoordinationRuntime\<close> wires them.
\<close>

section \<open>Intents (normalizeIntent.ts, footprintAuthority.ts, principalValidation.ts)\<close>

definition cloneBinding :: "match_binding \<Rightarrow> match_binding" where
  "cloneBinding b = b"

definition normalizeCoordinationIntent :: "coordination_intent \<Rightarrow> coordination_intent" where
  "normalizeCoordinationIntent intent =
     (let matchBindings = map cloneBinding (in_matchBindings intent)
      in \<lparr>in_initiator = in_initiator intent, in_operationTypeId = in_operationTypeId intent,
          in_matchBindings = matchBindings, in_targets = targetsFromMatchBindings matchBindings,
          in_inputContentRefs = in_inputContentRefs intent,
          in_scalarInputs = map_option new_Map (in_scalarInputs intent),
          in_external = in_external intent\<rparr>)"

definition effectiveFootprintForAdmission :: "coordination_intent \<Rightarrow> operation_template \<Rightarrow> footprint" where
  "effectiveFootprintForAdmission intent template =
     footprintFromTargets (targetsFromMatchBindings (in_matchBindings intent))"

definition requestedFootprintFromIntent :: "coordination_intent \<Rightarrow> footprint" where
  "requestedFootprintFromIntent intent = footprintFromTargets (in_targets intent)"

datatype principal_error = PrincipalInitiatorMismatch | PrincipalFromMismatch | PrincipalSourceMismatch

fun principal_error_kind :: "principal_error \<Rightarrow> string" where
  "principal_error_kind PrincipalInitiatorMismatch = ''principal_initiator_mismatch''"
| "principal_error_kind PrincipalFromMismatch = ''principal_from_mismatch''"
| "principal_error_kind PrincipalSourceMismatch = ''principal_source_mismatch''"

definition validateAdmissionPrincipal :: "coordination_intent \<Rightarrow> actor_ref \<Rightarrow> principal_error option" where
  "validateAdmissionPrincipal intent caller =
     (if ar_actorId caller \<noteq> ar_actorId (in_initiator intent) \<or> ar_kind caller \<noteq> ar_kind (in_initiator intent)
      then Some PrincipalInitiatorMismatch
      else case List.find (\<lambda>b. roleOf b = RFrom) (in_matchBindings intent) of
             Some (BFrom a) \<Rightarrow> if a \<noteq> ar_actorId caller then Some PrincipalFromMismatch else None
           | _ \<Rightarrow> None)"

definition validateObservePrincipal :: "actor_ref \<Rightarrow> actor_ref \<Rightarrow> principal_error option" where
  "validateObservePrincipal source caller =
     (if ar_actorId caller \<noteq> ar_actorId source \<or> ar_kind caller \<noteq> ar_kind source
      then Some PrincipalSourceMismatch else None)"

section \<open>Composition intents (compositionBindings.ts, compositionBridge.ts)\<close>

definition find_kind :: "target_kind \<Rightarrow> target_ref list \<Rightarrow> string option" where
  "find_kind k targets = map_option tr_id (List.find (\<lambda>t. tr_kind t = k) targets)"

text \<open>The initiator among the participants, or the first participant.\<close>

definition lead_participant :: "target_ref list \<Rightarrow> actor_id \<Rightarrow> actor_id option" where
  "lead_participant targets initiator =
     (case List.find (\<lambda>t. tr_kind t = TParticipant \<and> tr_id t = initiator) targets of
        Some t \<Rightarrow> Some (tr_id t)
      | None \<Rightarrow> find_kind TParticipant targets)"

definition binding_if :: "(string \<Rightarrow> match_binding) \<Rightarrow> string option \<Rightarrow> match_binding list" where
  "binding_if mk v = (case v of None \<Rightarrow> [] | Some i \<Rightarrow> [mk i])"

definition other_participants :: "target_ref list \<Rightarrow> actor_id option \<Rightarrow> match_binding list" where
  "other_participants targets lead =
     map (\<lambda>t. BParticipant (tr_id t)) (filter (\<lambda>t. tr_kind t = TParticipant \<and> Some (tr_id t) \<noteq> lead) targets)"

definition bindingsForCreateSession :: "target_ref list \<Rightarrow> actor_id \<Rightarrow> match_binding list" where
  "bindingsForCreateSession targets initiator =
     (let session = find_kind TSession targets; controller = lead_participant targets initiator
      in binding_if BFrom controller @ binding_if BSession session @ other_participants targets controller)"

definition bindingsForForkBranch :: "target_ref list \<Rightarrow> actor_id \<Rightarrow> match_binding list" where
  "bindingsForForkBranch targets initiator =
     (let artifact = find_kind TArtifact targets; capability = find_kind TCapability targets
      in [BFrom initiator] @ binding_if BTask artifact @ binding_if BCapability capability @
         other_participants targets (Some initiator))"

definition bindingsForPublishArtifact :: "target_ref list \<Rightarrow> actor_id \<Rightarrow> match_binding list" where
  "bindingsForPublishArtifact targets initiator =
     (let artifact = find_kind TArtifact targets; owner = lead_participant targets initiator
      in binding_if BTask artifact @ binding_if BFrom owner)"

text \<open>
  The two parties of a transfer: the initiator or the first participant, then the first
  participant with another id, or the second one.
\<close>

definition from_and_to :: "target_ref list \<Rightarrow> actor_id \<Rightarrow> actor_id option \<times> actor_id option" where
  "from_and_to targets initiator =
     (let participants = map tr_id (filter (\<lambda>t. tr_kind t = TParticipant) targets);
          from = (case List.find (\<lambda>i. i = initiator) participants of
                    Some i \<Rightarrow> Some i | None \<Rightarrow> arr_get participants 0);
          to = (case List.find (\<lambda>i. Some i \<noteq> from) participants of
                  Some i \<Rightarrow> Some i | None \<Rightarrow> arr_get participants 1)
      in (from, to))"

definition bindingsForTransferSession :: "target_ref list \<Rightarrow> actor_id \<Rightarrow> match_binding list" where
  "bindingsForTransferSession targets initiator =
     (case from_and_to targets initiator of
        (from, to) \<Rightarrow> binding_if BSession (find_kind TSession targets) @ binding_if BFrom from @ binding_if BTo to)"

definition bindingsForIntroduce :: "target_ref list \<Rightarrow> actor_id \<Rightarrow> match_binding list" where
  "bindingsForIntroduce targets initiator =
     (let artifact = find_kind TArtifact targets; participant = lead_participant targets initiator;
          capability = find_kind TCapability targets
      in binding_if BTask artifact @ binding_if BFrom participant @ binding_if BCapability capability)"

definition bindingsForDelegate :: "target_ref list \<Rightarrow> actor_id \<Rightarrow> match_binding list" where
  "bindingsForDelegate targets initiator =
     (case from_and_to targets initiator of
        (from, to) \<Rightarrow>
          binding_if BTask (find_kind TArtifact targets) @ binding_if BFrom from @ binding_if BTo to @
          binding_if BCapability (find_kind TCapability targets))"

fun matchBindingsForComposition ::
  "composition_operator \<Rightarrow> target_ref list \<Rightarrow> actor_id \<Rightarrow> match_binding list" where
  "matchBindingsForComposition OpAttach ts i = bindingsForIntroduce ts i"
| "matchBindingsForComposition OpIsolate ts i = bindingsForIntroduce ts i"
| "matchBindingsForComposition OpFork ts i = bindingsForForkBranch ts i"
| "matchBindingsForComposition OpDelegate ts i = bindingsForDelegate ts i"
| "matchBindingsForComposition OpNest ts i = bindingsForCreateSession ts i"
| "matchBindingsForComposition OpRewire ts i = bindingsForTransferSession ts i"
| "matchBindingsForComposition OpClose ts i = bindingsForPublishArtifact ts i"

definition coordinationIntentFromComposition :: "composition_intent \<Rightarrow> coordination_intent" where
  "coordinationIntentFromComposition c =
     coordinationIntent (co_initiator c) (operationTypeForOperator (co_operator c))
       (matchBindingsForComposition (co_operator c) (co_targets c) (ar_actorId (co_initiator c)))
       None (co_inputContentRefs c) None"

section \<open>Registry (admittedRecord.ts, admissionTicket.ts, admissionRegistry.ts)\<close>

record admission_ticket = tk_ticketId :: admitted_id

record admitted_record =
  ad_admittedId :: admitted_id
  ad_principal :: actor_ref
  ad_intent :: coordination_intent
  ad_beforeSnapshot :: snapshot
  ad_beforeRef :: snapshot_ref
  ad_template :: operation_template
  ad_effectiveFootprint :: footprint
  ad_recipe :: replay_recipe
  ad_authorization :: "evidence_ref list"
  ad_policyRevision :: string
  ad_expiresAt :: millis

datatype registry_error =
    TicketNotFound
  | TicketExpired
  | LockNotHeld
  | HeadMismatch snapshot_ref "snapshot_ref option"

fun registry_error_kind :: "registry_error \<Rightarrow> string" where
  "registry_error_kind TicketNotFound = ''ticket_not_found''"
| "registry_error_kind TicketExpired = ''ticket_expired''"
| "registry_error_kind LockNotHeld = ''lock_not_held''"
| "registry_error_kind (HeadMismatch e a) = ''head_mismatch''"

record admission_state =
  as_locks :: lock_table
  as_records :: "(admitted_id, admitted_record) jsmap"
  as_seq :: nat

definition DEFAULT_LEASE_MS :: millis where
  "DEFAULT_LEASE_MS = 60000"

definition registry_register ::
  "millis \<Rightarrow> admitted_record \<Rightarrow> millis option \<Rightarrow> admission_state \<Rightarrow> admission_ticket \<times> admission_state" where
  "registry_register now r lease st =
     (let expiresAt = now + opt_default DEFAULT_LEASE_MS lease
      in (\<lparr>tk_ticketId = ad_admittedId r\<rparr>,
          st\<lparr>as_records := map_set (ad_admittedId r) (r\<lparr>ad_expiresAt := expiresAt\<rparr>) (as_records st)\<rparr>))"

definition registry_consume :: "admission_ticket \<Rightarrow> admission_state \<Rightarrow> admission_state" where
  "registry_consume t st = st\<lparr>as_records := map_delete (tk_ticketId t) (as_records st)\<rparr>"

definition registry_cancel :: "admission_ticket \<Rightarrow> admission_state \<Rightarrow> admission_state" where
  "registry_cancel t st =
     st\<lparr>as_locks := release_lock (tk_ticketId t) (as_locks st),
        as_records := map_delete (tk_ticketId t) (as_records st)\<rparr>"

text \<open>\<open>now\<close> and \<open>now'\<close>: the readings of the registry and of the lock table.\<close>

definition resolveForCommit ::
  "millis \<Rightarrow> millis \<Rightarrow> admission_ticket \<Rightarrow> snapshot_ref option \<Rightarrow> admission_state \<Rightarrow>
    (registry_error + admitted_record) \<times> admission_state" where
  "resolveForCommit now now' t currentHead st =
     (case map_get (as_records st) (tk_ticketId t) of
        None \<Rightarrow> (Inl TicketNotFound, st)
      | Some r \<Rightarrow>
          (if now > ad_expiresAt r then (Inl TicketExpired, registry_cancel t st)
           else case isHeld now' (tk_ticketId t) (as_locks st) of
                  (held, locks) \<Rightarrow>
                    (let st' = st\<lparr>as_locks := locks\<rparr>
                     in if \<not> held then (Inl LockNotHeld, st')
                        else if currentHead \<noteq> Some (ad_beforeRef r)
                        then (Inl (HeadMismatch (ad_beforeRef r) currentHead), st')
                        else (Inr r, st'))))"

text \<open>The clock is read for every record.\<close>

definition activeCount :: "(nat \<Rightarrow> millis) \<Rightarrow> admission_state \<Rightarrow> nat \<times> admission_state" where
  "activeCount now st =
     (let records = fold (\<lambda>(i, (k, r)) m. if now i > ad_expiresAt r then map_delete k m else m)
                      (enumerate 0 (as_records st)) (as_records st)
      in (length records, st\<lparr>as_records := records\<rparr>))"

section \<open>Gateway (admissionGateway.ts)\<close>

datatype reject_reason =
    RejTemplateNotFound
  | RejMissingRole binding_role
  | RejRequiresFailed template_condition
  | RejPolicyDenied string
  | RejResourceConflict
  | RejEpochMismatch (rj_headEpochId: epoch_id) (rj_activeEpochId: epoch_id)
  | RejSnapshotInvalid core_violation
  | RejHeadNotFound
  | RejPrincipalInvalid string

datatype admission_result = Admitted admission_ticket | Refused reject_reason

fun violation_code_name :: "core_violation_code \<Rightarrow> string" where
  "violation_code_name BeforeRefChainBroken = ''before_ref_chain_broken''"
| "violation_code_name EpochMismatch = ''epoch_mismatch''"
| "violation_code_name AuditTailHistoryMismatch = ''audit_tail_history_mismatch''"
| "violation_code_name ObservationSequenceInvalid = ''observation_sequence_invalid''"
| "violation_code_name FootprintUndercoversTargets = ''footprint_undercovers_targets''"
| "violation_code_name SnapshotIntegrity = ''snapshot_integrity''"
| "violation_code_name ActorNotFound = ''actor_not_found''"
| "violation_code_name ActorKindMismatch = ''actor_kind_mismatch''"
| "violation_code_name RunHistoryInvalid = ''run_history_invalid''"
| "violation_code_name MatchBindingsInvalid = ''match_bindings_invalid''"

fun describeRejectReason :: "reject_reason \<Rightarrow> string" where
  "describeRejectReason (RejMissingRole r) =
     ''missing_role: no binding for required role '' @ [CHR 0x22] @ role_name r @ [CHR 0x22]"
| "describeRejectReason (RejRequiresFailed c) =
     ''requires_failed: precondition '' @ [CHR 0x22] @ condition_kind_name (tc_kind c) @ [CHR 0x22] @ '' does not hold''"
| "describeRejectReason (RejPolicyDenied r) = ''policy_denied: '' @ r"
| "describeRejectReason (RejPrincipalInvalid r) = ''principal_invalid: '' @ r"
| "describeRejectReason (RejEpochMismatch h a) =
     ''epoch_mismatch: head snapshot is at epoch '' @ h @ '' but the active schema is bound to epoch '' @ a"
| "describeRejectReason (RejSnapshotInvalid v) = ''snapshot_invalid: '' @ violation_code_name (cv_code v) @ '' '' @ cv_message v"
| "describeRejectReason RejResourceConflict =
     ''resource_conflict: another in-flight operation holds an overlapping footprint''"
| "describeRejectReason RejTemplateNotFound =
     ''template_not_found: operation type is not in the active schema''"
| "describeRejectReason RejHeadNotFound =
     ''head_not_found: the coordination world has no readable head snapshot''"

text \<open>
  The gateway's configuration. \<open>gw_tag\<close> is the random tag of the instance; the caller's own id
  supply, when there is one, is given by what its n-th call returns.
\<close>

record gateway_config =
  gw_policy :: policy_evaluator
  gw_tag :: string
  gw_nextAdmittedId :: "(nat \<Rightarrow> string) option"
  gw_lockLeaseMs :: "millis option"

definition next_admitted_id :: "gateway_config \<Rightarrow> admission_state \<Rightarrow> admitted_id \<times> admission_state" where
  "next_admitted_id cfg st =
     (let n = as_seq st + 1; st' = st\<lparr>as_seq := n\<rparr>
      in case gw_nextAdmittedId cfg of
           Some f \<Rightarrow> (f n, st')
         | None \<Rightarrow> (''adm-'' @ gw_tag cfg @ ''-'' @ show_nat n, st'))"

record admission_input =
  ai_intent :: coordination_intent
  ai_beforeRef :: "snapshot_ref option"
  ai_principal :: actor_ref

text \<open>Three readings of the clock: two in \<open>acquire\<close>, one in \<open>register\<close>.\<close>

type_synonym three_readings = "millis \<times> millis \<times> millis"

definition admission_recipe ::
  "snapshot \<Rightarrow> coordination_intent \<Rightarrow> operation_template \<Rightarrow> evidence_ref list \<Rightarrow> replay_recipe" where
  "admission_recipe before intent template authorization =
     withRecipeAuthorization
       (replayRecipe
          \<lparr>ri_epochId = sn_epochId before, ri_operationTypeId = in_operationTypeId intent,
           ri_templateRef = Some (op_templateRef template), ri_matchBindings = in_matchBindings intent,
           ri_matchWitness = None, ri_complementSelector = None, ri_kind = None, ri_authorization = None,
           ri_external = Some (opt_default [] (in_external intent)), ri_createdSessionRefs = None,
           ri_freshLinkRefs = None, ri_inputContentRefs = Some (opt_default [] (in_inputContentRefs intent)),
           ri_scalarInputs = Some (opt_default [] (in_scalarInputs intent)), ri_emittedAt = None,
           ri_visibility = op_defaultVisibility template\<rparr>)
       authorization"

text \<open>From the decision of the policy on: the lease and the registration.\<close>

definition admit_locked ::
  "gateway_config \<Rightarrow> active_schema_context \<Rightarrow> three_readings \<Rightarrow> admission_input \<Rightarrow> coordination_intent \<Rightarrow>
    snapshot_ref \<Rightarrow> snapshot \<Rightarrow> operation_template \<Rightarrow> evidence_ref list \<Rightarrow> admission_state \<Rightarrow>
    admission_result \<times> admission_state" where
  "admit_locked cfg ctx readings inp intent beforeRef before template authorization st =
     (case readings of
        (t1, t2, t3) \<Rightarrow>
          (case next_admitted_id cfg st of
             (ticketId, st1) \<Rightarrow>
               (let effective = effectiveFootprintForAdmission intent template;
                    lease = opt_default 60000 (gw_lockLeaseMs cfg)
                in case acquire_lock t1 t2 ticketId effective (Some lease) (as_locks st1) of
                     (False, locks) \<Rightarrow> (Refused RejResourceConflict, st1\<lparr>as_locks := locks\<rparr>)
                   | (True, locks) \<Rightarrow>
                       (case registry_register t3
                               \<lparr>ad_admittedId = ticketId, ad_principal = ai_principal inp, ad_intent = intent,
                                ad_beforeSnapshot = before, ad_beforeRef = beforeRef, ad_template = template,
                                ad_effectiveFootprint = effective,
                                ad_recipe = admission_recipe before intent template authorization,
                                ad_authorization = authorization, ad_policyRevision = ax_epochId ctx,
                                ad_expiresAt = 0\<rparr>
                               (Some lease) (st1\<lparr>as_locks := locks\<rparr>) of
                          (ticket, st2) \<Rightarrow> (Admitted ticket, st2)))))"

definition admit ::
  "gateway_config \<Rightarrow> active_schema_context \<Rightarrow> (snapshot_ref \<Rightarrow> snapshot option) \<Rightarrow> snapshot_ref option \<Rightarrow>
    three_readings \<Rightarrow> admission_input \<Rightarrow> admission_state \<Rightarrow> admission_result \<times> admission_state" where
  "admit cfg ctx get head readings inp st =
     (let intent = normalizeCoordinationIntent (ai_intent inp)
      in case validateAdmissionPrincipal intent (ai_principal inp) of
           Some e \<Rightarrow> (Refused (RejPrincipalInvalid (principal_error_kind e)), st)
         | None \<Rightarrow>
      (case (case ai_beforeRef inp of Some r \<Rightarrow> Some r | None \<Rightarrow> head) of
         None \<Rightarrow> (Refused RejHeadNotFound, st)
       | Some beforeRef \<Rightarrow>
      (case get beforeRef of
         None \<Rightarrow> (Refused RejHeadNotFound, st)
       | Some before \<Rightarrow>
      (case validateSnapshotIntegrityResult before of
         Inl cause \<Rightarrow> (Refused (RejSnapshotInvalid cause), st)
       | Inr _ \<Rightarrow>
      (if sn_epochId before \<noteq> ax_epochId ctx
       then (Refused (RejEpochMismatch (sn_epochId before) (ax_epochId ctx)), st)
       else if in_operationTypeId intent \<notin> set (ax_allowedOperations ctx) then (Refused RejTemplateNotFound, st)
       else case getTemplate ctx (in_operationTypeId intent) None of
              None \<Rightarrow> (Refused RejTemplateNotFound, st)
            | Some template \<Rightarrow>
      (case missing_role_loop (in_matchBindings intent) (op_requiredRoles template) of
         Some role \<Rightarrow> (Refused (RejMissingRole role), st)
       | None \<Rightarrow>
      (case evaluateRequires before (in_matchBindings intent) (op_requires template) of
         Some c \<Rightarrow> (Refused (RejRequiresFailed c), st)
       | None \<Rightarrow>
      (case gw_policy cfg \<lparr>pi_snapshot = before, pi_intent = intent, pi_template = template,
              pi_effectiveFootprint = effectiveFootprintForAdmission intent template,
              pi_policyRevision = Some (ax_epochId ctx)\<rparr> of
         PolicyDeny reason \<Rightarrow> (Refused (RejPolicyDenied reason), st)
       | PolicyAllow authorization \<Rightarrow>
           admit_locked cfg ctx readings inp intent beforeRef before template authorization st))))))))"

section \<open>What admission decides\<close>

lemma opt_default_simps [simp]: "opt_default d None = d" "opt_default d (Some x) = x"
  by (simp_all add: opt_default_def)

lemma validateAdmissionPrincipal_None:
  "validateAdmissionPrincipal i p = None \<longleftrightarrow>
    p = in_initiator i \<and> (\<forall>a. actorIdFromRole (in_matchBindings i) RFrom = Some a \<longrightarrow> a = ar_actorId p)"
proof -
  have eq: "p = q \<longleftrightarrow> ar_actorId p = ar_actorId q \<and> ar_kind p = ar_kind q" for q
    by (auto intro: actor_ref.equality)
  have f: "List.find (\<lambda>b. roleOf b = RFrom) bs = Some b \<Longrightarrow> \<exists>a. b = BFrom a" for b bs
    by (drule find_Some_mem) (cases b; simp)
  show ?thesis
    unfolding eq
    by (auto simp: validateAdmissionPrincipal_def actorIdFromRole_def bindingByRole_def
        split: option.splits match_binding.splits dest: f)
qed

lemma normalize_simps [simp]:
  "in_initiator (normalizeCoordinationIntent i) = in_initiator i"
  "in_operationTypeId (normalizeCoordinationIntent i) = in_operationTypeId i"
  "in_matchBindings (normalizeCoordinationIntent i) = in_matchBindings i"
  "in_targets (normalizeCoordinationIntent i) = targetsFromMatchBindings (in_matchBindings i)"
  "in_inputContentRefs (normalizeCoordinationIntent i) = in_inputContentRefs i"
  by (simp_all add: normalizeCoordinationIntent_def cloneBinding_def map_idI Let_def)

text \<open>An intent that may go on to the lease, with the world and the template it was judged on.\<close>

definition admissible_on ::
  "gateway_config \<Rightarrow> active_schema_context \<Rightarrow> (snapshot_ref \<Rightarrow> snapshot option) \<Rightarrow> snapshot_ref option \<Rightarrow>
    admission_input \<Rightarrow> snapshot_ref \<Rightarrow> snapshot \<Rightarrow> operation_template \<Rightarrow> evidence_ref list \<Rightarrow> bool" where
  "admissible_on cfg ctx get head inp beforeRef before template authorization \<longleftrightarrow>
     (let intent = normalizeCoordinationIntent (ai_intent inp) in
      ai_principal inp = in_initiator intent \<and>
      (\<forall>a. actorIdFromRole (in_matchBindings intent) RFrom = Some a \<longrightarrow> a = ar_actorId (ai_principal inp)) \<and>
      (case ai_beforeRef inp of Some r \<Rightarrow> Some r | None \<Rightarrow> head) = Some beforeRef \<and> get beforeRef = Some before \<and>
      integrity before \<and> sn_epochId before = ax_epochId ctx \<and>
      in_operationTypeId intent \<in> set (ax_allowedOperations ctx) \<and>
      getTemplate ctx (in_operationTypeId intent) None = Some template \<and>
      set (op_requiredRoles template) \<subseteq> roleOf ` set (in_matchBindings intent) \<and>
      (\<forall>c\<in>set (op_requires template). evaluateCondition before (in_matchBindings intent) c) \<and>
      gw_policy cfg \<lparr>pi_snapshot = before, pi_intent = intent, pi_template = template,
        pi_effectiveFootprint = effectiveFootprintForAdmission intent template,
        pi_policyRevision = Some (ax_epochId ctx)\<rparr> = PolicyAllow authorization)"

lemma admit_goes_on:
  assumes "admissible_on cfg ctx get head inp beforeRef before template authorization"
  shows "admit cfg ctx get head readings inp st =
    admit_locked cfg ctx readings inp (normalizeCoordinationIntent (ai_intent inp)) beforeRef before template authorization st"
proof -
  have v: "validateAdmissionPrincipal (normalizeCoordinationIntent (ai_intent inp)) (ai_principal inp) = None"
    using assms unfolding admissible_on_def Let_def validateAdmissionPrincipal_None by blast
  have i: "validateSnapshotIntegrityResult before = Inr ()"
    using assms by (simp add: admissible_on_def validateSnapshotIntegrityResult_ok Let_def)
  show ?thesis
    using assms v i
    by (simp add: admissible_on_def admit_def Let_def missing_role_None [THEN iffD2]
        evaluateRequires_None [THEN iffD2])
qed

lemma admit_stops:
  assumes "\<nexists>beforeRef before template authorization. admissible_on cfg ctx get head inp beforeRef before template authorization"
  shows "\<exists>reason. admit cfg ctx get head readings inp st = (Refused reason, st) \<and> reason \<noteq> RejResourceConflict"
  using assms
  unfolding admit_def Let_def
  by (auto simp: admissible_on_def Let_def validateAdmissionPrincipal_None missing_role_None evaluateRequires_None
      validateSnapshotIntegrityResult_ok split: option.split sum.split policy_decision.split)

lemma next_admitted_id_locks [simp]:
  "as_locks (snd (next_admitted_id cfg st)) = as_locks st" "as_records (snd (next_admitted_id cfg st)) = as_records st"
  by (simp_all add: next_admitted_id_def Let_def split: option.splits)

text \<open>The record of a granted admission.\<close>

definition admitted_as ::
  "gateway_config \<Rightarrow> active_schema_context \<Rightarrow> admission_input \<Rightarrow> snapshot_ref \<Rightarrow> snapshot \<Rightarrow> operation_template \<Rightarrow>
    evidence_ref list \<Rightarrow> admitted_id \<Rightarrow> millis \<Rightarrow> admitted_record" where
  "admitted_as cfg ctx inp beforeRef before template authorization i expires =
     (let intent = normalizeCoordinationIntent (ai_intent inp) in
      \<lparr>ad_admittedId = i, ad_principal = ai_principal inp, ad_intent = intent, ad_beforeSnapshot = before,
       ad_beforeRef = beforeRef, ad_template = template,
       ad_effectiveFootprint = effectiveFootprintForAdmission intent template,
       ad_recipe = admission_recipe before intent template authorization,
       ad_authorization = authorization, ad_policyRevision = ax_epochId ctx, ad_expiresAt = expires\<rparr>)"

lemma admit_locked_result:
  fixes cfg st t1 t2 inp template
  defines "i \<equiv> fst (next_admitted_id cfg st)" and "lease \<equiv> opt_default 60000 (gw_lockLeaseMs cfg)"
  defines "grant \<equiv> acquire_lock t1 t2 i (effectiveFootprintForAdmission (normalizeCoordinationIntent (ai_intent inp)) template)
      (Some lease) (as_locks st)"
  shows "admit_locked cfg ctx (t1, t2, t3) inp (normalizeCoordinationIntent (ai_intent inp)) beforeRef before template auth st =
    (if fst grant
     then (Admitted \<lparr>tk_ticketId = i\<rparr>,
           (snd (next_admitted_id cfg st))\<lparr>as_locks := snd grant,
             as_records := map_set i (admitted_as cfg ctx inp beforeRef before template auth i (t3 + lease)) (as_records st)\<rparr>)
     else (Refused RejResourceConflict, (snd (next_admitted_id cfg st))\<lparr>as_locks := snd grant\<rparr>))"
proof -
  obtain st1 where st1: "next_admitted_id cfg st = (i, st1)" unfolding i_def by (metis prod.collapse)
  then have s: "as_locks st1 = as_locks st" "as_records st1 = as_records st"
    by (metis next_admitted_id_locks snd_conv)+
  have l: "opt_default 60000 (gw_lockLeaseMs cfg) = lease" by (simp add: lease_def)
  obtain ok ls where g: "grant = (ok, ls)" by (cases grant)
  then have "acquire_lock t1 t2 i (effectiveFootprintForAdmission (normalizeCoordinationIntent (ai_intent inp)) template)
      (Some lease) (as_locks st1) = (ok, ls)" by (simp add: grant_def s)
  then show ?thesis
    by (cases ok) (simp_all add: admit_locked_def st1 g Let_def l registry_register_def admitted_as_def s)
qed

text \<open>Admission, in full: what is refused changes nothing but leases that had expired.\<close>

lemma admit_Admitted:
  assumes "admit cfg ctx get head (t1, t2, t3) inp st = (Admitted t, st')"
  obtains beforeRef before template authorization where
    "admissible_on cfg ctx get head inp beforeRef before template authorization"
    and "tk_ticketId t = fst (next_admitted_id cfg st)"
    and "fst (acquire_lock t1 t2 (tk_ticketId t)
      (effectiveFootprintForAdmission (normalizeCoordinationIntent (ai_intent inp)) template)
      (Some (opt_default 60000 (gw_lockLeaseMs cfg))) (as_locks st))"
    and "as_locks st' = snd (acquire_lock t1 t2 (tk_ticketId t)
      (effectiveFootprintForAdmission (normalizeCoordinationIntent (ai_intent inp)) template)
      (Some (opt_default 60000 (gw_lockLeaseMs cfg))) (as_locks st))"
    and "as_records st' = map_set (tk_ticketId t)
      (admitted_as cfg ctx inp beforeRef before template authorization (tk_ticketId t)
        (t3 + opt_default 60000 (gw_lockLeaseMs cfg))) (as_records st)"
proof (cases "\<exists>beforeRef before template authorization. admissible_on cfg ctx get head inp beforeRef before template authorization")
  case True
  then obtain beforeRef before template authorization
    where a: "admissible_on cfg ctx get head inp beforeRef before template authorization" by blast
  show ?thesis
    by (rule that [OF a]) (use assms in \<open>auto simp: admit_goes_on [OF a] admit_locked_result split: if_splits\<close>)
next
  case False
  from admit_stops [OF this, of "(t1, t2, t3)" st] assms show ?thesis by auto
qed

lemma admit_Refused:
  assumes "admit cfg ctx get head (t1, t2, t3) inp st = (Refused reason, st')"
  shows "as_records st' = as_records st \<and> (as_locks st' = as_locks st \<or> as_locks st' = releaseExpired t1 (as_locks st))"
proof (cases "\<exists>beforeRef before template authorization. admissible_on cfg ctx get head inp beforeRef before template authorization")
  case True
  then obtain beforeRef before template authorization
    where a: "admissible_on cfg ctx get head inp beforeRef before template authorization" by blast
  show ?thesis
    using assms by (auto simp: admit_goes_on [OF a] admit_locked_result acquire_lock_def Let_def split: if_splits)
next
  case False
  from admit_stops [OF this, of "(t1, t2, t3)" st] assms show ?thesis by auto
qed

section \<open>What a ticket resolves to\<close>

lemma resolveForCommit_ok:
  "resolveForCommit now now' t head st = (Inr r, st') \<longleftrightarrow>
    map_get (as_records st) (tk_ticketId t) = Some r \<and> now \<le> ad_expiresAt r \<and>
    fst (isHeld now' (tk_ticketId t) (as_locks st)) \<and> head = Some (ad_beforeRef r) \<and>
    st' = st\<lparr>as_locks := releaseExpired now' (as_locks st)\<rparr>"
  by (auto simp: resolveForCommit_def isHeld_def Let_def split: option.splits if_splits)

lemma resolveForCommit_records:
  "as_records (snd (resolveForCommit now now' t head st)) = as_records st \<or>
   as_records (snd (resolveForCommit now now' t head st)) = map_delete (tk_ticketId t) (as_records st)"
  by (simp add: resolveForCommit_def isHeld_def Let_def registry_cancel_def split: option.splits)

end
