(* ===== verification/Runtime_Commit.thy ===== *)
theory Runtime_Commit
  imports Runtime_Admission
begin

text \<open>
  \<open>packages/runtime/src/execution/commitChange.ts\<close>, \<open>observe/ingestObservation.ts\<close>,
  \<open>engine/runHistoryTracker.ts\<close>, \<open>engine/runtimeDependenciesCompat.ts\<close> and
  \<open>engine/coordinationRuntime.ts\<close>: the operations of the coordination runtime over its state,
  the durable world, the admissions, the optional run history and the id generator.
\<close>

section \<open>Configuration and state (runtimeDependencies.ts)\<close>

text \<open>
  The schema context is asked for at every admission; a holder may look at the durable head
  and may throw.
\<close>

record 'g runtime_config =
  cf_gateway :: gateway_config
  cf_schemaContext :: "memory_durable \<Rightarrow> string + active_schema_context"
  cf_handlers :: handler_registry
  cf_idGen :: "'g id_generator"
  cf_content :: "content_authority option"
  cf_collation :: locale_compare

record 'g runtime_state =
  rt_durable :: memory_durable
  rt_admission :: admission_state
  rt_history :: "run_history option"
  rt_ids :: 'g

section \<open>Static schema wiring (runtimeDependenciesCompat.ts, schemaContextProvider.ts)\<close>

definition UNSEEDED_EPOCH_ID :: epoch_id where
  "UNSEEDED_EPOCH_ID = ''unseeded''"

definition headEpochId :: "memory_durable \<Rightarrow> epoch_id option" where
  "headEpochId d =
     (case durable_head d of
        None \<Rightarrow> None
      | Some h \<Rightarrow> map_option sn_epochId (durable_get d h))"

definition static_schema_context ::
  "orchestration_schema \<Rightarrow> epoch_id \<Rightarrow> epoch_id list \<Rightarrow> memory_durable \<Rightarrow> string + active_schema_context" where
  "static_schema_context s active aliases d =
     (let compatible = new_Set (active # aliases); head = headEpochId d
      in case head of
           Some e \<Rightarrow>
             (if e \<notin> set compatible
              then Inl (''static schema epoch '' @ active @ '' is not bound to head snapshot epoch '' @ e)
              else Inr (createActiveSchemaContext s e None))
         | None \<Rightarrow> Inr (createActiveSchemaContext s active None))"

text \<open>The wiring itself refuses a head of an incompatible epoch.\<close>

definition runtimeDependenciesWithStaticSchema ::
  "orchestration_schema \<Rightarrow> epoch_id \<Rightarrow> epoch_id list \<Rightarrow> memory_durable \<Rightarrow>
    string + (memory_durable \<Rightarrow> string + active_schema_context)" where
  "runtimeDependenciesWithStaticSchema s active aliases d =
     (let schemaSnapshot = snapshotOrchestrationSchema s
      in case headEpochId d of
           Some e \<Rightarrow>
             (if e \<notin> set (new_Set (active # aliases))
              then Inl (''static schema epoch '' @ active @ '' is not bound to head snapshot epoch '' @ e @
                     ''; provide a governed schema resolver or an explicitly reviewed compatibleEpochIds migration'')
              else Inr (static_schema_context schemaSnapshot active aliases))
         | None \<Rightarrow> Inr (static_schema_context schemaSnapshot active aliases))"

section \<open>Run history (runHistoryTracker.ts)\<close>

definition recordObservation :: "observation_entry \<Rightarrow> run_history \<Rightarrow> run_history" where
  "recordObservation e h = appendObservationSegment h e"

definition recordChange :: "coordination_change \<Rightarrow> run_history \<Rightarrow> run_history" where
  "recordChange c h = appendRewriteSegment h c"

definition seedFromAuditTail :: "observation_entry list \<Rightarrow> run_history \<Rightarrow> run_history" where
  "seedFromAuditTail es h = fold recordObservation es h"

section \<open>Commit (commitChange.ts, applyChange.ts)\<close>

datatype commit_outcome =
    Committed (co_change: coordination_change) (co_after: snapshot) (co_committedChangeId: change_id)
  | CommitRefused runtime_violation
  | CommitThrew runtime_violation

definition applyAdmittedChange ::
  "admitted_record \<Rightarrow> handler_registry \<Rightarrow> runtime_violation + apply_result" where
  "applyAdmittedChange admitted registry =
     applyRecipe (ad_beforeSnapshot admitted) (ad_recipe admitted) registry \<lparr>ac_template = ad_template admitted\<rparr>"

definition validatePreCommit ::
  "locale_compare \<Rightarrow> memory_durable \<Rightarrow> run_history option \<Rightarrow> snapshot \<Rightarrow> coordination_change \<Rightarrow>
    runtime_violation option" where
  "validatePreCommit lc d history after change =
     or_else
       (case arr_last (durable_changes d) of
          None \<Rightarrow> None
        | Some previous \<Rightarrow>
            (if \<not> changeContinuesChain lc previous change (durable_get d)
             then Some (runtimeViolation CommitAtomicFailed ''change chain validation failed''
                    (no_details\<lparr>vd_expected := Some (cc_afterRef previous), vd_actual := Some (cc_beforeRef change),
                                vd_path := Some ''beforeRef''\<rparr>))
             else if cc_epochId change \<noteq> sn_epochId after
             then Some (runtimeViolation CommitAtomicFailed ''change epoch differs from snapshot epoch''
                    (no_details\<lparr>vd_expected := Some (sn_epochId after), vd_actual := Some (cc_epochId change),
                                vd_path := Some ''epochId''\<rparr>))
             else None))
       (case history of
          None \<Rightarrow> None
        | Some h \<Rightarrow>
            (case validateAuditTailMatchesHistory after h of
               Inl v \<Rightarrow> Some (runtimeViolation CommitAtomicFailed ''auditTail/history mismatch before commit''
                           (no_details\<lparr>vd_cause := Some v\<rparr>))
             | Inr _ \<Rightarrow> None))"

text \<open>The recipe that is applied and stored: fresh ids, and the time for a heartbeat.\<close>

definition commit_recipe ::
  "'g id_generator \<Rightarrow> timestamp \<Rightarrow> admitted_record \<Rightarrow> 'g \<Rightarrow> replay_recipe \<times> 'g" where
  "commit_recipe gen recordedAt admitted g =
     (let op = in_operationTypeId (ad_intent admitted)
      in case allocateFreshRefsForRecipe gen (ad_recipe admitted) op g of
           (r, g1) \<Rightarrow> ((if op = ''emit_heartbeat'' then withHeartbeatEmittedAt r recordedAt else r), g1))"

text \<open>From a successful application on: checks, the change, the durable commit.\<close>

definition commit_applied ::
  "'g runtime_config \<Rightarrow> timestamp \<Rightarrow> admitted_record \<Rightarrow> replay_recipe \<Rightarrow> snapshot \<Rightarrow> actor_ref list \<Rightarrow>
    memory_durable \<Rightarrow> run_history option \<Rightarrow> 'g \<Rightarrow>
    commit_outcome \<times> memory_durable \<times> run_history option \<times> 'g" where
  "commit_applied cf recordedAt admitted recipe applied involved d history g1 =
     (let intent = ad_intent admitted; op = in_operationTypeId intent
      in case validateCommitContentAvailability (ad_beforeSnapshot admitted) applied op (cf_content cf) of
           Some v \<Rightarrow> (CommitRefused v, d, history, g1)
         | None \<Rightarrow>
             (case ig_snapshotRef (cf_idGen cf) g1 of
                (afterRef, g2) \<Rightarrow>
                  (let after = withSnapshotRef applied afterRef
                   in case validateSnapshotIntegrity after of
                        Inl cause \<Rightarrow>
                          (CommitRefused (runtimeViolation ApplyFailed ''post-apply snapshot integrity failed''
                             (no_details\<lparr>vd_operationTypeId := Some op, vd_cause := Some cause\<rparr>)), d, history, g2)
                      | Inr _ \<Rightarrow>
                          (case evaluateEnsures after (in_matchBindings intent) (op_ensures (ad_template admitted)) of
                             Some c \<Rightarrow>
                               (CommitRefused (runtimeViolation ApplyFailed
                                  (''template ensure failed: '' @ condition_kind_name (tc_kind c))
                                  (no_details\<lparr>vd_operationTypeId := Some op,
                                              vd_path := Some (condition_kind_name (tc_kind c))\<rparr>)), d, history, g2)
                           | None \<Rightarrow>
                               (case ig_changeId (cf_idGen cf) g2 of
                                  (changeId, g3) \<Rightarrow>
                                    (let change = coordinationChangeFromCommit recipe changeId recordedAt
                                           (ad_beforeRef admitted) afterRef (in_initiator intent) involved
                                     in case validatePreCommit (cf_collation cf) d history after change of
                                          Some v \<Rightarrow> (CommitRefused v, d, history, g3)
                                        | None \<Rightarrow>
                                            (case durable_commit (cf_collation cf)
                                                    \<lparr>dc_expectedHead = ad_beforeRef admitted, dc_after = after,
                                                     dc_change = change, dc_recipe = recipe\<rparr> d of
                                               (Some reason, d') \<Rightarrow>
                                                 (CommitRefused (runtimeViolation CommitAtomicFailed reason no_details),
                                                  d', history, g3)
                                             | (None, d') \<Rightarrow>
                                                 (Committed change after changeId, d',
                                                  map_option (recordChange change) history, g3))))))))"

definition executeCommit ::
  "'g runtime_config \<Rightarrow> timestamp \<Rightarrow> admitted_record \<Rightarrow> memory_durable \<Rightarrow> run_history option \<Rightarrow> 'g \<Rightarrow>
    commit_outcome \<times> memory_durable \<times> run_history option \<times> 'g" where
  "executeCommit cf recordedAt admitted d history g =
     (case commit_recipe (cf_idGen cf) recordedAt admitted g of
        (replayAuthority, g1) \<Rightarrow>
          (case applyAdmittedChange (admitted\<lparr>ad_recipe := replayAuthority\<rparr>) (cf_handlers cf) of
             Inl v \<Rightarrow> (CommitThrew v, d, history, g1)
           | Inr (ApplyFail reason) \<Rightarrow>
               (CommitRefused (runtimeViolation ApplyFailed reason
                  (no_details\<lparr>vd_operationTypeId := Some (in_operationTypeId (ad_intent admitted))\<rparr>)), d, history, g1)
           | Inr (ApplyOk applied involved sessions) \<Rightarrow>
               commit_applied cf recordedAt admitted replayAuthority applied involved d history g1))"

text \<open>
  The readings of a commit: the registry's and the lock table's clock, then the runtime's
  clock. The lock is released and the ticket consumed in a \<open>finally\<close>.
\<close>

definition runtime_commit ::
  "'g runtime_config \<Rightarrow> millis \<Rightarrow> millis \<Rightarrow> timestamp \<Rightarrow> admission_ticket \<Rightarrow> 'g runtime_state \<Rightarrow>
    commit_outcome \<times> 'g runtime_state" where
  "runtime_commit cf now now' recordedAt ticket st =
     (case resolveForCommit now now' ticket (durable_head (rt_durable st)) (rt_admission st) of
        (Inl e, ast) \<Rightarrow>
          (CommitRefused (runtimeViolation AdmissionRejected
             (''admission ticket invalid: '' @ registry_error_kind e) no_details),
           st\<lparr>rt_admission := registry_cancel ticket ast\<rparr>)
      | (Inr admitted, ast) \<Rightarrow>
          (case executeCommit cf recordedAt admitted (rt_durable st) (rt_history st) (rt_ids st) of
             (outcome, d, h, g) \<Rightarrow>
               (outcome,
                st\<lparr>rt_durable := d, rt_history := h, rt_ids := g,
                   rt_admission := registry_consume ticket
                     (ast\<lparr>as_locks := release_lock (ad_admittedId admitted) (as_locks ast)\<rparr>)\<rparr>)))"

section \<open>Observation (ingestObservation.ts)\<close>

record observe_input =
  ov_source :: actor_ref
  ov_payloadRef :: content_ref
  ov_receivedAt :: "timestamp option"

datatype observe_outcome =
    Observed (ov_snapshot: snapshot) (ov_entry: observation_entry)
  | ObserveRefused runtime_violation
  | ObserveThrew core_violation

text \<open>Only the answer \<open>true\<close> of a present authority makes a payload available.\<close>

definition payload_available :: "content_authority option \<Rightarrow> content_ref \<Rightarrow> bool" where
  "payload_available authority r = (case authority of None \<Rightarrow> False | Some av \<Rightarrow> av r = Some True)"

definition ingestObservation ::
  "'g id_generator \<Rightarrow> timestamp \<Rightarrow> observe_input \<Rightarrow> actor_ref \<Rightarrow> content_authority option \<Rightarrow>
    memory_durable \<Rightarrow> 'g \<Rightarrow> observe_outcome \<times> memory_durable \<times> 'g" where
  "ingestObservation gen now inp caller authority d g =
     (case validateObservePrincipal (ov_source inp) caller of
        Some e \<Rightarrow> (ObserveRefused (runtimeViolation ObserveInvalid (principal_error_kind e) no_details), d, g)
      | None \<Rightarrow>
     (if \<not> payload_available authority (ov_payloadRef inp)
      then (ObserveRefused (runtimeViolation ContentRefUnavailable
              (''observation payload content is unavailable: '' @ ov_payloadRef inp) no_details), d, g)
      else case durable_head d of
        None \<Rightarrow> (ObserveRefused (runtimeViolation ObserveInvalid ''no head snapshot to observe against'' no_details), d, g)
      | Some expectedHead \<Rightarrow>
     (case durable_get d expectedHead of
        None \<Rightarrow> (ObserveRefused (runtimeViolation ObserveInvalid (''head snapshot missing: '' @ expectedHead) no_details), d, g)
      | Some snap \<Rightarrow>
     (case appendObservation snap (ov_source inp) (ov_payloadRef inp) (opt_default now (ov_receivedAt inp)) of
        Inl v \<Rightarrow> (ObserveThrew v, d, g)
      | Inr appended \<Rightarrow>
     (case ig_snapshotRef gen g of
        (nextRef, g') \<Rightarrow>
          (let nxt = withSnapshotRef appended nextRef
           in case validateSnapshotIntegrity nxt of
                Inl v \<Rightarrow>
                  (ObserveRefused (runtimeViolation ObserveInvalid
                     (''observation produced invalid snapshot: '' @ cv_message v) no_details), d, g')
              | Inr _ \<Rightarrow>
                  (case durable_cas expectedHead nxt d of
                     (False, d') \<Rightarrow>
                       (ObserveRefused (runtimeViolation ObserveInvalid
                          ''head changed during observation ingest'' no_details), d', g')
                   | (True, d') \<Rightarrow>
                       (case arr_last (sn_auditTail nxt) of
                          None \<Rightarrow>
                            (ObserveRefused (runtimeViolation ObserveInvalid
                               ''missing audit tail entry after observe'' no_details), d', g')
                        | Some entry \<Rightarrow> (Observed nxt entry, d', g')))))))))"

section \<open>The runtime (coordinationRuntime.ts)\<close>

definition getHead :: "'g runtime_state \<Rightarrow> snapshot option" where
  "getHead st =
     (case durable_head (rt_durable st) of None \<Rightarrow> None | Some h \<Rightarrow> durable_get (rt_durable st) h)"

definition runtime_changes :: "'g runtime_config \<Rightarrow> snapshot_ref option \<Rightarrow> 'g runtime_state \<Rightarrow> change_log option" where
  "runtime_changes cf since st =
     (case since of
        None \<Rightarrow> Some (durable_changes (rt_durable st))
      | Some r \<Rightarrow> durable_since (cf_collation cf) r (rt_durable st))"

definition runtime_observe ::
  "'g runtime_config \<Rightarrow> timestamp \<Rightarrow> observe_input \<Rightarrow> actor_ref option \<Rightarrow> 'g runtime_state \<Rightarrow>
    observe_outcome \<times> 'g runtime_state" where
  "runtime_observe cf now inp caller st =
     (case caller of
        None \<Rightarrow> (ObserveRefused (runtimeViolation ObserveInvalid
                   ''principal required for observation ingest'' no_details), st)
      | Some p \<Rightarrow>
          (case ingestObservation (cf_idGen cf) now inp p (cf_content cf) (rt_durable st) (rt_ids st) of
             (Observed s e, d, g) \<Rightarrow>
               (Observed s e, st\<lparr>rt_durable := d, rt_ids := g, rt_history := map_option (recordObservation e) (rt_history st)\<rparr>)
           | (ObserveRefused v, d, g) \<Rightarrow> (ObserveRefused v, st\<lparr>rt_durable := d, rt_ids := g\<rparr>)
           | (ObserveThrew v, d, g) \<Rightarrow> (ObserveThrew v, st\<lparr>rt_durable := d, rt_ids := g\<rparr>)))"

datatype admit_outcome = AdmitThrew string | AdmitResult admission_result

definition runtime_admit ::
  "'g runtime_config \<Rightarrow> three_readings \<Rightarrow> coordination_intent \<Rightarrow> snapshot_ref option \<Rightarrow> actor_ref option \<Rightarrow>
    'g runtime_state \<Rightarrow> admit_outcome \<times> 'g runtime_state" where
  "runtime_admit cf readings intent beforeRef caller st =
     (case cf_schemaContext cf (rt_durable st) of
        Inl e \<Rightarrow> (AdmitThrew e, st)
      | Inr ctx \<Rightarrow>
          (case admit (cf_gateway cf) ctx (durable_get (rt_durable st)) (durable_head (rt_durable st)) readings
                  \<lparr>ai_intent = intent, ai_beforeRef = beforeRef,
                   ai_principal = opt_default (in_initiator intent) caller\<rparr> (rt_admission st) of
             (r, ast) \<Rightarrow> (AdmitResult r, st\<lparr>rt_admission := ast\<rparr>)))"

definition runtime_admitComposition ::
  "'g runtime_config \<Rightarrow> three_readings \<Rightarrow> composition_intent \<Rightarrow> snapshot_ref option \<Rightarrow> actor_ref option \<Rightarrow>
    'g runtime_state \<Rightarrow> admit_outcome \<times> 'g runtime_state" where
  "runtime_admitComposition cf readings composition beforeRef caller st =
     runtime_admit cf readings (coordinationIntentFromComposition composition) beforeRef
       (Some (opt_default (co_initiator composition) caller)) st"

definition cancelAdmission :: "admission_ticket \<Rightarrow> 'g runtime_state \<Rightarrow> 'g runtime_state" where
  "cancelAdmission ticket st = st\<lparr>rt_admission := registry_cancel ticket (rt_admission st)\<rparr>"

datatype propose_outcome = ProposeAdmission admit_outcome | ProposeCommit commit_outcome

definition proposeAndCommit ::
  "'g runtime_config \<Rightarrow> three_readings \<Rightarrow> millis \<Rightarrow> millis \<Rightarrow> timestamp \<Rightarrow> coordination_intent \<Rightarrow>
    snapshot_ref option \<Rightarrow> actor_ref option \<Rightarrow> 'g runtime_state \<Rightarrow> propose_outcome \<times> 'g runtime_state" where
  "proposeAndCommit cf readings now now' recordedAt intent beforeRef caller st =
     (case runtime_admit cf readings intent beforeRef caller st of
        (AdmitResult (Admitted ticket), st1) \<Rightarrow>
          (case runtime_commit cf now now' recordedAt ticket st1 of (o1, st2) \<Rightarrow> (ProposeCommit o1, st2))
      | (r, st1) \<Rightarrow> (ProposeAdmission r, st1))"

end
