(* ===== verification/Runtime_Epoch.thy ===== *)
theory Runtime_Epoch
  imports Runtime_Commit
begin

text \<open>
  \<open>packages/runtime/src/engine/memoryEpochAdministration.ts\<close> with its port and
  \<open>engine/schemaContextProvider.ts\<close>: replacing the schema of a running system by a prepared and
  then committed epoch transition, and adopting a committed transition again.

  A preparation inspects the runtime, waits for one turn of the event loop and goes on: it is two
  steps, and anything may happen between them. Commit and recovery are one step each. The schema
  resolver may answer differently every time, so each step takes it as an argument, like every
  reading of a clock. The content digest, \<open>Date.toISOString\<close> and \<open>Date.parse\<close> are parameters.
\<close>

section \<open>Data (runtimeEpochAdministration.ts)\<close>

record activation_state =
  av_domainId :: string
  av_binding :: schema_epoch_binding
  av_head :: snapshot_ref
  av_snapshot :: snapshot
  av_resourcesClear :: bool
  av_sessionsQuiescent :: bool
  av_activeAdmissions :: nat

record epoch_request =
  eq_admissionId :: string
  eq_domainId :: string
  eq_expectedBindingGeneration :: int
  eq_expectedHead :: snapshot_ref
  eq_expectedEpochId :: epoch_id
  eq_expectedEpochOrdinal :: int
  eq_targetSchemaRef :: schema_ref
  eq_targetEpochId :: epoch_id
  eq_targetEpochOrdinal :: int
  eq_planDigest :: string

record prepared_token =
  pt_preparedId :: string
  pt_planDigest :: string
  pt_issuedAt :: string
  pt_expiresAt :: string

record epoch_receipt =
  er_admissionId :: string
  er_beforeSnapshotRef :: snapshot_ref
  er_afterSnapshotRef :: snapshot_ref
  er_fromBinding :: schema_epoch_binding
  er_toBinding :: schema_epoch_binding

record prepared_record =
  pp_request :: epoch_request
  pp_prepared :: prepared_token
  pp_afterRef :: snapshot_ref
  pp_toBinding :: schema_epoch_binding
  pp_targetSchema :: orchestration_schema
  pp_targetContext :: active_schema_context

record journal_entry =
  je_receipt :: epoch_receipt
  je_prepared :: prepared_token
  je_request :: epoch_request
  je_targetSchema :: orchestration_schema

text \<open>What a resolver answers: nothing, something that is no schema, or a schema.\<close>

datatype resolution = Unresolved | Malformed | Resolved orchestration_schema

type_synonym schema_resolver = "schema_ref \<Rightarrow> resolution"

record epoch_deps =
  ed_domainId :: string
  ed_preparationTtlMs :: "millis option"
  ed_contentDigest :: "orchestration_schema \<Rightarrow> string"
  ed_collation :: locale_compare
  ed_toISOString :: "millis \<Rightarrow> string"
  ed_parse :: "string \<Rightarrow> millis option"

record epoch_admin =
  ea_prepared :: "(string, prepared_record) jsmap"
  ea_committed :: "(string, journal_entry) jsmap"
  ea_context :: active_schema_context
  ea_binding :: schema_epoch_binding

text \<open>A runtime and the administration of its epochs.\<close>

record 'g governed =
  gv_runtime :: "'g runtime_state"
  gv_admin :: epoch_admin

section \<open>Copies\<close>

definition snapshotEpochTransitionRequest :: "epoch_request \<Rightarrow> epoch_request" where
  "snapshotEpochTransitionRequest r =
     \<lparr>eq_admissionId = eq_admissionId r, eq_domainId = eq_domainId r,
      eq_expectedBindingGeneration = eq_expectedBindingGeneration r, eq_expectedHead = eq_expectedHead r,
      eq_expectedEpochId = eq_expectedEpochId r, eq_expectedEpochOrdinal = eq_expectedEpochOrdinal r,
      eq_targetSchemaRef = eq_targetSchemaRef r, eq_targetEpochId = eq_targetEpochId r,
      eq_targetEpochOrdinal = eq_targetEpochOrdinal r, eq_planDigest = eq_planDigest r\<rparr>"

definition snapshotPreparedEpochTransition :: "prepared_token \<Rightarrow> prepared_token" where
  "snapshotPreparedEpochTransition p =
     \<lparr>pt_preparedId = pt_preparedId p, pt_planDigest = pt_planDigest p,
      pt_issuedAt = pt_issuedAt p, pt_expiresAt = pt_expiresAt p\<rparr>"

definition snapshotRuntimeEpochReceipt :: "epoch_receipt \<Rightarrow> epoch_receipt" where
  "snapshotRuntimeEpochReceipt r =
     \<lparr>er_admissionId = er_admissionId r, er_beforeSnapshotRef = er_beforeSnapshotRef r,
      er_afterSnapshotRef = er_afterSnapshotRef r,
      er_fromBinding = snapshotSchemaEpochBinding (er_fromBinding r),
      er_toBinding = snapshotSchemaEpochBinding (er_toBinding r)\<rparr>"

definition snapshotActiveSchemaContext :: "active_schema_context \<Rightarrow> active_schema_context" where
  "snapshotActiveSchemaContext c = createActiveSchemaContext (ax_schema c) (ax_epochId c) (ax_binding c)"

definition snapshotResolvedSchema :: "resolution \<Rightarrow> orchestration_schema option" where
  "snapshotResolvedSchema r = (case r of Resolved s \<Rightarrow> Some (snapshotOrchestrationSchema s) | _ \<Rightarrow> None)"

section \<open>Equality of schemas\<close>

text \<open>\<open>isDeepStrictEqual\<close> on objects used as dictionaries does not look at the order of the keys.\<close>

definition same_entries :: "('k, 'v) jsmap \<Rightarrow> ('k, 'v) jsmap \<Rightarrow> bool" where
  "same_entries m n = (length m = length n \<and> list_all (\<lambda>(k, v). map_get n k = Some v) m)"

definition conditions_equal :: "template_condition list \<Rightarrow> template_condition list \<Rightarrow> bool" where
  "conditions_equal = list_all2 (\<lambda>l r. tc_kind l = tc_kind r \<and> same_entries (tc_bindings l) (tc_bindings r))"

definition object_types_equal :: "object_type_declaration \<Rightarrow> object_type_declaration \<Rightarrow> bool" where
  "object_types_equal l r =
     (ob_objectTypeId l = ob_objectTypeId r \<and> ob_structuralMode l = ob_structuralMode r \<and>
      ob_codecRef l = ob_codecRef r \<and> ob_description l = ob_description r \<and>
      same_entries (ob_metadata l) (ob_metadata r))"

definition port_contracts_equal :: "port_contract \<Rightarrow> port_contract \<Rightarrow> bool" where
  "port_contracts_equal l r =
     (pk_inputs l = pk_inputs r \<and> pk_outputs l = pk_outputs r \<and>
      conditions_equal (pk_requires l) (pk_requires r) \<and> conditions_equal (pk_ensures l) (pk_ensures r))"

definition operation_types_equal :: "operation_type_declaration \<Rightarrow> operation_type_declaration \<Rightarrow> bool" where
  "operation_types_equal l r =
     (od_operationTypeId l = od_operationTypeId r \<and> od_templateRef l = od_templateRef r \<and>
      port_contracts_equal (od_portContract l) (od_portContract r) \<and> od_requiredRoles l = od_requiredRoles r \<and>
      od_defaultVisibility l = od_defaultVisibility r \<and> od_mayCreateSessions l = od_mayCreateSessions r)"

definition templates_equal :: "operation_template \<Rightarrow> operation_template \<Rightarrow> bool" where
  "templates_equal l r =
     (op_operationTypeId l = op_operationTypeId r \<and> op_templateRef l = op_templateRef r \<and>
      op_description l = op_description r \<and> op_requiredRoles l = op_requiredRoles r \<and>
      conditions_equal (op_requires l) (op_requires r) \<and> conditions_equal (op_ensures l) (op_ensures r) \<and>
      op_defaultVisibility l = op_defaultVisibility r \<and> op_mayCreateSessions l = op_mayCreateSessions r)"

definition schemasEqual :: "locale_compare \<Rightarrow> orchestration_schema \<Rightarrow> orchestration_schema \<Rightarrow> bool" where
  "schemasEqual lc l r =
     (os_schemaId l = os_schemaId r \<and> os_wireVersion l = os_wireVersion r \<and>
      list_all2 (\<lambda>(i, d) (j, e). i = j \<and> object_types_equal d e)
        (sortedEntries lc (os_objectTypes l)) (sortedEntries lc (os_objectTypes r)) \<and>
      list_all2 (\<lambda>(i, d) (j, e). i = j \<and> operation_types_equal d e)
        (sortedEntries lc (os_operationTypes l)) (sortedEntries lc (os_operationTypes r)) \<and>
      list_all2 templates_equal (os_templates l) (os_templates r) \<and>
      os_resourceRules l = os_resourceRules r)"

section \<open>Validation of a resolved schema\<close>

fun template_key_loop :: "operation_template list \<Rightarrow> string list \<Rightarrow> runtime_violation + string list" where
  "template_key_loop [] keys = Inr keys"
| "template_key_loop (t # ts) keys =
     (if ot_operationTypeId (op_templateRef t) \<noteq> op_operationTypeId t
      then Inl (runtimeViolation AdmissionRejected ''resolved schema template identity is inconsistent''
             (no_details\<lparr>vd_path := Some (''schema.templates.'' @ op_operationTypeId t)\<rparr>))
      else let key = op_operationTypeId t @ ''@'' @ ot_revision (op_templateRef t)
           in if key \<in> set keys
              then Inl (runtimeViolation AdmissionRejected ''resolved schema contains duplicate template''
                     (no_details\<lparr>vd_path := Some (''schema.templates.'' @ key)\<rparr>))
              else template_key_loop ts (set_add key keys))"

fun declaration_loop ::
  "(operation_type_id \<times> operation_type_declaration) list \<Rightarrow> string list \<Rightarrow> runtime_violation option" where
  "declaration_loop [] keys = None"
| "declaration_loop ((i, d) # ds) keys =
     (if od_operationTypeId d \<noteq> i \<or> ot_operationTypeId (od_templateRef d) \<noteq> i
      then Some (runtimeViolation AdmissionRejected ''resolved schema operation declaration identity is inconsistent''
             (no_details\<lparr>vd_operationTypeId := Some i, vd_path := Some (''schema.operationTypes.'' @ i)\<rparr>))
      else if i @ ''@'' @ ot_revision (od_templateRef d) \<notin> set keys
      then Some (runtimeViolation TemplateNotFound ''resolved schema operation declaration has no matching template''
             (no_details\<lparr>vd_operationTypeId := Some i,
                vd_path := Some (''schema.operationTypes.'' @ i @ ''.templateRef'')\<rparr>))
      else declaration_loop ds keys)"

definition validateResolvedSchema ::
  "epoch_deps \<Rightarrow> schema_ref \<Rightarrow> orchestration_schema \<Rightarrow> runtime_violation option" where
  "validateResolvedSchema deps ref s =
     (if os_schemaId s \<noteq> sr_schemaId ref
      then Some (runtimeViolation TemplateNotFound ''resolved schema id does not match target ref''
             (no_details\<lparr>vd_expected := Some (sr_schemaId ref), vd_actual := Some (os_schemaId s),
                vd_path := Some ''targetSchemaRef.schemaId''\<rparr>))
      else let actual = ed_contentDigest deps s
      in if actual \<noteq> sr_digest ref
      then Some (runtimeViolation AdmissionRejected ''resolved schema digest does not match target ref''
             (no_details\<lparr>vd_expected := Some (sr_digest ref), vd_actual := Some actual,
                vd_path := Some ''targetSchemaRef.digest''\<rparr>))
      else if \<not> isSafeInteger (Fin (of_int (os_wireVersion s))) \<or> os_wireVersion s < 1
      then Some (runtimeViolation AdmissionRejected ''resolved schema has invalid wire version''
             (no_details\<lparr>vd_actual := Some (show_int (os_wireVersion s)), vd_path := Some ''schema.wireVersion''\<rparr>))
      else case template_key_loop (os_templates s) [] of
             Inl v \<Rightarrow> Some v
           | Inr keys \<Rightarrow> declaration_loop (os_operationTypes s) keys)"

definition preparedTokensEqual :: "prepared_token \<Rightarrow> prepared_token \<Rightarrow> bool" where
  "preparedTokensEqual l r =
     (pt_preparedId l = pt_preparedId r \<and> pt_planDigest l = pt_planDigest r \<and>
      pt_issuedAt l = pt_issuedAt r \<and> pt_expiresAt l = pt_expiresAt r)"

section \<open>Validation of the runtime\<close>

definition conflict :: "string \<Rightarrow> runtime_violation option" where
  "conflict message = Some (runtimeViolation ResourceConflict message no_details)"

definition validatePrepareState :: "activation_state \<Rightarrow> epoch_request \<Rightarrow> runtime_violation option" where
  "validatePrepareState s r =
     (if av_head s \<noteq> eq_expectedHead r
      then Some (runtimeViolation ReplayMismatch ''runtime head changed during prepare'' no_details)
      else if sb_bindingGeneration (av_binding s) \<noteq> eq_expectedBindingGeneration r
      then conflict ''stale binding generation''
      else if sn_epochId (av_snapshot s) \<noteq> eq_expectedEpochId r then conflict ''expected epoch mismatch''
      else if sb_epochId (av_binding s) \<noteq> eq_expectedEpochId r then conflict ''active binding epoch mismatch''
      else if sb_epochOrdinal (av_binding s) \<noteq> eq_expectedEpochOrdinal r
      then conflict ''expected epoch ordinal mismatch''
      else if \<not> av_resourcesClear s then conflict ''resources not clear''
      else if \<not> av_sessionsQuiescent s then conflict ''sessions not quiescent''
      else if av_activeAdmissions s \<noteq> 0 then conflict ''active admissions prevent epoch prepare''
      else if eq_targetEpochOrdinal r \<le> sb_epochOrdinal (av_binding s) then conflict ''epoch ordinal must advance''
      else if eq_targetEpochId r = sb_epochId (av_binding s) then conflict ''target epoch id must advance''
      else None)"

definition sessionsQuiescent :: "snapshot \<Rightarrow> bool" where
  "sessionsQuiescent s = (length (sn_sessions s) = 0)"

text \<open>The lock table drops what has expired when it is asked how many locks are held.\<close>

definition resourcesClear :: "millis \<Rightarrow> 'g runtime_state \<Rightarrow> bool \<times> 'g runtime_state" where
  "resourcesClear now st =
     (case heldLockCount now (as_locks (rt_admission st)) of
        (n, locks) \<Rightarrow> (n = 0, st\<lparr>rt_admission := (rt_admission st)\<lparr>as_locks := locks\<rparr>\<rparr>))"

definition count_admissions :: "(nat \<Rightarrow> millis) \<Rightarrow> 'g runtime_state \<Rightarrow> nat \<times> 'g runtime_state" where
  "count_admissions now st =
     (case activeCount now (rt_admission st) of (n, ast) \<Rightarrow> (n, st\<lparr>rt_admission := ast\<rparr>))"

definition validateCommitState ::
  "prepared_record \<Rightarrow> snapshot \<Rightarrow> schema_epoch_binding \<Rightarrow> millis \<Rightarrow> (nat \<Rightarrow> millis) \<Rightarrow> 'g runtime_state \<Rightarrow>
    runtime_violation option \<times> 'g runtime_state" where
  "validateCommitState record before current now nows st =
     (if sb_bindingGeneration current \<noteq> eq_expectedBindingGeneration (pp_request record)
      then (conflict ''binding changed before commit'', st)
      else if sb_epochId current \<noteq> eq_expectedEpochId (pp_request record) \<or>
              sb_epochOrdinal current \<noteq> eq_expectedEpochOrdinal (pp_request record) \<or>
              sn_epochId before \<noteq> eq_expectedEpochId (pp_request record)
      then (conflict ''epoch changed before commit'', st)
      else case resourcesClear now st of
             (False, st1) \<Rightarrow> (conflict ''runtime is not quiescent at commit'', st1)
           | (True, st1) \<Rightarrow>
               (case count_admissions nows st1 of
                  (n, st2) \<Rightarrow>
                    (if n \<noteq> 0 then (conflict ''runtime is not quiescent at commit'', st2)
                     else if \<not> sessionsQuiescent before
                     then (conflict ''sessions not quiescent at commit'', st2)
                     else (None, st2))))"

definition resolveUnchangedTargetSchema ::
  "epoch_deps \<Rightarrow> schema_resolver \<Rightarrow> prepared_record \<Rightarrow> runtime_violation option" where
  "resolveUnchangedTargetSchema deps resolve record =
     (let ref = eq_targetSchemaRef (pp_request record)
      in case resolve ref of
           Unresolved \<Rightarrow> Some (runtimeViolation TemplateNotFound ''target schema missing at commit'' no_details)
         | resolved \<Rightarrow>
             (case snapshotResolvedSchema resolved of
                None \<Rightarrow> Some (runtimeViolation AdmissionRejected ''target schema cannot be cached'' no_details)
              | Some target \<Rightarrow>
                  (case validateResolvedSchema deps ref target of
                     Some v \<Rightarrow> Some v
                   | None \<Rightarrow>
                       (if \<not> schemasEqual (ed_collation deps) target (pp_targetSchema record)
                        then Some (runtimeViolation AdmissionRejected ''target schema changed after prepare'' no_details)
                        else None))))"

section \<open>Holders (schemaContextProvider.ts)\<close>

definition holder_set_context :: "active_schema_context \<Rightarrow> epoch_admin \<Rightarrow> epoch_admin" where
  "holder_set_context c adm = adm\<lparr>ea_context := snapshotActiveSchemaContext c\<rparr>"

definition holder_set_binding :: "schema_epoch_binding \<Rightarrow> epoch_admin \<Rightarrow> epoch_admin" where
  "holder_set_binding b adm = adm\<lparr>ea_binding := snapshotSchemaEpochBinding b\<rparr>"

text \<open>A fresh administration, over holders made from a context and a binding.\<close>

definition createMemoryEpochAdministration :: "active_schema_context \<Rightarrow> schema_epoch_binding \<Rightarrow> epoch_admin" where
  "createMemoryEpochAdministration c b =
     \<lparr>ea_prepared = [], ea_committed = [], ea_context = snapshotActiveSchemaContext c,
      ea_binding = snapshotSchemaEpochBinding b\<rparr>"

text \<open>
  The context a runtime works with is fixed or read from the holder, at every admission anew.
\<close>

datatype context_source = FixedContext active_schema_context | ContextHolder epoch_admin

definition resolveActiveSchemaContext :: "context_source \<Rightarrow> active_schema_context" where
  "resolveActiveSchemaContext candidate =
     (case candidate of ContextHolder adm \<Rightarrow> ea_context adm | FixedContext c \<Rightarrow> c)"

definition held_context :: "epoch_admin \<Rightarrow> memory_durable \<Rightarrow> string + active_schema_context" where
  "held_context adm d = Inr (resolveActiveSchemaContext (ContextHolder adm))"

section \<open>Preparation\<close>

definition preparation_expired :: "epoch_deps \<Rightarrow> millis \<Rightarrow> prepared_record \<Rightarrow> bool" where
  "preparation_expired deps now record =
     (case ed_parse deps (pt_expiresAt (pp_prepared record)) of None \<Rightarrow> False | Some t \<Rightarrow> now > t)"

definition pruneExpiredPreparations :: "epoch_deps \<Rightarrow> millis \<Rightarrow> epoch_admin \<Rightarrow> epoch_admin" where
  "pruneExpiredPreparations deps now adm =
     adm\<lparr>ea_prepared := fold (\<lambda>(i, record) m. if preparation_expired deps now record then map_delete i m else m)
       (ea_prepared adm) (ea_prepared adm)\<rparr>"

text \<open>The readings of the clock in the order an operation makes them.\<close>

record epoch_readings =
  rd_first :: millis
  rd_prune :: millis
  rd_locks :: millis
  rd_records :: "nat \<Rightarrow> millis"

definition inspectActivationPoint ::
  "epoch_deps \<Rightarrow> epoch_readings \<Rightarrow> string \<Rightarrow> 'g governed \<Rightarrow>
    (runtime_violation + activation_state) \<times> 'g governed" where
  "inspectActivationPoint deps rd domain gv =
     (let gv0 = gv\<lparr>gv_admin := pruneExpiredPreparations deps (rd_prune rd) (gv_admin gv)\<rparr>;
          d = rt_durable (gv_runtime gv)
      in if domain \<noteq> ed_domainId deps
         then (Inl (runtimeViolation ResourceConflict ''unknown activation domain'' no_details), gv0)
         else case durable_head d of
                None \<Rightarrow> (Inl (runtimeViolation ReplayMismatch ''runtime head missing'' no_details), gv0)
              | Some head \<Rightarrow>
                  (case durable_get d head of
                     None \<Rightarrow> (Inl (runtimeViolation ReplayMismatch ''head snapshot missing'' no_details), gv0)
                   | Some s \<Rightarrow>
                       (case resourcesClear (rd_locks rd) (gv_runtime gv0) of
                          (clear, st1) \<Rightarrow>
                            (case count_admissions (rd_records rd) st1 of
                               (n, st2) \<Rightarrow>
                                 (Inr \<lparr>av_domainId = domain, av_binding = ea_binding (gv_admin gv0), av_head = head,
                                    av_snapshot = s, av_resourcesClear = clear,
                                    av_sessionsQuiescent = sessionsQuiescent s,
                                    av_activeAdmissions = n + length (ea_prepared (gv_admin gv0))\<rparr>,
                                  gv0\<lparr>gv_runtime := st2\<rparr>)))))"

text \<open>A preparation is answered at once, or it goes on with the inspected state after the wait.\<close>

datatype preparation = Answered "runtime_violation + prepared_token" | Waiting epoch_request activation_state

definition prepareEpochTransition ::
  "epoch_deps \<Rightarrow> epoch_readings \<Rightarrow> epoch_request \<Rightarrow> 'g governed \<Rightarrow> preparation \<times> 'g governed" where
  "prepareEpochTransition deps rd request gv =
     (let gv0 = gv\<lparr>gv_admin := pruneExpiredPreparations deps (rd_first rd) (gv_admin gv)\<rparr>;
          req = snapshotEpochTransitionRequest request;
          preparedId = ''prep-'' @ eq_admissionId req
      in case map_get (ea_prepared (gv_admin gv0)) preparedId of
           Some existing \<Rightarrow>
             (Answered (if pp_request existing = req then Inr (snapshotPreparedEpochTransition (pp_prepared existing))
                        else Inl (runtimeViolation AdmissionRejected ''conflicting epoch preparation retry'' no_details)), gv0)
         | None \<Rightarrow>
             (case map_get (ea_committed (gv_admin gv0)) (eq_admissionId req) of
                Some existing \<Rightarrow>
                  (Answered (if je_request existing = req then Inr (snapshotPreparedEpochTransition (je_prepared existing))
                             else Inl (runtimeViolation AdmissionRejected ''conflicting committed epoch retry'' no_details)), gv0)
              | None \<Rightarrow>
                  (case inspectActivationPoint deps rd (eq_domainId req) gv0 of
                     (Inl v, gv1) \<Rightarrow> (Answered (Inl v), gv1)
                   | (Inr state, gv1) \<Rightarrow> (Waiting req state, gv1))))"

definition advanced_binding ::
  "epoch_request \<Rightarrow> snapshot_ref \<Rightarrow> string \<Rightarrow> schema_epoch_binding \<Rightarrow> schema_epoch_binding" where
  "advanced_binding req afterRef t current =
     snapshotSchemaEpochBinding (current\<lparr>sb_bindingGeneration := sb_bindingGeneration current + 1,
       sb_epochId := eq_targetEpochId req, sb_epochOrdinal := eq_targetEpochOrdinal req,
       sb_schemaRef := eq_targetSchemaRef req, sb_runtimeHead := afterRef, sb_admissionId := eq_admissionId req,
       sb_previousBindingGeneration := Some (sb_bindingGeneration current),
       sb_activatedBy := ''runtime-epoch-admin'', sb_activatedAt := t\<rparr>)"

definition finishPreparation ::
  "epoch_deps \<Rightarrow> 'g id_generator \<Rightarrow> schema_resolver \<Rightarrow> millis \<Rightarrow> epoch_request \<Rightarrow> activation_state \<Rightarrow> 'g governed \<Rightarrow>
    (runtime_violation + prepared_token) \<times> 'g governed" where
  "finishPreparation deps gen resolve now req state gv =
     (let current = ea_binding (gv_admin gv)
      in case validatePrepareState state req of
           Some v \<Rightarrow> (Inl v, gv)
         | None \<Rightarrow>
      (case resolve (eq_targetSchemaRef req) of
         Unresolved \<Rightarrow> (Inl (runtimeViolation TemplateNotFound ''target schema not found'' no_details), gv)
       | resolved \<Rightarrow>
      (case snapshotResolvedSchema resolved of
         None \<Rightarrow> (Inl (runtimeViolation AdmissionRejected ''target schema cannot be cached'' no_details), gv)
       | Some cached \<Rightarrow>
      (case validateResolvedSchema deps (eq_targetSchemaRef req) cached of
         Some v \<Rightarrow> (Inl v, gv)
       | None \<Rightarrow>
      (case ig_snapshotRef gen (rt_ids (gv_runtime gv)) of
         (afterRef, g) \<Rightarrow>
           (let token = snapshotPreparedEpochTransition
                  \<lparr>pt_preparedId = ''prep-'' @ eq_admissionId req, pt_planDigest = eq_planDigest req,
                   pt_issuedAt = ed_toISOString deps now,
                   pt_expiresAt = ed_toISOString deps (now + opt_default 60000 (ed_preparationTtlMs deps))\<rparr>;
                toBinding = advanced_binding req afterRef (ed_toISOString deps now) current;
                record = \<lparr>pp_request = req, pp_prepared = token, pp_afterRef = afterRef, pp_toBinding = toBinding,
                   pp_targetSchema = cached,
                   pp_targetContext = createActiveSchemaContext cached (eq_targetEpochId req) (Some toBinding)\<rparr>
            in (Inr (snapshotPreparedEpochTransition token),
                gv\<lparr>gv_runtime := (gv_runtime gv)\<lparr>rt_ids := g\<rparr>,
                   gv_admin := (gv_admin gv)\<lparr>ea_prepared :=
                     map_set (pt_preparedId token) record (ea_prepared (gv_admin gv))\<rparr>\<rparr>)))))))"

section \<open>Commit\<close>

text \<open>\<open>preparedId.replace(/^prep-/, "")\<close>\<close>

definition admission_suffix :: "string \<Rightarrow> string" where
  "admission_suffix i = (if take 5 i = ''prep-'' then drop 5 i else i)"

definition activate_epoch ::
  "prepared_record \<Rightarrow> snapshot_ref \<Rightarrow> memory_durable \<Rightarrow> 'g governed \<Rightarrow> epoch_receipt \<times> 'g governed" where
  "activate_epoch record headRef d gv =
     (let receipt = snapshotRuntimeEpochReceipt
            \<lparr>er_admissionId = eq_admissionId (pp_request record), er_beforeSnapshotRef = headRef,
             er_afterSnapshotRef = pp_afterRef record, er_fromBinding = ea_binding (gv_admin gv),
             er_toBinding = pp_toBinding record\<rparr>;
          adm = holder_set_binding (pp_toBinding record) (holder_set_context (pp_targetContext record) (gv_admin gv));
          entry = \<lparr>je_receipt = receipt, je_prepared = pp_prepared record, je_request = pp_request record,
             je_targetSchema = pp_targetSchema record\<rparr>
      in (snapshotRuntimeEpochReceipt receipt,
          gv\<lparr>gv_runtime := (gv_runtime gv)\<lparr>rt_durable := d\<rparr>,
             gv_admin := adm\<lparr>ea_committed := map_set (eq_admissionId (pp_request record)) entry (ea_committed adm),
               ea_prepared := map_delete (pt_preparedId (pp_prepared record)) (ea_prepared adm)\<rparr>\<rparr>))"

text \<open>What is left once the record is found, its token matches and it has not expired.\<close>

definition commit_prepared ::
  "epoch_deps \<Rightarrow> schema_resolver \<Rightarrow> epoch_readings \<Rightarrow> prepared_record \<Rightarrow> 'g governed \<Rightarrow>
    (runtime_violation + epoch_receipt) \<times> 'g governed" where
  "commit_prepared deps resolve rd record gv =
     (let d = rt_durable (gv_runtime gv); headRef = eq_expectedHead (pp_request record)
      in if durable_head d \<noteq> Some headRef
         then (Inl (runtimeViolation ReplayMismatch ''head changed before commit'' no_details), gv)
         else case durable_get d headRef of
                None \<Rightarrow> (Inl (runtimeViolation ReplayMismatch ''before snapshot missing'' no_details), gv)
              | Some before \<Rightarrow>
      (case validateCommitState record before (ea_binding (gv_admin gv)) (rd_locks rd) (rd_records rd) (gv_runtime gv) of
         (Some v, st) \<Rightarrow> (Inl v, gv\<lparr>gv_runtime := st\<rparr>)
       | (None, st) \<Rightarrow>
      (let gv1 = gv\<lparr>gv_runtime := st\<rparr>
       in case resolveUnchangedTargetSchema deps resolve record of
            Some v \<Rightarrow> (Inl v, gv1)
          | None \<Rightarrow>
      (let after = snapshotWithAdvancedEpoch before (pp_afterRef record) (eq_targetEpochId (pp_request record))
       in case validateSnapshotIntegrity after of
            Inl _ \<Rightarrow> (Inl (runtimeViolation CommitAtomicFailed ''epoch snapshot failed validation'' no_details), gv1)
          | Inr _ \<Rightarrow>
      (case compareAndSwapHeadWithBinding headRef after (pp_toBinding record) d of
         (False, d') \<Rightarrow>
           (Inl (runtimeViolation CommitAtomicFailed ''CAS head failed'' no_details),
            gv1\<lparr>gv_runtime := st\<lparr>rt_durable := d'\<rparr>\<rparr>)
       | (True, d') \<Rightarrow> (case activate_epoch record headRef d' gv1 of (receipt, gv2) \<Rightarrow> (Inr receipt, gv2)))))))"

definition commitEpochTransition ::
  "epoch_deps \<Rightarrow> schema_resolver \<Rightarrow> epoch_readings \<Rightarrow> prepared_token \<Rightarrow> 'g governed \<Rightarrow>
    (runtime_violation + epoch_receipt) \<times> 'g governed" where
  "commitEpochTransition deps resolve rd preparedToken gv =
     (let token = snapshotPreparedEpochTransition preparedToken; adm = gv_admin gv
      in case map_get (ea_prepared adm) (pt_preparedId token) of
           None \<Rightarrow>
             (case map_get (ea_committed adm) (admission_suffix (pt_preparedId token)) of
                Some existing \<Rightarrow>
                  (if preparedTokensEqual (je_prepared existing) token
                   then (Inr (snapshotRuntimeEpochReceipt (je_receipt existing)), gv)
                   else (Inl (runtimeViolation AdmissionRejected ''prepared token not found'' no_details), gv))
              | None \<Rightarrow> (Inl (runtimeViolation AdmissionRejected ''prepared token not found'' no_details), gv))
         | Some record \<Rightarrow>
             (case map_get (ea_committed adm) (eq_admissionId (pp_request record)) of
                Some prior \<Rightarrow> (Inr (snapshotRuntimeEpochReceipt (je_receipt prior)), gv)
              | None \<Rightarrow>
                  (if \<not> preparedTokensEqual (pp_prepared record) token
                   then (Inl (runtimeViolation AdmissionRejected ''prepared token payload mismatch'' no_details), gv)
                   else if preparation_expired deps (rd_first rd) record
                   then (Inl (runtimeViolation AdmissionRejected ''preparation expired'' no_details),
                         gv\<lparr>gv_admin := adm\<lparr>ea_prepared := map_delete (pt_preparedId token) (ea_prepared adm)\<rparr>\<rparr>)
                   else commit_prepared deps resolve rd record gv)))"

section \<open>Recovery\<close>

definition resolveRecoveryTargetSchema ::
  "epoch_deps \<Rightarrow> schema_resolver \<Rightarrow> schema_ref \<Rightarrow> runtime_violation + orchestration_schema" where
  "resolveRecoveryTargetSchema deps resolve ref =
     (case resolve ref of
        Unresolved \<Rightarrow> Inl (runtimeViolation TemplateNotFound ''target schema missing during recovery'' no_details)
      | resolved \<Rightarrow>
          (case snapshotResolvedSchema resolved of
             None \<Rightarrow> Inl (runtimeViolation AdmissionRejected ''target schema cannot be cached'' no_details)
           | Some s \<Rightarrow>
               (case validateResolvedSchema deps ref s of Some v \<Rightarrow> Inl v | None \<Rightarrow> Inr s)))"

definition head_world :: "memory_durable \<Rightarrow> snapshot option" where
  "head_world d = (case durable_head d of None \<Rightarrow> None | Some h \<Rightarrow> durable_get d h)"

definition recoverFromDurableBinding ::
  "epoch_deps \<Rightarrow> schema_resolver \<Rightarrow> string \<Rightarrow> 'g governed \<Rightarrow> (runtime_violation + epoch_receipt) \<times> 'g governed" where
  "recoverFromDurableBinding deps resolve admissionId gv =
     (let d = rt_durable (gv_runtime gv); mismatch = (\<lambda>m. Inl (runtimeViolation ReplayMismatch m no_details))
      in case md_activeBinding d of
           None \<Rightarrow> (mismatch ''no committed epoch transition to recover'', gv)
         | Some binding \<Rightarrow>
             (if sb_admissionId binding \<noteq> admissionId
              then (mismatch ''durable binding admission id does not match recovery request'', gv)
              else case (durable_head d, head_world d) of
                     (Some headRef, Some head) \<Rightarrow>
                       (if sn_epochId head \<noteq> sb_epochId binding
                        then (mismatch ''durable binding epoch is not the active head epoch'', gv)
                        else case resolveRecoveryTargetSchema deps resolve (sb_schemaRef binding) of
                               Inl v \<Rightarrow> (Inl v, gv)
                             | Inr target \<Rightarrow>
                                 (Inr (snapshotRuntimeEpochReceipt
                                    \<lparr>er_admissionId = sb_admissionId binding, er_beforeSnapshotRef = sb_runtimeHead binding,
                                     er_afterSnapshotRef = headRef, er_fromBinding = binding, er_toBinding = binding\<rparr>),
                                  gv\<lparr>gv_admin := holder_set_binding binding
                                    (holder_set_context (createActiveSchemaContext target (sb_epochId binding) (Some binding))
                                       (gv_admin gv))\<rparr>))
                   | _ \<Rightarrow> (mismatch ''durable binding epoch is not the active head epoch'', gv)))"

definition recoverFromJournal ::
  "epoch_deps \<Rightarrow> schema_resolver \<Rightarrow> journal_entry \<Rightarrow> 'g governed \<Rightarrow> (runtime_violation + epoch_receipt) \<times> 'g governed" where
  "recoverFromJournal deps resolve entry gv =
     (let to = er_toBinding (je_receipt entry)
      in case head_world (rt_durable (gv_runtime gv)) of
           None \<Rightarrow> (Inl (runtimeViolation ReplayMismatch ''committed epoch snapshot is not active'' no_details), gv)
         | Some head \<Rightarrow>
             (if sn_epochId head \<noteq> sb_epochId to
              then (Inl (runtimeViolation ReplayMismatch ''committed epoch snapshot is not active'' no_details), gv)
              else case resolveRecoveryTargetSchema deps resolve (sb_schemaRef to) of
                     Inl v \<Rightarrow> (Inl v, gv)
                   | Inr target \<Rightarrow>
                       (if \<not> schemasEqual (ed_collation deps) target (je_targetSchema entry)
                        then (Inl (runtimeViolation AdmissionRejected ''target schema changed before recovery'' no_details), gv)
                        else (Inr (snapshotRuntimeEpochReceipt (je_receipt entry)),
                              gv\<lparr>gv_admin := holder_set_binding to
                                (holder_set_context (createActiveSchemaContext (je_targetSchema entry) (sb_epochId to) (Some to))
                                   (gv_admin gv))\<rparr>))))"

definition recoverEpochTransition ::
  "epoch_deps \<Rightarrow> schema_resolver \<Rightarrow> string \<Rightarrow> 'g governed \<Rightarrow> (runtime_violation + epoch_receipt) \<times> 'g governed" where
  "recoverEpochTransition deps resolve admissionId gv =
     (case map_get (ea_committed (gv_admin gv)) admissionId of
        None \<Rightarrow> recoverFromDurableBinding deps resolve admissionId gv
      | Some entry \<Rightarrow> recoverFromJournal deps resolve entry gv)"

end
