(* ===== verification/Runtime_Replay.thy ===== *)
theory Runtime_Replay
  imports Runtime_Epoch
begin

text \<open>
  \<open>packages/runtime/src/execution/replayVerifier.ts\<close>: recomputing logged changes from their
  recipes and comparing with the stored worlds, against the active schema or against the schema
  of each change's own epoch.

  The resolver is asynchronous: between two answers the store may change and the resolver may
  answer differently. The resolved verification takes the store and the resolver at every such
  point as an argument. Several verifications in flight at the same time are not modelled.
\<close>

section \<open>Data\<close>

text \<open>What the verifier uses of a durable coordinator; \<open>None\<close> for \<open>since\<close> is a reading that never ends.\<close>

record replay_port =
  vp_get :: "snapshot_ref \<Rightarrow> snapshot option"
  vp_since :: "snapshot_ref \<Rightarrow> coordination_change list option"
  vp_recipeForChange :: "coordination_change \<Rightarrow> replay_recipe option"

definition memory_port :: "locale_compare \<Rightarrow> memory_durable \<Rightarrow> replay_port" where
  "memory_port lc d =
     \<lparr>vp_get = durable_get d, vp_since = (\<lambda>r. durable_since lc r d),
      vp_recipeForChange = (\<lambda>c. Some (durable_recipeForChange c d))\<rparr>"

record replay_options =
  ro_fromRef :: snapshot_ref
  ro_toRef :: "snapshot_ref option"
  ro_changes :: "coordination_change list option"

record replay_step =
  rs_changeId :: change_id
  rs_beforeRef :: snapshot_ref
  rs_afterRef :: snapshot_ref

text \<open>A result, or an exception of a handler, which the verifier does not catch.\<close>

datatype replay_result =
    ReplayVerified (rr_terminalRef: snapshot_ref) (rr_terminal: snapshot) (rr_steps: "replay_step list")
  | ReplayRefused runtime_violation
  | ReplayThrew runtime_violation

record verifier_deps =
  ve_handlers :: handler_registry
  ve_schemaContext :: context_source
  ve_activationDomainId :: "string option"
  ve_collation :: locale_compare
  ve_contentDigest :: "orchestration_schema \<Rightarrow> string"

datatype step_outcome = StepNext snapshot | StepRefused runtime_violation | StepThrew runtime_violation

section \<open>One change\<close>

definition stale_before_ref :: "snapshot \<Rightarrow> coordination_change \<Rightarrow> runtime_violation" where
  "stale_before_ref s c =
     runtimeViolation ReplayMismatch
       (''state ref '' @ sn_snapshotRef s @ '' !== change.beforeRef '' @ cc_beforeRef c)
       (no_details\<lparr>vd_path := Some ''beforeRef''\<rparr>)"

text \<open>From the resolved template on.\<close>

definition replay_applied ::
  "verifier_deps \<Rightarrow> replay_port \<Rightarrow> snapshot \<Rightarrow> coordination_change \<Rightarrow> replay_recipe \<Rightarrow> operation_template \<Rightarrow> step_outcome" where
  "replay_applied deps port s c recipe template =
     (case applyRecipe s recipe (ve_handlers deps) \<lparr>ac_template = template\<rparr> of
        Inl e \<Rightarrow> StepThrew e
      | Inr (ApplyFail reason) \<Rightarrow>
          StepRefused (runtimeViolation ReplayMismatch reason
            (no_details\<lparr>vd_operationTypeId := Some (cc_operationTypeId c)\<rparr>))
      | Inr (ApplyOk after involved sessions) \<Rightarrow>
          (case validateSnapshotIntegrity after of
             Inl cause \<Rightarrow>
               StepRefused (runtimeViolation ReplayMismatch ''recomputed snapshot invalid''
                 (no_details\<lparr>vd_cause := Some cause\<rparr>))
           | Inr _ \<Rightarrow>
               (case vp_get port (cc_afterRef c) of
                  None \<Rightarrow> StepNext after
                | Some stored \<Rightarrow>
                    (if \<not> snapshotsCanonicallyEqual (ve_collation deps) after stored
                     then StepRefused (runtimeViolation ReplayMismatch
                            (''recomputed snapshot differs from store at '' @ cc_afterRef c) no_details)
                     else StepNext stored))))"

definition replayOneChange ::
  "verifier_deps \<Rightarrow> replay_port \<Rightarrow> snapshot \<Rightarrow> coordination_change \<Rightarrow> active_schema_context \<Rightarrow> step_outcome" where
  "replayOneChange deps port s c ctx =
     (if sn_snapshotRef s \<noteq> cc_beforeRef c then StepRefused (stale_before_ref s c)
      else case vp_recipeForChange port c of
        None \<Rightarrow> StepRefused (runtimeViolation ReplayMismatch (''missing recipe for '' @ cc_changeId c) no_details)
      | Some recipe \<Rightarrow>
          (if rp_epochId recipe \<noteq> cc_epochId c \<or> sn_epochId s \<noteq> cc_epochId c
           then StepRefused (runtimeViolation ReplayMismatch ''change, recipe, and source epoch disagree''
                  (no_details\<lparr>vd_expected := Some (cc_epochId c),
                     vd_actual := Some (rp_epochId recipe @ ''/'' @ sn_epochId s), vd_path := Some ''epochId''\<rparr>))
           else if ax_epochId ctx \<noteq> cc_epochId c
           then StepRefused (runtimeViolation ReplayMismatch
                  ''active schema context does not match the historical change epoch''
                  (no_details\<lparr>vd_expected := Some (cc_epochId c), vd_actual := Some (ax_epochId ctx),
                     vd_path := Some ''schemaContext.epochId''\<rparr>))
           else let revision = (case rp_templateRef recipe of
                      Some t \<Rightarrow> Some (ot_revision t) | None \<Rightarrow> map_option ot_revision (cc_templateRef c))
                in case getTemplate ctx (cc_operationTypeId c) revision of
                     None \<Rightarrow>
                       StepRefused (runtimeViolation TemplateNotFound
                         (''no template for '' @ cc_operationTypeId c @ ''@'' @ opt_default ''default'' revision)
                         (no_details\<lparr>vd_operationTypeId := Some (cc_operationTypeId c)\<rparr>))
                   | Some template \<Rightarrow> replay_applied deps port s c recipe template))"

definition bridgeUnloggedAdvance ::
  "verifier_deps \<Rightarrow> replay_port \<Rightarrow> snapshot \<Rightarrow> coordination_change \<Rightarrow> runtime_violation + snapshot" where
  "bridgeUnloggedAdvance deps port s c =
     (if sn_snapshotRef s = cc_beforeRef c then Inr s
      else case vp_get port (cc_beforeRef c) of
             Some stored \<Rightarrow>
               (if isVerifiableUnloggedAdvance (ve_collation deps) s stored then Inr stored
                else Inl (stale_before_ref s c))
           | None \<Rightarrow> Inl (stale_before_ref s c))"

text \<open>The chain is checked at every index from one on.\<close>

fun change_chain_loop ::
  "locale_compare \<Rightarrow> (snapshot_ref \<Rightarrow> snapshot option) \<Rightarrow> nat \<Rightarrow> coordination_change list \<Rightarrow> runtime_violation option" where
  "change_chain_loop lc get i (p # c # cs) =
     (if \<not> changeContinuesChain lc p c get
      then Some (runtimeViolation ReplayChainBroken ''invalid change chain''
             (no_details\<lparr>vd_expected := Some (cc_afterRef p), vd_actual := Some (cc_beforeRef c),
                vd_path := Some (''changes['' @ show_nat i @ ''].beforeRef'')\<rparr>))
      else change_chain_loop lc get (Suc i) (c # cs))"
| "change_chain_loop lc get i cs = None"

definition validateChangeChain ::
  "verifier_deps \<Rightarrow> replay_port \<Rightarrow> coordination_change list \<Rightarrow> runtime_violation option" where
  "validateChangeChain deps port cs = change_chain_loop (ve_collation deps) (vp_get port) 1 cs"

definition replayTerminalResult ::
  "snapshot \<Rightarrow> replay_step list \<Rightarrow> snapshot_ref option \<Rightarrow> replay_result" where
  "replayTerminalResult s steps toRef =
     (case toRef of
        Some r \<Rightarrow>
          (if sn_snapshotRef s \<noteq> r
           then ReplayRefused (runtimeViolation ReplayMismatch
                  (''terminal '' @ sn_snapshotRef s @ '' !== expected '' @ r) no_details)
           else ReplayVerified (sn_snapshotRef s) s steps)
      | None \<Rightarrow> ReplayVerified (sn_snapshotRef s) s steps)"

definition step_of :: "coordination_change \<Rightarrow> replay_step" where
  "step_of c = \<lparr>rs_changeId = cc_changeId c, rs_beforeRef = cc_beforeRef c, rs_afterRef = cc_afterRef c\<rparr>"

section \<open>Against the active schema\<close>

fun verify_loop ::
  "verifier_deps \<Rightarrow> replay_port \<Rightarrow> snapshot_ref option \<Rightarrow> snapshot \<Rightarrow> replay_step list \<Rightarrow>
    coordination_change list \<Rightarrow> replay_result" where
  "verify_loop deps port toRef s steps [] = replayTerminalResult s steps toRef"
| "verify_loop deps port toRef s steps (c # cs) =
     (case bridgeUnloggedAdvance deps port s c of
        Inl v \<Rightarrow> ReplayRefused v
      | Inr bridged \<Rightarrow>
          (case replayOneChange deps port bridged c (resolveActiveSchemaContext (ve_schemaContext deps)) of
             StepRefused v \<Rightarrow> ReplayRefused v
           | StepThrew e \<Rightarrow> ReplayThrew e
           | StepNext next \<Rightarrow>
               (if toRef = Some (cc_afterRef c) then replayTerminalResult next (steps @ [step_of c]) toRef
                else verify_loop deps port toRef next (steps @ [step_of c]) cs)))"

definition missing_start :: "snapshot_ref \<Rightarrow> replay_result" where
  "missing_start r = ReplayRefused (runtimeViolation ReplayChainBroken (''missing snapshot '' @ r) no_details)"

definition verify :: "verifier_deps \<Rightarrow> replay_port \<Rightarrow> replay_options \<Rightarrow> replay_result option" where
  "verify deps port options =
     (case vp_get port (ro_fromRef options) of
        None \<Rightarrow> Some (missing_start (ro_fromRef options))
      | Some s \<Rightarrow>
          (case (case ro_changes options of Some cs \<Rightarrow> Some cs | None \<Rightarrow> vp_since port (ro_fromRef options)) of
             None \<Rightarrow> None
           | Some cs \<Rightarrow>
               Some (if length cs = 0 then replayTerminalResult s [] (ro_toRef options)
                     else case validateChangeChain deps port cs of
                            Some v \<Rightarrow> ReplayRefused v
                          | None \<Rightarrow> verify_loop deps port (ro_toRef options) s [] cs)))"

section \<open>Against the schema of each epoch\<close>

text \<open>
  A resolver answers, or its promise is rejected with a message. A schema that cannot be copied
  is rejected in the same way, with the message of the copy.
\<close>

record historical_resolver =
  hr_resolveByEpoch :: "string \<Rightarrow> epoch_id \<Rightarrow> string + schema_epoch_binding option"
  hr_resolveSchema :: "schema_ref \<Rightarrow> string + orchestration_schema option"

text \<open>
  Contexts by epoch for one verification, and by binding for the life of the verifier; the text of
  a binding as JSON determines the binding, so the binding is its own key. Only answers that
  verified stay in the second map.
\<close>

type_synonym invocation_cache = "(epoch_id, active_schema_context) jsmap"
type_synonym verifier_cache = "(schema_epoch_binding, active_schema_context) jsmap"

definition resolution_failed :: "string \<Rightarrow> runtime_violation" where
  "resolution_failed message =
     runtimeViolation ReplayMismatch (''historical schema resolution failed: '' @ message) no_details"

text \<open>The promise that is cached: the schema a binding names, verified on the copy that is used.\<close>

definition resolve_context ::
  "verifier_deps \<Rightarrow> historical_resolver \<Rightarrow> epoch_id \<Rightarrow> schema_epoch_binding \<Rightarrow> runtime_violation + active_schema_context" where
  "resolve_context deps resolver epoch b =
     (case hr_resolveSchema resolver (sb_schemaRef b) of
        Inl message \<Rightarrow> Inl (resolution_failed message)
      | Inr None \<Rightarrow>
          Inl (runtimeViolation TemplateNotFound (''schema content missing for historical epoch '' @ epoch) no_details)
      | Inr (Some schema) \<Rightarrow>
          (let s = snapshotOrchestrationSchema schema; actual = ve_contentDigest deps s
           in if os_schemaId s \<noteq> sr_schemaId (sb_schemaRef b) \<or> actual \<noteq> sr_digest (sb_schemaRef b)
              then Inl (runtimeViolation ReplayMismatch
                     ''schema resolver returned content that does not match the bound schema ref''
                     (no_details\<lparr>vd_expected := Some (sr_schemaId (sb_schemaRef b) @ ''@'' @ sr_digest (sb_schemaRef b)),
                        vd_actual := Some (os_schemaId s @ ''@'' @ actual),
                        vd_path := Some ''schemaResolver.resolveSchema''\<rparr>))
              else Inr (createActiveSchemaContext s epoch (Some b))))"

definition resolveHistoricalSchemaContext ::
  "verifier_deps \<Rightarrow> historical_resolver \<Rightarrow> string \<Rightarrow> epoch_id \<Rightarrow> invocation_cache \<Rightarrow> verifier_cache \<Rightarrow>
    (runtime_violation + active_schema_context) \<times> invocation_cache \<times> verifier_cache" where
  "resolveHistoricalSchemaContext deps resolver domain epoch known ver =
     (case map_get known epoch of
        Some cached \<Rightarrow> (Inr cached, known, ver)
      | None \<Rightarrow>
     (case hr_resolveByEpoch resolver domain epoch of
        Inl message \<Rightarrow> (Inl (resolution_failed message), known, ver)
      | Inr None \<Rightarrow>
          (Inl (runtimeViolation TemplateNotFound (''no schema binding for historical epoch '' @ epoch) no_details), known, ver)
      | Inr (Some binding) \<Rightarrow>
          (if sb_activationDomainId binding \<noteq> domain \<or> sb_epochId binding \<noteq> epoch
           then (Inl (runtimeViolation ReplayMismatch ''schema resolver returned a binding for the wrong domain or epoch''
                   (no_details\<lparr>vd_expected := Some (domain @ ''@'' @ epoch),
                      vd_actual := Some (sb_activationDomainId binding @ ''@'' @ sb_epochId binding),
                      vd_path := Some ''schemaResolver.resolveByEpoch''\<rparr>)), known, ver)
           else let key = snapshotSchemaEpochBinding binding
                in case map_get ver key of
                     Some context \<Rightarrow> (Inr context, map_set epoch context known, ver)
                   | None \<Rightarrow>
                       (case resolve_context deps resolver epoch key of
                          Inl v \<Rightarrow> (Inl v, known, ver)
                        | Inr context \<Rightarrow> (Inr context, map_set epoch context known, map_set key context ver)))))"

text \<open>
  The store and the resolver while change number \<open>i\<close> is verified: the bridge reads \<open>port i\<close>, then
  the resolver answers, then the change is recomputed over \<open>port (Suc i)\<close>.
\<close>

fun resolved_loop ::
  "verifier_deps \<Rightarrow> string \<Rightarrow> (nat \<Rightarrow> replay_port) \<Rightarrow> (nat \<Rightarrow> historical_resolver) \<Rightarrow> snapshot_ref option \<Rightarrow> nat \<Rightarrow>
    snapshot \<Rightarrow> replay_step list \<Rightarrow> invocation_cache \<Rightarrow> verifier_cache \<Rightarrow> coordination_change list \<Rightarrow>
    replay_result \<times> verifier_cache" where
  "resolved_loop deps domain port resolver toRef i s steps known ver [] = (replayTerminalResult s steps toRef, ver)"
| "resolved_loop deps domain port resolver toRef i s steps known ver (c # cs) =
     (case bridgeUnloggedAdvance deps (port i) s c of
        Inl v \<Rightarrow> (ReplayRefused v, ver)
      | Inr bridged \<Rightarrow>
          (case resolveHistoricalSchemaContext deps (resolver i) domain (cc_epochId c) known ver of
             (Inl v, known', ver') \<Rightarrow> (ReplayRefused v, ver')
           | (Inr context, known', ver') \<Rightarrow>
               (case replayOneChange deps (port (Suc i)) bridged c context of
                  StepRefused v \<Rightarrow> (ReplayRefused v, ver')
                | StepThrew e \<Rightarrow> (ReplayThrew e, ver')
                | StepNext next \<Rightarrow>
                    (if toRef = Some (cc_afterRef c)
                     then (replayTerminalResult next (steps @ [step_of c]) toRef, ver')
                     else resolved_loop deps domain port resolver toRef (Suc i) next (steps @ [step_of c]) known' ver' cs))))"

definition replayInitialState ::
  "replay_port \<Rightarrow> replay_options \<Rightarrow> (replay_result + snapshot \<times> coordination_change list) option" where
  "replayInitialState port options =
     (case vp_get port (ro_fromRef options) of
        None \<Rightarrow> Some (Inl (missing_start (ro_fromRef options)))
      | Some s \<Rightarrow>
          (case ro_changes options of
             Some cs \<Rightarrow> Some (Inr (s, cs))
           | None \<Rightarrow> map_option (\<lambda>cs. Inr (s, cs)) (vp_since port (ro_fromRef options))))"

definition verifyResolved ::
  "verifier_deps \<Rightarrow> (nat \<Rightarrow> replay_port) \<Rightarrow> (nat \<Rightarrow> historical_resolver) option \<Rightarrow> replay_options \<Rightarrow> verifier_cache \<Rightarrow>
    (replay_result \<times> verifier_cache) option" where
  "verifyResolved deps port resolver options ver =
     (case resolver of
        None \<Rightarrow> map_option (\<lambda>r. (r, ver)) (verify deps (port 0) options)
      | Some resolver \<Rightarrow>
          (case ve_activationDomainId deps of
             None \<Rightarrow> Some (ReplayRefused (runtimeViolation ReplayMismatch
                       ''activationDomainId is required when schemaResolver is configured'' no_details), ver)
           | Some domain \<Rightarrow>
               (case replayInitialState (port 0) options of
                  None \<Rightarrow> None
                | Some (Inl r) \<Rightarrow> Some (r, ver)
                | Some (Inr (s, cs)) \<Rightarrow>
                    Some (if length cs = 0 then (replayTerminalResult s [] (ro_toRef options), ver)
                          else case validateChangeChain deps (port 0) cs of
                                 Some v \<Rightarrow> (ReplayRefused v, ver)
                               | None \<Rightarrow> resolved_loop deps domain port resolver (ro_toRef options) 0 s [] [] ver cs))))"

end
