(* ===== verification/Runtime_System.thy ===== *)
theory Runtime_System
  imports Runtime_Commit
begin

text \<open>
  The coordination runtime as a transition system: commits and observations are atomic, and
  the invariant of every reachable state.
\<close>

section \<open>Commit is atomic\<close>

definition commit_input ::
  "admitted_record \<Rightarrow> snapshot \<Rightarrow> coordination_change \<Rightarrow> replay_recipe \<Rightarrow> durable_commit_input" where
  "commit_input admitted after change recipe =
     \<lparr>dc_expectedHead = ad_beforeRef admitted, dc_after = after, dc_change = change, dc_recipe = recipe\<rparr>"

text \<open>What a successful commit went through.\<close>

definition commits ::
  "'g runtime_config \<Rightarrow> timestamp \<Rightarrow> admitted_record \<Rightarrow> memory_durable \<Rightarrow> run_history option \<Rightarrow> 'g \<Rightarrow>
    replay_recipe \<Rightarrow> snapshot \<Rightarrow> actor_ref list \<Rightarrow> coordination_change \<Rightarrow> snapshot \<Rightarrow> 'g \<Rightarrow> bool" where
  "commits cf t admitted d h g recipe applied involved change after g' \<longleftrightarrow>
     (\<exists>g1 g2 ss afterRef changeId.
        commit_recipe (cf_idGen cf) t admitted g = (recipe, g1) \<and>
        applyRecipe (ad_beforeSnapshot admitted) recipe (cf_handlers cf) \<lparr>ac_template = ad_template admitted\<rparr> =
          Inr (ApplyOk applied involved ss) \<and>
        validateCommitContentAvailability (ad_beforeSnapshot admitted) applied
          (in_operationTypeId (ad_intent admitted)) (cf_content cf) = None \<and>
        ig_snapshotRef (cf_idGen cf) g1 = (afterRef, g2) \<and> after = withSnapshotRef applied afterRef \<and> integrity after \<and>
        evaluateEnsures after (in_matchBindings (ad_intent admitted)) (op_ensures (ad_template admitted)) = None \<and>
        ig_changeId (cf_idGen cf) g2 = (changeId, g') \<and>
        change = coordinationChangeFromCommit recipe changeId t (ad_beforeRef admitted) afterRef
          (in_initiator (ad_intent admitted)) involved \<and>
        validatePreCommit (cf_collation cf) d h after change = None)"

lemma validateSnapshotIntegrity_ok: "validateSnapshotIntegrity s = Inr () \<longleftrightarrow> integrity s"
  using validateSnapshotIntegrityResult_ok [of s]
  by (cases "validateSnapshotIntegrityResult s") (auto simp: validateSnapshotIntegrity_def)

lemma validateSnapshotIntegrity_Inl: "validateSnapshotIntegrity s = Inl v \<Longrightarrow> \<not> integrity s"
  using validateSnapshotIntegrity_ok [of s] by auto

lemma executeCommit_Committed:
  "executeCommit cf t admitted d h g = (Committed change after cid, d', h', g') \<longleftrightarrow>
    (\<exists>recipe applied involved. commits cf t admitted d h g recipe applied involved change after g' \<and>
       cid = cc_changeId change \<and> commit_fits (cf_collation cf) (commit_input admitted after change recipe) d \<and>
       d' = committed (commit_input admitted after change recipe) d \<and> h' = map_option (recordChange change) h)"
proof -
  have i: "validateSnapshotIntegrity s = Inr u \<longleftrightarrow> integrity s" for s u
    using validateSnapshotIntegrity_ok [of s] by (cases u) simp
  show ?thesis
    unfolding executeCommit_def commit_applied_def applyAdmittedChange_def commits_def commit_input_def [symmetric] Let_def
    by (auto simp: i durable_commit_None split: prod.splits sum.splits apply_result.splits option.splits
        dest: validateSnapshotIntegrity_Inl durable_commit_Some)
qed

lemma executeCommit_unchanged:
  assumes "executeCommit cf t admitted d h g = (o1, d', h', g')" and "\<nexists>c a i. o1 = Committed c a i"
  shows "d' = d \<and> h' = h"
  using assms unfolding executeCommit_def commit_applied_def Let_def
  by (auto split: prod.splits sum.splits apply_result.splits option.splits dest: durable_commit_Some)

section \<open>Observation is atomic\<close>

lemma durable_get_frozen: "durable_get d r = Some s \<Longrightarrow> frozen s"
  by (auto simp: durable_get_def store_get_def)

definition observes ::
  "'g id_generator \<Rightarrow> timestamp \<Rightarrow> observe_input \<Rightarrow> actor_ref \<Rightarrow> content_authority option \<Rightarrow> memory_durable \<Rightarrow> 'g \<Rightarrow>
    snapshot_ref \<Rightarrow> snapshot \<Rightarrow> observation_entry \<Rightarrow> snapshot \<Rightarrow> 'g \<Rightarrow> bool" where
  "observes gen now inp caller authority d g h s e nxt g' \<longleftrightarrow>
     caller = ov_source inp \<and> payload_available authority (ov_payloadRef inp) \<and>
     durable_head d = Some h \<and> durable_get d h = Some s \<and>
     e = \<lparr>ob_sequenceNo = nextSequenceNo (sn_auditTail s), ob_source = ov_source inp, ob_payloadRef = ov_payloadRef inp,
          ob_receivedAt = opt_default now (ov_receivedAt inp)\<rparr> \<and>
     (\<exists>r. ig_snapshotRef gen g = (r, g') \<and>
       nxt = s\<lparr>sn_snapshotRef := r, sn_auditTail := sn_auditTail s @ [e]\<rparr>) \<and> integrity nxt"

lemma validateObservePrincipal_None: "validateObservePrincipal s p = None \<longleftrightarrow> p = s"
  by (auto simp: validateObservePrincipal_def intro: actor_ref.equality)

lemma ingest_Observed:
  "ingestObservation gen now inp p av d g = (Observed nxt e, d', g') \<longleftrightarrow>
    (\<exists>h s. observes gen now inp p av d g h s e nxt g' \<and> durable_cas h nxt d = (True, d'))"
proof -
  have ref: "withSnapshotRef (s\<lparr>sn_auditTail := x\<rparr>) r = s\<lparr>sn_snapshotRef := r, sn_auditTail := x\<rparr>" if "frozen s" for s x r
    using that by (simp add: with_frozen(7) frozen_fields)
  show ?thesis
  proof
    assume "ingestObservation gen now inp p av d g = (Observed nxt e, d', g')"
    then show "\<exists>h s. observes gen now inp p av d g h s e nxt g' \<and> durable_cas h nxt d = (True, d')"
      unfolding ingestObservation_def observes_def Let_def
      by (auto simp: validateObservePrincipal_None validateSnapshotIntegrity_ok appendObservation_frozen ref arr_last_def
          dest!: durable_get_frozen split: option.split_asm sum.split_asm prod.split_asm bool.split_asm if_split_asm)
  next
    assume "\<exists>h s. observes gen now inp p av d g h s e nxt g' \<and> durable_cas h nxt d = (True, d')"
    then obtain h s where o: "observes gen now inp p av d g h s e nxt g'" and c: "durable_cas h nxt d = (True, d')" by blast
    then have "validateSnapshotIntegrity nxt = Inr ()" by (simp add: observes_def validateSnapshotIntegrity_ok)
    with o c show "ingestObservation gen now inp p av d g = (Observed nxt e, d', g')"
      by (auto simp: observes_def ingestObservation_def validateObservePrincipal_None [THEN iffD2] Let_def
          appendObservation_frozen ref arr_last_def dest: durable_get_frozen)
  qed
qed

lemma ingest_returns: "ingestObservation gen now inp p av d g \<noteq> (ObserveThrew v, d', g')"
  unfolding ingestObservation_def Let_def
  by (auto simp: appendObservation_frozen dest: durable_get_frozen
      split: option.split sum.split prod.split bool.split if_split)

lemma ingest_refused: "ingestObservation gen now inp p av d g = (ObserveRefused v, d', g') \<Longrightarrow> d' = d"
proof -
  assume a: "ingestObservation gen now inp p av d g = (ObserveRefused v, d', g')"
  have ref: "withSnapshotRef (s\<lparr>sn_auditTail := x\<rparr>) r = s\<lparr>sn_snapshotRef := r, sn_auditTail := x\<rparr>" if "frozen s" for s x r
    using that by (simp add: with_frozen(7) frozen_fields)
  from a show ?thesis
    unfolding ingestObservation_def Let_def
    by (auto simp: appendObservation_frozen ref arr_last_def durable_cas_eq dest!: durable_get_frozen
        split: option.split_asm sum.split_asm prod.split_asm bool.split_asm if_split_asm)
qed

end
