(* ===== verification/Runtime_Invariant.thy ===== *)
theory Runtime_Invariant
  imports Runtime_System
begin

text \<open>
  The runtime as a transition system: every operation of the runtime with any input and any
  clock readings is a step, and an invariant holds in every reachable state. What it needs of
  the id generator is that snapshot refs and change ids are never repeated.
\<close>

section \<open>Id generators (idGenerator.ts, bootCantilune.ts)\<close>

text \<open>\<open>used\<close> bounds the snapshot refs and change ids a generator has handed out.\<close>

locale fresh_generator =
  fixes gen :: "'g id_generator" and used :: "'g \<Rightarrow> snapshot_ref set"
  assumes snapshot_fresh: "ig_snapshotRef gen g = (r, g') \<Longrightarrow> r \<notin> used g \<and> insert r (used g) \<subseteq> used g'"
    and change_fresh: "ig_changeId gen g = (i, g') \<Longrightarrow> i \<notin> used g \<and> insert i (used g) \<subseteq> used g'"
    and other_ids: "ig_sessionId gen g = (i, g') \<Longrightarrow> used g \<subseteq> used g'" "ig_linkId gen g = (i, g') \<Longrightarrow> used g \<subseteq> used g'"
begin

lemma take_ids_used:
  assumes "\<And>g i g'. next g = (i, g') \<Longrightarrow> used g \<subseteq> used g'"
  shows "take_ids next n g = (is, g') \<Longrightarrow> used g \<subseteq> used g'"
proof (induction n arbitrary: g "is")
  case (Suc n)
  then obtain i g1 js g2 where "next g = (i, g1)" "take_ids next n g1 = (js, g2)" "g' = g2"
    by (auto split: prod.splits)
  with Suc.IH [of g1 js] assms [of g i g1] show ?case by blast
qed simp

lemma allocate_used: "allocateFreshRefsForRecipe gen r op g = (r', g') \<Longrightarrow> used g \<subseteq> used g'"
  using take_ids_used [of "ig_linkId gen" "link_count r op" g] other_ids
  by (fastforce simp: allocateFreshRefsForRecipe_def split: prod.splits if_splits)

lemma commit_recipe_used: "commit_recipe gen t a g = (r, g') \<Longrightarrow> used g \<subseteq> used g'"
  by (auto simp: commit_recipe_def Let_def split: prod.splits dest: allocate_used)

end

text \<open>\<open>uuidIdGenerator\<close>: every id is the next random UUID of the supply.\<close>

definition uuidIdGenerator :: "(nat \<Rightarrow> string) \<Rightarrow> nat id_generator" where
  "uuidIdGenerator uuid =
     \<lparr>ig_changeId = \<lambda>n. (uuid n, Suc n), ig_snapshotRef = \<lambda>n. (uuid n, Suc n),
      ig_sessionId = \<lambda>n. (uuid n, Suc n), ig_linkId = \<lambda>n. (uuid n, Suc n)\<rparr>"

locale uuid_supply =
  fixes uuid :: "nat \<Rightarrow> string"
  assumes uuid_inj: "inj uuid"

sublocale uuid_supply \<subseteq> fresh_generator "uuidIdGenerator uuid" "\<lambda>n. uuid ` {..<n}"
  by unfold_locales (use uuid_inj in \<open>auto simp: uuidIdGenerator_def inj_def\<close>)

text \<open>The decimal numerals are a supply.\<close>

interpretation numerals: uuid_supply show_nat
  by unfold_locales (auto intro!: injI dest: show_nat_inj)

section \<open>Continuation of worlds\<close>

definition world_continues :: "snapshot \<Rightarrow> snapshot \<Rightarrow> bool" where
  "world_continues s s' \<longleftrightarrow>
     (\<forall>a p. map_get (sn_participants s) a = Some p \<longrightarrow>
        (\<exists>p'. map_get (sn_participants s') a = Some p' \<and> p_kind p' = p_kind p \<and>
           (p_status p, p_status p') \<in> (set LIFECYCLE)\<^sup>*)) \<and>
     artifacts_evolve s s' \<and> nothing_lost s s' \<and> (\<exists>new. sn_auditTail s' = sn_auditTail s @ new)"

lemma artifacts_evolve_trans: "artifacts_evolve s s' \<Longrightarrow> artifacts_evolve s' s'' \<Longrightarrow> artifacts_evolve s s''"
  unfolding artifacts_evolve_def by metis

lemma nothing_lost_trans: "nothing_lost s s' \<Longrightarrow> nothing_lost s' s'' \<Longrightarrow> nothing_lost s s''"
  unfolding nothing_lost_def by (metis append.assoc)

lemma nothing_lost_refl [simp]: "nothing_lost s s"
  by (simp add: nothing_lost_def)

lemma world_continues_refl [simp]: "world_continues s s"
  by (auto simp: world_continues_def)

lemma world_continues_trans:
  assumes "world_continues s s'" and "world_continues s' s''"
  shows "world_continues s s''"
  unfolding world_continues_def
proof (intro conjI allI impI)
  fix a p
  assume "map_get (sn_participants s) a = Some p"
  with assms(1) obtain p' where p': "map_get (sn_participants s') a = Some p'" "p_kind p' = p_kind p"
    "(p_status p, p_status p') \<in> (set LIFECYCLE)\<^sup>*" unfolding world_continues_def by blast
  with assms(2) obtain p'' where "map_get (sn_participants s'') a = Some p''" "p_kind p'' = p_kind p'"
    "(p_status p', p_status p'') \<in> (set LIFECYCLE)\<^sup>*" unfolding world_continues_def by blast
  with p' show "\<exists>q. map_get (sn_participants s'') a = Some q \<and> p_kind q = p_kind p \<and>
      (p_status p, p_status q) \<in> (set LIFECYCLE)\<^sup>*" by (metis rtrancl_trans)
next
  show "artifacts_evolve s s''" "nothing_lost s s''"
    using assms artifacts_evolve_trans nothing_lost_trans unfolding world_continues_def by blast+
  show "\<exists>new. sn_auditTail s'' = sn_auditTail s @ new"
    using assms unfolding world_continues_def by (metis append.assoc)
qed

lemma operates_continues: "operates r s s' \<Longrightarrow> world_continues s s'"
  unfolding world_continues_def operates_def participants_evolve_def frame_kept_def validateTransition_iff
  by (fastforce intro: r_into_rtrancl)

lemma ref_continues [simp]: "world_continues s (t\<lparr>sn_snapshotRef := r\<rparr>) = world_continues s t"
  by (simp add: world_continues_def artifacts_evolve_def nothing_lost_def)

lemma epoch_continues [simp]: "world_continues s (t\<lparr>sn_epochId := e\<rparr>) = world_continues s t"
  by (simp add: world_continues_def artifacts_evolve_def nothing_lost_def)

lemma audit_continues: "world_continues s (s\<lparr>sn_auditTail := sn_auditTail s @ new\<rparr>)"
  by (auto simp: world_continues_def artifacts_evolve_def nothing_lost_def)

text \<open>Retirement is final.\<close>

lemma retired_final: "(Retired, x) \<in> (set LIFECYCLE)\<^sup>* \<Longrightarrow> x = Retired"
  by (erule converse_rtranclE) (auto simp: LIFECYCLE_def)

section \<open>Steps\<close>

inductive runtime_step :: "'g runtime_config \<Rightarrow> 'g runtime_state \<Rightarrow> 'g runtime_state \<Rightarrow> bool" for cf where
  step_observe: "runtime_observe cf now inp caller st = (out, st') \<Longrightarrow> runtime_step cf st st'"
| step_admit: "runtime_admit cf readings intent beforeRef caller st = (out, st') \<Longrightarrow> runtime_step cf st st'"
| step_compose: "runtime_admitComposition cf readings composition beforeRef caller st = (out, st') \<Longrightarrow> runtime_step cf st st'"
| step_commit: "runtime_commit cf now now' recordedAt ticket st = (out, st') \<Longrightarrow> runtime_step cf st st'"
| step_propose: "proposeAndCommit cf readings now now' recordedAt intent beforeRef caller st = (out, st') \<Longrightarrow>
    runtime_step cf st st'"
| step_cancel: "st' = cancelAdmission ticket st \<Longrightarrow> runtime_step cf st st'"

inductive_cases runtime_stepE: "runtime_step cf st st'"

inductive runtime_reachable :: "'g runtime_config \<Rightarrow> 'g runtime_state \<Rightarrow> 'g runtime_state \<Rightarrow> bool" for cf st0 where
  reach_start: "runtime_reachable cf st0 st0"
| reach_step: "runtime_reachable cf st0 st \<Longrightarrow> runtime_step cf st st' \<Longrightarrow> runtime_reachable cf st0 st'"

definition initial_runtime ::
  "snapshot \<Rightarrow> schema_epoch_binding option \<Rightarrow> bool \<Rightarrow> 'g \<Rightarrow> 'g runtime_state" where
  "initial_runtime s0 binding tracked g =
     \<lparr>rt_durable = createMemoryRuntimePersistence (Some s0) binding,
      rt_admission = \<lparr>as_locks = [], as_records = [], as_seq = 0\<rparr>,
      rt_history = (if tracked then Some (seedFromAuditTail (sn_auditTail s0) emptyRunHistory) else None),
      rt_ids = g\<rparr>"

section \<open>The invariant\<close>

definition record_ok :: "(snapshot_ref \<Rightarrow> snapshot option) \<Rightarrow> admitted_id \<Rightarrow> admitted_record \<Rightarrow> bool" where
  "record_ok get i r \<longleftrightarrow>
     ad_admittedId r = i \<and> get (ad_beforeRef r) = Some (ad_beforeSnapshot r) \<and> integrity (ad_beforeSnapshot r) \<and>
     tidy_recipe (ad_recipe r) \<and> rp_epochId (ad_recipe r) = sn_epochId (ad_beforeSnapshot r)"

text \<open>
  The recipe stored for a change, applied to its before world, gives its after world; change,
  recipe and before world are of one epoch, change and recipe of one operation and template.
\<close>

definition change_replays :: "memory_durable \<Rightarrow> coordination_change \<Rightarrow> bool" where
  "change_replays d c \<longleftrightarrow>
     (\<exists>before template applied ss.
        durable_get d (cc_beforeRef c) = Some before \<and>
        replayKernelRun (durable_recipeForChange c d) before createDefaultHandlers \<lparr>ac_template = template\<rparr> =
          Inr (ApplyOk applied (cc_involved c) ss) \<and>
        durable_get d (cc_afterRef c) = Some (withSnapshotRef applied (cc_afterRef c)) \<and>
        sn_epochId before = cc_epochId c \<and> rp_epochId (durable_recipeForChange c d) = cc_epochId c \<and>
        rp_operationTypeId (durable_recipeForChange c d) = cc_operationTypeId c \<and>
        rp_templateRef (durable_recipeForChange c d) = cc_templateRef c)"

text \<open>
  The head is the after world of the last change, plus observations, possibly in another epoch.
  It is linked to that world when a check of the log can see how it was reached: it is the same
  world, or an observation was made since, or the epoch is another one.
\<close>

definition head_follows :: "memory_durable \<Rightarrow> bool" where
  "head_follows d \<longleftrightarrow>
     (case (arr_last (md_changelog d), durable_head d) of
        (Some c, Some h) \<Rightarrow>
          (\<exists>base es ep. durable_get d (cc_afterRef c) = Some base \<and>
             durable_get d h = Some (base\<lparr>sn_snapshotRef := h, sn_epochId := ep,
               sn_auditTail := renumbered (sn_auditTail base) es\<rparr>))
      | _ \<Rightarrow> True)"

definition head_linked :: "memory_durable \<Rightarrow> bool" where
  "head_linked d \<longleftrightarrow>
     (\<forall>c h base s. arr_last (md_changelog d) = Some c \<longrightarrow> durable_head d = Some h \<longrightarrow>
        durable_get d (cc_afterRef c) = Some base \<longrightarrow> durable_get d h = Some s \<longrightarrow>
        h = cc_afterRef c \<or> length (sn_auditTail base) < length (sn_auditTail s) \<or> sn_epochId s \<noteq> sn_epochId base)"

definition history_ok :: "memory_durable \<Rightarrow> run_history option \<Rightarrow> bool" where
  "history_ok d h \<longleftrightarrow>
     (\<forall>segs. h = Some segs \<longrightarrow> rewriteSegments segs = md_changelog d \<and>
        (\<forall>r s. durable_head d = Some r \<longrightarrow> durable_get d r = Some s \<longrightarrow> observationSegments segs = sn_auditTail s))"

text \<open>
  Every ref is used by one change only. The ref a change made is the head until the next
  change, so only the next change can start from it.
\<close>

definition log_refs :: "memory_durable \<Rightarrow> bool" where
  "log_refs d \<longleftrightarrow>
     distinct (map cc_beforeRef (md_changelog d)) \<and> distinct (map cc_afterRef (md_changelog d)) \<and>
     (\<forall>i<length (md_changelog d). \<forall>k<length (md_changelog d).
        cc_beforeRef (md_changelog d ! k) = cc_afterRef (md_changelog d ! i) \<longrightarrow> k = Suc i) \<and>
     (\<forall>h. durable_head d = Some h \<longrightarrow> h \<notin> cc_beforeRef ` set (md_changelog d) \<and>
        (\<forall>i<length (md_changelog d). cc_afterRef (md_changelog d ! i) = h \<longrightarrow> Suc i = length (md_changelog d)))"

definition durable_inv :: "locale_compare \<Rightarrow> snapshot_ref set \<Rightarrow> snapshot \<Rightarrow> memory_durable \<Rightarrow> bool" where
  "durable_inv lc issued s0 d \<longleftrightarrow>
     (\<forall>r s. durable_get d r = Some s \<longrightarrow>
        integrity s \<and> sn_snapshotRef s = r \<and> world_continues s0 s \<and> r \<in> insert (sn_snapshotRef s0) issued) \<and>
     (\<exists>h s. durable_head d = Some h \<and> durable_get d h = Some s) \<and>
     distinct (map cc_changeId (md_changelog d)) \<and> cc_changeId ` set (md_changelog d) \<subseteq> issued \<and>
     successively (\<lambda>a b. changeContinuesChain lc a b (durable_get d)) (md_changelog d) \<and>
     (\<forall>c\<in>set (md_changelog d). change_replays d c) \<and> head_follows d \<and> log_refs d"

definition runtime_inv ::
  "'g runtime_config \<Rightarrow> ('g \<Rightarrow> snapshot_ref set) \<Rightarrow> snapshot \<Rightarrow> 'g runtime_state \<Rightarrow> bool" where
  "runtime_inv cf used s0 st \<longleftrightarrow>
     durable_inv (cf_collation cf) (used (rt_ids st)) s0 (rt_durable st) \<and>
     leases_exclusive (map lock_lease (as_locks (rt_admission st))) \<and>
     (\<forall>i r. map_get (as_records (rt_admission st)) i = Some r \<longrightarrow> record_ok (durable_get (rt_durable st)) i r) \<and>
     history_ok (rt_durable st) (rt_history st)"

end
