(* ===== verification/Runtime_Safety.thy ===== *)
theory Runtime_Safety
  imports Runtime_Invariant
begin

text \<open>
  Every step of the runtime keeps the invariant: the effect of adding a snapshot under a ref
  nobody used, then the steps one by one.
\<close>

section \<open>Adding a snapshot\<close>

definition extends :: "(snapshot_ref \<Rightarrow> snapshot option) \<Rightarrow> (snapshot_ref \<Rightarrow> snapshot option) \<Rightarrow> bool" where
  "extends f f' \<longleftrightarrow> (\<forall>r s. f r = Some s \<longrightarrow> f' r = Some s)"

lemma extends_put: "f r = None \<Longrightarrow> extends f (f(r \<mapsto> s))"
  by (auto simp: extends_def)

lemma extends_refl [simp]: "extends f f"
  by (simp add: extends_def)

lemma chain_extends: "changeContinuesChain lc a b f \<Longrightarrow> extends f f' \<Longrightarrow> changeContinuesChain lc a b f'"
  by (auto simp: changeContinuesChain_def extends_def split: if_splits option.splits prod.splits)

lemma chains_extend:
  "successively (\<lambda>a b. changeContinuesChain lc a b f) cs \<Longrightarrow> extends f f' \<Longrightarrow>
    successively (\<lambda>a b. changeContinuesChain lc a b f') cs"
  by (induction cs rule: induct_list012) (auto intro: chain_extends)

lemma record_ok_extends: "record_ok f i r \<Longrightarrow> extends f f' \<Longrightarrow> record_ok f' i r"
  by (simp add: record_ok_def extends_def)

lemma replays_extend:
  "change_replays d c \<Longrightarrow> extends (durable_get d) (durable_get d') \<Longrightarrow>
    durable_recipeForChange c d' = durable_recipeForChange c d \<Longrightarrow> change_replays d' c"
  by (fastforce simp: change_replays_def extends_def)

lemma records_extend:
  "\<forall>i r. map_get m i = Some r \<longrightarrow> record_ok f i r \<Longrightarrow> extends f f' \<Longrightarrow>
    \<forall>i r. map_get m i = Some r \<longrightarrow> record_ok f' i r"
  using record_ok_extends by blast

text \<open>The refs of a logged change resolve.\<close>

lemma logged_refs:
  assumes "\<forall>c\<in>set (md_changelog d). change_replays d c" and "durable_get d r = None"
  shows "r \<notin> cc_beforeRef ` set (md_changelog d)" "r \<notin> cc_afterRef ` set (md_changelog d)"
  using assms by (force simp: change_replays_def)+

lemma log_refs_snoc:
  assumes "log_refs d" and "durable_head d = Some (cc_beforeRef c)" and "cc_beforeRef c \<noteq> cc_afterRef c"
    and "cc_afterRef c \<notin> cc_beforeRef ` set (md_changelog d)" and "cc_afterRef c \<notin> cc_afterRef ` set (md_changelog d)"
    and "durable_head d' = Some (cc_afterRef c)" and "md_changelog d' = md_changelog d @ [c]"
  shows "log_refs d'"
proof -
  let ?n = "length (md_changelog d)"
  have b: "cc_beforeRef c \<noteq> cc_beforeRef (md_changelog d ! k)" "cc_afterRef c \<noteq> cc_beforeRef (md_changelog d ! k)"
    "cc_afterRef c \<noteq> cc_afterRef (md_changelog d ! k)" if "k < ?n" for k
    using assms(1,2,4,5) nth_mem [OF that] by (auto simp: log_refs_def)
  have order: "k = Suc i" if "i < Suc ?n" "k < Suc ?n"
    "cc_beforeRef ((md_changelog d @ [c]) ! k) = cc_afterRef ((md_changelog d @ [c]) ! i)" for i k
    using that b b(2) [symmetric] assms(1-3)
    by (cases "i < ?n"; cases "k < ?n") (auto simp: log_refs_def nth_append less_Suc_eq)
  have top: "Suc i = Suc ?n" if "i < Suc ?n" "cc_afterRef ((md_changelog d @ [c]) ! i) = cc_afterRef c" for i
    using that b(3) [of i] by (cases "i < ?n") (auto simp: nth_append less_Suc_eq)
  have refs: "distinct (map cc_beforeRef (md_changelog d'))" "distinct (map cc_afterRef (md_changelog d'))"
    "cc_afterRef c \<notin> cc_beforeRef ` set (md_changelog d')"
    using assms(1-5) by (auto simp: log_refs_def assms(7))
  have l: "length (md_changelog d') = Suc ?n" by (simp add: assms(7))
  show ?thesis
    unfolding log_refs_def l
  proof (intro conjI allI impI)
    show "k = Suc i" if "i < Suc ?n" "k < Suc ?n" "cc_beforeRef (md_changelog d' ! k) = cc_afterRef (md_changelog d' ! i)" for i k
      using order [OF that(1,2)] that(3) by (simp only: assms(7))
    show "h \<notin> cc_beforeRef ` set (md_changelog d')" if "durable_head d' = Some h" for h
      using refs(3) that assms(6) by simp
    show "Suc i = Suc ?n" if "durable_head d' = Some h" "i < Suc ?n" "cc_afterRef (md_changelog d' ! i) = h" for h i
      using top [OF that(2)] that(1,3) assms(6) by (simp add: assms(7))
  qed (rule refs)+
qed

section \<open>Leases\<close>

lemma acquire_exclusive:
  "leases_exclusive (map lock_lease t) \<Longrightarrow> leases_exclusive (map lock_lease (snd (acquire_lock n n' i f l t)))"
  using locks.step_exclusive [of t "Acquire n n' i f l"] by simp

lemma release_exclusive:
  "leases_exclusive (map lock_lease t) \<Longrightarrow> leases_exclusive (map lock_lease (release_lock i t))"
  using locks.step_exclusive [of t "Release i"] by simp

lemma expire_exclusive:
  "leases_exclusive (map lock_lease t) \<Longrightarrow> leases_exclusive (map lock_lease (releaseExpired n t))"
  using locks.step_exclusive [of t "Query n"] by simp

lemmas lease_rules = acquire_exclusive release_exclusive expire_exclusive

section \<open>Observation steps\<close>

lemma renumbered_snoc: "renumbered tail (es @ [e]) = renumbered tail es @ [numbered (renumbered tail es) e]"
  by (induction es arbitrary: tail) simp_all

lemma durable_cas_True:
  assumes "durable_cas h s d = (True, d')" and "frozen s"
  shows "durable_head d = Some h" "durable_head d' = Some (sn_snapshotRef s)"
    "durable_get d' = (durable_get d)(sn_snapshotRef s \<mapsto> s)" "md_changelog d' = md_changelog d"
    "md_sidecar d' = md_sidecar d"
proof -
  show "durable_head d = Some h" "durable_head d' = Some (sn_snapshotRef s)"
    "durable_get d' = (durable_get d)(sn_snapshotRef s \<mapsto> s)"
    using memory.swap_ok [OF assms(1)] restored_id [OF assms(2)] by simp_all
  show "md_changelog d' = md_changelog d" "md_sidecar d' = md_sidecar d"
    using assms(1) unfolding durable_cas_eq by (cases "durable_head d = Some h"; force)+
qed

lemma observes_frozen: "observes gen now inp p av d g h s e nxt g' \<Longrightarrow> frozen nxt"
  using durable_get_frozen by (fastforce simp: observes_def frozen_def)

lemma observe_durable_inv:
  assumes inv: "durable_inv lc issued s0 d" and o: "observes gen now inp p av d g h s e nxt g'"
    and cas: "durable_cas h nxt d = (True, d')"
    and fresh: "sn_snapshotRef nxt \<notin> insert (sn_snapshotRef s0) issued" and grows: "insert (sn_snapshotRef nxt) issued \<subseteq> issued'"
  shows "durable_inv lc issued' s0 d' \<and> extends (durable_get d) (durable_get d') \<and> head_linked d'"
proof -
  from o obtain r where hs: "durable_head d = Some h" "durable_get d h = Some s"
    and nxt: "nxt = s\<lparr>sn_snapshotRef := r, sn_auditTail := sn_auditTail s @ [e]\<rparr>" and int: "integrity nxt"
    and e: "ob_sequenceNo e = nextSequenceNo (sn_auditTail s)" by (auto simp: observes_def)
  have r: "sn_snapshotRef nxt = r" by (simp add: nxt)
  from durable_cas_True [OF cas observes_frozen [OF o]]
  have d': "durable_head d' = Some r" "durable_get d' = (durable_get d)(r \<mapsto> nxt)" "md_changelog d' = md_changelog d"
    "md_sidecar d' = md_sidecar d" by (simp_all add: r)
  have new: "durable_get d r = None" using inv fresh by (cases "durable_get d r") (auto simp: durable_inv_def r)
  then have ext: "extends (durable_get d) (durable_get d')" unfolding d' by (rule extends_put)
  have cont: "world_continues s0 nxt"
  proof -
    have "world_continues s0 s" using inv hs by (auto simp: durable_inv_def)
    moreover have "world_continues s nxt"
    proof -
      have "nxt = s\<lparr>sn_auditTail := sn_auditTail s @ [e]\<rparr>\<lparr>sn_snapshotRef := r\<rparr>" by (simp add: nxt)
      then show ?thesis by (simp only: ref_continues audit_continues)
    qed
    ultimately show ?thesis by (rule world_continues_trans)
  qed
  have follows: "head_follows d' \<and> head_linked d'"
  proof (cases "arr_last (md_changelog d)")
    case (Some c)
    with inv hs obtain base es ep where b: "durable_get d (cc_afterRef c) = Some base"
      "s = base\<lparr>sn_snapshotRef := h, sn_epochId := ep, sn_auditTail := renumbered (sn_auditTail base) es\<rparr>"
      by (auto simp: durable_inv_def head_follows_def)
    have "numbered (renumbered (sn_auditTail base) es) e = e"
      using e b by (cases e) (simp add: numbered_def)
    then have n: "nxt = base\<lparr>sn_snapshotRef := r, sn_epochId := ep, sn_auditTail := renumbered (sn_auditTail base) (es @ [e])\<rparr>"
      by (simp add: nxt b renumbered_snoc)
    have base: "durable_get d' (cc_afterRef c) = Some base" using ext b by (simp add: extends_def)
    have "length (sn_auditTail base) < length (sn_auditTail nxt)"
      using renumbered_drop [of "sn_auditTail base" "es @ [e]"] by (auto simp: n)
    then have "head_linked d'" using Some base by (auto simp: head_linked_def d')
    moreover have "head_follows d'"
      using Some base by (auto simp: head_follows_def d' n intro!: exI [of _ ep] exI [of _ "es @ [e]"])
    ultimately show ?thesis by blast
  qed (simp add: head_follows_def head_linked_def d')
  have recipes: "durable_recipeForChange c d' = durable_recipeForChange c d" for c
    by (simp add: durable_recipeForChange_def d')
  have "durable_inv lc issued' s0 d'"
    unfolding durable_inv_def d'(3)
  proof (intro conjI)
    show "\<forall>x u. durable_get d' x = Some u \<longrightarrow> integrity u \<and> sn_snapshotRef u = x \<and> world_continues s0 u \<and>
        x \<in> insert (sn_snapshotRef s0) issued'"
      using inv grows int cont r by (auto simp: durable_inv_def d' split: if_splits)
    show "\<exists>h s. durable_head d' = Some h \<and> durable_get d' h = Some s" by (simp add: d')
    show "distinct (map cc_changeId (md_changelog d))" using inv by (simp add: durable_inv_def)
    show "cc_changeId ` set (md_changelog d) \<subseteq> issued'" using inv grows by (auto simp: durable_inv_def)
    show "successively (\<lambda>a b. changeContinuesChain lc a b (durable_get d')) (md_changelog d)"
      using inv chains_extend [OF _ ext] by (simp add: durable_inv_def)
    show "\<forall>c\<in>set (md_changelog d). change_replays d' c"
      using inv replays_extend [OF _ ext recipes] by (simp add: durable_inv_def)
    show "head_follows d'" using follows by blast
    show "log_refs d'"
      using inv logged_refs [OF _ new] by (auto simp: durable_inv_def log_refs_def d' dest: nth_mem)
  qed
  with ext follows show ?thesis by blast
qed

section \<open>Commit steps\<close>

lemma arr_last_append [simp]: "arr_last (xs @ [x]) = Some x"
  by (simp add: arr_last_def)

lemma successively_snoc:
  "successively P xs \<Longrightarrow> (\<And>l. arr_last xs = Some l \<Longrightarrow> P l x) \<Longrightarrow> successively P (xs @ [x])"
  by (cases xs rule: rev_cases) (auto simp: successively_append_iff arr_last_def)

lemma commit_recipe_epoch: "commit_recipe gen t a g = (r, g') \<Longrightarrow> rp_epochId r = rp_epochId (ad_recipe a)"
  by (auto simp: commit_recipe_def allocateFreshRefsForRecipe_def withHeartbeatEmittedAt_def Let_def
      split: prod.splits if_splits)

lemma commit_durable_inv:
  assumes inv: "durable_inv lc issued s0 d" and rec: "record_ok (durable_get d) i a" and lc: "lc = cf_collation cf"
    and c: "commits cf t a d h g recipe applied involved change after g'"
    and handlers: "cf_handlers cf = createDefaultHandlers" and tidy: "tidy_recipe recipe"
    and fits: "commit_fits lc (commit_input a after change recipe) d"
    and grows: "insert (sn_snapshotRef after) issued \<subseteq> issued'" "cc_changeId change \<in> issued'"
    and d': "d' = committed (commit_input a after change recipe) d"
  shows "durable_inv lc issued' s0 d' \<and> extends (durable_get d) (durable_get d') \<and> head_linked d' \<and>
    sn_epochId after = sn_epochId (ad_beforeSnapshot a)"
proof -
  let ?i = "commit_input a after change recipe" and ?b = "ad_beforeSnapshot a"
  from rec have before: "durable_get d (ad_beforeRef a) = Some ?b" "integrity ?b" by (simp_all add: record_ok_def)
  then have fb: "frozen ?b" by (auto dest: durable_get_frozen)
  from c obtain ss r cid where ap: "applyRecipe ?b recipe createDefaultHandlers \<lparr>ac_template = ad_template a\<rparr> =
      Inr (ApplyOk applied involved ss)"
    and after: "after = withSnapshotRef applied r" "integrity after"
    and change: "change = coordinationChangeFromCommit recipe cid t (ad_beforeRef a) r (in_initiator (ad_intent a)) involved"
    by (auto simp: commits_def handlers)
  note op = applyRecipe_operates(1) [OF ap fb before(2)]
  have fa: "frozen applied" using op by (simp add: operates_def)
  have after': "after = applied\<lparr>sn_snapshotRef := r\<rparr>" using after(1) fa by (simp add: with_frozen(7))
  have fr: "frozen after" by (simp add: after(1))
  have ref: "sn_snapshotRef after = r" by (simp add: after')
  have get': "durable_get d' = (durable_get d)(r \<mapsto> after)" and log': "md_changelog d' = md_changelog d @ [change]"
    and head': "durable_head d' = Some r"
    using ref restored_id [OF fr] by (simp_all add: d' commit_input_def)
  have new: "durable_get d r = None" using fits ref by (simp add: commit_fits_def commit_input_def)
  then have ext: "extends (durable_get d) (durable_get d')" unfolding get' by (rule extends_put)
  have ids: "cc_changeId change \<notin> cc_changeId ` set (md_changelog d)"
    using fits by (simp add: commit_fits_def commit_input_def)
  have cont: "world_continues s0 after"
  proof -
    have "world_continues s0 ?b" using inv before by (auto simp: durable_inv_def)
    with operates_continues [OF op] show ?thesis unfolding after' ref_continues by (blast intro: world_continues_trans)
  qed
  have recipes: "durable_recipeForChange x d' = durable_recipeForChange x d" if "x \<in> set (md_changelog d)" for x
  proof -
    have "cc_changeId x \<noteq> cc_changeId change" using ids that by (metis imageI)
    then show ?thesis
      by (simp add: durable_recipeForChange_def recipeForChange_def d' committed_def commit_input_def jsmap_simps)
  qed
  have mine: "change_replays d' change"
  proof -
    have "durable_recipeForChange change d' = recipe"
      using recipe_committed [of ?i d] tidy by (simp add: d' commit_input_def snapshotReplayRecipe_id)
    moreover have "durable_get d' (ad_beforeRef a) = Some ?b" using ext before by (simp add: extends_def)
    moreover have "rp_epochId recipe = sn_epochId ?b"
      using c rec by (auto simp: commits_def record_ok_def dest: commit_recipe_epoch)
    ultimately show ?thesis
      using ap unfolding change_replays_def replayKernelRun_def by (auto simp: change get' after(1))
  qed
  have link: "changeContinuesChain lc l change (durable_get d')" if "arr_last (md_changelog d) = Some l" for l
    using fits that by (auto simp: commit_fits_def commit_input_def intro: chain_extends [OF _ ext])
  have "durable_inv lc issued' s0 d'"
    unfolding durable_inv_def log'
  proof (intro conjI)
    show "\<forall>x u. durable_get d' x = Some u \<longrightarrow> integrity u \<and> sn_snapshotRef u = x \<and> world_continues s0 u \<and>
        x \<in> insert (sn_snapshotRef s0) issued'"
      using inv grows after(2) cont ref by (auto simp: durable_inv_def get' split: if_splits)
    show "\<exists>h s. durable_head d' = Some h \<and> durable_get d' h = Some s" by (simp add: head' get')
    show "distinct (map cc_changeId (md_changelog d @ [change]))" using inv ids by (simp add: durable_inv_def)
    show "cc_changeId ` set (md_changelog d @ [change]) \<subseteq> issued'" using inv grows by (auto simp: durable_inv_def)
    show "successively (\<lambda>a b. changeContinuesChain lc a b (durable_get d')) (md_changelog d @ [change])"
      using inv link by (intro successively_snoc) (auto simp: durable_inv_def intro: chains_extend [OF _ ext])
    show "\<forall>c\<in>set (md_changelog d @ [change]). change_replays d' c"
      using inv mine replays_extend [OF _ ext recipes] by (auto simp: durable_inv_def)
    show "head_follows d'"
      by (auto simp: head_follows_def log' head' get' change after' intro!: exI [of _ "[]"] exI [of _ "sn_epochId applied"])
    have h: "durable_head d = Some (ad_beforeRef a)" "ad_beforeRef a \<noteq> r"
      using fits new before by (auto simp: commit_fits_def commit_input_def)
    show "log_refs d'"
      by (rule log_refs_snoc [where d = d and c = change]) (use inv head' h logged_refs [OF _ new] in \<open>auto simp: durable_inv_def log' change\<close>)
  qed
  moreover have "head_linked d'" by (simp add: head_linked_def log' head' change)
  moreover have "sn_epochId after = sn_epochId ?b" using op by (simp add: after' operates_def frame_kept_def)
  ultimately show ?thesis using ext by blast
qed

section \<open>Steps of the runtime\<close>

lemma commit_recipe_tidy: "tidy_recipe (ad_recipe a) \<Longrightarrow> commit_recipe gen t a g = (r, g') \<Longrightarrow> tidy_recipe r"
  by (auto simp: commit_recipe_def allocateFreshRefsForRecipe_def tidy_recipe_def withHeartbeatEmittedAt_def Let_def
      split: prod.splits if_splits)

lemma admission_recipe_simps [simp]:
  "tidy_recipe (admission_recipe b i t e)" "rp_epochId (admission_recipe b i t e) = sn_epochId b"
  "rp_operationTypeId (admission_recipe b i t e) = in_operationTypeId i"
  "rp_matchBindings (admission_recipe b i t e) = in_matchBindings i"
  "rp_authorization (admission_recipe b i t e) = e"
  "rp_templateRef (admission_recipe b i t e) = Some (op_templateRef t)"
  by (simp_all add: admission_recipe_def withRecipeAuthorization_def replayRecipe_def tidy_recipe_def Let_def)

definition admission_inv :: "(snapshot_ref \<Rightarrow> snapshot option) \<Rightarrow> admission_state \<Rightarrow> bool" where
  "admission_inv get a \<longleftrightarrow> leases_exclusive (map lock_lease (as_locks a)) \<and>
     (\<forall>i r. map_get (as_records a) i = Some r \<longrightarrow> record_ok get i r)"

lemma runtime_inv_parts:
  "runtime_inv cf used s0 st \<longleftrightarrow>
    durable_inv (cf_collation cf) (used (rt_ids st)) s0 (rt_durable st) \<and>
    admission_inv (durable_get (rt_durable st)) (rt_admission st) \<and> history_ok (rt_durable st) (rt_history st)"
  by (auto simp: runtime_inv_def admission_inv_def)

lemma admission_inv_extends: "admission_inv f a \<Longrightarrow> extends f f' \<Longrightarrow> admission_inv f' a"
  unfolding admission_inv_def using records_extend by blast

lemma cancel_inv: "admission_inv f a \<Longrightarrow> admission_inv f (registry_cancel t a)"
  by (simp add: admission_inv_def registry_cancel_def release_exclusive jsmap_simps)

lemma consume_inv: "admission_inv f a \<Longrightarrow> admission_inv f (registry_consume t (a\<lparr>as_locks := release_lock i (as_locks a)\<rparr>))"
  by (simp add: admission_inv_def registry_consume_def release_exclusive jsmap_simps)

lemma resolve_inv: "admission_inv f a \<Longrightarrow> admission_inv f (snd (resolveForCommit n n' t h a))"
  by (auto simp: resolveForCommit_def isHeld_def Let_def cancel_inv split: option.splits)
     (simp_all add: admission_inv_def expire_exclusive)

lemma admit_inv:
  assumes inv: "admission_inv get a" and adm: "admit cfg ctx get h (t1, t2, t3) inp a = (r, a')"
  shows "admission_inv get a'"
proof (cases r)
  case (Refused reason)
  with admit_Refused [of cfg ctx get h t1 t2 t3 inp a reason a'] adm inv show ?thesis
    by (auto simp: admission_inv_def expire_exclusive)
next
  case (Admitted t)
  from admit_Admitted [OF adm [unfolded Admitted]] show ?thesis
  proof cases
    case (1 beforeRef before template authorization)
    have rec: "record_ok get (tk_ticketId t) (admitted_as cfg ctx inp beforeRef before template authorization (tk_ticketId t) x)" for x
      using 1(1) by (simp add: record_ok_def admitted_as_def admissible_on_def Let_def)
    show ?thesis
      using inv rec unfolding admission_inv_def 1(4,5) by (auto simp: jsmap_simps acquire_exclusive)
  qed
qed

lemma history_committed:
  assumes "history_ok d h" and "validatePreCommit lc d h after change = None" and "md_changelog d' = md_changelog d @ [change]"
    and "durable_head d' = Some r" and "durable_get d' r = Some after"
  shows "history_ok d' (map_option (recordChange change) h)"
proof (cases h)
  case (Some segs)
  have "validateAuditTailMatchesHistory after segs = Inr ()"
    using assms(2) by (cases "validateAuditTailMatchesHistory after segs") (auto simp: validatePreCommit_def Some)
  with assms(1,3-5) Some show ?thesis
    by (auto simp: history_ok_def recordChange_def appendRewriteSegment_def appendTraceSegment_def validateAuditTail_history_ok)
qed (simp add: history_ok_def)

lemma history_observed:
  assumes "history_ok d h" and "durable_head d = Some hr" and "durable_get d hr = Some s"
    and "md_changelog d' = md_changelog d" and "durable_head d' = Some r" and "durable_get d' r = Some nxt"
    and "sn_auditTail nxt = sn_auditTail s @ [e]"
  shows "history_ok d' (map_option (recordObservation e) h)"
  using assms
  by (auto simp: history_ok_def recordObservation_def appendObservationSegment_def appendTraceSegment_def)

text \<open>The runtime's own assumptions on its configuration and its first world.\<close>

definition well_configured :: "'g runtime_config \<Rightarrow> 'g id_generator \<Rightarrow> snapshot \<Rightarrow> bool" where
  "well_configured cf gen s0 \<longleftrightarrow> cf_idGen cf = gen \<and> cf_handlers cf = createDefaultHandlers \<and>
     frozen s0 \<and> integrity s0 \<and> (\<forall>g. fst (ig_snapshotRef gen g) \<noteq> sn_snapshotRef s0)"

text \<open>
  What a step does to the durable world: nothing, or the head moves to one new world of the same
  epoch, under a ref not handed out before.
\<close>

definition advances :: "('g \<Rightarrow> snapshot_ref set) \<Rightarrow> 'g runtime_state \<Rightarrow> 'g runtime_state \<Rightarrow> bool" where
  "advances used st st' \<longleftrightarrow> used (rt_ids st) \<subseteq> used (rt_ids st') \<and>
     (rt_durable st' = rt_durable st \<or>
      (\<exists>h s r s'. durable_head (rt_durable st) = Some h \<and> durable_get (rt_durable st) h = Some s \<and>
         r \<in> used (rt_ids st') - used (rt_ids st) \<and> durable_get (rt_durable st) r = None \<and>
         durable_get (rt_durable st') = (durable_get (rt_durable st))(r \<mapsto> s') \<and>
         durable_head (rt_durable st') = Some r \<and> sn_epochId s' = sn_epochId s \<and>
         md_activeBinding (rt_durable st') = md_activeBinding (rt_durable st) \<and> head_linked (rt_durable st')))"

lemma advances_refl [simp]: "rt_durable st' = rt_durable st \<Longrightarrow> rt_ids st' = rt_ids st \<Longrightarrow> advances used st st'"
  by (simp add: advances_def)

lemma advances_extends: "advances used st st' \<Longrightarrow> extends (durable_get (rt_durable st)) (durable_get (rt_durable st'))"
  by (auto simp: advances_def intro: extends_put)

lemma binding_kept [simp]:
  "md_activeBinding (committed i d) = md_activeBinding d"
  "durable_cas h s d = (ok, d') \<Longrightarrow> md_activeBinding d' = md_activeBinding d"
  by (auto simp: committed_def durable_cas_eq split: if_splits)

context fresh_generator
begin

lemma observe_inv:
  assumes wc: "well_configured cf gen s0" and inv: "runtime_inv cf used s0 st"
    and ob: "runtime_observe cf now inp caller st = (out, st')"
  shows "runtime_inv cf used s0 st' \<and> advances used st st'"
proof (cases caller)
  case None
  with ob inv show ?thesis by (simp add: runtime_observe_def)
next
  case (Some p)
  obtain o1 d g' where ing: "ingestObservation gen now inp p (cf_content cf) (rt_durable st) (rt_ids st) = (o1, d, g')"
    by (metis prod_cases3)
  from inv have dinv: "durable_inv (cf_collation cf) (used (rt_ids st)) s0 (rt_durable st)"
    and ainv: "admission_inv (durable_get (rt_durable st)) (rt_admission st)"
    and hist: "history_ok (rt_durable st) (rt_history st)" by (simp_all add: runtime_inv_parts)
  show ?thesis
  proof (cases o1)
    case (Observed nxt e)
    then obtain h s where o: "observes gen now inp p (cf_content cf) (rt_durable st) (rt_ids st) h s e nxt g'"
      and cas: "durable_cas h nxt (rt_durable st) = (True, d)"
      using ing by (auto simp: ingest_Observed)
    from o obtain r where gen: "ig_snapshotRef gen (rt_ids st) = (r, g')" and r: "sn_snapshotRef nxt = r"
      and tail: "sn_auditTail nxt = sn_auditTail s @ [e]" and hs: "durable_head (rt_durable st) = Some h" "durable_get (rt_durable st) h = Some s"
      by (auto simp: observes_def)
    have "r \<noteq> sn_snapshotRef s0" using wc gen unfolding well_configured_def by (metis fst_conv)
    with snapshot_fresh [OF gen] r
    have fresh: "sn_snapshotRef nxt \<notin> insert (sn_snapshotRef s0) (used (rt_ids st))"
      and grows: "insert (sn_snapshotRef nxt) (used (rt_ids st)) \<subseteq> used g'" by auto
    note new = observe_durable_inv [OF dinv o cas fresh grows]
    note d' = durable_cas_True [OF cas observes_frozen [OF o]]
    have "history_ok d (map_option (recordObservation e) (rt_history st))"
      by (rule history_observed [OF hist hs d'(4) d'(2) _ tail]) (simp add: d'(3))
    moreover have "st' = st\<lparr>rt_durable := d, rt_ids := g', rt_history := map_option (recordObservation e) (rt_history st)\<rparr>"
      using ob ing wc by (simp add: runtime_observe_def Some Observed well_configured_def)
    moreover have "durable_get (rt_durable st) r = None"
      using dinv fresh by (cases "durable_get (rt_durable st) r") (auto simp: durable_inv_def r)
    moreover have "r \<in> used g' - used (rt_ids st)" using snapshot_fresh [OF gen] by blast
    moreover have "sn_epochId nxt = sn_epochId s" using o hs by (auto simp: observes_def)
    ultimately show ?thesis
      using new admission_inv_extends [OF ainv] grows hs d' binding_kept(2) [OF cas] r
      by (auto simp: runtime_inv_parts advances_def)
  next
    case (ObserveRefused v)
    with ing have d: "d = rt_durable st" by (auto dest: ingest_refused)
    have g': "used (rt_ids st) \<subseteq> used g'"
      using ing snapshot_fresh unfolding ingestObservation_def Let_def
      by (fastforce split: option.splits sum.splits prod.splits bool.splits if_splits)
    have "st' = st\<lparr>rt_durable := d, rt_ids := g'\<rparr>"
      using ob ing wc by (simp add: runtime_observe_def Some ObserveRefused well_configured_def)
    with d inv g' show ?thesis by (auto simp: runtime_inv_parts durable_inv_def advances_def)
  next
    case (ObserveThrew v)
    with ing show ?thesis by (simp add: ingest_returns)
  qed
qed

lemma executeCommit_used:
  assumes gen: "cf_idGen cf = gen" and "executeCommit cf t a d h g = (out, d', h', g')"
  shows "used g \<subseteq> used g'"
  using assms(2) unfolding executeCommit_def commit_applied_def Let_def gen
  by (auto split: prod.split_asm sum.split_asm apply_result.split_asm option.split_asm
      dest!: commit_recipe_used change_fresh snapshot_fresh)

lemma commit_inv:
  assumes wc: "well_configured cf gen s0" and inv: "runtime_inv cf used s0 st"
    and cm: "runtime_commit cf now now' t ticket st = (out, st')"
  shows "runtime_inv cf used s0 st' \<and> advances used st st'"
proof -
  let ?d = "rt_durable st" and ?a = "rt_admission st"
  obtain res ast where rs: "resolveForCommit now now' ticket (durable_head ?d) ?a = (res, ast)" by (metis surj_pair)
  from inv have dinv: "durable_inv (cf_collation cf) (used (rt_ids st)) s0 ?d"
    and ainv: "admission_inv (durable_get ?d) ?a" and hist: "history_ok ?d (rt_history st)"
    by (simp_all add: runtime_inv_parts)
  have ast: "admission_inv (durable_get ?d) ast" using resolve_inv [OF ainv, of now now' ticket "durable_head ?d"] rs by simp
  show ?thesis
  proof (cases res)
    case (Inl e)
    with cm rs have "st' = st\<lparr>rt_admission := registry_cancel ticket ast\<rparr>" by (simp add: runtime_commit_def)
    with dinv hist cancel_inv [OF ast] show ?thesis by (simp add: runtime_inv_parts)
  next
    case (Inr a)
    from rs Inr have rec: "map_get (as_records ?a) (tk_ticketId ticket) = Some a" "durable_head ?d = Some (ad_beforeRef a)"
      by (auto simp: resolveForCommit_ok)
    then have rok: "record_ok (durable_get ?d) (tk_ticketId ticket) a" using ainv by (simp add: admission_inv_def)
    obtain o1 d h g' where ex: "executeCommit cf t a ?d (rt_history st) (rt_ids st) = (o1, d, h, g')" by (metis prod_cases4)
    have g': "used (rt_ids st) \<subseteq> used g'" using executeCommit_used [OF _ ex] wc by (simp add: well_configured_def)
    have st': "st' = st\<lparr>rt_durable := d, rt_history := h, rt_ids := g',
        rt_admission := registry_consume ticket (ast\<lparr>as_locks := release_lock (ad_admittedId a) (as_locks ast)\<rparr>)\<rparr>"
      using cm rs Inr ex by (simp add: runtime_commit_def)
    note locks' = consume_inv [OF ast, of ticket "ad_admittedId a"]
    show ?thesis
    proof (cases "\<exists>c after i. o1 = Committed c after i")
      case False
      from executeCommit_unchanged [OF ex False] dinv hist locks' g' show ?thesis
        by (auto simp: st' runtime_inv_parts durable_inv_def advances_def)
    next
      case True
      then obtain change after cid where o1: "o1 = Committed change after cid" by blast
      from ex [unfolded o1 executeCommit_Committed] obtain recipe applied involved
        where c: "commits cf t a ?d (rt_history st) (rt_ids st) recipe applied involved change after g'"
          and fits: "commit_fits (cf_collation cf) (commit_input a after change recipe) ?d"
          and d: "d = committed (commit_input a after change recipe) ?d"
          and h: "h = map_option (recordChange change) (rt_history st)" by blast
      from c obtain g1 g2 r i where cr: "commit_recipe gen t a (rt_ids st) = (recipe, g1)"
        and sr: "ig_snapshotRef gen g1 = (r, g2)" and ci: "ig_changeId gen g2 = (i, g')" and change: "cc_changeId change = i"
        and af: "after = withSnapshotRef applied r" and pre: "validatePreCommit (cf_collation cf) ?d (rt_history st) after change = None"
        using wc by (auto simp: commits_def well_configured_def)
      have ref: "sn_snapshotRef after = r" by (simp add: af withSnapshotRef_def freezeSnapshot_def)
      have tidy: "tidy_recipe recipe" using rok cr by (auto simp: record_ok_def intro: commit_recipe_tidy)
      have grows: "insert (sn_snapshotRef after) (used (rt_ids st)) \<subseteq> used g'" "cc_changeId change \<in> used g'"
        using commit_recipe_used [OF cr] snapshot_fresh [OF sr] change_fresh [OF ci] ref change by auto
      have new: "durable_inv (cf_collation cf) (used g') s0 d \<and> extends (durable_get ?d) (durable_get d) \<and>
          head_linked d \<and> sn_epochId after = sn_epochId (ad_beforeSnapshot a)"
        by (rule commit_durable_inv [OF dinv rok refl c _ tidy fits grows d]) (use wc in \<open>simp add: well_configured_def\<close>)
      have fr: "frozen after" by (simp add: af)
      have "history_ok d (map_option (recordChange change) (rt_history st))"
        by (rule history_committed [OF hist pre, where r = r])
           (use ref restored_id [OF fr] in \<open>simp_all add: d commit_input_def\<close>)
      moreover have "advances used st st'"
      proof -
        have "r \<in> used g' - used (rt_ids st)"
          using commit_recipe_used [OF cr] snapshot_fresh [OF sr] change_fresh [OF ci] by auto
        moreover have "durable_get ?d r = None" using fits ref by (simp add: commit_fits_def commit_input_def)
        moreover have "durable_get d = (durable_get ?d)(r \<mapsto> after)" "durable_head d = Some r"
          using ref restored_id [OF fr] by (simp_all add: d commit_input_def)
        ultimately show ?thesis
          using new rec(2) rok g' by (auto simp: advances_def st' record_ok_def d)
      qed
      ultimately show ?thesis using new admission_inv_extends [OF locks'] by (simp add: st' runtime_inv_parts h)
    qed
  qed
qed

lemma runtime_admit_inv:
  assumes inv: "runtime_inv cf used s0 st" and ad: "runtime_admit cf readings intent beforeRef caller st = (out, st')"
  shows "runtime_inv cf used s0 st' \<and> rt_durable st' = rt_durable st \<and> rt_ids st' = rt_ids st"
proof (cases "cf_schemaContext cf (rt_durable st)")
  case (Inl e)
  with ad inv show ?thesis by (simp add: runtime_admit_def)
next
  case (Inr ctx)
  obtain t1 t2 t3 where r: "readings = (t1, t2, t3)" by (metis prod_cases3)
  obtain res ast where a: "admit (cf_gateway cf) ctx (durable_get (rt_durable st)) (durable_head (rt_durable st)) (t1, t2, t3)
      \<lparr>ai_intent = intent, ai_beforeRef = beforeRef, ai_principal = opt_default (in_initiator intent) caller\<rparr>
      (rt_admission st) = (res, ast)" by (metis surj_pair)
  with ad Inr r have "st' = st\<lparr>rt_admission := ast\<rparr>" by (simp add: runtime_admit_def)
  with inv admit_inv [OF _ a] show ?thesis by (simp add: runtime_inv_parts)
qed

lemma step_inv:
  assumes wc: "well_configured cf gen s0" and inv: "runtime_inv cf used s0 st" and "runtime_step cf st st'"
  shows "runtime_inv cf used s0 st' \<and> advances used st st'"
  using assms(3)
proof (cases rule: runtime_step.cases)
  case (step_propose readings now now' t intent beforeRef caller out)
  obtain r st1 where a: "runtime_admit cf readings intent beforeRef caller st = (r, st1)" by (metis surj_pair)
  from runtime_admit_inv [OF inv a] have i1: "runtime_inv cf used s0 st1"
    and same: "rt_durable st1 = rt_durable st" "rt_ids st1 = rt_ids st" by simp_all
  show ?thesis
  proof (cases "\<exists>ticket. r = AdmitResult (Admitted ticket)")
    case True
    then obtain ticket where r: "r = AdmitResult (Admitted ticket)" by blast
    obtain o1 st2 where c: "runtime_commit cf now now' t ticket st1 = (o1, st2)" by (metis surj_pair)
    with step_propose a r have "st' = st2" by (simp add: proposeAndCommit_def)
    with commit_inv [OF wc i1 c] show ?thesis by (simp add: advances_def same)
  next
    case False
    with step_propose a have "st' = st1"
      by (auto simp: proposeAndCommit_def split: admit_outcome.splits admission_result.splits)
    with i1 same show ?thesis by simp
  qed
next
  case (step_cancel ticket)
  with inv show ?thesis by (simp add: cancelAdmission_def runtime_inv_parts cancel_inv)
qed (use observe_inv [OF wc inv] commit_inv [OF wc inv] runtime_admit_inv [OF inv] in
    \<open>auto simp: runtime_admitComposition_def\<close>)

lemma initial_inv:
  assumes "well_configured cf gen s0"
  shows "runtime_inv cf used s0 (initial_runtime s0 binding tracked g)"
proof -
  have s0: "frozen s0" "integrity s0" using assms by (simp_all add: well_configured_def)
  have seed: "observationSegments (fold recordObservation es h) = observationSegments h @ es"
    "rewriteSegments (fold recordObservation es h) = rewriteSegments h" for es h
    by (induction es arbitrary: h)
       (simp_all add: recordObservation_def appendObservationSegment_def appendTraceSegment_def)
  have get: "durable_get (createMemoryRuntimePersistence (Some s0) binding) r =
      (if r = sn_snapshotRef s0 then Some s0 else None)" for r
    by (simp add: createMemoryRuntimePersistence_def durable_get_def newMemoryStore_def Let_def store_get_def
        jsmap_simps restored_id s0)
  have parts: "durable_head (createMemoryRuntimePersistence (Some s0) binding) = Some (sn_snapshotRef s0)"
    "md_changelog (createMemoryRuntimePersistence (Some s0) binding) = []"
    by (simp_all add: createMemoryRuntimePersistence_def durable_head_def newMemoryStore_def Let_def)
  have "durable_inv (cf_collation cf) (used g) s0 (createMemoryRuntimePersistence (Some s0) binding)"
    using s0 by (auto simp: durable_inv_def get parts head_follows_def log_refs_def arr_last_def split: if_splits)
  then show ?thesis
    by (auto simp: runtime_inv_parts initial_runtime_def admission_inv_def leases_exclusive_def history_ok_def
        seedFromAuditTail_def seed emptyRunHistory_def get parts split: if_splits)
qed

lemma reachable_inv:
  assumes wc: "well_configured cf gen s0" and "runtime_reachable cf (initial_runtime s0 binding tracked g) st"
  shows "runtime_inv cf used s0 st"
  using assms(2) by induction (auto intro: initial_inv [OF wc] dest: step_inv [OF wc])

text \<open>Without epoch transitions the head is always linked.\<close>

lemma reachable_linked:
  assumes wc: "well_configured cf gen s0" and "runtime_reachable cf (initial_runtime s0 binding tracked g) st"
  shows "head_linked (rt_durable st)"
  using assms(2)
proof induction
  case reach_start
  have "md_changelog (rt_durable (initial_runtime s0 binding tracked g)) = []"
    by (simp add: initial_runtime_def createMemoryRuntimePersistence_def)
  then show ?case by (simp add: head_linked_def arr_last_def)
next
  case (reach_step st st')
  from step_inv [OF wc reachable_inv [OF wc reach_step.hyps(1)] reach_step.hyps(2)] reach_step.IH
  show ?case by (auto simp: advances_def)
qed

end

lemma uuid_fresh: "inj uuid \<Longrightarrow> fresh_generator (uuidIdGenerator uuid) (\<lambda>n. uuid ` {..<n})"
  by unfold_locales (auto simp: uuidIdGenerator_def inj_def)

end
