(* ===== verification/Runtime_Progress.thy ===== *)
theory Runtime_Progress
  imports Runtime_Safety
begin

text \<open>
  What a reachable runtime gets done: a commit whose ticket resolves is refused for the sake of
  the operation only, never by the log, and the feed of committed changes skips none.
\<close>

section \<open>Commits complete\<close>

text \<open>The part of a commit that depends on the operation: recipe, application, its checks.\<close>

definition prepares ::
  "'g runtime_config \<Rightarrow> timestamp \<Rightarrow> admitted_record \<Rightarrow> 'g \<Rightarrow>
    replay_recipe \<Rightarrow> snapshot \<Rightarrow> actor_ref list \<Rightarrow> coordination_change \<Rightarrow> snapshot \<Rightarrow> 'g \<Rightarrow> bool" where
  "prepares cf t admitted g recipe applied involved change after g' \<longleftrightarrow>
     (\<exists>g1 g2 ss afterRef changeId.
        commit_recipe (cf_idGen cf) t admitted g = (recipe, g1) \<and>
        applyRecipe (ad_beforeSnapshot admitted) recipe (cf_handlers cf) \<lparr>ac_template = ad_template admitted\<rparr> =
          Inr (ApplyOk applied involved ss) \<and>
        validateCommitContentAvailability (ad_beforeSnapshot admitted) applied
          (in_operationTypeId (ad_intent admitted)) (cf_content cf) = None \<and>
        ig_snapshotRef (cf_idGen cf) g1 = (afterRef, g2) \<and> after = withSnapshotRef applied afterRef \<and> integrity after \<and>
        evaluateEnsures after (in_matchBindings (ad_intent admitted)) (op_ensures (ad_template admitted)) = None \<and>
        ig_changeId (cf_idGen cf) g2 = (changeId, g') \<and>
        change = coordinationChangeFromCommit recipe changeId t (ad_beforeRef admitted) afterRef
          (in_initiator (ad_intent admitted)) involved)"

lemma commits_prepares:
  "commits cf t a d h g recipe applied involved change after g' \<longleftrightarrow>
    prepares cf t a g recipe applied involved change after g' \<and> validatePreCommit (cf_collation cf) d h after change = None"
  unfolding commits_def prepares_def by blast

text \<open>Whatever a commit is refused for, it got as far as its operation allowed.\<close>

lemma executeCommit_refused:
  assumes "executeCommit cf t a d h g = (CommitRefused v, d', h', g')"
  shows "rv_code v \<in> {ApplyFailed, ContentRefUnavailable} \<or>
    (\<exists>recipe applied involved change after. prepares cf t a g recipe applied involved change after g' \<and>
       (validatePreCommit (cf_collation cf) d h after change \<noteq> None \<or>
        \<not> commit_fits (cf_collation cf) (commit_input a after change recipe) d))"
proof -
  have content: "validateCommitContentAvailability b s op c = Some v \<Longrightarrow> rv_code v = ContentRefUnavailable" for b s op c
  proof -
    have "content_loop av op rs = Some v \<Longrightarrow> rv_code v = ContentRefUnavailable" for av rs
      by (induction rs) (auto simp: runtimeViolation_def split: if_splits)
    then show "validateCommitContentAvailability b s op c = Some v \<Longrightarrow> ?thesis"
      by (auto simp: validateCommitContentAvailability_def Let_def runtimeViolation_def split: if_splits option.splits)
  qed
  have i: "validateSnapshotIntegrity s = Inr u \<longleftrightarrow> integrity s" for s u
    using validateSnapshotIntegrity_ok [of s] by (cases u) simp
  show ?thesis
    using assms unfolding executeCommit_def commit_applied_def applyAdmittedChange_def commit_input_def [symmetric] Let_def
    by (auto simp: prepares_def i runtimeViolation_def split: prod.split_asm sum.split_asm apply_result.split_asm option.split_asm
        dest: content durable_commit_Some)
qed

text \<open>Observations, another epoch, or both, are recognised as an unlogged advance.\<close>

lemma advance_recognised:
  assumes "frozen s" and t: "t = s\<lparr>sn_snapshotRef := r, sn_epochId := e, sn_auditTail := renumbered (sn_auditTail s) es\<rparr>"
    and new: "r \<noteq> sn_snapshotRef s" and some: "es \<noteq> [] \<or> e \<noteq> sn_epochId s"
  shows "isVerifiableUnloggedAdvance lc s t"
proof -
  have ft: "frozen t" using assms(1) by (simp add: t frozen_def)
  consider (observed) "es \<noteq> []" "e = sn_epochId s" | (epoch) "es = []" "e \<noteq> sn_epochId s" | (both) "es \<noteq> []" "e \<noteq> sn_epochId s"
    using some by blast
  then show ?thesis
  proof cases
    case observed
    have "t = s\<lparr>sn_snapshotRef := r, sn_auditTail := renumbered (sn_auditTail s) es\<rparr>" by (simp add: t observed)
    from observations_recognised [OF assms(1) observed(1) this] show ?thesis
      by (simp add: isVerifiableUnloggedAdvance_def)
  next
    case epoch
    have "snapshotWithAdvancedEpoch s r e = t"
      using restored_id [OF ft] by (simp add: snapshotWithAdvancedEpoch_def t epoch)
    with epoch_recognised [OF assms(1) new epoch(2)] show ?thesis by (simp add: isVerifiableUnloggedAdvance_def)
  next
    case both
    obtain new where len: "renumbered (sn_auditTail s) es = sn_auditTail s @ new" "length new = length es"
      using renumbered_drop [of "sn_auditTail s" es] by blast
    have "rebuild s (drop (length (sn_auditTail s)) (sn_auditTail t)) = s\<lparr>sn_auditTail := renumbered (sn_auditTail s) es\<rparr>"
      using rebuild_frozen [OF assms(1)] renumbered_again [of "sn_auditTail s" es] by (simp add: t)
    then have "isObservationAndEpochOnlyAdvance lc s t"
      using new both len by (simp add: isObservationAndEpochOnlyAdvance_def t canonical_refl)
    then show ?thesis by (simp add: isVerifiableUnloggedAdvance_def)
  qed
qed

context fresh_generator
begin

lemma prepared_fits:
  assumes wc: "well_configured cf gen s0" and inv: "runtime_inv cf used s0 st"
    and rec: "map_get (as_records (rt_admission st)) i = Some a"
    and head: "durable_head (rt_durable st) = Some (ad_beforeRef a)"
    and linked: "head_linked (rt_durable st)"
    and p: "prepares cf t a (rt_ids st) recipe applied involved change after g'"
  shows "validatePreCommit (cf_collation cf) (rt_durable st) (rt_history st) after change = None"
    and "commit_fits (cf_collation cf) (commit_input a after change recipe) (rt_durable st)"
proof -
  let ?d = "rt_durable st" and ?b = "ad_beforeSnapshot a" and ?lc = "cf_collation cf"
  from inv have dinv: "durable_inv ?lc (used (rt_ids st)) s0 ?d" and hist: "history_ok ?d (rt_history st)"
    and rok: "record_ok (durable_get ?d) i a"
    using rec by (simp_all add: runtime_inv_def)
  from rok have before: "durable_get ?d (ad_beforeRef a) = Some ?b" "integrity ?b"
    and epoch: "rp_epochId (ad_recipe a) = sn_epochId ?b" by (simp_all add: record_ok_def)
  then have fb: "frozen ?b" by (auto dest: durable_get_frozen)
  from p wc obtain g1 g2 ss r cid where cr: "commit_recipe gen t a (rt_ids st) = (recipe, g1)"
    and ap: "applyRecipe ?b recipe createDefaultHandlers \<lparr>ac_template = ad_template a\<rparr> = Inr (ApplyOk applied involved ss)"
    and sr: "ig_snapshotRef gen g1 = (r, g2)" and ci: "ig_changeId gen g2 = (cid, g')"
    and after: "after = withSnapshotRef applied r"
    and change: "change = coordinationChangeFromCommit recipe cid t (ad_beforeRef a) r (in_initiator (ad_intent a)) involved"
    by (auto simp: prepares_def well_configured_def)
  from applyRecipe_operates(1) [OF ap fb before(2)] have fa: "frozen applied" and kept: "frame_kept ?b applied"
    by (simp_all add: operates_def)
  have after': "after = applied\<lparr>sn_snapshotRef := r\<rparr>" using after fa by (simp add: with_frozen(7))
  have refs: "cc_beforeRef change = ad_beforeRef a" "cc_afterRef change = r" "cc_changeId change = cid"
    "cc_epochId change = rp_epochId recipe" by (simp_all add: change)
  have "rp_epochId recipe = rp_epochId (ad_recipe a)"
    using cr by (auto simp: commit_recipe_def allocateFreshRefsForRecipe_def withHeartbeatEmittedAt_def Let_def
        split: prod.splits if_splits)
  with epoch kept have ep: "cc_epochId change = sn_epochId after" by (simp add: refs after' frame_kept_def)
  have tail: "sn_auditTail after = sn_auditTail ?b" using kept by (simp add: after' frame_kept_def)
  have chain: "changeContinuesChain ?lc l change (durable_get ?d)" if l: "arr_last (md_changelog ?d) = Some l" for l
  proof -
    from dinv l head before obtain base es ep where b: "durable_get ?d (cc_afterRef l) = Some base"
      "?b = base\<lparr>sn_snapshotRef := ad_beforeRef a, sn_epochId := ep, sn_auditTail := renumbered (sn_auditTail base) es\<rparr>"
      by (auto simp: durable_inv_def head_follows_def)
    show ?thesis
    proof (cases "ad_beforeRef a = cc_afterRef l")
      case False
      have "sn_snapshotRef base = cc_afterRef l" using dinv b(1) by (auto simp: durable_inv_def)
      moreover have "es \<noteq> [] \<or> ep \<noteq> sn_epochId base"
        using linked l head b False before by (auto simp: head_linked_def)
      ultimately have "isVerifiableUnloggedAdvance ?lc base ?b"
        using False by (intro advance_recognised [OF durable_get_frozen [OF b(1)] b(2)]) auto
      with b(1) before show ?thesis by (simp add: changeContinuesChain_def refs)
    qed (simp add: changeContinuesChain_def refs)
  qed
  show "validatePreCommit ?lc ?d (rt_history st) after change = None"
  proof -
    have "validateAuditTailMatchesHistory after segs = Inr ()" if "rt_history st = Some segs" for segs
      using hist that head before tail by (auto simp: history_ok_def validateAuditTail_history_ok)
    then show ?thesis
      using chain ep by (auto simp: validatePreCommit_def or_else_def durable_changes_def split: option.split)
  qed
  have "used (rt_ids st) \<subseteq> used g1" by (rule commit_recipe_used [OF cr])
  then have fresh: "r \<notin> used (rt_ids st)" "cid \<notin> used (rt_ids st)"
    using snapshot_fresh [OF sr] change_fresh [OF ci] by auto
  have "r \<noteq> sn_snapshotRef s0" using wc sr unfolding well_configured_def by (metis fst_conv)
  with fresh dinv have "durable_get ?d r = None" "cid \<notin> cc_changeId ` set (md_changelog ?d)"
    by (cases "durable_get ?d r"; auto simp: durable_inv_def)+
  then show "commit_fits ?lc (commit_input a after change recipe) ?d"
    using chain head by (auto simp: commit_fits_def commit_input_def refs after' split: option.split)
qed

text \<open>A commit is decided by its operation alone.\<close>

lemma commit_decided:
  assumes wc: "well_configured cf gen s0" and inv: "runtime_inv cf used s0 st"
    and linked: "head_linked (rt_durable st)"
    and rs: "resolveForCommit now now' ticket (durable_head (rt_durable st)) (rt_admission st) = (Inr a, ast)"
  shows "(\<exists>cid. fst (runtime_commit cf now now' t ticket st) = Committed change after cid) \<longleftrightarrow>
      (\<exists>recipe applied involved g'. prepares cf t a (rt_ids st) recipe applied involved change after g')" (is ?decided)
    and "fst (runtime_commit cf now now' t ticket st) = CommitRefused v \<Longrightarrow>
      rv_code v \<in> {ApplyFailed, ContentRefUnavailable}"
proof -
  let ?d = "rt_durable st"
  from rs have rec: "map_get (as_records (rt_admission st)) (tk_ticketId ticket) = Some a"
    and head: "durable_head ?d = Some (ad_beforeRef a)" by (simp_all add: resolveForCommit_ok)
  note fits = prepared_fits [OF wc inv rec head linked]
  obtain o1 d h g' where ex: "executeCommit cf t a ?d (rt_history st) (rt_ids st) = (o1, d, h, g')" by (metis prod_cases4)
  then have o1: "fst (runtime_commit cf now now' t ticket st) = o1" by (simp add: runtime_commit_def rs)
  show ?decided
  proof
    assume "\<exists>cid. fst (runtime_commit cf now now' t ticket st) = Committed change after cid"
    then obtain cid where "o1 = Committed change after cid" by (auto simp: o1)
    from ex [unfolded this executeCommit_Committed commits_prepares]
    show "\<exists>recipe applied involved g'. prepares cf t a (rt_ids st) recipe applied involved change after g'" by blast
  next
    assume "\<exists>recipe applied involved g'. prepares cf t a (rt_ids st) recipe applied involved change after g'"
    then obtain recipe applied involved g2
      where p: "prepares cf t a (rt_ids st) recipe applied involved change after g2" by blast
    have c: "commits cf t a ?d (rt_history st) (rt_ids st) recipe applied involved change after g2"
      using p fits(1) [OF p] by (simp add: commits_prepares)
    have "executeCommit cf t a ?d (rt_history st) (rt_ids st) = (Committed change after (cc_changeId change),
        committed (commit_input a after change recipe) ?d, map_option (recordChange change) (rt_history st), g2)"
      using c fits(2) [OF p] by (auto simp: executeCommit_Committed)
    with ex show "\<exists>cid. fst (runtime_commit cf now now' t ticket st) = Committed change after cid" by (auto simp: o1)
  qed
  assume "fst (runtime_commit cf now now' t ticket st) = CommitRefused v"
  with ex have "executeCommit cf t a ?d (rt_history st) (rt_ids st) = (CommitRefused v, d, h, g')" by (simp add: o1)
  from executeCommit_refused [OF this] fits show "rv_code v \<in> {ApplyFailed, ContentRefUnavailable}" by metis
qed

end

section \<open>The feed of committed changes\<close>

lemma find_index_at:
  assumes "i < length xs" and "p (xs ! i)" and "\<And>j. j < i \<Longrightarrow> \<not> p (xs ! j)"
  shows "find_index p xs = Some i"
proof (cases "find_index p xs")
  case None
  with assms(1,2) show ?thesis by (auto simp: find_index_None)
next
  case (Some k)
  from find_index_Some [OF this] assms have "k = i" by (metis nat_neq_iff)
  with Some show ?thesis by simp
qed

lemma find_index_distinct:
  assumes "distinct (map f xs)" and "i < length xs"
  shows "find_index (\<lambda>x. f x = f (xs ! i)) xs = Some i"
  using assms by (intro find_index_at) (auto simp: distinct_conv_nth)

text \<open>Reading from the world after a change gives exactly the later changes.\<close>

lemma feed_after_change:
  assumes inv: "durable_inv lc issued s0 d" and i: "i < length (md_changelog d)"
  shows "durable_since lc (cc_afterRef (md_changelog d ! i)) d = Some (drop (Suc i) (md_changelog d))"
proof -
  let ?cs = "md_changelog d" and ?r = "cc_afterRef (md_changelog d ! i)"
  from inv have refs: "distinct (map cc_beforeRef ?cs)" "distinct (map cc_afterRef ?cs)"
    and chain: "successively (\<lambda>a b. changeContinuesChain lc a b (durable_get d)) ?cs"
    and replay: "\<forall>c\<in>set ?cs. change_replays d c"
    by (simp_all add: durable_inv_def log_refs_def)
  have "change_replays d (?cs ! i)" using replay nth_mem [OF i] by blast
  then obtain origin where origin: "durable_get d ?r = Some origin" by (auto simp: change_replays_def)
  have anchor: "find_index (\<lambda>c. cc_afterRef c = ?r) ?cs = Some i" by (rule find_index_distinct [OF refs(2) i])
  show ?thesis
  proof (cases "find_index (\<lambda>c. cc_beforeRef c = ?r) ?cs")
    case (Some k)
    from find_index_Some [OF this] have "k = Suc i" and k: "k < length ?cs"
      using inv i by (auto simp: durable_inv_def log_refs_def)
    then have "log_since ?r ?cs = Some (drop (Suc i) ?cs)" by (simp add: log_since_eq Some)
    then show ?thesis using k \<open>k = Suc i\<close> by (simp add: durable_since_def)
  next
    case None
    then have none: "\<And>c. c \<in> set ?cs \<Longrightarrow> cc_beforeRef c \<noteq> ?r" by (simp add: find_index_None)
    have direct: "log_since ?r ?cs = Some []" by (simp add: log_since_eq None)
    let ?p = "\<lambda>(index, c). \<not> index < i + 1 \<and> (case durable_get d (cc_beforeRef c) of
        Some before \<Rightarrow> isVerifiableUnloggedAdvance lc origin before | None \<Rightarrow> False)"
    have since: "durable_since lc ?r d = (case find_index ?p (enumerate 0 ?cs) of
        Some bridged \<Rightarrow> Some (drop bridged ?cs) | None \<Rightarrow> Some [])"
      by (simp add: durable_since_def direct origin anchor Let_def)
    show ?thesis
    proof (cases "Suc i < length ?cs")
      case True
      have "changeContinuesChain lc (?cs ! i) (?cs ! Suc i) (durable_get d)"
        using chain True by (simp add: successively_conv_nth)
      then have "?p (enumerate 0 ?cs ! Suc i)"
        using none [OF nth_mem [OF True]] True origin
        by (auto simp: changeContinuesChain_def nth_enumerate_eq split: option.splits if_splits)
      then have "find_index ?p (enumerate 0 ?cs) = Some (Suc i)"
        using True by (intro find_index_at) (auto simp: nth_enumerate_eq)
      with since show ?thesis by simp
    next
      case False
      then have "find_index ?p (enumerate 0 ?cs) = None"
        by (auto simp: find_index_None in_set_enumerate_eq)
      with since False show ?thesis by simp
    qed
  qed
qed

end
