(* ===== verification/Runtime_Abstract.thy ===== *)
theory Runtime_Abstract
  imports Runtime_Durable
begin

text \<open>
  The durable coordinator abstractly: an immutable map of worlds, one head, an append-only log,
  the recipes of its changes and the active binding. The memory coordinator, with its insertion
  ordered maps and its sequence of partial updates, refines it.
\<close>

record durable_spec =
  ds_world :: "snapshot_ref \<Rightarrow> snapshot option"
  ds_head :: "snapshot_ref option"
  ds_log :: "coordination_change list"
  ds_recipe :: "change_id \<Rightarrow> replay_recipe option"
  ds_binding :: "schema_epoch_binding option"

definition durable_abs :: "memory_durable \<Rightarrow> durable_spec" where
  "durable_abs d =
     \<lparr>ds_world = durable_get d, ds_head = durable_head d, ds_log = durable_changes d,
      ds_recipe = (\<lambda>i. sidecar_get i (md_sidecar d)), ds_binding = md_activeBinding d\<rparr>"

text \<open>One transaction: all of it, or nothing.\<close>

definition spec_commit :: "locale_compare \<Rightarrow> durable_commit_input \<Rightarrow> durable_spec \<Rightarrow> bool \<times> durable_spec" where
  "spec_commit lc i s =
     (if ds_head s = Some (dc_expectedHead i) \<and> cc_changeId (dc_change i) \<notin> cc_changeId ` set (ds_log s) \<and>
         (case arr_last (ds_log s) of
            Some l \<Rightarrow> changeContinuesChain lc l (dc_change i) (ds_world s)
          | None \<Rightarrow> cc_beforeRef (dc_change i) = dc_expectedHead i) \<and>
         ds_world s (sn_snapshotRef (dc_after i)) = None
      then (True, s\<lparr>ds_world := (ds_world s)(sn_snapshotRef (dc_after i) \<mapsto> freezeSnapshot (dc_after i)),
                    ds_head := Some (sn_snapshotRef (dc_after i)), ds_log := ds_log s @ [dc_change i],
                    ds_recipe := (ds_recipe s)(cc_changeId (dc_change i) \<mapsto> snapshotReplayRecipe (dc_recipe i))\<rparr>)
      else (False, s))"

definition spec_swap :: "snapshot_ref \<Rightarrow> snapshot \<Rightarrow> schema_epoch_binding option \<Rightarrow> durable_spec \<Rightarrow> bool \<times> durable_spec" where
  "spec_swap expected snap binding s =
     (if ds_head s = Some expected
      then (True, s\<lparr>ds_world := (ds_world s)(sn_snapshotRef snap \<mapsto> freezeSnapshot snap),
                    ds_head := Some (sn_snapshotRef snap),
                    ds_binding := (case binding of Some b \<Rightarrow> Some b | None \<Rightarrow> ds_binding s)\<rparr>)
      else (False, s))"

lemma committed_abs:
  "durable_abs (committed i d) =
    (durable_abs d)\<lparr>ds_world := (durable_get d)(sn_snapshotRef (dc_after i) \<mapsto> freezeSnapshot (dc_after i)),
      ds_head := Some (sn_snapshotRef (dc_after i)), ds_log := durable_changes d @ [dc_change i],
      ds_recipe := (\<lambda>i. sidecar_get i (md_sidecar d))(cc_changeId (dc_change i) \<mapsto> snapshotReplayRecipe (dc_recipe i))\<rparr>"
  by (auto simp: durable_abs_def restored_freeze fun_eq_iff)
     (auto simp: committed_def sidecar_get_def jsmap_simps snapshotReplayRecipe_id)

lemma commit_refines:
  "(fst (durable_commit lc i d) = None, durable_abs (snd (durable_commit lc i d))) = spec_commit lc i (durable_abs d)"
proof -
  have fits: "(fst (spec_commit lc i (durable_abs d))) = commit_fits lc i d"
    by (cases "arr_last (md_changelog d)")
       (simp_all add: spec_commit_def commit_fits_def durable_abs_def durable_changes_def)
  show ?thesis
  proof (cases "commit_fits lc i d")
    case True
    then have "durable_commit lc i d = (None, committed i d)" by (rule durable_commit_fits)
    with fits True show ?thesis
      by (auto simp: spec_commit_def committed_abs split: if_splits) (simp_all add: durable_abs_def)
  next
    case False
    then obtain e where "durable_commit lc i d = (Some e, d)" using durable_commit_not_fits by blast
    with fits False show ?thesis by (auto simp: spec_commit_def split: if_splits)
  qed
qed

lemma swap_refines:
  "map_prod id durable_abs (durable_cas expected s d) = spec_swap expected s None (durable_abs d)"
  by (auto simp: durable_cas_eq spec_swap_def durable_abs_def durable_head_def durable_changes_def durable_get_def
      fun_eq_iff store_get_def jsmap_simps restored_freeze)

lemma snapshotSchemaEpochBinding_id [simp]: "snapshotSchemaEpochBinding b = b"
  by (cases b) (simp add: snapshotSchemaEpochBinding_def)

lemma binding_swap_eq:
  "compareAndSwapHeadWithBinding expected s b d =
    (case durable_cas expected s d of (ok, d') \<Rightarrow> (ok, if ok then d'\<lparr>md_activeBinding := Some b\<rparr> else d'))"
  by (auto simp: compareAndSwapHeadWithBinding_def durable_cas_def split: prod.splits bool.splits)

lemma binding_swap_refines:
  "map_prod id durable_abs (compareAndSwapHeadWithBinding expected s b d) = spec_swap expected s (Some b) (durable_abs d)"
  using swap_refines [of expected s d]
  by (cases "durable_cas expected s d")
     (auto simp: binding_swap_eq spec_swap_def durable_abs_def durable_get_def durable_head_def durable_changes_def fun_eq_iff
       split: if_splits)

end
