(* ===== verification/Runtime_Properties.thy ===== *)
theory Runtime_Properties
  imports Runtime_Progress Runtime_Abstract Runtime_Fresh Core_Properties "HOL-Library.Char_ord" "HOL-Library.List_Lexorder"
begin

text \<open>
  What the parts of the runtime promise one by one: lifecycle and conditions, operations and the
  refs allocated for them, leases, admission, observation, canonical equality, durable storage.
\<close>

section \<open>Operations\<close>

text \<open>C25. An operation of the default handlers that succeeds on a world with integrity yields a
  frozen world in which the only artifacts, participants, sessions, capabilities and links that
  changed are those its bindings name, the sessions and links allocated for it and, when no
  capability is bound, the write lock derived from the id of the task. Only the initiator's own
  transcript may have changed, and only new heartbeats of the initiator were appended.
  Participants only moved along the lifecycle, artifacts kept their kind and content, nothing
  was deleted, ref, epoch, policy, audit tail, retired entities, namespaces and access requests
  are untouched, and everybody it reports as involved is registered under the reported kind.\<close>

theorem operation_safe:
  assumes "applyRecipe s r createDefaultHandlers ctx = Inr (ApplyOk s' us ss)" and "frozen s" and "integrity s"
  shows "frozen s' \<and> frame_kept s s' \<and> participants_evolve s s' \<and> artifacts_evolve s s' \<and> nothing_lost s s' \<and>
    writes_within r s s' \<and> own_records r s s' \<and> (\<forall>u\<in>set us. resolves s' u)"
  using applyRecipe_operates [OF assms] by (simp add: operates_def)

text \<open>Registering an agent in the small world.\<close>

definition example_recipe :: replay_recipe where
  "example_recipe =
     replayRecipe \<lparr>ri_epochId = ''e1'', ri_operationTypeId = ''register_participant'', ri_templateRef = None,
       ri_matchBindings = [BFrom ''h'', BParticipant ''b''], ri_matchWitness = None, ri_complementSelector = None,
       ri_kind = None, ri_authorization = None, ri_external = None, ri_createdSessionRefs = None,
       ri_freshLinkRefs = None, ri_inputContentRefs = None, ri_scalarInputs = None, ri_emittedAt = None,
       ri_visibility = VExternal\<rparr>"

definition example_applied :: "runtime_violation + apply_result" where
  "example_applied = applyRecipe example_snapshot example_recipe createDefaultHandlers \<lparr>ac_template = REGISTER_PARTICIPANT\<rparr>"

lemma example_applied_ok: "succeeds example_applied"
  by code_simp

theorem operation_safe_witness:
  "\<exists>s' us ss. example_applied = Inr (ApplyOk s' us ss) \<and> writes_within example_recipe example_snapshot s' \<and>
    participants_evolve example_snapshot s' \<and> (\<forall>u\<in>set us. resolves s' u)"
proof -
  from example_applied_ok obtain s' us ss where a: "example_applied = Inr (ApplyOk s' us ss)"
    by (auto simp: succeeds_iff)
  from operation_safe [OF a [unfolded example_applied_def] example_snapshot_frozen example_snapshot_integrity] a
  show ?thesis by blast
qed

text \<open>C28. The references allocated before a structural operation are exactly as many as it
  consumes: on an allocated recipe creating a session, forking a branch and delegating succeed
  precisely when the world allows the operation, and never fail for a missing reference.\<close>

theorem allocation_suffices:
  "(rp_operationTypeId r = ''create_session'' \<longrightarrow>
      (succeeds (createSessionHandler s (fresh_recipe gen r g) ctx) \<longleftrightarrow>
        (\<exists>c i. bs_from r = Some c \<and> arr_get (rp_createdSessionRefs (fresh_recipe gen r g)) 0 = Some i \<and>
          \<not> map_has (sn_sessions s) i \<and> (\<forall>a\<in>set (c # participant_ids (rp_matchBindings r)). registered s a)))) \<and>
   (rp_operationTypeId r = ''fork_branch'' \<longrightarrow>
      (succeeds (forkBranchHandler s (fresh_recipe gen r g) ctx) \<longleftrightarrow>
        (\<exists>c. bs_from r = Some c \<and> registered s c \<and>
          (case bs_task r of None \<Rightarrow> rp_inputContentRefs r = []
           | Some t \<Rightarrow> \<not> map_has (sn_artifacts s) t \<and> rp_inputContentRefs r \<noteq> [])))) \<and>
   (rp_operationTypeId r = ''delegate'' \<longrightarrow>
      (succeeds (delegateHandler s (fresh_recipe gen r g) ctx) \<longleftrightarrow>
        (\<exists>t f b k. bs_task r = Some t \<and> bs_from r = Some f \<and> bs_to r = Some b \<and> bs_cap r = Some k \<and>
          map_has (sn_artifacts s) t \<and> map_has (sn_capabilities s) k \<and> registered s f \<and> registered s b)))"
  by (intro conjI impI; rule create_session_succeeds fork_branch_succeeds delegate_succeeds; assumption)

theorem allocation_suffices_witness:
  "succeeds (forkBranchHandler example_snapshot
     (fresh_recipe (uuidIdGenerator show_nat)
       (example_recipe\<lparr>rp_operationTypeId := ''fork_branch'', rp_matchBindings := [BFrom ''h'', BParticipant ''a'']\<rparr>) 0)
     \<lparr>ac_template = FORK_BRANCH\<rparr>)"
proof -
  let ?r = "example_recipe\<lparr>rp_operationTypeId := ''fork_branch'', rp_matchBindings := [BFrom ''h'', BParticipant ''a'']\<rparr>"
  have op: "rp_operationTypeId ?r = ''fork_branch''" by simp
  have f: "bs_from ?r = Some ''h''" and t: "bs_task ?r = None" by code_simp+
  have c: "rp_inputContentRefs ?r = []" by (simp add: example_recipe_def replayRecipe_def Let_def)
  have r: "registered example_snapshot ''h''" unfolding registered_def by code_simp
  note iff = allocation_suffices [of ?r example_snapshot "uuidIdGenerator show_nat" 0 "\<lparr>ac_template = FORK_BRANCH\<rparr>",
      THEN conjunct2, THEN conjunct1, THEN mp, OF op]
  show ?thesis by (rule iff [THEN iffD2], rule exI [of _ "''h''"]) (simp only: f t c r option.simps simp_thms)
qed

text \<open>The number of links allocated for an operation is bounded by what its bindings can
  join: one for a delegation, one per bound participant for a session, and for a branch one per
  unordered pair of the distinct branch members, so \<open>n (n - 1) / 2\<close> of them exactly.\<close>

theorem link_allocation_bounds:
  "link_count r ''delegate'' \<le> 1 \<and>
   link_count r ''create_session'' \<le> length (participant_ids (rp_matchBindings r)) \<and>
   (case bs_from r of
      None \<Rightarrow> link_count r ''fork_branch'' = 0
    | Some c \<Rightarrow>
        (let n = card (set (c # participant_ids (rp_matchBindings r)))
         in 2 * link_count r ''fork_branch'' = n * (n - 1) \<and>
            link_count r ''fork_branch'' = length (pairs_in_order (sessionParticipants r c)) \<and>
            n \<le> Suc (length (participant_ids (rp_matchBindings r)))))"
proof -
  have d: "link_count r ''delegate'' \<le> 1" by (simp add: link_count_def countDelegateReviewerLinks_def Let_def)
  have s: "link_count r ''create_session'' \<le> length (participant_ids (rp_matchBindings r))"
    by (simp add: link_count_def countCreateSessionLinks_def Let_def)
  show ?thesis
  proof (cases "bs_from r")
    case None
    with d s show ?thesis by (simp add: link_count_def countForkLinks_def)
  next
    case (Some c)
    let ?m = "sessionParticipants r c"
    let ?n = "card (set (c # participant_ids (rp_matchBindings r)))"
    have len: "length ?m = ?n"
      by (simp only: sessionParticipants_def distinct_card [OF distinct_new_Set, symmetric] set_new_Set)
    have c: "link_count r ''fork_branch'' = (if length ?m < 2 then 0 else length ?m * (length ?m - 1) div 2)"
      using Some by (simp add: link_count_def countForkLinks_def sessionParticipants_def Let_def)
    have p: "2 * length (pairs_in_order ?m) = length ?m * (length ?m - 1)" by (rule length_pairs_in_order)
    have e: "link_count r ''fork_branch'' = length (pairs_in_order ?m)"
    proof (cases "length ?m < 2")
      case True
      then have "length ?m = 0 \<or> length ?m = 1" by linarith
      with p have "length (pairs_in_order ?m) = 0" by auto
      with c True show ?thesis by simp
    next
      case False
      with c p show ?thesis by (metis nonzero_mult_div_cancel_left zero_neq_numeral)
    qed
    have "?n \<le> Suc (length (participant_ids (rp_matchBindings r)))"
      using card_length [of "c # participant_ids (rp_matchBindings r)"] by simp
    with d s e p Some len show ?thesis by (simp add: Let_def)
  qed
qed

section \<open>Leases\<close>

text \<open>C7. Whatever commands the lease table has seen, its leases are pairwise disjoint. A lease
  is granted exactly when it overlaps no live one, and a granted lease keeps refusing every
  overlapping footprint, under any commands, until it is released or its deadline passes.\<close>

theorem lease_exclusion:
  assumes "fst (acquire_lock now now' i f d (fold locks.step cs []))"
    and "list_all (locks.keeps (i, f, map_option ((+) now') d)) cs'"
    and "lease_live later (i, f, map_option ((+) now') d)" and "overlaps f g"
  shows "leases_exclusive (map lock_lease (fold locks.step cs [])) \<and>
    (\<forall>l\<in>set (map lock_lease (fold locks.step cs [])). lease_live now l \<longrightarrow> disjoint (fst (snd l)) f) \<and>
    \<not> fst (acquire_lock later later' j g d' (fold locks.step cs' (snd (acquire_lock now now' i f d (fold locks.step cs [])))))"
proof (intro conjI)
  show "leases_exclusive (map lock_lease (fold locks.step cs []))" by (rule locks.run_exclusive) simp
  show "\<forall>l\<in>set (map lock_lease (fold locks.step cs [])). lease_live now l \<longrightarrow> disjoint (fst (snd l)) f"
    using assms(1) unfolding locks.acquire_iff locks.leases_expire list_all_iff set_filter by blast
  show "\<not> fst (acquire_lock later later' j g d' (fold locks.step cs' (snd (acquire_lock now now' i f d (fold locks.step cs [])))))"
    by (rule locks.granted_excludes [OF assms])
qed

definition example_footprint :: "string \<Rightarrow> footprint" where
  "example_footprint i = footprintFromTargets [targetRef TArtifact i]"

theorem lease_exclusion_witness:
  "\<not> fst (acquire_lock 7 7 ''b'' (example_footprint ''x'') None
      (fold locks.step [Query 6, Release ''z'']
        (snd (acquire_lock 2 2 ''a'' (example_footprint ''x'') (Some 10) (fold locks.step [Acquire 0 0 ''z'' (example_footprint ''y'') None] [])))))"
proof -
  have "fst (acquire_lock 2 2 ''a'' (example_footprint ''x'') (Some 10) (fold locks.step [Acquire 0 0 ''z'' (example_footprint ''y'') None] []))"
    by (simp, code_simp)
  moreover have "list_all (locks.keeps (''a'', example_footprint ''x'', map_option ((+) 2) (Some 10))) [Query 6, Release ''z'']"
    by (simp add: lease_live_def)
  moreover have "lease_live 7 (''a'', example_footprint ''x'', map_option ((+) 2) (Some 10))"
    by (simp add: lease_live_def)
  moreover have "overlaps (example_footprint ''x'') (example_footprint ''x'')" by code_simp
  ultimately show ?thesis using lease_exclusion by blast
qed

section \<open>Admission\<close>

text \<open>C8. Admission grants a ticket exactly when the caller is the initiator and bound as \<open>from\<close>,
  the world exists, has integrity and the epoch of the schema, the template is allowed, its roles
  are bound and its conditions hold, the policy allows it, and no live lease overlaps the
  effective footprint. Granting adds one lease and one record, under the ticket; refusing adds
  nothing and forgets expired leases at most.\<close>

theorem admission_decides:
  "(case admit cfg ctx get head (t1, t2, t3) inp st of
      (Admitted t, st') \<Rightarrow>
        (\<exists>beforeRef before template authorization.
           admissible_on cfg ctx get head inp beforeRef before template authorization \<and>
           list_all (\<lambda>e. lock_expired t1 e \<or>
              disjoint (le_footprint e) (effectiveFootprintForAdmission (normalizeCoordinationIntent (ai_intent inp)) template))
              (as_locks st) \<and>
           map lock_lease (as_locks st') = map lock_lease (releaseExpired t1 (as_locks st)) @
             [(tk_ticketId t, effectiveFootprintForAdmission (normalizeCoordinationIntent (ai_intent inp)) template,
               Some (t2 + opt_default 60000 (gw_lockLeaseMs cfg)))] \<and>
           as_records st' = map_set (tk_ticketId t)
             (admitted_as cfg ctx inp beforeRef before template authorization (tk_ticketId t)
               (t3 + opt_default 60000 (gw_lockLeaseMs cfg))) (as_records st))
    | (Refused reason, st') \<Rightarrow>
        (\<nexists>beforeRef before template authorization.
           admissible_on cfg ctx get head inp beforeRef before template authorization \<and>
           list_all (\<lambda>e. lock_expired t1 e \<or>
              disjoint (le_footprint e) (effectiveFootprintForAdmission (normalizeCoordinationIntent (ai_intent inp)) template))
              (as_locks st)) \<and>
        as_records st' = as_records st \<and> (as_locks st' = as_locks st \<or> as_locks st' = releaseExpired t1 (as_locks st)))"
proof -
  have grant: "fst (acquire_lock t1 t2 i f d locks) \<longleftrightarrow> list_all (\<lambda>e. lock_expired t1 e \<or> disjoint (le_footprint e) f) locks"
    for i f d locks
    unfolding locks.acquire_iff by (auto simp: releaseExpired_filter list_all_iff lock_lease_def)
  obtain r st' where a: "admit cfg ctx get head (t1, t2, t3) inp st = (r, st')" by (metis surj_pair)
  show ?thesis
  proof (cases r)
    case (Admitted t)
    from admit_Admitted [OF a [unfolded Admitted]] show ?thesis
    proof cases
      case (1 beforeRef before template authorization)
      show ?thesis
        unfolding a Admitted prod.case admission_result.case
        using 1(1) 1(3) [unfolded grant] 1(5) locks.acquire_granted [OF 1(3)]
        by (intro exI [of _ beforeRef] exI [of _ before] exI [of _ template] exI [of _ authorization])
           (simp add: 1(4))
    qed
  next
    case (Refused reason)
    have "False" if ad: "admissible_on cfg ctx get head inp beforeRef before template authorization"
      and free: "list_all (\<lambda>e. lock_expired t1 e \<or>
        disjoint (le_footprint e) (effectiveFootprintForAdmission (normalizeCoordinationIntent (ai_intent inp)) template))
        (as_locks st)"
      for beforeRef before template authorization
      using a free unfolding Refused admit_goes_on [OF ad] admit_locked_result by (simp add: grant)
    with admit_Refused [OF a [unfolded Refused]] show ?thesis
      unfolding a Refused prod.case admission_result.case by blast
  qed
qed

section \<open>Observation\<close>

text \<open>C27. Ingesting an observation never throws. It succeeds exactly when the caller is the
  source, the payload is available and the head, extended by one numbered entry, has integrity;
  then that world is the new head under a fresh ref and nothing is logged. Refused, it leaves
  the store as it was.\<close>

theorem observation_exact:
  "case ingestObservation gen now inp caller av d g of
     (Observed nxt e, d', g') \<Rightarrow>
       (\<exists>h s. observes gen now inp caller av d g h s e nxt g') \<and> durable_head d' = Some (sn_snapshotRef nxt) \<and>
       durable_get d' = (durable_get d)(sn_snapshotRef nxt \<mapsto> nxt) \<and> durable_changes d' = durable_changes d
   | (ObserveRefused v, d', g') \<Rightarrow> d' = d \<and> (\<nexists>h s e nxt g'. observes gen now inp caller av d g h s e nxt g')
   | (ObserveThrew v, d', g') \<Rightarrow> False"
proof -
  obtain r d' g' where i: "ingestObservation gen now inp caller av d g = (r, d', g')" by (metis prod_cases3)
  show ?thesis
  proof (cases r)
    case (Observed nxt e)
    from i [unfolded Observed ingest_Observed] obtain h s
      where o: "observes gen now inp caller av d g h s e nxt g'" and c: "durable_cas h nxt d = (True, d')" by blast
    from durable_cas_True [OF c observes_frozen [OF o]] o show ?thesis
      by (auto simp: i Observed durable_changes_def)
  next
    case (ObserveRefused v)
    have "False" if o: "observes gen now inp caller av d g h s e nxt g2" for h s e nxt g2
    proof -
      have "\<exists>d2. durable_cas h nxt d = (True, d2)" using o by (auto simp: durable_cas_eq observes_def)
      with o have "\<exists>d2. ingestObservation gen now inp caller av d g = (Observed nxt e, d2, g2)"
        unfolding ingest_Observed by blast
      with i ObserveRefused show False by auto
    qed
    with ingest_refused [OF i [unfolded ObserveRefused]] show ?thesis by (auto simp: i ObserveRefused)
  qed (use i in \<open>simp add: ingest_returns\<close>)
qed

section \<open>Equality of worlds\<close>

text \<open>C29. Canonical equality does not depend on the order in which worlds list their entities: for
  a collation that is a total order on ids, two frozen worlds are canonically equal exactly when
  every compared component agrees id by id, sessions up to the order of their members.\<close>

theorem canonical_equality:
  assumes "collation lc" and "frozen l" and "frozen r"
  shows "snapshotsCanonicallyEqual lc l r \<longleftrightarrow> same_world lc l r"
  by (rule snapshotsCanonicallyEqual_iff [OF assms])

text \<open>The order of code points.\<close>

definition code_point_compare :: locale_compare where
  "code_point_compare a b = (if a = b then 0 else if a < b then - 1 else 1)"

lemma code_point_collation: "collation code_point_compare"
  by (auto simp: collation_def code_point_compare_def split: if_splits)

definition example_reordered :: snapshot where
  "example_reordered = example_snapshot\<lparr>sn_participants := rev (sn_participants example_snapshot)\<rparr>"

theorem canonical_equality_witness:
  "snapshotsCanonicallyEqual code_point_compare example_snapshot example_reordered \<and>
   same_world code_point_compare example_snapshot example_reordered"
proof -
  have "frozen example_reordered" unfolding frozen_def by code_simp
  note iff = canonical_equality [OF code_point_collation example_snapshot_frozen this]
  have "snapshotsCanonicallyEqual code_point_compare example_snapshot example_reordered" by code_simp
  with iff show ?thesis by blast
qed

text \<open>C30. Unlogged head advances, on frozen worlds and for a collation that totally orders ids:
  ingested observations, an epoch activation, and both together are always recognised. An advance
  is never recognised if it registers or drops a participant or changes the kind or status of
  one, changes an artifact, a capability, a link, a retired entity, the heartbeat log or the
  policy context, changes a session in what \<open>compareSession\<close> compares, or drops, reorders or
  rewrites an observation. Namespaces, the namespace and manifest of a participant, transcripts
  and access requests are not compared by the program, and nothing is claimed about them.\<close>

theorem unlogged_advances:
  assumes "collation lc" and "frozen s" and "frozen t"
  shows "(es \<noteq> [] \<longrightarrow> isVerifiableUnloggedAdvance lc s
            (s\<lparr>sn_snapshotRef := r, sn_auditTail := renumbered (sn_auditTail s) es\<rparr>)) \<and>
    (r \<noteq> sn_snapshotRef s \<longrightarrow> e \<noteq> sn_epochId s \<longrightarrow>
       isVerifiableUnloggedAdvance lc s (snapshotWithAdvancedEpoch s r e)) \<and>
    (es \<noteq> [] \<longrightarrow> r \<noteq> sn_snapshotRef s \<longrightarrow> e \<noteq> sn_epochId s \<longrightarrow>
       isVerifiableUnloggedAdvance lc s
         (snapshotWithAdvancedEpoch (s\<lparr>sn_auditTail := renumbered (sn_auditTail s) es\<rparr>) r e)) \<and>
    (\<not> same_graph lc s t \<or> (\<nexists>fs. sn_auditTail t = renumbered (sn_auditTail s) fs) \<longrightarrow>
       \<not> isVerifiableUnloggedAdvance lc s t)"
proof (intro conjI impI)
  show "isVerifiableUnloggedAdvance lc s (s\<lparr>sn_snapshotRef := r, sn_auditTail := renumbered (sn_auditTail s) es\<rparr>)"
    if "es \<noteq> []"
    using observations_recognised [OF assms(2) that refl] by (simp add: isVerifiableUnloggedAdvance_def)
  show "isVerifiableUnloggedAdvance lc s (snapshotWithAdvancedEpoch s r e)" if "r \<noteq> sn_snapshotRef s" "e \<noteq> sn_epochId s"
    using epoch_recognised [OF assms(2) that] by (simp add: isVerifiableUnloggedAdvance_def)
  show "isVerifiableUnloggedAdvance lc s (snapshotWithAdvancedEpoch (s\<lparr>sn_auditTail := renumbered (sn_auditTail s) es\<rparr>) r e)"
    if "es \<noteq> []" "r \<noteq> sn_snapshotRef s" "e \<noteq> sn_epochId s"
    using observed_epoch_recognised [OF assms(2) that] by (simp add: isVerifiableUnloggedAdvance_def)
qed (use unlogged_advance_sound [OF assms] in blast)

theorem unlogged_advances_witness:
  "isVerifiableUnloggedAdvance code_point_compare example_snapshot (snapshotWithAdvancedEpoch example_snapshot ''s1'' ''e2'') \<and>
   \<not> isVerifiableUnloggedAdvance code_point_compare example_snapshot (example_snapshot\<lparr>sn_participants := []\<rparr>)"
proof -
  note u = unlogged_advances [OF code_point_collation example_snapshot_frozen]
  have f: "frozen (example_snapshot\<lparr>sn_participants := []\<rparr>)" unfolding frozen_def by code_simp
  have "''s1'' \<noteq> sn_snapshotRef example_snapshot" "''e2'' \<noteq> sn_epochId example_snapshot" by code_simp+
  with u [OF example_snapshot_frozen] have
    "isVerifiableUnloggedAdvance code_point_compare example_snapshot (snapshotWithAdvancedEpoch example_snapshot ''s1'' ''e2'')"
    by blast
  moreover have "\<not> same_graph code_point_compare example_snapshot (example_snapshot\<lparr>sn_participants := []\<rparr>)"
  proof -
    have "map_get (sn_participants example_snapshot) ''h'' \<noteq> None" by code_simp
    then show ?thesis by (auto simp: same_graph_def same_world_def map_get_def dest!: spec [of _ "''h''"])
  qed
  ultimately show ?thesis using u [OF f] by blast
qed

section \<open>Durable storage\<close>

text \<open>C26. The memory coordinator refines its abstract transaction: commit, head swap and epoch
  swap commute with the abstraction to a map of worlds, a head, an append-only log, the recipes
  and the active binding. Each happens entirely or not at all.\<close>

theorem durable_refines:
  "(fst (durable_commit lc i d) = None, durable_abs (snd (durable_commit lc i d))) = spec_commit lc i (durable_abs d) \<and>
   map_prod id durable_abs (durable_cas expected s d) = spec_swap expected s None (durable_abs d) \<and>
   map_prod id durable_abs (compareAndSwapHeadWithBinding expected s b d) = spec_swap expected s (Some b) (durable_abs d)"
  using commit_refines swap_refines binding_swap_refines by blast

text \<open>C31. Reading the log always returns, cyclic logs included: \<open>since\<close> is the suffix from the
  first change that starts at the given ref, and the loop that follows the refs of a linear log
  ends with the suffix of that log.\<close>

theorem log_reads_return:
  "log_since r cs = Some (case find_index (\<lambda>c. cc_beforeRef c = r) cs of None \<Rightarrow> [] | Some i \<Rightarrow> drop i cs) \<and>
   (\<exists>suffix. durable_since lc r d = Some suffix) \<and>
   (ref_path cs \<longrightarrow> (\<forall>i<length cs. buildChainFrom cs (cc_beforeRef (cs ! i)) = Some (drop i cs)))"
  using log_since_eq durable_since_returns buildChainFrom_suffix by blast

definition example_change :: "string \<Rightarrow> string \<Rightarrow> string \<Rightarrow> coordination_change" where
  "example_change i before after =
     coordinationChangeFromCommit example_recipe i ''t'' before after (actorRef ''h'' Human) []"

theorem log_reads_return_witness:
  "buildChainFrom [example_change ''c1'' ''s0'' ''s1'', example_change ''c2'' ''s1'' ''s2''] ''s1'' =
    Some [example_change ''c2'' ''s1'' ''s2'']"
proof -
  let ?cs = "[example_change ''c1'' ''s0'' ''s1'', example_change ''c2'' ''s1'' ''s2'']"
  have refs: "cc_beforeRef (example_change i b a) = b" "cc_afterRef (example_change i b a) = a" for i b a
    by (simp_all add: example_change_def)
  have "ref_path ?cs" by (simp add: ref_path_def chained_def refs)
  with log_reads_return [of "''s1''" ?cs] have "buildChainFrom ?cs (cc_beforeRef (?cs ! 1)) = Some (drop 1 ?cs)"
    by (metis One_nat_def length_Cons lessI list.size(3))
  then show ?thesis by (simp add: refs)
qed

section \<open>The default schema\<close>

lemma createDefaultHandlers_put: "createDefaultHandlers = handlers.put_all DEFAULT_HANDLERS []"
  unfolding handlers.put_all_def by (simp add: createDefaultHandlers_def handler_put_def [abs_def])
lemma default_handlers_get: "\<forall>(i, rv, h)\<in>set DEFAULT_HANDLERS.
      handler_get createDefaultHandlers i (Some rv) = Some h \<and> handler_get createDefaultHandlers i None = Some h"
proof -
  have plain: "handlers.admissible DEFAULT_HANDLERS" and "distinct (map (\<lambda>(i, rv, h). (i, rv)) DEFAULT_HANDLERS)"
    and ids: "\<forall>(i, rv, h)\<in>set DEFAULT_HANDLERS. plain_id i \<and> List.find (\<lambda>(j, rv, v). j = i) DEFAULT_HANDLERS = Some (i, rv, h)"
    by (simp_all add: handlers.admissible_def DEFAULT_HANDLERS_def plain_id_def)
  then show ?thesis
    unfolding createDefaultHandlers_put
    by (auto simp: handlers.put_all_default [OF plain] handlers.get_empty intro!: handlers.put_all_revision)
qed

text \<open>Every operation of the default schema is admissible and executable: its template is
  allowed, resolves with and without its revision, and its revision has a default handler,
  which is the one registered for it.\<close>

theorem default_schema_complete:
  "list_all (\<lambda>t.
     op_operationTypeId t \<in> set (ax_allowedOperations (createActiveSchemaContext (createDefaultSchema None) e None)) \<and>
     getTemplate (createActiveSchemaContext (createDefaultSchema None) e None) (op_operationTypeId t) None = Some t \<and>
     getTemplate (createActiveSchemaContext (createDefaultSchema None) e None) (op_operationTypeId t)
       (Some (ot_revision (op_templateRef t))) = Some t \<and>
     ot_operationTypeId (op_templateRef t) = op_operationTypeId t) DEFAULT_TEMPLATES \<and>
   map (\<lambda>t. (op_operationTypeId t, ot_revision (op_templateRef t))) DEFAULT_TEMPLATES = map (\<lambda>(i, rv, h). (i, rv)) DEFAULT_HANDLERS \<and>
   list_all (\<lambda>(i, rv, h).
      handler_get createDefaultHandlers i (Some rv) = Some h \<and> handler_get createDefaultHandlers i None = Some h) DEFAULT_HANDLERS"
proof (intro conjI)
  show "list_all (\<lambda>t.
     op_operationTypeId t \<in> set (ax_allowedOperations (createActiveSchemaContext (createDefaultSchema None) e None)) \<and>
     getTemplate (createActiveSchemaContext (createDefaultSchema None) e None) (op_operationTypeId t) None = Some t \<and>
     getTemplate (createActiveSchemaContext (createDefaultSchema None) e None) (op_operationTypeId t)
       (Some (ot_revision (op_templateRef t))) = Some t \<and>
     ot_operationTypeId (op_templateRef t) = op_operationTypeId t) DEFAULT_TEMPLATES"
    by code_simp
  show "map (\<lambda>t. (op_operationTypeId t, ot_revision (op_templateRef t))) DEFAULT_TEMPLATES = map (\<lambda>(i, rv, h). (i, rv)) DEFAULT_HANDLERS"
    by (simp add: DEFAULT_TEMPLATES_def DEFAULT_HANDLERS_def default_template_defs)
qed (use default_handlers_get in \<open>simp add: list_all_iff\<close>)

end
