(* ===== verification/Runtime_EpochSafety.thy ===== *)
theory Runtime_EpochSafety
  imports Runtime_Epoch Runtime_Progress Runtime_Abstract
begin

text \<open>
  A runtime under epoch administration as a transition system: runtime operations and the steps of
  the administration in any order, with any clock readings and any answers of the resolver, and an
  invariant of its reachable states. Preparations that wait for the event loop are part of the state.
\<close>

section \<open>Steps\<close>

type_synonym waiting = "(epoch_request \<times> activation_state) list"

definition governed_config :: "'g runtime_config \<Rightarrow> epoch_admin \<Rightarrow> 'g runtime_config" where
  "governed_config cf adm = cf\<lparr>cf_schemaContext := held_context adm\<rparr>"

inductive governed_step ::
  "'g runtime_config \<Rightarrow> epoch_deps \<Rightarrow> 'g governed \<times> waiting \<Rightarrow> 'g governed \<times> waiting \<Rightarrow> bool" for cf deps where
  gov_runtime: "runtime_step (governed_config cf (gv_admin gv)) (gv_runtime gv) st \<Longrightarrow>
    governed_step cf deps (gv, ws) (gv\<lparr>gv_runtime := st\<rparr>, ws)"
| gov_inspect: "inspectActivationPoint deps rd domain gv = (out, gv') \<Longrightarrow> governed_step cf deps (gv, ws) (gv', ws)"
| gov_answer: "prepareEpochTransition deps rd req gv = (Answered out, gv') \<Longrightarrow> governed_step cf deps (gv, ws) (gv', ws)"
| gov_wait: "prepareEpochTransition deps rd req gv = (Waiting r s, gv') \<Longrightarrow>
    governed_step cf deps (gv, ws) (gv', (r, s) # ws)"
| gov_finish: "(r, s) \<in> set ws \<Longrightarrow> finishPreparation deps (cf_idGen cf) resolve now r s gv = (out', gv') \<Longrightarrow>
    governed_step cf deps (gv, ws) (gv', remove1 (r, s) ws)"
| gov_commit: "commitEpochTransition deps resolve rd token gv = (out'', gv') \<Longrightarrow> governed_step cf deps (gv, ws) (gv', ws)"
| gov_recover: "recoverEpochTransition deps resolve admissionId gv = (out'', gv') \<Longrightarrow>
    governed_step cf deps (gv, ws) (gv', ws)"

inductive governed_reachable ::
  "'g runtime_config \<Rightarrow> epoch_deps \<Rightarrow> 'g governed \<Rightarrow> 'g governed \<times> waiting \<Rightarrow> bool" for cf deps gv0 where
  governed_start: "governed_reachable cf deps gv0 (gv0, [])"
| governed_next: "governed_reachable cf deps gv0 x \<Longrightarrow> governed_step cf deps x y \<Longrightarrow> governed_reachable cf deps gv0 y"

text \<open>A runtime starts with the binding of its first world in the holders, durable or not.\<close>

definition initial_governed ::
  "snapshot \<Rightarrow> active_schema_context \<Rightarrow> schema_epoch_binding \<Rightarrow> bool \<Rightarrow> bool \<Rightarrow> 'g \<Rightarrow> 'g governed" where
  "initial_governed s0 ctx b durable tracked g =
     \<lparr>gv_runtime = initial_runtime s0 (if durable then Some b else None) tracked g,
      gv_admin = createMemoryEpochAdministration ctx b\<rparr>"

definition well_governed :: "snapshot \<Rightarrow> active_schema_context \<Rightarrow> schema_epoch_binding \<Rightarrow> bool" where
  "well_governed s0 ctx b \<longleftrightarrow> sb_epochId b = sn_epochId s0 \<and> ax_epochId ctx = sn_epochId s0 \<and> ax_binding ctx = Some b"

section \<open>The invariant\<close>

definition entry_epoch :: "journal_entry \<Rightarrow> epoch_id" where
  "entry_epoch e = sb_epochId (er_toBinding (je_receipt e))"

text \<open>No epoch id was activated twice.\<close>

definition epochs_unique :: "epoch_admin \<Rightarrow> bool" where
  "epochs_unique adm \<longleftrightarrow> (\<forall>i j e f. map_get (ea_committed adm) i = Some e \<longrightarrow> map_get (ea_committed adm) j = Some f \<longrightarrow>
     entry_epoch e = entry_epoch f \<longrightarrow> i = j)"

text \<open>Head, holders and the durable binding are of one epoch.\<close>

definition holders_agree :: "'g governed \<Rightarrow> bool" where
  "holders_agree gv \<longleftrightarrow>
     (\<exists>s. head_world (rt_durable (gv_runtime gv)) = Some s \<and>
        ax_epochId (ea_context (gv_admin gv)) = sn_epochId s \<and> sb_epochId (ea_binding (gv_admin gv)) = sn_epochId s \<and>
        ax_binding (ea_context (gv_admin gv)) = Some (ea_binding (gv_admin gv)) \<and>
        (\<forall>b. md_activeBinding (rt_durable (gv_runtime gv)) = Some b \<longrightarrow> sb_epochId b = sn_epochId s))"

definition prepared_ok :: "snapshot_ref set \<Rightarrow> memory_durable \<Rightarrow> string \<Rightarrow> prepared_record \<Rightarrow> bool" where
  "prepared_ok issued d i p \<longleftrightarrow>
     i = pt_preparedId (pp_prepared p) \<and> i = ''prep-'' @ eq_admissionId (pp_request p) \<and>
     pp_afterRef p \<in> issued \<and> durable_get d (pp_afterRef p) = None \<and>
     durable_get d (eq_expectedHead (pp_request p)) \<noteq> None \<and>
     (\<exists>current t. pp_toBinding p = advanced_binding (pp_request p) (pp_afterRef p) t current) \<and>
     pp_targetContext p = createActiveSchemaContext (pp_targetSchema p) (eq_targetEpochId (pp_request p)) (Some (pp_toBinding p)) \<and>
     eq_targetEpochId (pp_request p) \<noteq> eq_expectedEpochId (pp_request p) \<and>
     eq_expectedEpochOrdinal (pp_request p) < eq_targetEpochOrdinal (pp_request p)"

definition admin_inv :: "snapshot_ref set \<Rightarrow> memory_durable \<Rightarrow> epoch_admin \<Rightarrow> waiting \<Rightarrow> bool" where
  "admin_inv issued d adm ws \<longleftrightarrow>
     (\<forall>i p. map_get (ea_prepared adm) i = Some p \<longrightarrow> prepared_ok issued d i p) \<and>
     (\<forall>i j p q. map_get (ea_prepared adm) i = Some p \<longrightarrow> map_get (ea_prepared adm) j = Some q \<longrightarrow>
        pp_afterRef p = pp_afterRef q \<longrightarrow> i = j) \<and>
     (\<forall>r s. (r, s) \<in> set ws \<longrightarrow> durable_get d (av_head s) = Some (av_snapshot s))"

text \<open>While no epoch id returns, the binding holder is the durable binding.\<close>

definition binding_inv :: "memory_durable \<Rightarrow> epoch_admin \<Rightarrow> waiting \<Rightarrow> bool" where
  "binding_inv d adm ws \<longleftrightarrow>
     (\<forall>b. md_activeBinding d = Some b \<longrightarrow> b = ea_binding adm) \<and>
     (\<forall>i e. map_get (ea_committed adm) i = Some e \<longrightarrow>
        (\<exists>j f. map_get (ea_committed adm) j = Some f \<and> er_toBinding (je_receipt f) = ea_binding adm)) \<and>
     (\<forall>i p. map_get (ea_prepared adm) i = Some p \<longrightarrow> durable_head d = Some (eq_expectedHead (pp_request p)) \<longrightarrow>
        (\<exists>t. pp_toBinding p = advanced_binding (pp_request p) (pp_afterRef p) t (ea_binding adm)) \<and>
        sb_bindingGeneration (ea_binding adm) = eq_expectedBindingGeneration (pp_request p) \<and>
        sb_epochId (ea_binding adm) = eq_expectedEpochId (pp_request p) \<and>
        sb_epochOrdinal (ea_binding adm) = eq_expectedEpochOrdinal (pp_request p)) \<and>
     (\<forall>r s. (r, s) \<in> set ws \<longrightarrow> durable_head d = Some (av_head s) \<longrightarrow> av_binding s = ea_binding adm)"

definition governed_inv ::
  "'g runtime_config \<Rightarrow> ('g \<Rightarrow> snapshot_ref set) \<Rightarrow> snapshot \<Rightarrow> 'g governed \<Rightarrow> waiting \<Rightarrow> bool" where
  "governed_inv cf used s0 gv ws \<longleftrightarrow>
     runtime_inv cf used s0 (gv_runtime gv) \<and> holders_agree gv \<and>
     admin_inv (used (rt_ids (gv_runtime gv))) (rt_durable (gv_runtime gv)) (gv_admin gv) ws \<and>
     (epochs_unique (gv_admin gv) \<longrightarrow> binding_inv (rt_durable (gv_runtime gv)) (gv_admin gv) ws)"

section \<open>Housekeeping\<close>

lemma fold_fewer:
  assumes "\<And>x m. map_get (g x m) k = Some v \<Longrightarrow> map_get m k = Some v"
  shows "map_get (fold g xs m) k = Some v \<Longrightarrow> map_get m k = Some v"
  by (induction xs arbitrary: m) (auto dest: assms)

lemma pruned:
  "map_get (ea_prepared (pruneExpiredPreparations deps now adm)) i = Some p \<Longrightarrow> map_get (ea_prepared adm) i = Some p"
  "ea_committed (pruneExpiredPreparations deps now adm) = ea_committed adm"
  "ea_context (pruneExpiredPreparations deps now adm) = ea_context adm"
  "ea_binding (pruneExpiredPreparations deps now adm) = ea_binding adm"
proof -
  show "map_get (ea_prepared adm) i = Some p"
    if "map_get (ea_prepared (pruneExpiredPreparations deps now adm)) i = Some p"
    by (rule fold_fewer [OF _ that [unfolded pruneExpiredPreparations_def, simplified]])
       (auto simp: jsmap_simps split: prod.splits if_splits)
qed (simp_all add: pruneExpiredPreparations_def)

text \<open>Asking whether the runtime is quiet forgets expired leases and admissions, nothing else.\<close>

definition calmer :: "'g runtime_state \<Rightarrow> 'g runtime_state \<Rightarrow> bool" where
  "calmer st st' \<longleftrightarrow> (\<exists>a. st' = st\<lparr>rt_admission := a\<rparr> \<and> (\<forall>f. admission_inv f (rt_admission st) \<longrightarrow> admission_inv f a))"

lemma calmer_refl [simp]: "calmer st st"
  unfolding calmer_def by (intro exI [of _ "rt_admission st"]) simp

lemma calmer_trans: "calmer st st' \<Longrightarrow> calmer st' st'' \<Longrightarrow> calmer st st''"
  by (auto simp: calmer_def)

lemma calmer_simps:
  "calmer st st' \<Longrightarrow> rt_durable st' = rt_durable st" "calmer st st' \<Longrightarrow> rt_ids st' = rt_ids st"
  "calmer st st' \<Longrightarrow> rt_history st' = rt_history st"
  by (auto simp: calmer_def)

lemma calmer_inv: "runtime_inv cf used s0 st \<Longrightarrow> calmer st st' \<Longrightarrow> runtime_inv cf used s0 st'"
  by (auto simp: calmer_def runtime_inv_parts)

lemma resourcesClear_calmer: "calmer st (snd (resourcesClear now st))"
  by (auto simp: calmer_def resourcesClear_def heldLockCount_def Let_def admission_inv_def expire_exclusive)

lemma count_admissions_calmer: "calmer st (snd (count_admissions now st))"
proof -
  have records: "map_get (as_records a) k = Some r" if "map_get (as_records (snd (activeCount now a))) k = Some r" for a k r
    by (rule fold_fewer [OF _ that [unfolded activeCount_def, simplified Let_def snd_conv, simplified]])
       (auto simp: jsmap_simps split: prod.splits if_splits)
  have locks: "as_locks (snd (activeCount now a)) = as_locks a" for a by (simp add: activeCount_def Let_def)
  have "admission_inv f (snd (activeCount now a))" if "admission_inv f a" for f a
    using that records unfolding admission_inv_def locks by blast
  then show ?thesis
    unfolding calmer_def count_admissions_def split_beta snd_conv by blast
qed

lemma validateCommitState_calmer: "calmer st (snd (validateCommitState p before current now nows st))"
  using calmer_trans [OF resourcesClear_calmer [of st now] count_admissions_calmer [of "snd (resourcesClear now st)" nows]]
    resourcesClear_calmer [of st now]
  by (auto simp: validateCommitState_def Let_def split: prod.splits bool.splits)

lemma governed_fewer:
  assumes inv: "governed_inv cf used s0 gv ws" and "calmer (gv_runtime gv) (gv_runtime gv')"
    and fewer: "\<And>i p. map_get (ea_prepared (gv_admin gv')) i = Some p \<Longrightarrow> map_get (ea_prepared (gv_admin gv)) i = Some p"
    and same: "ea_committed (gv_admin gv') = ea_committed (gv_admin gv)" "ea_context (gv_admin gv') = ea_context (gv_admin gv)"
      "ea_binding (gv_admin gv') = ea_binding (gv_admin gv)"
  shows "governed_inv cf used s0 gv' ws"
proof -
  note st = calmer_simps [OF assms(2)]
  have "admin_inv issued d (gv_admin gv') ws" if "admin_inv issued d (gv_admin gv) ws" for issued d
    using that fewer unfolding admin_inv_def by (metis (no_types, lifting))
  moreover have "binding_inv d (gv_admin gv) ws \<Longrightarrow> binding_inv d (gv_admin gv') ws" for d
    unfolding binding_inv_def same
    using fewer by (elim conjE, intro conjI; (assumption | blast))
  moreover have "holders_agree gv' = holders_agree gv" "epochs_unique (gv_admin gv') = epochs_unique (gv_admin gv)"
    unfolding holders_agree_def epochs_unique_def same st by (rule refl)+
  moreover have "runtime_inv cf used s0 (gv_runtime gv')"
    using inv calmer_inv [OF _ assms(2)] by (simp add: governed_inv_def)
  ultimately show ?thesis using inv by (simp add: governed_inv_def st)
qed

section \<open>Runtime steps\<close>

lemma governed_config_simps [simp]:
  "well_configured (governed_config cf adm) gen s0 = well_configured cf gen s0"
  "runtime_inv (governed_config cf adm) used s0 st = runtime_inv cf used s0 st"
  by (simp_all add: governed_config_def well_configured_def runtime_inv_def)

text \<open>What happens to the administration when the head moves to a new ref.\<close>

lemma admin_inv_moves:
  assumes inv: "admin_inv issued d adm ws" and grows: "issued \<subseteq> issued'"
    and get: "durable_get d' = (durable_get d)(r \<mapsto> s)" and new: "durable_get d r = None"
    and other: "\<And>i p. map_get (ea_prepared adm) i = Some p \<Longrightarrow> pp_afterRef p \<noteq> r"
  shows "admin_inv issued' d' adm ws"
proof -
  have "prepared_ok issued' d' i p" if "map_get (ea_prepared adm) i = Some p" for i p
  proof -
    have "prepared_ok issued d i p" using inv that by (simp add: admin_inv_def)
    with new have "eq_expectedHead (pp_request p) \<noteq> r" by (auto simp: prepared_ok_def)
    with \<open>prepared_ok issued d i p\<close> other [OF that] grows show ?thesis unfolding prepared_ok_def get by auto
  qed
  then show ?thesis using inv new unfolding admin_inv_def get by fastforce
qed

lemma binding_inv_moves:
  assumes inv: "binding_inv d adm ws" and adm: "admin_inv issued d adm ws"
    and "durable_head d' = Some r" and new: "durable_get d r = None" and "md_activeBinding d' = md_activeBinding d"
  shows "binding_inv d' adm ws"
proof -
  have "eq_expectedHead (pp_request p) \<noteq> r" if "map_get (ea_prepared adm) i = Some p" for i p
  proof -
    have "prepared_ok issued d i p" using adm that by (simp add: admin_inv_def)
    with new show ?thesis by (auto simp: prepared_ok_def)
  qed
  moreover have "av_head s \<noteq> r" if "(q, s) \<in> set ws" for q s
    using adm that new unfolding admin_inv_def by fastforce
  ultimately show ?thesis using inv assms(3,5) unfolding binding_inv_def by auto
qed

lemma advances_admin:
  assumes inv: "governed_inv cf used s0 gv ws" and run: "runtime_inv cf used s0 st'" and adv: "advances used (gv_runtime gv) st'"
  shows "governed_inv cf used s0 (gv\<lparr>gv_runtime := st'\<rparr>) ws"
proof (cases "rt_durable st' = rt_durable (gv_runtime gv)")
  case True
  have "admin_inv (used (rt_ids st')) (rt_durable st') (gv_admin gv) ws"
    using inv adv unfolding governed_inv_def admin_inv_def prepared_ok_def advances_def True by blast
  with inv run True show ?thesis by (simp add: governed_inv_def holders_agree_def)
next
  case False
  let ?d = "rt_durable (gv_runtime gv)"
  from adv False obtain h s r s' where hs: "durable_head ?d = Some h" "durable_get ?d h = Some s"
    and r: "r \<in> used (rt_ids st') - used (rt_ids (gv_runtime gv))" "durable_get ?d r = None"
    and d': "durable_get (rt_durable st') = (durable_get ?d)(r \<mapsto> s')" "durable_head (rt_durable st') = Some r"
      "md_activeBinding (rt_durable st') = md_activeBinding ?d" and ep: "sn_epochId s' = sn_epochId s"
    and grows: "used (rt_ids (gv_runtime gv)) \<subseteq> used (rt_ids st')"
    unfolding advances_def by blast
  from inv have adm: "admin_inv (used (rt_ids (gv_runtime gv))) ?d (gv_admin gv) ws" by (simp add: governed_inv_def)
  have "pp_afterRef p \<noteq> r" if "map_get (ea_prepared (gv_admin gv)) i = Some p" for i p
    using adm that r(1) by (auto simp: admin_inv_def prepared_ok_def)
  note moved = admin_inv_moves [OF adm grows d'(1) r(2) this]
  have "holders_agree (gv\<lparr>gv_runtime := st'\<rparr>)"
    using inv hs by (auto simp: governed_inv_def holders_agree_def head_world_def d' ep)
  with inv run moved binding_inv_moves [OF _ adm d'(2) r(2) d'(3)] show ?thesis by (simp add: governed_inv_def)
qed

section \<open>Inspection and preparation\<close>

lemma epoch_copies [simp]:
  "snapshotEpochTransitionRequest r = r" "snapshotPreparedEpochTransition t = t" "snapshotRuntimeEpochReceipt e = e"
  by (simp_all add: snapshotEpochTransitionRequest_def snapshotPreparedEpochTransition_def snapshotRuntimeEpochReceipt_def)

lemma map_binding_id [simp]: "map_option snapshotSchemaEpochBinding b = b"
  by (cases b) simp_all

lemma context_simps [simp]:
  "ax_epochId (createActiveSchemaContext s e b) = e" "ax_binding (createActiveSchemaContext s e b) = b"
  "ax_epochId (snapshotActiveSchemaContext c) = ax_epochId c" "ax_binding (snapshotActiveSchemaContext c) = ax_binding c"
  by (simp_all add: createActiveSchemaContext_def snapshotActiveSchemaContext_def Let_def)

lemma holder_simps [simp]:
  "ea_context (holder_set_context c adm) = snapshotActiveSchemaContext c" "ea_binding (holder_set_context c adm) = ea_binding adm"
  "ea_prepared (holder_set_context c adm) = ea_prepared adm" "ea_committed (holder_set_context c adm) = ea_committed adm"
  "ea_context (holder_set_binding b adm) = ea_context adm" "ea_binding (holder_set_binding b adm) = b"
  "ea_prepared (holder_set_binding b adm) = ea_prepared adm" "ea_committed (holder_set_binding b adm) = ea_committed adm"
  by (simp_all add: holder_set_context_def holder_set_binding_def)

lemma advanced_binding_simps [simp]:
  "sb_bindingGeneration (advanced_binding req r t b) = sb_bindingGeneration b + 1"
  "sb_epochId (advanced_binding req r t b) = eq_targetEpochId req"
  "sb_epochOrdinal (advanced_binding req r t b) = eq_targetEpochOrdinal req"
  "sb_schemaRef (advanced_binding req r t b) = eq_targetSchemaRef req"
  "sb_runtimeHead (advanced_binding req r t b) = r" "sb_admissionId (advanced_binding req r t b) = eq_admissionId req"
  "sb_previousBindingGeneration (advanced_binding req r t b) = Some (sb_bindingGeneration b)"
  "sb_activationDomainId (advanced_binding req r t b) = sb_activationDomainId b"
  "sb_policyRef (advanced_binding req r t b) = sb_policyRef b"
  "sb_handlerManifestRef (advanced_binding req r t b) = sb_handlerManifestRef b"
  by (simp_all add: advanced_binding_def)

definition inspected :: "'g governed \<Rightarrow> activation_state \<Rightarrow> bool" where
  "inspected gv s \<longleftrightarrow> durable_head (rt_durable (gv_runtime gv)) = Some (av_head s) \<and>
     durable_get (rt_durable (gv_runtime gv)) (av_head s) = Some (av_snapshot s) \<and> av_binding s = ea_binding (gv_admin gv)"

lemma inspect_inv:
  assumes inv: "governed_inv cf used s0 gv ws" and i: "inspectActivationPoint deps rd domain gv = (out, gv')"
  shows "governed_inv cf used s0 gv' ws \<and> (\<forall>s. out = Inr s \<longrightarrow> inspected gv' s)"
proof -
  let ?adm = "pruneExpiredPreparations deps (rd_prune rd) (gv_admin gv)"
  have calm: "calmer (gv_runtime gv) (gv_runtime gv')" and adm: "gv_admin gv' = ?adm"
    and out: "\<forall>s. out = Inr s \<longrightarrow> inspected gv' s"
    using i resourcesClear_calmer [of "gv_runtime gv" "rd_locks rd"]
      calmer_trans [OF resourcesClear_calmer [of "gv_runtime gv" "rd_locks rd"]
        count_admissions_calmer [of "snd (resourcesClear (rd_locks rd) (gv_runtime gv))" "rd_records rd"]]
    unfolding inspectActivationPoint_def Let_def inspected_def
    by (auto simp: calmer_simps pruned(2-4) split: if_split_asm option.split_asm prod.split_asm)
  have "governed_inv cf used s0 gv' ws"
    by (rule governed_fewer [OF inv calm]) (auto simp: adm pruned(2-4) dest: pruned(1))
  with out show ?thesis by blast
qed

lemma prepare_inv:
  assumes inv: "governed_inv cf used s0 gv ws" and p: "prepareEpochTransition deps rd req gv = (out, gv')"
  shows "governed_inv cf used s0 gv' ws \<and> (\<forall>r s. out = Waiting r s \<longrightarrow> r = req \<and> inspected gv' s)"
proof -
  let ?gv0 = "gv\<lparr>gv_admin := pruneExpiredPreparations deps (rd_first rd) (gv_admin gv)\<rparr>"
  have "governed_inv cf used s0 ?gv0 ws"
    by (rule governed_fewer [OF inv]) (auto simp: pruned(2-4) dest: pruned(1))
  moreover obtain res gv1 where i: "inspectActivationPoint deps rd (eq_domainId req) ?gv0 = (res, gv1)" by (metis surj_pair)
  moreover note inspect_inv [OF calculation]
  ultimately show ?thesis
    using p unfolding prepareEpochTransition_def Let_def
    by (auto simp: i split: option.split_asm sum.split_asm)
qed

lemma governed_wait:
  assumes "governed_inv cf used s0 gv ws" and "inspected gv s"
  shows "governed_inv cf used s0 gv ((r, s) # ws)"
  using assms unfolding governed_inv_def admin_inv_def binding_inv_def inspected_def by auto

lemma governed_resume:
  assumes "governed_inv cf used s0 gv ws"
  shows "governed_inv cf used s0 gv (remove1 x ws)"
  using assms notin_set_remove1 [of _ ws x] unfolding governed_inv_def admin_inv_def binding_inv_def by meson

text \<open>What is stored when a preparation succeeds.\<close>

lemma finish_ok:
  assumes "finishPreparation deps gen resolve now req state gv = (Inr token, gv')"
  obtains afterRef g cached toBinding t where
    "validatePrepareState state req = None" "snapshotResolvedSchema (resolve (eq_targetSchemaRef req)) = Some cached"
    "validateResolvedSchema deps (eq_targetSchemaRef req) cached = None"
    "ig_snapshotRef gen (rt_ids (gv_runtime gv)) = (afterRef, g)"
    "toBinding = advanced_binding req afterRef t (ea_binding (gv_admin gv))" "pt_preparedId token = ''prep-'' @ eq_admissionId req"
    "gv' = gv\<lparr>gv_runtime := (gv_runtime gv)\<lparr>rt_ids := g\<rparr>,
       gv_admin := (gv_admin gv)\<lparr>ea_prepared := map_set (pt_preparedId token)
         \<lparr>pp_request = req, pp_prepared = token, pp_afterRef = afterRef, pp_toBinding = toBinding, pp_targetSchema = cached,
          pp_targetContext = createActiveSchemaContext cached (eq_targetEpochId req) (Some toBinding)\<rparr>
         (ea_prepared (gv_admin gv))\<rparr>\<rparr>"
  using assms unfolding finishPreparation_def Let_def
  by (auto split: option.split_asm resolution.split_asm prod.split_asm)

lemma finish_refused: "finishPreparation deps gen resolve now req state gv = (Inl v, gv') \<Longrightarrow> gv' = gv"
  unfolding finishPreparation_def Let_def
  by (auto split: option.split_asm resolution.split_asm prod.split_asm)

lemma validatePrepareState_None:
  "validatePrepareState s r = None \<longleftrightarrow>
    av_head s = eq_expectedHead r \<and> sb_bindingGeneration (av_binding s) = eq_expectedBindingGeneration r \<and>
    sn_epochId (av_snapshot s) = eq_expectedEpochId r \<and> sb_epochId (av_binding s) = eq_expectedEpochId r \<and>
    sb_epochOrdinal (av_binding s) = eq_expectedEpochOrdinal r \<and> av_resourcesClear s \<and> av_sessionsQuiescent s \<and>
    av_activeAdmissions s = 0 \<and> eq_expectedEpochOrdinal r < eq_targetEpochOrdinal r \<and>
    eq_targetEpochId r \<noteq> eq_expectedEpochId r"
  by (auto simp: validatePrepareState_def conflict_def)

context fresh_generator
begin

lemma finish_inv:
  assumes wc: "well_configured cf gen s0" and inv: "governed_inv cf used s0 gv ws" and w: "(req, s) \<in> set ws"
    and f: "finishPreparation deps gen resolve now req s gv = (out, gv')"
  shows "governed_inv cf used s0 gv' (remove1 (req, s) ws)"
proof (cases out)
  case (Inl v)
  with f governed_resume [OF inv] show ?thesis by (auto dest: finish_refused)
next
  case (Inr token)
  let ?st = "gv_runtime gv" and ?adm = "gv_admin gv"
  from f [unfolded Inr] obtain afterRef g cached b t where ok: "validatePrepareState s req = None"
    and ref: "ig_snapshotRef gen (rt_ids ?st) = (afterRef, g)"
    and b: "b = advanced_binding req afterRef t (ea_binding ?adm)" and i: "pt_preparedId token = ''prep-'' @ eq_admissionId req"
    and gv': "gv' = gv\<lparr>gv_runtime := ?st\<lparr>rt_ids := g\<rparr>, gv_admin := ?adm\<lparr>ea_prepared := map_set (pt_preparedId token)
         \<lparr>pp_request = req, pp_prepared = token, pp_afterRef = afterRef, pp_toBinding = b, pp_targetSchema = cached,
          pp_targetContext = createActiveSchemaContext cached (eq_targetEpochId req) (Some b)\<rparr> (ea_prepared ?adm)\<rparr>\<rparr>"
    by (rule finish_ok)
  note fresh = snapshot_fresh [OF ref]
  from inv have run: "runtime_inv cf used s0 ?st" and adm: "admin_inv (used (rt_ids ?st)) (rt_durable ?st) ?adm ws"
    by (simp_all add: governed_inv_def)
  have "afterRef \<noteq> sn_snapshotRef s0" using wc ref unfolding well_configured_def by (metis fst_conv)
  with run fresh have new: "durable_get (rt_durable ?st) afterRef = None"
    by (cases "durable_get (rt_durable ?st) afterRef") (auto simp: runtime_inv_def durable_inv_def)
  have stored: "durable_get (rt_durable ?st) (av_head s) = Some (av_snapshot s)" using adm w by (auto simp: admin_inv_def)
  have other: "pp_afterRef p \<noteq> afterRef" if "map_get (ea_prepared ?adm) j = Some p" for j p
    using adm that fresh by (auto simp: admin_inv_def prepared_ok_def)
  have ok_more: "prepared_ok (used g) d j p" if "prepared_ok (used (rt_ids ?st)) d j p" for d j p
    using that fresh by (auto simp: prepared_ok_def)
  have "runtime_inv cf used s0 (?st\<lparr>rt_ids := g\<rparr>)"
    using run fresh by (auto simp: runtime_inv_def durable_inv_def)
  moreover have "admin_inv (used g) (rt_durable ?st) (gv_admin gv') ws"
    unfolding admin_inv_def
  proof (intro conjI allI impI)
    show "prepared_ok (used g) (rt_durable ?st) j p" if "map_get (ea_prepared (gv_admin gv')) j = Some p" for j p
    proof (cases "j = pt_preparedId token")
      case True
      with that ok i new fresh stored b show ?thesis
        by (auto simp: gv' prepared_ok_def validatePrepareState_None) blast
    qed (use that adm ok_more in \<open>auto simp: gv' jsmap_simps admin_inv_def\<close>)
    show "j = k" if "map_get (ea_prepared (gv_admin gv')) j = Some p" "map_get (ea_prepared (gv_admin gv')) k = Some q"
      "pp_afterRef p = pp_afterRef q" for j k p q
      using that adm other unfolding admin_inv_def
      by (auto simp: gv' jsmap_simps split: if_splits) (metis+)
    show "durable_get (rt_durable ?st) (av_head s') = Some (av_snapshot s')" if "(r', s') \<in> set ws" for r' s'
      using adm that by (auto simp: admin_inv_def)
  qed
  moreover have "binding_inv (rt_durable ?st) (gv_admin gv') ws" if "binding_inv (rt_durable ?st) ?adm ws"
    using that w ok unfolding binding_inv_def
    by (auto simp: gv' b jsmap_simps validatePrepareState_None split: if_splits)
  ultimately have "governed_inv cf used s0 gv' ws"
    using inv by (simp add: governed_inv_def holders_agree_def epochs_unique_def gv')
  then show ?thesis by (rule governed_resume)
qed

end

section \<open>Commit\<close>

text \<open>The world of the next epoch, and the durable swap that makes it the head.\<close>

lemma advanced_epoch:
  "frozen s \<Longrightarrow> snapshotWithAdvancedEpoch s r e = s\<lparr>sn_snapshotRef := r, sn_epochId := e\<rparr>"
  using restored_id [OF frozen_epoch_ref] by (simp add: snapshotWithAdvancedEpoch_def)

lemma integrity_epoch [simp]: "integrity (s\<lparr>sn_snapshotRef := r, sn_epochId := e\<rparr>) = integrity s"
proof -
  let ?t = "s\<lparr>sn_snapshotRef := r, sn_epochId := e\<rparr>"
  have "scope_ok ?t x = scope_ok s x" for x by (cases x) (simp_all add: registered_def)
  moreover have "endpoint_ok ?t x = endpoint_ok s x" for x by (cases x) (simp_all add: registered_def)
  moreover have "liveEntityExists ?t i k = liveEntityExists s i k" for i k by (cases k) simp_all
  ultimately show ?thesis by (simp add: integrity_def integrity_parts registered_def resolves_def)
qed

lemma binding_swap_True:
  assumes "compareAndSwapHeadWithBinding h s b d = (True, d')" and "frozen s"
  shows "durable_head d = Some h" "durable_head d' = Some (sn_snapshotRef s)" "durable_get d' = (durable_get d)(sn_snapshotRef s \<mapsto> s)"
    "md_changelog d' = md_changelog d" "md_sidecar d' = md_sidecar d" "md_activeBinding d' = Some b"
proof -
  obtain d1 where cas: "durable_cas h s d = (True, d1)" and d': "d' = d1\<lparr>md_activeBinding := Some b\<rparr>"
    using assms(1) by (auto simp: binding_swap_eq split: prod.split_asm if_split_asm)
  note c = durable_cas_True [OF cas assms(2)]
  have "durable_get d' = durable_get d1" "durable_head d' = durable_head d1"
    by (simp_all add: d' durable_get_def durable_head_def fun_eq_iff)
  with c show "durable_head d = Some h" "durable_head d' = Some (sn_snapshotRef s)"
    "durable_get d' = (durable_get d)(sn_snapshotRef s \<mapsto> s)" "md_changelog d' = md_changelog d"
    "md_sidecar d' = md_sidecar d" "md_activeBinding d' = Some b" by (simp_all add: d')
qed

lemma epoch_durable_inv:
  assumes inv: "durable_inv lc issued s0 d" and hs: "durable_head d = Some h" "durable_get d h = Some s"
    and new: "durable_get d r = None" and r: "r \<in> issued"
    and d': "durable_head d' = Some r" "durable_get d' = (durable_get d)(r \<mapsto> s\<lparr>sn_snapshotRef := r, sn_epochId := e\<rparr>)"
      "md_changelog d' = md_changelog d" "md_sidecar d' = md_sidecar d"
  shows "durable_inv lc issued s0 d' \<and> extends (durable_get d) (durable_get d')"
proof -
  let ?n = "s\<lparr>sn_snapshotRef := r, sn_epochId := e\<rparr>"
  have ext: "extends (durable_get d) (durable_get d')" using new unfolding d' by (rule extends_put)
  have old: "integrity s" "sn_snapshotRef s = h" "world_continues s0 s" using inv hs by (auto simp: durable_inv_def)
  have cont: "world_continues s0 ?n"
  proof -
    have "?n = s\<lparr>sn_epochId := e\<rparr>\<lparr>sn_snapshotRef := r\<rparr>" by simp
    with old(3) show ?thesis by (simp only: ref_continues epoch_continues)
  qed
  have follows: "head_follows d'"
  proof (cases "arr_last (md_changelog d)")
    case (Some c)
    with inv hs obtain base es ep where b: "durable_get d (cc_afterRef c) = Some base"
      "s = base\<lparr>sn_snapshotRef := h, sn_epochId := ep, sn_auditTail := renumbered (sn_auditTail base) es\<rparr>"
      by (auto simp: durable_inv_def head_follows_def)
    then have "?n = base\<lparr>sn_snapshotRef := r, sn_epochId := e, sn_auditTail := renumbered (sn_auditTail base) es\<rparr>" by simp
    moreover have "durable_get d' (cc_afterRef c) = Some base" using ext b by (simp add: extends_def)
    ultimately show ?thesis using Some by (auto simp: head_follows_def d' intro!: exI [of _ e] exI [of _ es])
  qed (simp add: head_follows_def d')
  have recipes: "durable_recipeForChange c d' = durable_recipeForChange c d" for c
    by (simp add: durable_recipeForChange_def d')
  have "durable_inv lc issued s0 d'"
    unfolding durable_inv_def d'(3)
  proof (intro conjI)
    show "\<forall>x u. durable_get d' x = Some u \<longrightarrow> integrity u \<and> sn_snapshotRef u = x \<and> world_continues s0 u \<and>
        x \<in> insert (sn_snapshotRef s0) issued"
      using inv old cont r by (auto simp: durable_inv_def d' split: if_splits)
    show "\<exists>h s. durable_head d' = Some h \<and> durable_get d' h = Some s" by (simp add: d')
    show "distinct (map cc_changeId (md_changelog d))" "cc_changeId ` set (md_changelog d) \<subseteq> issued"
      using inv by (simp_all add: durable_inv_def)
    show "successively (\<lambda>a b. changeContinuesChain lc a b (durable_get d')) (md_changelog d)"
      using inv chains_extend [OF _ ext] by (simp add: durable_inv_def)
    show "\<forall>c\<in>set (md_changelog d). change_replays d' c"
      using inv replays_extend [OF _ ext recipes] by (simp add: durable_inv_def)
    show "head_follows d'" by (rule follows)
    show "log_refs d'"
      using inv logged_refs [OF _ new] by (auto simp: durable_inv_def log_refs_def d' dest: nth_mem)
  qed
  with ext show ?thesis by blast
qed

text \<open>An activation: what it needs and what it does.\<close>

definition activated ::
  "epoch_deps \<Rightarrow> schema_resolver \<Rightarrow> prepared_record \<Rightarrow> 'g governed \<Rightarrow> epoch_receipt \<Rightarrow> 'g governed \<Rightarrow> bool" where
  "activated deps resolve p gv receipt gv' \<longleftrightarrow>
     (\<exists>before st d'.
        durable_head (rt_durable (gv_runtime gv)) = Some (eq_expectedHead (pp_request p)) \<and>
        durable_get (rt_durable (gv_runtime gv)) (eq_expectedHead (pp_request p)) = Some before \<and>
        sb_bindingGeneration (ea_binding (gv_admin gv)) = eq_expectedBindingGeneration (pp_request p) \<and>
        sb_epochId (ea_binding (gv_admin gv)) = eq_expectedEpochId (pp_request p) \<and>
        sb_epochOrdinal (ea_binding (gv_admin gv)) = eq_expectedEpochOrdinal (pp_request p) \<and>
        sn_epochId before = eq_expectedEpochId (pp_request p) \<and> sn_sessions before = [] \<and> integrity before \<and>
        resolveUnchangedTargetSchema deps resolve p = None \<and> calmer (gv_runtime gv) st \<and>
        compareAndSwapHeadWithBinding (eq_expectedHead (pp_request p))
          (before\<lparr>sn_snapshotRef := pp_afterRef p, sn_epochId := eq_targetEpochId (pp_request p)\<rparr>) (pp_toBinding p)
          (rt_durable (gv_runtime gv)) = (True, d') \<and>
        (receipt, gv') = activate_epoch p (eq_expectedHead (pp_request p)) d' (gv\<lparr>gv_runtime := st\<rparr>))"

lemma validateCommitState_None:
  assumes "validateCommitState p before current now nows st = (None, st')"
  shows "sb_bindingGeneration current = eq_expectedBindingGeneration (pp_request p) \<and>
    sb_epochId current = eq_expectedEpochId (pp_request p) \<and> sb_epochOrdinal current = eq_expectedEpochOrdinal (pp_request p) \<and>
    sn_epochId before = eq_expectedEpochId (pp_request p) \<and> sn_sessions before = []"
  using assms by (auto simp: validateCommitState_def conflict_def sessionsQuiescent_def split: if_split_asm prod.split_asm bool.split_asm)

lemma commit_prepared_ok:
  assumes "commit_prepared deps resolve rd p gv = (Inr receipt, gv')"
  shows "activated deps resolve p gv receipt gv'"
proof -
  let ?d = "rt_durable (gv_runtime gv)" and ?h = "eq_expectedHead (pp_request p)"
  from assms obtain before st where b: "durable_head ?d = Some ?h" "durable_get ?d ?h = Some before"
    and v: "validateCommitState p before (ea_binding (gv_admin gv)) (rd_locks rd) (rd_records rd) (gv_runtime gv) = (None, st)"
    unfolding commit_prepared_def Let_def
    by (auto split: if_split_asm option.split_asm prod.split_asm sum.split_asm bool.split_asm)
  have f: "frozen before" using b(2) by (rule durable_get_frozen)
  from assms obtain d' where "resolveUnchangedTargetSchema deps resolve p = None"
    "validateSnapshotIntegrity (before\<lparr>sn_snapshotRef := pp_afterRef p, sn_epochId := eq_targetEpochId (pp_request p)\<rparr>) = Inr ()"
    "compareAndSwapHeadWithBinding ?h (before\<lparr>sn_snapshotRef := pp_afterRef p, sn_epochId := eq_targetEpochId (pp_request p)\<rparr>)
       (pp_toBinding p) ?d = (True, d')"
    "(receipt, gv') = activate_epoch p ?h d' (gv\<lparr>gv_runtime := st\<rparr>)"
    unfolding commit_prepared_def Let_def
    by (auto simp: b v advanced_epoch [OF f] split: if_split_asm option.split_asm prod.split_asm sum.split_asm bool.split_asm)
  with b validateCommitState_None [OF v] validateCommitState_calmer [of "gv_runtime gv" p before "ea_binding (gv_admin gv)" "rd_locks rd" "rd_records rd"]
  show ?thesis unfolding activated_def v snd_conv validateSnapshotIntegrity_ok integrity_epoch by blast
qed

lemma commit_prepared_refused:
  assumes "commit_prepared deps resolve rd p gv = (Inl v, gv')"
  shows "calmer (gv_runtime gv) (gv_runtime gv') \<and> gv_admin gv' = gv_admin gv"
proof -
  let ?d = "rt_durable (gv_runtime gv)" and ?h = "eq_expectedHead (pp_request p)"
  show ?thesis
  proof (cases "durable_head ?d = Some ?h \<and> durable_get ?d ?h \<noteq> None")
    case True
    then obtain before where b: "durable_head ?d = Some ?h" "durable_get ?d ?h = Some before" by blast
    obtain o1 st where vs: "validateCommitState p before (ea_binding (gv_admin gv)) (rd_locks rd) (rd_records rd) (gv_runtime gv) = (o1, st)"
      by (metis surj_pair)
    have calm: "calmer (gv_runtime gv) st"
      using validateCommitState_calmer [of "gv_runtime gv" p before "ea_binding (gv_admin gv)" "rd_locks rd" "rd_records rd"] by (simp add: vs)
    have "fst (compareAndSwapHeadWithBinding ?h x y ?d)" for x y
      using b(1) by (simp add: binding_swap_eq durable_cas_eq)
    with assms calm show ?thesis
      unfolding commit_prepared_def Let_def
      by (auto simp: b vs split: if_split_asm option.split_asm prod.split_asm sum.split_asm bool.split_asm) (metis fst_conv)+
  qed (use assms in \<open>auto simp: commit_prepared_def Let_def split: if_split_asm option.split_asm\<close>)
qed

lemma commit_epoch_cases:
  assumes "commitEpochTransition deps resolve rd token gv = (out, gv')"
  obtains (refused) v where "out = Inl v" "calmer (gv_runtime gv) (gv_runtime gv')"
      "gv_admin gv' = (gv_admin gv)\<lparr>ea_prepared := ea_prepared (gv_admin gv')\<rparr>"
      "\<And>i p. map_get (ea_prepared (gv_admin gv')) i = Some p \<Longrightarrow> map_get (ea_prepared (gv_admin gv)) i = Some p"
    | (again) i e where "out = Inr (je_receipt e)" "gv' = gv" "map_get (ea_committed (gv_admin gv)) i = Some e"
    | (activated) p receipt where "out = Inr receipt" "map_get (ea_prepared (gv_admin gv)) (pt_preparedId token) = Some p"
      "map_get (ea_committed (gv_admin gv)) (eq_admissionId (pp_request p)) = None" "preparedTokensEqual (pp_prepared p) token"
      "\<not> preparation_expired deps (rd_first rd) p" "activated deps resolve p gv receipt gv'"
proof (cases "map_get (ea_prepared (gv_admin gv)) (pt_preparedId token)")
  case None
  with assms that(1,2) show ?thesis
    by (auto simp: commitEpochTransition_def Let_def split: option.split_asm if_split_asm)
next
  case (Some p)
  note found = this
  show ?thesis
  proof (cases "map_get (ea_committed (gv_admin gv)) (eq_admissionId (pp_request p))")
    case (Some e)
    with found assms that(2) show ?thesis by (auto simp: commitEpochTransition_def Let_def)
  next
    case None
    show ?thesis
    proof (cases "preparedTokensEqual (pp_prepared p) token \<and> \<not> preparation_expired deps (rd_first rd) p")
      case True
      with found None assms have c: "commit_prepared deps resolve rd p gv = (out, gv')"
        by (simp add: commitEpochTransition_def Let_def)
      show ?thesis
      proof (cases out)
        case (Inl v)
        with commit_prepared_refused [of deps resolve rd p gv v gv'] c show ?thesis by (intro that(1)) auto
      next
        case (Inr receipt)
        with commit_prepared_ok [of deps resolve rd p gv receipt gv'] c True found None show ?thesis
          by (intro that(3)) auto
      qed
    next
      case False
      with found None assms have "\<exists>v. out = Inl v" "gv' = gv \<or>
          gv' = gv\<lparr>gv_admin := (gv_admin gv)\<lparr>ea_prepared := map_delete (pt_preparedId token) (ea_prepared (gv_admin gv))\<rparr>\<rparr>"
        by (auto simp: commitEpochTransition_def Let_def split: if_split_asm)
      then show ?thesis by (elim exE disjE; intro that(1); force simp: jsmap_simps split: if_split_asm)
    qed
  qed
qed

text \<open>The state after an activation.\<close>

lemma activated_state:
  assumes "activated deps resolve p gv receipt gv'"
  obtains before st where
    "durable_head (rt_durable (gv_runtime gv)) = Some (eq_expectedHead (pp_request p))"
    "durable_get (rt_durable (gv_runtime gv)) (eq_expectedHead (pp_request p)) = Some before" "integrity before" "frozen before"
    "calmer (gv_runtime gv) st"
    "gv_runtime gv' = st\<lparr>rt_durable := rt_durable (gv_runtime gv')\<rparr>"
    "durable_head (rt_durable (gv_runtime gv')) = Some (pp_afterRef p)"
    "durable_get (rt_durable (gv_runtime gv')) = (durable_get (rt_durable (gv_runtime gv)))(pp_afterRef p \<mapsto>
       before\<lparr>sn_snapshotRef := pp_afterRef p, sn_epochId := eq_targetEpochId (pp_request p)\<rparr>)"
    "md_changelog (rt_durable (gv_runtime gv')) = md_changelog (rt_durable (gv_runtime gv))"
    "md_sidecar (rt_durable (gv_runtime gv')) = md_sidecar (rt_durable (gv_runtime gv))"
    "md_activeBinding (rt_durable (gv_runtime gv')) = Some (pp_toBinding p)"
    "receipt = \<lparr>er_admissionId = eq_admissionId (pp_request p), er_beforeSnapshotRef = eq_expectedHead (pp_request p),
       er_afterSnapshotRef = pp_afterRef p, er_fromBinding = ea_binding (gv_admin gv), er_toBinding = pp_toBinding p\<rparr>"
    "ea_prepared (gv_admin gv') = map_delete (pt_preparedId (pp_prepared p)) (ea_prepared (gv_admin gv))"
    "ea_committed (gv_admin gv') = map_set (eq_admissionId (pp_request p))
       \<lparr>je_receipt = receipt, je_prepared = pp_prepared p, je_request = pp_request p, je_targetSchema = pp_targetSchema p\<rparr>
       (ea_committed (gv_admin gv))"
    "ea_context (gv_admin gv') = snapshotActiveSchemaContext (pp_targetContext p)"
    "ea_binding (gv_admin gv') = pp_toBinding p"
proof -
  let ?h = "eq_expectedHead (pp_request p)" and ?d = "rt_durable (gv_runtime gv)"
  from assms obtain before st d' where b: "durable_head ?d = Some ?h" "durable_get ?d ?h = Some before" "integrity before"
    and calm: "calmer (gv_runtime gv) st"
    and swap: "compareAndSwapHeadWithBinding ?h
      (before\<lparr>sn_snapshotRef := pp_afterRef p, sn_epochId := eq_targetEpochId (pp_request p)\<rparr>) (pp_toBinding p) ?d = (True, d')"
    and gv': "(receipt, gv') = activate_epoch p ?h d' (gv\<lparr>gv_runtime := st\<rparr>)"
    unfolding activated_def by blast
  have f: "frozen before" using b(2) by (rule durable_get_frozen)
  note swap' = binding_swap_True [OF swap frozen_epoch_ref [OF f]]
  show ?thesis
    by (rule that [of before st, OF b f calm]) (use gv' swap' in \<open>simp_all add: activate_epoch_def Let_def\<close>)
qed

lemma activated_inv:
  assumes inv: "governed_inv cf used s0 gv ws" and p: "map_get (ea_prepared (gv_admin gv)) i = Some p"
    and fresh: "map_get (ea_committed (gv_admin gv)) (eq_admissionId (pp_request p)) = None"
    and act: "activated deps resolve p gv receipt gv'"
  shows "governed_inv cf used s0 gv' ws"
  using act
proof (rule activated_state)
  fix before st
  let ?d = "rt_durable (gv_runtime gv)" and ?d' = "rt_durable (gv_runtime gv')" and ?h = "eq_expectedHead (pp_request p)"
  let ?r = "pp_afterRef p" and ?e = "eq_targetEpochId (pp_request p)"
  assume hs: "durable_head ?d = Some ?h" "durable_get ?d ?h = Some before"
    and calm: "calmer (gv_runtime gv) st" and st: "gv_runtime gv' = st\<lparr>rt_durable := ?d'\<rparr>"
    and head: "durable_head ?d' = Some ?r"
    and get: "durable_get ?d' = (durable_get ?d)(?r \<mapsto> before\<lparr>sn_snapshotRef := ?r, sn_epochId := ?e\<rparr>)"
    and kept: "md_changelog ?d' = md_changelog ?d" "md_sidecar ?d' = md_sidecar ?d"
    and bind: "md_activeBinding ?d' = Some (pp_toBinding p)"
    and receipt: "receipt = \<lparr>er_admissionId = eq_admissionId (pp_request p), er_beforeSnapshotRef = ?h,
       er_afterSnapshotRef = ?r, er_fromBinding = ea_binding (gv_admin gv), er_toBinding = pp_toBinding p\<rparr>"
    and adm': "ea_prepared (gv_admin gv') = map_delete (pt_preparedId (pp_prepared p)) (ea_prepared (gv_admin gv))"
      "ea_committed (gv_admin gv') = map_set (eq_admissionId (pp_request p))
         \<lparr>je_receipt = receipt, je_prepared = pp_prepared p, je_request = pp_request p, je_targetSchema = pp_targetSchema p\<rparr>
         (ea_committed (gv_admin gv))"
      "ea_context (gv_admin gv') = snapshotActiveSchemaContext (pp_targetContext p)" "ea_binding (gv_admin gv') = pp_toBinding p"
  let ?issued = "used (rt_ids (gv_runtime gv))"
  from inv have run: "runtime_inv cf used s0 (gv_runtime gv)" and adm: "admin_inv ?issued ?d (gv_admin gv) ws"
    by (simp_all add: governed_inv_def)
  from adm p have ok: "prepared_ok ?issued ?d i p" by (simp add: admin_inv_def)
  then have new: "durable_get ?d ?r = None" and r: "?r \<in> ?issued" and i: "i = pt_preparedId (pp_prepared p)"
    and to: "sb_epochId (pp_toBinding p) = ?e" "ax_epochId (pp_targetContext p) = ?e"
      "ax_binding (pp_targetContext p) = Some (pp_toBinding p)" by (auto simp: prepared_ok_def)
  have runs: "runtime_inv cf used s0 st" by (rule calmer_inv [OF run calm])
  have st': "rt_durable st = ?d" "rt_ids st = rt_ids (gv_runtime gv)" "rt_history st = rt_history (gv_runtime gv)"
    using calmer_simps [OF calm] by simp_all
  have dinv: "durable_inv (cf_collation cf) ?issued s0 ?d' \<and> extends (durable_get ?d) (durable_get ?d')"
    by (rule epoch_durable_inv [OF _ hs new r head get kept]) (use run in \<open>simp add: runtime_inv_def\<close>)
  have "history_ok ?d' (rt_history st)"
    using runs hs by (auto simp: runtime_inv_parts history_ok_def st' kept head get)
  then have run': "runtime_inv cf used s0 (gv_runtime gv')"
    using runs dinv admission_inv_extends by (subst st) (auto simp: runtime_inv_parts st')
  have less: "map_get (ea_prepared (gv_admin gv')) j = Some q \<longleftrightarrow> j \<noteq> i \<and> map_get (ea_prepared (gv_admin gv)) j = Some q" for j q
    by (simp add: adm' i [symmetric] jsmap_simps)
  have others: "admin_inv ?issued ?d (gv_admin gv') ws"
    using adm unfolding admin_inv_def less by blast
  have "pp_afterRef q \<noteq> ?r" if "map_get (ea_prepared (gv_admin gv')) j = Some q" for j q
    using adm p that [unfolded less] unfolding admin_inv_def by blast
  note moved = admin_inv_moves [OF others subset_refl get new this]
  have "holders_agree gv'"
    by (auto simp: holders_agree_def head_world_def head get adm' to bind)
  moreover have "binding_inv ?d' (gv_admin gv') ws"
    unfolding binding_inv_def
  proof (intro conjI allI impI)
    show "\<exists>j f. map_get (ea_committed (gv_admin gv')) j = Some f \<and> er_toBinding (je_receipt f) = ea_binding (gv_admin gv')"
      by (rule exI [of _ "eq_admissionId (pp_request p)"]) (simp add: adm' receipt)
  next
    fix j q assume "map_get (ea_prepared (gv_admin gv')) j = Some q" "durable_head ?d' = Some (eq_expectedHead (pp_request q))"
    then have "durable_get ?d ?r \<noteq> None" using others by (auto simp: head admin_inv_def prepared_ok_def)
    with new show "\<exists>t. pp_toBinding q = advanced_binding (pp_request q) (pp_afterRef q) t (ea_binding (gv_admin gv'))"
      "sb_bindingGeneration (ea_binding (gv_admin gv')) = eq_expectedBindingGeneration (pp_request q)"
      "sb_epochId (ea_binding (gv_admin gv')) = eq_expectedEpochId (pp_request q)"
      "sb_epochOrdinal (ea_binding (gv_admin gv')) = eq_expectedEpochOrdinal (pp_request q)" by simp_all
  next
    fix q s assume "(q, s) \<in> set ws" "durable_head ?d' = Some (av_head s)"
    with others new show "av_binding s = ea_binding (gv_admin gv')" by (auto simp: head admin_inv_def)
  qed (simp add: bind adm')
  moreover have "rt_ids (gv_runtime gv') = rt_ids (gv_runtime gv)" by (subst st) (simp add: st')
  ultimately show ?thesis using run' moved by (simp add: governed_inv_def)
qed

lemma commit_epoch_inv:
  assumes inv: "governed_inv cf used s0 gv ws" and c: "commitEpochTransition deps resolve rd token gv = (out, gv')"
  shows "governed_inv cf used s0 gv' ws"
  using c
proof (cases rule: commit_epoch_cases)
  case (refused v)
  show ?thesis
    by (rule governed_fewer [OF inv refused(2)]) (fact refused(4) | subst refused(3), simp)+
next
  case (activated p receipt)
  show ?thesis by (rule activated_inv [OF inv activated(2,3,6)])
qed (use inv in simp)

section \<open>Recovery\<close>

lemma recover_cases:
  assumes "recoverEpochTransition deps resolve i gv = (out, gv')"
  obtains (refused) v where "out = Inl v" "gv' = gv"
    | (adopted) receipt b schema head where "out = Inr receipt" "er_toBinding receipt = b" "er_admissionId receipt = sb_admissionId b \<or>
        (\<exists>e. map_get (ea_committed (gv_admin gv)) i = Some e \<and> receipt = je_receipt e)"
      "head_world (rt_durable (gv_runtime gv)) = Some head" "sn_epochId head = sb_epochId b"
      "gv' = gv\<lparr>gv_admin := holder_set_binding b (holder_set_context (createActiveSchemaContext schema (sb_epochId b) (Some b)) (gv_admin gv))\<rparr>"
      "case map_get (ea_committed (gv_admin gv)) i of Some e \<Rightarrow> b = er_toBinding (je_receipt e)
       | None \<Rightarrow> md_activeBinding (rt_durable (gv_runtime gv)) = Some b \<and> sb_admissionId b = i"
proof (cases out)
  case (Inl v)
  with assms have "gv' = gv"
    unfolding recoverEpochTransition_def recoverFromDurableBinding_def recoverFromJournal_def Let_def
    by (auto split: option.split_asm if_split_asm sum.split_asm)
  with Inl show ?thesis by (rule that(1))
next
  case (Inr receipt)
  show ?thesis
  proof (cases "map_get (ea_committed (gv_admin gv)) i")
    case None
    with assms Inr obtain b head schema where "md_activeBinding (rt_durable (gv_runtime gv)) = Some b" "sb_admissionId b = i"
      "head_world (rt_durable (gv_runtime gv)) = Some head" "sn_epochId head = sb_epochId b" "er_toBinding receipt = b"
      "er_admissionId receipt = sb_admissionId b"
      "gv' = gv\<lparr>gv_admin := holder_set_binding b (holder_set_context (createActiveSchemaContext schema (sb_epochId b) (Some b)) (gv_admin gv))\<rparr>"
      unfolding recoverEpochTransition_def recoverFromDurableBinding_def Let_def
      by (auto split: option.split_asm if_split_asm sum.split_asm)
    with None Inr show ?thesis by (intro that(2) [of receipt b head schema]) auto
  next
    case (Some e)
    with assms Inr obtain head where "receipt = je_receipt e"
      "head_world (rt_durable (gv_runtime gv)) = Some head" "sn_epochId head = sb_epochId (er_toBinding (je_receipt e))"
      "gv' = gv\<lparr>gv_admin := holder_set_binding (er_toBinding (je_receipt e)) (holder_set_context
         (createActiveSchemaContext (je_targetSchema e) (sb_epochId (er_toBinding (je_receipt e))) (Some (er_toBinding (je_receipt e))))
         (gv_admin gv))\<rparr>"
      unfolding recoverEpochTransition_def recoverFromJournal_def Let_def
      by (auto split: option.split_asm if_split_asm sum.split_asm)
    with Some Inr show ?thesis
      by (intro that(2) [of receipt "er_toBinding (je_receipt e)" head "je_targetSchema e"]) auto
  qed
qed

lemma recover_inv:
  assumes inv: "governed_inv cf used s0 gv ws" and r: "recoverEpochTransition deps resolve i gv = (out, gv')"
  shows "governed_inv cf used s0 gv' ws"
  using r
proof (cases rule: recover_cases)
  case (adopted receipt b schema head)
  from inv have agree: "holders_agree gv" by (simp add: governed_inv_def)
  have same: "b = ea_binding (gv_admin gv)" if u: "epochs_unique (gv_admin gv)"
  proof -
    from u inv have bi: "binding_inv (rt_durable (gv_runtime gv)) (gv_admin gv) ws" by (simp add: governed_inv_def)
    show ?thesis
    proof (cases "map_get (ea_committed (gv_admin gv)) i")
      case None
      with adopted(7) bi show ?thesis by (simp add: binding_inv_def)
    next
      case (Some e)
      with bi obtain j f where f: "map_get (ea_committed (gv_admin gv)) j = Some f" "er_toBinding (je_receipt f) = ea_binding (gv_admin gv)"
        unfolding binding_inv_def by blast
      have "entry_epoch e = entry_epoch f"
        using agree adopted(4,5,7) Some f(2) by (auto simp: holders_agree_def entry_epoch_def)
      with u Some f(1) have "i = j" unfolding epochs_unique_def by blast
      with Some f adopted(7) show ?thesis by simp
    qed
  qed
  have "admin_inv issued d (gv_admin gv') ws = admin_inv issued d (gv_admin gv) ws"
    "epochs_unique (gv_admin gv') = epochs_unique (gv_admin gv)" for issued d
    by (simp_all add: adopted(6) admin_inv_def epochs_unique_def)
  moreover have "binding_inv d (gv_admin gv') ws = binding_inv d (gv_admin gv) ws" if "epochs_unique (gv_admin gv)" for d
    using same [OF that] by (simp add: adopted(6) binding_inv_def)
  moreover have "holders_agree gv'" using agree adopted(4,5) by (auto simp: holders_agree_def adopted(6))
  ultimately show ?thesis using inv by (simp add: governed_inv_def adopted(6))
qed (use inv in simp)

section \<open>Reachable states\<close>

context fresh_generator
begin

lemma governed_step_inv:
  assumes wc: "well_configured cf gen s0" and inv: "governed_inv cf used s0 (fst x) (snd x)" and step: "governed_step cf deps x y"
  shows "governed_inv cf used s0 (fst y) (snd y)"
  using step
proof (cases rule: governed_step.cases)
  case (gov_runtime gv st ws)
  have wc': "well_configured (governed_config cf (gv_admin gv)) gen s0" using wc by simp
  have "runtime_inv (governed_config cf (gv_admin gv)) used s0 (gv_runtime gv)" using inv gov_runtime by (simp add: governed_inv_def)
  from step_inv [OF wc' this gov_runtime(3)] inv gov_runtime show ?thesis by (auto intro: advances_admin)
next
  case (gov_inspect rd domain gv out gv' ws)
  with inspect_inv [of cf used s0 gv ws] inv show ?thesis by simp
next
  case (gov_answer rd req gv out gv' ws)
  with prepare_inv [of cf used s0 gv ws] inv show ?thesis by simp
next
  case (gov_wait rd req gv r s gv' ws)
  with prepare_inv [of cf used s0 gv ws deps rd req] inv show ?thesis by (simp add: governed_wait)
next
  case (gov_finish r s ws resolve now gv out gv')
  have "cf_idGen cf = gen" using wc by (simp add: well_configured_def)
  with gov_finish finish_inv [OF wc, of gv ws] inv show ?thesis by simp
next
  case (gov_commit resolve rd token gv out gv' ws)
  with commit_epoch_inv [of cf used s0 gv ws] inv show ?thesis by simp
next
  case (gov_recover resolve i gv out gv' ws)
  with recover_inv [of cf used s0 gv ws] inv show ?thesis by simp
qed

lemma initial_governed_inv:
  assumes wc: "well_configured cf gen s0" and wg: "well_governed s0 ctx b"
  shows "governed_inv cf used s0 (initial_governed s0 ctx b durable tracked g) []"
proof -
  let ?d = "createMemoryRuntimePersistence (Some s0) (if durable then Some b else None)"
  have s0: "frozen s0" using wc by (simp add: well_configured_def)
  have "durable_head ?d = Some (sn_snapshotRef s0)" "durable_get ?d (sn_snapshotRef s0) = Some s0"
    by (simp_all add: createMemoryRuntimePersistence_def durable_head_def durable_get_def newMemoryStore_def Let_def store_get_def
        jsmap_simps restored_id s0)
  then have "head_world ?d = Some s0" by (simp add: head_world_def)
  moreover have "md_activeBinding ?d = (if durable then Some b else None)" by (simp add: createMemoryRuntimePersistence_def)
  ultimately show ?thesis
    using initial_inv [OF wc] wg
    by (auto simp: governed_inv_def initial_governed_def holders_agree_def createMemoryEpochAdministration_def well_governed_def
        admin_inv_def binding_inv_def initial_runtime_def map_get_def split: if_splits)
qed

lemma governed_reachable_inv:
  assumes wc: "well_configured cf gen s0" and wg: "well_governed s0 ctx b"
    and "governed_reachable cf deps (initial_governed s0 ctx b durable tracked g) x"
  shows "governed_inv cf used s0 (fst x) (snd x)"
  using assms(3) by induction (simp_all add: initial_governed_inv [OF wc wg] governed_step_inv [OF wc])

end

end
