(* ===== verification/Runtime_Reachable.thy ===== *)
theory Runtime_Reachable
  imports Runtime_Properties Runtime_EpochSafety
begin

text \<open>
  What the coordination runtime promises in every state it can reach from a well-formed first
  world by any sequence of observations, admissions, commits, proposals, cancellations and, where
  its schema is administered, epoch transitions, at any clock readings.
\<close>

text \<open>
  The id supply is \<open>crypto.randomUUID\<close>, whose documented behaviour is taken to be that no id is
  generated twice; the first world's ref is not one of them.
\<close>

definition static_from :: "(nat \<Rightarrow> string) \<Rightarrow> nat runtime_config \<Rightarrow> snapshot \<Rightarrow> nat runtime_state \<Rightarrow> bool" where
  "static_from uuid cf s0 st \<longleftrightarrow>
     inj uuid \<and> well_configured cf (uuidIdGenerator uuid) s0 \<and>
     (\<exists>binding tracked n. runtime_reachable cf (initial_runtime s0 binding tracked n) st)"

definition governed_from ::
  "(nat \<Rightarrow> string) \<Rightarrow> nat runtime_config \<Rightarrow> epoch_deps \<Rightarrow> snapshot \<Rightarrow> nat governed \<Rightarrow> waiting \<Rightarrow> bool" where
  "governed_from uuid cf deps s0 gv ws \<longleftrightarrow>
     inj uuid \<and> well_configured cf (uuidIdGenerator uuid) s0 \<and>
     (\<exists>ctx b durable tracked n. well_governed s0 ctx b \<and>
        governed_reachable cf deps (initial_governed s0 ctx b durable tracked n) (gv, ws))"

definition runs_from :: "(nat \<Rightarrow> string) \<Rightarrow> nat runtime_config \<Rightarrow> snapshot \<Rightarrow> nat runtime_state \<Rightarrow> bool" where
  "runs_from uuid cf s0 st \<longleftrightarrow>
     static_from uuid cf s0 st \<or> (\<exists>deps gv ws. governed_from uuid cf deps s0 gv ws \<and> gv_runtime gv = st)"

lemma governed_inv_from: "governed_from uuid cf deps s0 gv ws \<Longrightarrow> governed_inv cf (\<lambda>n. uuid ` {..<n}) s0 gv ws"
  unfolding governed_from_def using fresh_generator.governed_reachable_inv [OF uuid_fresh] by fastforce

lemma runs_inv: "runs_from uuid cf s0 st \<Longrightarrow> runtime_inv cf (\<lambda>n. uuid ` {..<n}) s0 st"
  unfolding runs_from_def static_from_def
  using fresh_generator.reachable_inv [OF uuid_fresh] governed_inv_from unfolding governed_inv_def by blast

lemma runs_configured: "runs_from uuid cf s0 st \<Longrightarrow> inj uuid \<and> well_configured cf (uuidIdGenerator uuid) s0"
  by (auto simp: runs_from_def static_from_def governed_from_def)

lemma static_linked: "static_from uuid cf s0 st \<Longrightarrow> head_linked (rt_durable st)"
  unfolding static_from_def using fresh_generator.reachable_linked [OF uuid_fresh] by blast

section \<open>A run of the small world\<close>

definition example_config :: "nat runtime_config" where
  "example_config =
     \<lparr>cf_gateway = \<lparr>gw_policy = templateAwarePolicyEvaluator, gw_tag = ''tag'', gw_nextAdmittedId = None, gw_lockLeaseMs = None\<rparr>,
      cf_schemaContext = (\<lambda>d. Inr (createActiveSchemaContext (createDefaultSchema None) ''e1'' None)),
      cf_handlers = createDefaultHandlers, cf_idGen = uuidIdGenerator show_nat, cf_content = Some (\<lambda>r. Some True),
      cf_collation = code_point_compare\<rparr>"

definition example_intent :: coordination_intent where
  "example_intent = coordinationIntent (actorRef ''h'' Human) ''register_participant'' [BFrom ''h'', BParticipant ''b''] None None None"

definition example_runtime :: "nat runtime_state" where
  "example_runtime = initial_runtime example_snapshot None True 0"

definition example_admission :: "admit_outcome \<times> nat runtime_state" where
  "example_admission = runtime_admit example_config (0, 0, 0) example_intent None None example_runtime"

definition example_ticket :: admission_ticket where
  "example_ticket = \<lparr>tk_ticketId = ''adm-tag-1''\<rparr>"

definition example_commit :: "commit_outcome \<times> nat runtime_state" where
  "example_commit = runtime_commit example_config 1 1 ''t1'' example_ticket (snd example_admission)"

lemma example_configured: "well_configured example_config (uuidIdGenerator show_nat) example_snapshot"
proof -
  have "sn_snapshotRef example_snapshot = ''s0''" by code_simp
  moreover have "show_digit k \<noteq> CHR ''s''" if "k < 10" for k
    using that by (auto simp: show_digit_def char_of_eq_iff take_bit_eq_mod)
  then have "show_nat n \<noteq> ''s0''" for n
    using show_nat_digits [of "CHR ''s''" n] by (metis list.set_intros(1))
  ultimately show ?thesis
    using example_snapshot_frozen example_snapshot_integrity
    by (simp add: well_configured_def example_config_def uuidIdGenerator_def)
qed

lemma example_admission_runs: "static_from show_nat example_config example_snapshot (snd example_admission)"
proof -
  obtain r st where a: "example_admission = (r, st)" by (metis surj_pair)
  have "runtime_reachable example_config example_runtime st"
    by (rule reach_step [OF reach_start step_admit]) (rule a [unfolded example_admission_def])
  then show ?thesis
    using example_configured numerals.uuid_inj unfolding static_from_def example_runtime_def a by auto
qed

lemma example_commit_runs: "static_from show_nat example_config example_snapshot (snd example_commit)"
proof -
  obtain r st where a: "example_commit = (r, st)" by (metis surj_pair)
  from example_admission_runs obtain binding tracked n
    where "runtime_reachable example_config (initial_runtime example_snapshot binding tracked n) (snd example_admission)"
    and c: "inj show_nat" "well_configured example_config (uuidIdGenerator show_nat) example_snapshot"
    unfolding static_from_def by blast
  from reach_step [OF this(1) step_commit [OF a [unfolded example_commit_def]]] c show ?thesis
    unfolding static_from_def a by auto
qed

lemmas example_runs = example_admission_runs [THEN runs_from_def [THEN iffD2, OF disjI1]]
  example_commit_runs [THEN runs_from_def [THEN iffD2, OF disjI1]]

lemma example_commit_log: "map cc_operationTypeId (md_changelog (rt_durable (snd example_commit))) = [''register_participant'']"
  by code_simp

section \<open>Worlds\<close>

text \<open>C1. In every reachable state of the runtime the head resolves, and every world stored under a
  ref is frozen, has integrity, carries that ref and continues the first world: participants
  keep their kind and only move along the lifecycle (so retirement is final), artifacts keep
  kind and content, nothing is deleted and the audit tail only grows.\<close>

theorem worlds_sound:
  assumes "runs_from uuid cf s0 st"
  shows "(\<exists>s. getHead st = Some s) \<and>
    (\<forall>r s. durable_get (rt_durable st) r = Some s \<longrightarrow>
       frozen s \<and> integrity s \<and> sn_snapshotRef s = r \<and> world_continues s0 s \<and>
       (\<forall>a p p'. map_get (sn_participants s0) a = Some p \<longrightarrow> p_status p = Retired \<longrightarrow>
          map_get (sn_participants s) a = Some p' \<longrightarrow> p_status p' = Retired))"
proof -
  from runs_inv [OF assms] have inv: "durable_inv (cf_collation cf) (uuid ` {..<rt_ids st}) s0 (rt_durable st)"
    by (simp add: runtime_inv_def)
  have "p_status p' = Retired" if "world_continues s0 s" "map_get (sn_participants s0) a = Some p" "p_status p = Retired"
    "map_get (sn_participants s) a = Some p'" for s a p p'
    using that retired_final unfolding world_continues_def by (metis option.inject)
  moreover have "\<exists>s. getHead st = Some s" using inv by (auto simp: durable_inv_def getHead_def)
  moreover have "frozen s \<and> integrity s \<and> sn_snapshotRef s = r \<and> world_continues s0 s"
    if "durable_get (rt_durable st) r = Some s" for r s
    using inv that by (auto simp: durable_inv_def dest: durable_get_frozen)
  ultimately show ?thesis by blast
qed

theorem worlds_sound_witness:
  "\<exists>s. getHead (snd example_commit) = Some s"
  using worlds_sound [OF example_runs(2)] by blast

text \<open>C2. Every logged change of a reachable state replays: the recipe stored with it, run by the
  replay kernel on the world stored under its before ref, gives exactly the world stored under
  its after ref and the participants it reports as involved; change, recipe and before world are
  of one epoch, change and recipe of one operation and template.\<close>

theorem changes_replay:
  assumes "runs_from uuid cf s0 st" and "c \<in> set (durable_changes (rt_durable st))"
  shows "\<exists>before template applied ss.
    durable_get (rt_durable st) (cc_beforeRef c) = Some before \<and>
    replayKernelRun (durable_recipeForChange c (rt_durable st)) before createDefaultHandlers \<lparr>ac_template = template\<rparr> =
      Inr (ApplyOk applied (cc_involved c) ss) \<and>
    durable_get (rt_durable st) (cc_afterRef c) = Some (withSnapshotRef applied (cc_afterRef c)) \<and>
    sn_epochId before = cc_epochId c \<and> rp_epochId (durable_recipeForChange c (rt_durable st)) = cc_epochId c \<and>
        rp_operationTypeId (durable_recipeForChange c (rt_durable st)) = cc_operationTypeId c \<and>
        rp_templateRef (durable_recipeForChange c (rt_durable st)) = cc_templateRef c"
  using runs_inv [OF assms(1)] assms(2)
  by (simp add: runtime_inv_def durable_inv_def change_replays_def durable_changes_def)

theorem changes_replay_witness:
  "\<exists>c before template applied ss. c \<in> set (durable_changes (rt_durable (snd example_commit))) \<and>
     durable_get (rt_durable (snd example_commit)) (cc_beforeRef c) = Some before \<and>
     replayKernelRun (durable_recipeForChange c (rt_durable (snd example_commit))) before createDefaultHandlers
       \<lparr>ac_template = template\<rparr> = Inr (ApplyOk applied (cc_involved c) ss)"
proof -
  obtain c where "md_changelog (rt_durable (snd example_commit)) = [c]"
    using example_commit_log by (auto simp: map_eq_Cons_conv)
  then have c: "c \<in> set (durable_changes (rt_durable (snd example_commit)))" by (simp add: durable_changes_def)
  with changes_replay [OF example_runs(2) c] show ?thesis by blast
qed

text \<open>C6. The log of a reachable state is one line: change ids are unique, each change continues
  the one before it directly or across observations, no two changes start from or lead to the
  same world, and a tracked run history holds exactly the logged changes and the observations
  of the head.\<close>

theorem log_is_linear:
  assumes "runs_from uuid cf s0 st"
  shows "distinct (map cc_changeId (durable_changes (rt_durable st))) \<and>
    successively (\<lambda>a b. changeContinuesChain (cf_collation cf) a b (durable_get (rt_durable st))) (durable_changes (rt_durable st)) \<and>
    distinct (map cc_beforeRef (durable_changes (rt_durable st))) \<and>
    distinct (map cc_afterRef (durable_changes (rt_durable st))) \<and>
    (\<forall>history s. rt_history st = Some history \<longrightarrow> getHead st = Some s \<longrightarrow>
       rewriteSegments history = durable_changes (rt_durable st) \<and> observationSegments history = sn_auditTail s)"
  using runs_inv [OF assms]
  by (auto simp: runtime_inv_def durable_inv_def log_refs_def history_ok_def durable_changes_def getHead_def
      split: option.splits)

theorem log_is_linear_witness:
  "distinct (map cc_changeId (durable_changes (rt_durable (snd example_commit)))) \<and>
   durable_changes (rt_durable (snd example_commit)) \<noteq> []"
  using log_is_linear [OF example_runs(2)] example_commit_log by (auto simp: durable_changes_def)

section \<open>The feed\<close>

text \<open>C5. The feed of committed changes skips and repeats nothing: without a cursor it is the
  whole log, and a subscriber that has processed a change up to the world it led to reads
  exactly the later changes, also when observations separate them.\<close>

theorem feed_exact:
  assumes "runs_from uuid cf s0 st" and "i < length (durable_changes (rt_durable st))"
  shows "runtime_changes cf None st = Some (durable_changes (rt_durable st)) \<and>
    runtime_changes cf (Some (cc_afterRef (durable_changes (rt_durable st) ! i))) st =
      Some (drop (Suc i) (durable_changes (rt_durable st)))"
proof -
  have "durable_inv (cf_collation cf) (uuid ` {..<rt_ids st}) s0 (rt_durable st)"
    using runs_inv [OF assms(1)] by (simp add: runtime_inv_def)
  from feed_after_change [OF this] assms(2) show ?thesis
    by (simp add: runtime_changes_def durable_changes_def)
qed

theorem feed_exact_witness:
  "runtime_changes example_config (Some (cc_afterRef (durable_changes (rt_durable (snd example_commit)) ! 0)))
     (snd example_commit) = Some []"
proof -
  have l: "length (durable_changes (rt_durable (snd example_commit))) = 1"
    using arg_cong [OF example_commit_log, of length] by (simp add: durable_changes_def)
  have "0 < length (durable_changes (rt_durable (snd example_commit)))" by (simp only: l)
  from feed_exact [OF example_runs(2) this] l show ?thesis by simp
qed

section \<open>Commits\<close>

text \<open>C3. A commit does everything or nothing. Committed, exactly one change is logged, it leads to
  the new head, every earlier world is untouched and the history records it; refused or thrown,
  the store and the history are as before. Either way the ticket is used up and no lease is
  added.\<close>

theorem commit_atomic:
  assumes "runtime_commit cf now now' t ticket st = (outcome, st')"
  shows "(case outcome of
      Committed change after cid \<Rightarrow>
        cid = cc_changeId change \<and> cc_afterRef change = sn_snapshotRef after \<and>
        durable_head (rt_durable st) = Some (cc_beforeRef change) \<and>
        durable_head (rt_durable st') = Some (sn_snapshotRef after) \<and>
        durable_get (rt_durable st) (sn_snapshotRef after) = None \<and>
        durable_get (rt_durable st') = (durable_get (rt_durable st))(sn_snapshotRef after \<mapsto> after) \<and>
        durable_changes (rt_durable st') = durable_changes (rt_durable st) @ [change] \<and>
        rt_history st' = map_option (recordChange change) (rt_history st)
    | _ \<Rightarrow> rt_durable st' = rt_durable st \<and> rt_history st' = rt_history st) \<and>
    map_get (as_records (rt_admission st')) (tk_ticketId ticket) = None \<and>
    set (as_locks (rt_admission st')) \<subseteq> set (as_locks (rt_admission st))"
proof -
  have sub: "set (remove_first p xs) \<subseteq> set xs" for p and xs :: lock_table by (induction xs) auto
  have less: "set (release_lock i xs) \<subseteq> set xs" "set (releaseExpired n xs) \<subseteq> set xs" for i n xs
    by (simp_all add: release_lock_def sub releaseExpired_filter)
  obtain res ast where rs: "resolveForCommit now now' ticket (durable_head (rt_durable st)) (rt_admission st) = (res, ast)"
    by (metis surj_pair)
  have ast: "set (as_locks ast) \<subseteq> set (as_locks (rt_admission st))"
    using rs unfolding resolveForCommit_def isHeld_def registry_cancel_def Let_def
    by (auto split: option.split_asm if_split_asm dest: subsetD [OF less(1)] subsetD [OF less(2)])
  show ?thesis
  proof (cases res)
    case (Inl e)
    with assms rs have "st' = st\<lparr>rt_admission := registry_cancel ticket ast\<rparr>" "\<exists>v. outcome = CommitRefused v"
      by (auto simp: runtime_commit_def)
    with ast show ?thesis by (auto simp: registry_cancel_def jsmap_simps dest: subsetD [OF less(1)])
  next
    case (Inr a)
    with rs have head: "durable_head (rt_durable st) = Some (ad_beforeRef a)" by (simp add: resolveForCommit_ok)
    obtain d h g where ex: "executeCommit cf t a (rt_durable st) (rt_history st) (rt_ids st) = (outcome, d, h, g)"
      and st': "st' = st\<lparr>rt_durable := d, rt_history := h, rt_ids := g,
        rt_admission := registry_consume ticket (ast\<lparr>as_locks := release_lock (ad_admittedId a) (as_locks ast)\<rparr>)\<rparr>"
      using assms rs Inr by (auto simp: runtime_commit_def split: prod.splits)
    have gone: "map_get (as_records (rt_admission st')) (tk_ticketId ticket) = None"
      "set (as_locks (rt_admission st')) \<subseteq> set (as_locks (rt_admission st))"
      using ast by (auto simp: st' registry_consume_def jsmap_simps dest: subsetD [OF less(1)])
    show ?thesis
    proof (cases "\<exists>c after i. outcome = Committed c after i")
      case True
      then obtain change after cid where o1: "outcome = Committed change after cid" by blast
      from ex [unfolded o1 executeCommit_Committed] obtain recipe applied involved
        where c: "commits cf t a (rt_durable st) (rt_history st) (rt_ids st) recipe applied involved change after g"
          and cid: "cid = cc_changeId change"
          and fits: "commit_fits (cf_collation cf) (commit_input a after change recipe) (rt_durable st)"
          and d: "d = committed (commit_input a after change recipe) (rt_durable st)"
          and h: "h = map_option (recordChange change) (rt_history st)" by blast
      have ref: "sn_snapshotRef (withSnapshotRef s r) = r" for s r by (simp add: withSnapshotRef_def freezeSnapshot_def)
      from c have after: "frozen after" "cc_beforeRef change = ad_beforeRef a" "cc_afterRef change = sn_snapshotRef after"
        by (auto simp: commits_def ref)
      with gone fits show ?thesis
        by (simp add: o1 cid st' d h head commit_fits_def commit_input_def restored_id)
    next
      case False
      from executeCommit_unchanged [OF ex False] gone show ?thesis
        using False by (cases outcome) (auto simp: st')
    qed
  qed
qed

theorem commit_atomic_witness:
  "map_get (as_records (rt_admission (snd example_commit))) ''adm-tag-1'' = None"
  using commit_atomic [of example_config 1 1 "''t1''" example_ticket "snd example_admission" "fst example_commit" "snd example_commit"]
  by (simp add: example_commit_def example_ticket_def)

text \<open>C4. Commits complete: in a reachable state whose head is linked to the last change (always so
  without epoch transitions), a commit whose ticket resolves succeeds exactly when its operation
  can be applied, its content is available and its result passes the checks, with that change and
  that world. It is never refused for the state of the log, the epoch or the history: any refusal
  says that the operation could not be applied or its content was missing.\<close>

theorem commit_completes:
  assumes "runs_from uuid cf s0 st"
    and "resolveForCommit now now' ticket (durable_head (rt_durable st)) (rt_admission st) = (Inr admitted, ast)"
  shows "(static_from uuid cf s0 st \<longrightarrow> head_linked (rt_durable st)) \<and>
    (head_linked (rt_durable st) \<longrightarrow>
      ((\<exists>cid. fst (runtime_commit cf now now' t ticket st) = Committed change after cid) \<longleftrightarrow>
        (\<exists>recipe applied involved g'. prepares cf t admitted (rt_ids st) recipe applied involved change after g')) \<and>
      (\<forall>v. fst (runtime_commit cf now now' t ticket st) = CommitRefused v \<longrightarrow>
         rv_code v \<in> {ApplyFailed, ContentRefUnavailable}))"
proof -
  have "inj uuid" and wc: "well_configured cf (uuidIdGenerator uuid) s0" using runs_configured [OF assms(1)] by simp_all
  note d = fresh_generator.commit_decided [OF uuid_fresh [OF \<open>inj uuid\<close>] wc runs_inv [OF assms(1)] _ assms(2)]
  show ?thesis
    by (intro conjI allI impI; (rule static_linked | rule d(1) | rule d(2)); assumption?)
qed

theorem commit_completes_witness:
  "\<exists>admitted recipe applied involved change after g'.
     prepares example_config ''t1'' admitted (rt_ids (snd example_admission)) recipe applied involved change after g'"
proof -
  have "isl (fst (resolveForCommit 1 1 example_ticket (durable_head (rt_durable (snd example_admission)))
      (rt_admission (snd example_admission)))) = False" by code_simp
  then obtain a ast where r: "resolveForCommit 1 1 example_ticket (durable_head (rt_durable (snd example_admission)))
      (rt_admission (snd example_admission)) = (Inr a, ast)"
    by (metis isl_def prod.collapse sum.exhaust)
  have "case fst example_commit of Committed c w i \<Rightarrow> True | _ \<Rightarrow> False" by code_simp
  then obtain c w i where "fst example_commit = Committed c w i" by (auto split: commit_outcome.splits)
  with commit_completes [OF example_runs(1) r, of "''t1''" c w] example_admission_runs show ?thesis
    by (fastforce simp: example_commit_def)
qed

end
