(* ===== verification/Runtime_EpochSchema.thy ===== *)
theory Runtime_EpochSchema
  imports Runtime_EpochSafety
begin

text \<open>
  The schema a governed runtime works with: in every reachable state it is the one the active
  binding refers to, by the digest of its content, and every operation it allows has its template.
\<close>

section \<open>Copies of a schema\<close>

lemma detached_again:
  assumes "\<And>d. f (f d) = f d"
  shows "detachedReadonlyMap (map (\<lambda>(i, d). (i, f d)) (detachedReadonlyMap (map (\<lambda>(i, d). (i, f d)) m))) =
    detachedReadonlyMap (map (\<lambda>(i, d). (i, f d)) m)"
proof -
  let ?g = "\<lambda>(i, d). (i, f d)" and ?n = "new_Map (map (\<lambda>(i, d). (i, f d)) m)"
  have "?g x = x" if "x \<in> set ?n" for x
  proof -
    have "snd x \<in> set (map_values ?n)" using that by (force simp: map_values_def)
    with new_Map_values [of "map ?g m"] have "snd x \<in> snd ` set (map ?g m)" by blast
    then obtain d where "snd x = f d" by auto
    then have "f (snd x) = snd x" using assms by metis
    then show ?thesis by (cases x) simp
  qed
  then have "map ?g ?n = ?n" by (rule map_idI)
  then show ?thesis by (simp add: detachedReadonlyMap_def)
qed

lemma schema_copies [simp]:
  "snapshotCondition (snapshotCondition c) = snapshotCondition c"
  "snapshotPortContract (snapshotPortContract k) = snapshotPortContract k"
  "snapshotTemplate (snapshotTemplate t) = snapshotTemplate t"
  "snapshotObjectType (snapshotObjectType ob) = snapshotObjectType ob"
  "snapshotOperationType (snapshotOperationType od) = snapshotOperationType od"
  "snapshotResourceRule (snapshotResourceRule r) = snapshotResourceRule r"
proof -
  show c: "snapshotCondition (snapshotCondition c) = snapshotCondition c" for c by (simp add: snapshotCondition_def)
  then have cs: "map (snapshotCondition \<circ> snapshotCondition) xs = map snapshotCondition xs" for xs by simp
  show k: "snapshotPortContract (snapshotPortContract k) = snapshotPortContract k" for k
    by (simp add: snapshotPortContract_def cs)
  show "snapshotTemplate (snapshotTemplate t) = snapshotTemplate t" by (simp add: snapshotTemplate_def cs)
  show "snapshotObjectType (snapshotObjectType ob) = snapshotObjectType ob" by (simp add: snapshotObjectType_def)
  show "snapshotOperationType (snapshotOperationType od) = snapshotOperationType od" by (simp add: snapshotOperationType_def k)
  show "snapshotResourceRule (snapshotResourceRule r) = snapshotResourceRule r" by (simp add: snapshotResourceRule_def)
qed

lemma schema_copy [simp]: "snapshotOrchestrationSchema (snapshotOrchestrationSchema s) = snapshotOrchestrationSchema s"
  by (simp add: snapshotOrchestrationSchema_def detached_again o_def)

section \<open>What the validation establishes\<close>

definition template_key :: "operation_template \<Rightarrow> string" where
  "template_key t = op_operationTypeId t @ ''@'' @ ot_revision (op_templateRef t)"

definition schema_valid :: "epoch_deps \<Rightarrow> schema_ref \<Rightarrow> orchestration_schema \<Rightarrow> bool" where
  "schema_valid deps ref s \<longleftrightarrow>
     os_schemaId s = sr_schemaId ref \<and> ed_contentDigest deps s = sr_digest ref \<and>
     1 \<le> os_wireVersion s \<and> os_wireVersion s \<le> 9007199254740991 \<and>
     (\<forall>t\<in>set (os_templates s). ot_operationTypeId (op_templateRef t) = op_operationTypeId t) \<and>
     distinct (map template_key (os_templates s)) \<and>
     (\<forall>(i, d)\<in>set (os_operationTypes s). od_operationTypeId d = i \<and> ot_operationTypeId (od_templateRef d) = i \<and>
        i @ ''@'' @ ot_revision (od_templateRef d) \<in> template_key ` set (os_templates s))"

lemma template_key_loop_Inr:
  "template_key_loop ts keys = Inr keys' \<longleftrightarrow>
    (\<forall>t\<in>set ts. ot_operationTypeId (op_templateRef t) = op_operationTypeId t \<and> template_key t \<notin> set keys) \<and>
    distinct (map template_key ts) \<and> keys' = fold set_add (map template_key ts) keys"
proof (induction ts arbitrary: keys)
  case (Cons t ts)
  have "template_key_loop (t # ts) keys = Inr keys' \<longleftrightarrow> ot_operationTypeId (op_templateRef t) = op_operationTypeId t \<and>
      template_key t \<notin> set keys \<and> template_key_loop ts (set_add (template_key t) keys) = Inr keys'"
    by (simp add: template_key_def Let_def)
  then show ?case unfolding Cons.IH by (auto simp del: template_key_loop.simps) (metis imageI)+
qed auto

lemma declaration_loop_None:
  "declaration_loop ds keys = None \<longleftrightarrow>
    (\<forall>(i, d)\<in>set ds. od_operationTypeId d = i \<and> ot_operationTypeId (od_templateRef d) = i \<and>
       i @ ''@'' @ ot_revision (od_templateRef d) \<in> set keys)"
  by (induction ds keys rule: declaration_loop.induct) auto

lemma validateResolvedSchema_None: "validateResolvedSchema deps ref s = None \<longleftrightarrow> schema_valid deps ref s"
proof -
  have safe: "\<not> isSafeInteger (Fin (of_int w)) \<or> w < 1 \<longleftrightarrow> \<not> (1 \<le> w \<and> w \<le> 9007199254740991)" for w :: int by auto
  show ?thesis
  proof (cases "template_key_loop (os_templates s) []")
    case (Inl v)
    then have "\<not> ((\<forall>t\<in>set (os_templates s). ot_operationTypeId (op_templateRef t) = op_operationTypeId t) \<and>
        distinct (map template_key (os_templates s)))"
      using template_key_loop_Inr [of "os_templates s" "[]"] by auto
    with Inl show ?thesis unfolding validateResolvedSchema_def schema_valid_def Let_def safe by auto
  next
    case (Inr keys)
    then have k: "(\<forall>t\<in>set (os_templates s). ot_operationTypeId (op_templateRef t) = op_operationTypeId t) \<and>
        distinct (map template_key (os_templates s)) \<and> set keys = template_key ` set (os_templates s)"
      by (auto simp: template_key_loop_Inr set_fold_set_add)
    with Inr show ?thesis
      unfolding validateResolvedSchema_def schema_valid_def Let_def safe by (auto simp: declaration_loop_None)
  qed
qed

section \<open>The invariant\<close>

text \<open>The schema is a copy, and the ref names it: its id, the digest of its content, its templates.\<close>

definition verified :: "epoch_deps \<Rightarrow> schema_ref \<Rightarrow> orchestration_schema \<Rightarrow> bool" where
  "verified deps ref s \<longleftrightarrow> snapshotOrchestrationSchema s = s \<and> validateResolvedSchema deps ref s = None"

definition context_verified :: "epoch_deps \<Rightarrow> active_schema_context \<Rightarrow> bool" where
  "context_verified deps c \<longleftrightarrow> (\<exists>b. ax_binding c = Some b \<and> verified deps (sb_schemaRef b) (ax_schema c)) \<and>
     ax_allowedOperations c = allowedOperationsFromSchema (ax_schema c)"

definition schema_inv :: "epoch_deps \<Rightarrow> epoch_admin \<Rightarrow> bool" where
  "schema_inv deps adm \<longleftrightarrow> context_verified deps (ea_context adm) \<and>
     (\<forall>i p. map_get (ea_prepared adm) i = Some p \<longrightarrow>
        context_verified deps (pp_targetContext p) \<and> verified deps (sb_schemaRef (pp_toBinding p)) (pp_targetSchema p)) \<and>
     (\<forall>i e. map_get (ea_committed adm) i = Some e \<longrightarrow> verified deps (sb_schemaRef (er_toBinding (je_receipt e))) (je_targetSchema e))"

lemma context_verified_create:
  "verified deps (sb_schemaRef b) s \<Longrightarrow> context_verified deps (createActiveSchemaContext s e (Some b))"
  by (simp add: context_verified_def verified_def createActiveSchemaContext_def Let_def)

lemma context_verified_copy: "context_verified deps c \<Longrightarrow> snapshotActiveSchemaContext c = c"
  by (auto simp: context_verified_def verified_def snapshotActiveSchemaContext_def createActiveSchemaContext_def Let_def)

lemma snapshotResolvedSchema_copy: "snapshotResolvedSchema r = Some s \<Longrightarrow> snapshotOrchestrationSchema s = s"
  by (auto simp: snapshotResolvedSchema_def split: resolution.split_asm)

lemma schema_inv_fewer:
  assumes "schema_inv deps adm" and "\<And>i p. map_get (ea_prepared adm') i = Some p \<Longrightarrow> map_get (ea_prepared adm) i = Some p"
    and "ea_context adm' = ea_context adm" "ea_committed adm' = ea_committed adm"
  shows "schema_inv deps adm'"
  using assms unfolding schema_inv_def by (metis (no_types, lifting))

lemma inspect_admin: "inspectActivationPoint deps rd domain gv = (out, gv') \<Longrightarrow>
    gv_admin gv' = pruneExpiredPreparations deps (rd_prune rd) (gv_admin gv)"
  by (auto simp: inspectActivationPoint_def Let_def split: if_split_asm option.split_asm prod.split_asm)

lemma prepare_fewer:
  assumes "schema_inv deps (gv_admin gv)" and "prepareEpochTransition deps rd req gv = (out, gv')"
  shows "schema_inv deps (gv_admin gv')"
proof -
  let ?p = "pruneExpiredPreparations deps (rd_first rd) (gv_admin gv)"
  have p: "schema_inv deps ?p" by (rule schema_inv_fewer [OF assms(1)]) (auto simp: pruned(2-4) dest: pruned(1))
  have q: "schema_inv deps (pruneExpiredPreparations deps t ?p)" for t
    by (rule schema_inv_fewer [OF p]) (auto simp: pruned(2-4) dest: pruned(1))
  obtain res gv1 where i: "inspectActivationPoint deps rd (eq_domainId req) (gv\<lparr>gv_admin := ?p\<rparr>) = (res, gv1)" by (metis surj_pair)
  have "gv' = gv\<lparr>gv_admin := ?p\<rparr> \<or> gv' = gv1"
    using assms(2) unfolding prepareEpochTransition_def Let_def epoch_copies i
    by (simp split: option.split_asm sum.split_asm)
  then have "gv_admin gv' = ?p \<or> gv' = gv1" by auto
  moreover have "gv_admin gv1 = pruneExpiredPreparations deps (rd_prune rd) ?p" using inspect_admin [OF i] by simp
  ultimately have "gv_admin gv' = ?p \<or> gv_admin gv' = pruneExpiredPreparations deps (rd_prune rd) ?p" by auto
  with p q show ?thesis by auto
qed

lemma schema_step:
  assumes inv: "schema_inv deps (gv_admin (fst x))" and step: "governed_step cf deps x y"
  shows "schema_inv deps (gv_admin (fst y))"
  using step
proof (cases rule: governed_step.cases)
  case (gov_inspect rd domain gv out gv' ws)
  have "schema_inv deps (gv_admin gv)" using inv gov_inspect(1) by simp
  then have "schema_inv deps (gv_admin gv')"
    unfolding inspect_admin [OF gov_inspect(3)] by (rule schema_inv_fewer) (erule pruned(1), simp_all only: pruned(2-4))
  then show ?thesis by (simp add: gov_inspect)
next
  case (gov_finish r s ws resolve now gv out gv')
  show ?thesis
  proof (cases out)
    case (Inl v)
    with gov_finish inv show ?thesis by (auto dest: finish_refused)
  next
    case (Inr token)
    from gov_finish(4) [unfolded Inr] show ?thesis
    proof (rule finish_ok)
      fix afterRef g cached b t
      assume c: "snapshotResolvedSchema (resolve (eq_targetSchemaRef r)) = Some cached"
        "validateResolvedSchema deps (eq_targetSchemaRef r) cached = None"
        "b = advanced_binding r afterRef t (ea_binding (gv_admin gv))"
        and gv': "gv' = gv\<lparr>gv_runtime := (gv_runtime gv)\<lparr>rt_ids := g\<rparr>,
          gv_admin := (gv_admin gv)\<lparr>ea_prepared := map_set (pt_preparedId token)
            \<lparr>pp_request = r, pp_prepared = token, pp_afterRef = afterRef, pp_toBinding = b, pp_targetSchema = cached,
             pp_targetContext = createActiveSchemaContext cached (eq_targetEpochId r) (Some b)\<rparr>
            (ea_prepared (gv_admin gv))\<rparr>\<rparr>"
      have v: "verified deps (sb_schemaRef b) cached"
        using c snapshotResolvedSchema_copy by (simp add: verified_def)
      then show ?thesis
        using inv context_verified_create [OF v] unfolding gov_finish(1,2) schema_inv_def
        by (auto simp: gv' jsmap_simps split: if_split_asm)
    qed
  qed
next
  case (gov_commit resolve rd token gv out gv' ws)
  from gov_commit(3) have "schema_inv deps (gv_admin gv')"
  proof (cases rule: commit_epoch_cases)
    case (refused v)
    show ?thesis
      by (rule schema_inv_fewer [of deps "gv_admin gv"])
         (use inv gov_commit(1) in simp, fact refused(4), (subst refused(3), simp)+)
  next
    case (again i e)
    with inv gov_commit show ?thesis by simp
  next
    case (activated p receipt)
    from activated(6) show ?thesis
    proof (rule activated_state)
      assume a: "receipt = \<lparr>er_admissionId = eq_admissionId (pp_request p), er_beforeSnapshotRef = eq_expectedHead (pp_request p),
         er_afterSnapshotRef = pp_afterRef p, er_fromBinding = ea_binding (gv_admin gv), er_toBinding = pp_toBinding p\<rparr>"
        "ea_prepared (gv_admin gv') = map_delete (pt_preparedId (pp_prepared p)) (ea_prepared (gv_admin gv))"
        "ea_committed (gv_admin gv') = map_set (eq_admissionId (pp_request p))
           \<lparr>je_receipt = receipt, je_prepared = pp_prepared p, je_request = pp_request p, je_targetSchema = pp_targetSchema p\<rparr>
           (ea_committed (gv_admin gv))"
        "ea_context (gv_admin gv') = snapshotActiveSchemaContext (pp_targetContext p)"
      have "context_verified deps (pp_targetContext p)" "verified deps (sb_schemaRef (pp_toBinding p)) (pp_targetSchema p)"
        using inv activated(2) gov_commit(1) by (auto simp: schema_inv_def)
      then show ?thesis
        using inv gov_commit(1) unfolding schema_inv_def a
        by (auto simp: jsmap_simps context_verified_copy split: if_split_asm)
    qed
  qed
  then show ?thesis by (simp add: gov_commit)
next
  case (gov_recover resolve i gv out gv' ws)
  have v: "verified deps ref s" if "resolveRecoveryTargetSchema deps resolve ref = Inr s" for ref s
    using that snapshotResolvedSchema_copy
    by (auto simp: resolveRecoveryTargetSchema_def verified_def split: resolution.split_asm option.split_asm)
  have "gv' = gv \<or> (\<exists>b s. verified deps (sb_schemaRef b) s \<and> gv_admin gv' =
      holder_set_binding b (holder_set_context (createActiveSchemaContext s (sb_epochId b) (Some b)) (gv_admin gv)))"
  proof (cases "map_get (ea_committed (gv_admin gv)) i")
    case None
    with gov_recover(3) show ?thesis
      unfolding recoverEpochTransition_def recoverFromDurableBinding_def Let_def
      by (auto split: option.split_asm if_split_asm sum.split_asm dest!: v) blast
  next
    case (Some e)
    with inv gov_recover(1) have "verified deps (sb_schemaRef (er_toBinding (je_receipt e))) (je_targetSchema e)"
      by (auto simp: schema_inv_def)
    with Some gov_recover(3) show ?thesis
      unfolding recoverEpochTransition_def recoverFromJournal_def Let_def
      by (auto split: option.split_asm if_split_asm sum.split_asm) blast
  qed
  then have "schema_inv deps (gv_admin gv')"
  proof (elim disjE exE conjE)
    fix b s assume b: "verified deps (sb_schemaRef b) s" and adm: "gv_admin gv' =
      holder_set_binding b (holder_set_context (createActiveSchemaContext s (sb_epochId b) (Some b)) (gv_admin gv))"
    note c = context_verified_create [OF b, of "sb_epochId b"]
    show ?thesis using inv gov_recover(1) c context_verified_copy [OF c] by (simp add: schema_inv_def adm)
  qed (use inv gov_recover(1) in simp)
  then show ?thesis by (simp add: gov_recover)
qed (use inv prepare_fewer in auto)

lemma schema_reachable:
  assumes "context_verified deps ctx" and "governed_reachable cf deps (initial_governed s0 ctx b durable tracked g) x"
  shows "schema_inv deps (gv_admin (fst x))"
  using assms(2)
proof induction
  case governed_start
  show ?case
    using assms(1) context_verified_copy [OF assms(1)]
    by (simp add: schema_inv_def initial_governed_def createMemoryEpochAdministration_def map_get_def)
qed (rule schema_step)

text \<open>
  Every operation a verified context allows resolves to a template of its declared revision, where
  ids do not contain the separator of the keys that the validation compares.
\<close>

lemma allowed_resolves:
  assumes "context_verified deps c" and "i \<in> set (ax_allowedOperations c)"
    and plain: "CHR ''@'' \<notin> set i" "list_all (\<lambda>t. CHR ''@'' \<notin> set (op_operationTypeId t)) (os_templates (ax_schema c))"
  shows "\<exists>t. getTemplate c i None = Some t \<and> op_operationTypeId t = i"
proof -
  let ?s = "ax_schema c"
  from assms(1) have allowed: "ax_allowedOperations c = allowedOperationsFromSchema ?s" and valid: "\<exists>ref. schema_valid deps ref ?s"
    by (auto simp: context_verified_def verified_def validateResolvedSchema_None)
  from assms(2) have "i \<in> fst ` set (os_operationTypes ?s)" by (simp add: allowed allowedOperationsFromSchema_def map_keys_def)
  then obtain d where d: "map_get (os_operationTypes ?s) i = Some d"
    by (metis map_has_get map_has_keys not_None_eq)
  then have "(i, d) \<in> set (os_operationTypes ?s)" by (rule map_get_mem)
  with valid obtain t where t: "t \<in> set (os_templates ?s)" "i @ ''@'' @ ot_revision (od_templateRef d) = template_key t"
    unfolding schema_valid_def by blast
  from t plain have "op_operationTypeId t = i" "ot_revision (op_templateRef t) = ot_revision (od_templateRef d)"
    using append_sep_eq [of "CHR ''@''" i "op_operationTypeId t" "ot_revision (od_templateRef d)" "ot_revision (op_templateRef t)"]
    by (auto simp: template_key_def list_all_iff)
  with t(1) have "List.find (\<lambda>t. op_operationTypeId t = i \<and> ot_revision (op_templateRef t) = ot_revision (od_templateRef d))
      (os_templates ?s) \<noteq> None" unfolding find_None_iff by blast
  then show ?thesis by (auto simp: getTemplate_def resolveTemplate_def d dest: find_Some_mem)
qed

end
