(* ===== verification/Runtime_Governed.thy ===== *)
theory Runtime_Governed
  imports Runtime_Reachable Runtime_EpochSchema
begin

text \<open>
  What epoch administration promises: head, holders and durable binding stay of one epoch, an
  activation does exactly its one thing or nothing, retries and recovery are harmless. Two runs
  at the end show what happens when an epoch id is activated a second time.
\<close>

section \<open>Agreement\<close>

text \<open>C14. In every reachable state of a governed runtime the head world, the schema context and the
  active binding are of one epoch, and so is the durable binding; the context carries the active
  binding. While no epoch id is activated twice, the durable binding is the active binding.\<close>

theorem epochs_agree:
  assumes "governed_from uuid cf deps s0 gv ws"
  shows "(\<exists>s. getHead (gv_runtime gv) = Some s \<and> ax_epochId (ea_context (gv_admin gv)) = sn_epochId s \<and>
       sb_epochId (ea_binding (gv_admin gv)) = sn_epochId s \<and>
       ax_binding (ea_context (gv_admin gv)) = Some (ea_binding (gv_admin gv)) \<and>
       (\<forall>b. md_activeBinding (rt_durable (gv_runtime gv)) = Some b \<longrightarrow> sb_epochId b = sn_epochId s)) \<and>
    (epochs_unique (gv_admin gv) \<longrightarrow>
       (\<forall>b. md_activeBinding (rt_durable (gv_runtime gv)) = Some b \<longrightarrow> b = ea_binding (gv_admin gv)))"
  using governed_inv_from [OF assms]
  by (simp add: governed_inv_def holders_agree_def head_world_def getHead_def binding_inv_def)

text \<open>C15. A governed runtime works with the schema its binding names: started with a context that is
  verified itself (the runtime takes its first schema as given and validates only later ones),
  in every reachable state the active schema is a detached copy that passes the validation of
  resolved schemas for the reference of the active binding, and, when no operation id of its
  templates contains the separator \<open>@\<close>, every allowed operation without it resolves to a
  template of that operation.\<close>

theorem active_schema_verified:
  assumes "context_verified deps ctx"
    and "governed_reachable cf deps (initial_governed s0 ctx b durable tracked g) (gv, ws)"
  shows "\<exists>bd. ax_binding (ea_context (gv_admin gv)) = Some bd \<and>
    snapshotOrchestrationSchema (ax_schema (ea_context (gv_admin gv))) = ax_schema (ea_context (gv_admin gv)) \<and>
    schema_valid deps (sb_schemaRef bd) (ax_schema (ea_context (gv_admin gv))) \<and>
    (\<forall>i. i \<in> set (ax_allowedOperations (ea_context (gv_admin gv))) \<longrightarrow> CHR ''@'' \<notin> set i \<longrightarrow>
       list_all (\<lambda>t. CHR ''@'' \<notin> set (op_operationTypeId t)) (os_templates (ax_schema (ea_context (gv_admin gv)))) \<longrightarrow>
       (\<exists>t. getTemplate (ea_context (gv_admin gv)) i None = Some t \<and> op_operationTypeId t = i))"
proof -
  from schema_reachable [OF assms] have v: "context_verified deps (ea_context (gv_admin gv))" by (simp add: schema_inv_def)
  then obtain bd where "ax_binding (ea_context (gv_admin gv)) = Some bd" "verified deps (sb_schemaRef bd) (ax_schema (ea_context (gv_admin gv)))"
    unfolding context_verified_def by blast
  with allowed_resolves [OF v] show ?thesis by (auto simp: verified_def validateResolvedSchema_None)
qed

section \<open>Activation\<close>

text \<open>The binding a request was made against.\<close>

definition binding_expected :: "epoch_request \<Rightarrow> schema_epoch_binding \<Rightarrow> bool" where
  "binding_expected req b \<longleftrightarrow> sb_bindingGeneration b = eq_expectedBindingGeneration req \<and>
     sb_epochId b = eq_expectedEpochId req \<and> sb_epochOrdinal b = eq_expectedEpochOrdinal req"

text \<open>C16. A commit of a prepared transition is all or nothing. Activated, the head is the before world
  in the target epoch under the prepared ref, every earlier world, the log and the recipes are
  untouched, the new binding is durable and active, one generation and at least one ordinal
  further, in an epoch other than the current one; before, there were no sessions. Answered from the
  journal, nothing changes. Refused, the store, the holders and the journal are as before. The
  step of one generation needs that no epoch id has been activated twice, which the program
  does not exclude; everything else holds in every reachable state.\<close>

theorem epoch_commit_exact:
  assumes "governed_from uuid cf deps s0 gv ws"
    and "commitEpochTransition deps resolve rd token gv = (out, gv')"
  shows "case out of
      Inl v \<Rightarrow> rt_durable (gv_runtime gv') = rt_durable (gv_runtime gv) \<and> rt_history (gv_runtime gv') = rt_history (gv_runtime gv) \<and>
        rt_ids (gv_runtime gv') = rt_ids (gv_runtime gv) \<and> ea_context (gv_admin gv') = ea_context (gv_admin gv) \<and>
        ea_binding (gv_admin gv') = ea_binding (gv_admin gv) \<and> ea_committed (gv_admin gv') = ea_committed (gv_admin gv)
    | Inr receipt \<Rightarrow>
        (gv' = gv \<and> (\<exists>i e. map_get (ea_committed (gv_admin gv)) i = Some e \<and> receipt = je_receipt e)) \<or>
        (\<exists>before. getHead (gv_runtime gv) = Some before \<and> sn_snapshotRef before = er_beforeSnapshotRef receipt \<and>
           sn_sessions before = [] \<and>
           durable_get (rt_durable (gv_runtime gv)) (er_afterSnapshotRef receipt) = None \<and>
           durable_get (rt_durable (gv_runtime gv')) = (durable_get (rt_durable (gv_runtime gv)))(er_afterSnapshotRef receipt \<mapsto>
             before\<lparr>sn_snapshotRef := er_afterSnapshotRef receipt, sn_epochId := sb_epochId (er_toBinding receipt)\<rparr>) \<and>
           durable_head (rt_durable (gv_runtime gv')) = Some (er_afterSnapshotRef receipt) \<and>
           durable_changes (rt_durable (gv_runtime gv')) = durable_changes (rt_durable (gv_runtime gv)) \<and>
           md_sidecar (rt_durable (gv_runtime gv')) = md_sidecar (rt_durable (gv_runtime gv)) \<and>
           er_fromBinding receipt = ea_binding (gv_admin gv) \<and>
           md_activeBinding (rt_durable (gv_runtime gv')) = Some (er_toBinding receipt) \<and>
           ea_binding (gv_admin gv') = er_toBinding receipt \<and>
           (epochs_unique (gv_admin gv) \<longrightarrow>
              sb_bindingGeneration (er_toBinding receipt) = sb_bindingGeneration (er_fromBinding receipt) + 1 \<and>
              sb_previousBindingGeneration (er_toBinding receipt) = Some (sb_bindingGeneration (er_fromBinding receipt))) \<and>
           sb_epochOrdinal (er_fromBinding receipt) < sb_epochOrdinal (er_toBinding receipt) \<and>
           sb_epochId (er_toBinding receipt) \<noteq> sb_epochId (er_fromBinding receipt) \<and>
           sb_runtimeHead (er_toBinding receipt) = er_afterSnapshotRef receipt)"
  using assms(2)
proof (cases rule: commit_epoch_cases)
  case (refused v)
  from refused(3) have "ea_context (gv_admin gv') = ea_context (gv_admin gv)" "ea_binding (gv_admin gv') = ea_binding (gv_admin gv)"
    "ea_committed (gv_admin gv') = ea_committed (gv_admin gv)" by (metis epoch_admin.select_convs epoch_admin.surjective epoch_admin.update_convs)+
  with refused(1,2) show ?thesis by (simp add: calmer_simps)
next
  case (again i e)
  then show ?thesis by auto
next
  case (activated p receipt)
  have inv: "governed_inv cf (\<lambda>n. uuid ` {..<n}) s0 gv ws" by (rule governed_inv_from [OF assms(1)])
  with activated(2) have ok: "prepared_ok (uuid ` {..<rt_ids (gv_runtime gv)}) (rt_durable (gv_runtime gv)) (pt_preparedId token) p"
    by (simp add: governed_inv_def admin_inv_def)
  from activated(6) show ?thesis
  proof (rule activated_state)
    fix before st
    assume a: "durable_head (rt_durable (gv_runtime gv)) = Some (eq_expectedHead (pp_request p))"
      "durable_get (rt_durable (gv_runtime gv)) (eq_expectedHead (pp_request p)) = Some before"
      and b: "durable_head (rt_durable (gv_runtime gv')) = Some (pp_afterRef p)"
      "durable_get (rt_durable (gv_runtime gv')) = (durable_get (rt_durable (gv_runtime gv)))(pp_afterRef p \<mapsto>
         before\<lparr>sn_snapshotRef := pp_afterRef p, sn_epochId := eq_targetEpochId (pp_request p)\<rparr>)"
      "md_changelog (rt_durable (gv_runtime gv')) = md_changelog (rt_durable (gv_runtime gv))"
      "md_sidecar (rt_durable (gv_runtime gv')) = md_sidecar (rt_durable (gv_runtime gv))"
      "md_activeBinding (rt_durable (gv_runtime gv')) = Some (pp_toBinding p)"
      "receipt = \<lparr>er_admissionId = eq_admissionId (pp_request p), er_beforeSnapshotRef = eq_expectedHead (pp_request p),
         er_afterSnapshotRef = pp_afterRef p, er_fromBinding = ea_binding (gv_admin gv), er_toBinding = pp_toBinding p\<rparr>"
      "ea_binding (gv_admin gv') = pp_toBinding p"
    have to: "sb_epochOrdinal (ea_binding (gv_admin gv)) = eq_expectedEpochOrdinal (pp_request p)"
      "sb_epochId (ea_binding (gv_admin gv)) = eq_expectedEpochId (pp_request p)"
      using activated(6) unfolding activated_def by blast+
    have next_generation: "\<exists>t. pp_toBinding p = advanced_binding (pp_request p) (pp_afterRef p) t (ea_binding (gv_admin gv))"
      if "epochs_unique (gv_admin gv)"
      using inv that a(1) activated(2) by (simp add: governed_inv_def binding_inv_def)
    have ref: "sn_snapshotRef before = eq_expectedHead (pp_request p)" and none: "sn_sessions before = []"
      using inv a activated(6) by (auto simp: governed_inv_def runtime_inv_def durable_inv_def activated_def)
    have generation: "epochs_unique (gv_admin gv) \<longrightarrow>
        sb_bindingGeneration (pp_toBinding p) = sb_bindingGeneration (ea_binding (gv_admin gv)) + 1 \<and>
        sb_previousBindingGeneration (pp_toBinding p) = Some (sb_bindingGeneration (ea_binding (gv_admin gv)))"
      using next_generation by auto
    have target: "eq_expectedEpochOrdinal (pp_request p) < sb_epochOrdinal (pp_toBinding p)"
      "sb_epochId (pp_toBinding p) = eq_targetEpochId (pp_request p)" "sb_runtimeHead (pp_toBinding p) = pp_afterRef p"
      "eq_targetEpochId (pp_request p) \<noteq> eq_expectedEpochId (pp_request p)"
      "durable_get (rt_durable (gv_runtime gv)) (pp_afterRef p) = None"
      using ok by (auto simp: prepared_ok_def)
    show ?thesis
      using to a generation target by (simp add: activated(1) b ref none getHead_def durable_changes_def)
  qed
qed

text \<open>C17. Transitions complete: for a stored preparation whose admission has no journal entry yet, the
  commit succeeds exactly when the token is the one handed out, the preparation has not expired,
  the head has not moved since, the binding holder has the generation, epoch and ordinal the
  request expects, no lease and no admission is live, there are no sessions and the target ref
  still resolves to the schema validated at preparation. The checks of the world's epoch and
  integrity and the durable swap never refuse it. While no epoch id has been activated twice
  (\<open>epochs_unique\<close>) an unmoved head implies the expected binding, so that check never refuses
  either; after a reuse it can.\<close>

theorem epoch_commit_completes:
  assumes "governed_from uuid cf deps s0 gv ws"
    and "map_get (ea_prepared (gv_admin gv)) (pt_preparedId token) = Some p"
    and "map_get (ea_committed (gv_admin gv)) (eq_admissionId (pp_request p)) = None"
    and "getHead (gv_runtime gv) = Some before"
  shows "((\<exists>receipt gv'. commitEpochTransition deps resolve rd token gv = (Inr receipt, gv')) \<longleftrightarrow>
      preparedTokensEqual (pp_prepared p) token \<and> \<not> preparation_expired deps (rd_first rd) p \<and>
      sn_snapshotRef before = eq_expectedHead (pp_request p) \<and> binding_expected (pp_request p) (ea_binding (gv_admin gv)) \<and>
      fst (resourcesClear (rd_locks rd) (gv_runtime gv)) \<and>
      fst (count_admissions (rd_records rd) (snd (resourcesClear (rd_locks rd) (gv_runtime gv)))) = 0 \<and>
      sn_sessions before = [] \<and> resolveUnchangedTargetSchema deps resolve p = None) \<and>
    (epochs_unique (gv_admin gv) \<longrightarrow> sn_snapshotRef before = eq_expectedHead (pp_request p) \<longrightarrow>
      binding_expected (pp_request p) (ea_binding (gv_admin gv)))" (is "(?done \<longleftrightarrow> ?may) \<and> ?unique")
proof -
  let ?d = "rt_durable (gv_runtime gv)" and ?h = "eq_expectedHead (pp_request p)"
  have inv: "governed_inv cf (\<lambda>n. uuid ` {..<n}) s0 gv ws" by (rule governed_inv_from [OF assms(1)])
  from assms(4) obtain h where h: "durable_head ?d = Some h" "durable_get ?d h = Some before"
    by (auto simp: getHead_def split: option.split_asm)
  have ref: "sn_snapshotRef before = h" and int: "integrity before"
    using inv h by (auto simp: governed_inv_def runtime_inv_def durable_inv_def)
  have agree: "sb_epochId (ea_binding (gv_admin gv)) = sn_epochId before"
    using inv h by (auto simp: governed_inv_def holders_agree_def head_world_def)
  have unique: ?unique
    using inv assms(2) h(1) ref by (auto simp: governed_inv_def binding_inv_def binding_expected_def)
  have swap: "\<exists>d'. compareAndSwapHeadWithBinding h x y ?d = (True, d')" for x y
    using h(1) by (simp add: binding_swap_eq durable_cas_eq)
  have valid: "validateSnapshotIntegrity (snapshotWithAdvancedEpoch before r e) = Inr ()" for r e
    unfolding validateSnapshotIntegrity_ok advanced_epoch [OF durable_get_frozen [OF h(2)]] by (simp add: int)
  have state: "fst (validateCommitState p before (ea_binding (gv_admin gv)) (rd_locks rd) (rd_records rd) (gv_runtime gv)) = None \<longleftrightarrow>
      binding_expected (pp_request p) (ea_binding (gv_admin gv)) \<and> fst (resourcesClear (rd_locks rd) (gv_runtime gv)) \<and>
      fst (count_admissions (rd_records rd) (snd (resourcesClear (rd_locks rd) (gv_runtime gv)))) = 0 \<and> sn_sessions before = []"
    using agree
    by (auto simp: binding_expected_def validateCommitState_def conflict_def sessionsQuiescent_def split: prod.split bool.split)
  have "?done \<longleftrightarrow> ?may"
  proof
    assume ?done
    then show ?may
      using state assms(2,3) h ref
      unfolding commitEpochTransition_def commit_prepared_def Let_def
      by (auto split: if_split_asm option.split_asm prod.split_asm)
  next
    assume may: ?may
    then have eq: "h = ?h" by (simp add: ref)
    from may state obtain st where
      v: "validateCommitState p before (ea_binding (gv_admin gv)) (rd_locks rd) (rd_records rd) (gv_runtime gv) = (None, st)"
      by (metis prod.collapse)
    from swap obtain d' where "compareAndSwapHeadWithBinding ?h
        (snapshotWithAdvancedEpoch before (pp_afterRef p) (eq_targetEpochId (pp_request p))) (pp_toBinding p) ?d = (True, d')"
      unfolding eq by blast
    with may h v valid show ?done
      by (simp add: commitEpochTransition_def commit_prepared_def Let_def assms(2,3) eq split: prod.split)
  qed
  with unique show ?thesis by blast
qed

section \<open>Retries and recovery\<close>

text \<open>A commit that succeeded can be repeated: the same token gives the same receipt again and
  changes nothing, whatever the clock says and the resolver answers by then.\<close>

theorem epoch_commit_repeats:
  assumes "governed_from uuid cf deps s0 gv ws" and "commitEpochTransition deps resolve rd token gv = (Inr receipt, gv')"
  shows "commitEpochTransition deps resolve' rd' token gv' = (Inr receipt, gv')"
proof (cases "map_get (ea_prepared (gv_admin gv)) (pt_preparedId token)")
  case None
  with assms(2) show ?thesis
    by (auto simp: commitEpochTransition_def Let_def split: option.split_asm if_split_asm)
next
  case (Some p)
  show ?thesis
  proof (cases "map_get (ea_committed (gv_admin gv)) (eq_admissionId (pp_request p))")
    case (Some e)
    with \<open>map_get (ea_prepared (gv_admin gv)) (pt_preparedId token) = Some p\<close> assms(2) show ?thesis
      by (auto simp: commitEpochTransition_def Let_def)
  next
    case None
    note p = \<open>map_get (ea_prepared (gv_admin gv)) (pt_preparedId token) = Some p\<close>
    with None assms(2) have act: "activated deps resolve p gv receipt gv'" and eq: "preparedTokensEqual (pp_prepared p) token"
      by (auto simp: commitEpochTransition_def Let_def split: if_split_asm dest: commit_prepared_ok)
    have "prepared_ok (uuid ` {..<rt_ids (gv_runtime gv)}) (rt_durable (gv_runtime gv)) (pt_preparedId token) p"
      using governed_inv_from [OF assms(1)] p by (simp add: governed_inv_def admin_inv_def)
    then have i: "pt_preparedId (pp_prepared p) = pt_preparedId token" "pt_preparedId token = ''prep-'' @ eq_admissionId (pp_request p)"
      unfolding prepared_ok_def by (elim conjE, metis)+
    from act show ?thesis
    proof (rule activated_state)
      assume "ea_prepared (gv_admin gv') = map_delete (pt_preparedId (pp_prepared p)) (ea_prepared (gv_admin gv))"
        "ea_committed (gv_admin gv') = map_set (eq_admissionId (pp_request p))
           \<lparr>je_receipt = receipt, je_prepared = pp_prepared p, je_request = pp_request p, je_targetSchema = pp_targetSchema p\<rparr>
           (ea_committed (gv_admin gv))"
      with eq i show ?thesis
        by (simp add: commitEpochTransition_def Let_def jsmap_simps admission_suffix_def)
    qed
  qed
qed

text \<open>Recovery adopts or refuses, from any state and also after a restart that lost the journal:
  adopted, the holders carry one binding of the epoch of the head, the durable one where the
  journal does not know the admission; the runtime and the journal are untouched. Refused,
  nothing changes.\<close>

theorem recovery_adopts:
  "case recoverEpochTransition deps resolve i gv of
     (Inl v, gv') \<Rightarrow> gv' = gv
   | (Inr receipt, gv') \<Rightarrow>
       gv_runtime gv' = gv_runtime gv \<and> ea_prepared (gv_admin gv') = ea_prepared (gv_admin gv) \<and>
       ea_committed (gv_admin gv') = ea_committed (gv_admin gv) \<and> ea_binding (gv_admin gv') = er_toBinding receipt \<and>
       ax_binding (ea_context (gv_admin gv')) = Some (er_toBinding receipt) \<and>
       (\<exists>s. getHead (gv_runtime gv) = Some s \<and> sb_epochId (er_toBinding receipt) = sn_epochId s \<and>
          ax_epochId (ea_context (gv_admin gv')) = sn_epochId s) \<and>
       (case map_get (ea_committed (gv_admin gv)) i of
          Some e \<Rightarrow> er_toBinding receipt = er_toBinding (je_receipt e)
        | None \<Rightarrow> md_activeBinding (rt_durable (gv_runtime gv)) = Some (er_toBinding receipt) \<and>
            sb_admissionId (er_toBinding receipt) = i)"
proof -
  obtain out gv' where r: "recoverEpochTransition deps resolve i gv = (out, gv')" by (metis surj_pair)
  then show ?thesis
  proof (cases rule: recover_cases)
    case (refused v)
    with r show ?thesis by simp
  next
    case (adopted receipt b schema head)
    with r show ?thesis by (auto simp: head_world_def getHead_def)
  qed
qed

section \<open>Runs of the small world\<close>

definition example_binding :: schema_epoch_binding where
  "example_binding =
     \<lparr>sb_activationDomainId = ''domain'', sb_bindingGeneration = 1, sb_epochId = ''e1'', sb_epochOrdinal = 1,
      sb_schemaRef = \<lparr>sr_schemaId = ''s'', sr_revisionId = ''1'', sr_digest = ''d''\<rparr>,
      sb_policyRef = \<lparr>pr_policyId = ''p'', pr_revisionId = ''1'', pr_digest = ''d''\<rparr>,
      sb_handlerManifestRef = \<lparr>hm_manifestId = ''m'', hm_digest = ''d''\<rparr>, sb_runtimeHead = ''s0'', sb_admissionId = ''a0'',
      sb_previousBindingGeneration = None, sb_activatedBy = ''boot'', sb_activatedAt = ''t0''\<rparr>"

definition example_schema :: orchestration_schema where
  "example_schema =
     \<lparr>os_schemaId = ''s'', os_wireVersion = 1, os_objectTypes = [],
      os_operationTypes = [(''register_participant'', operationDeclarationFromTemplate REGISTER_PARTICIPANT)],
      os_templates = [REGISTER_PARTICIPANT], os_resourceRules = []\<rparr>"

definition example_resolver :: schema_resolver where
  "example_resolver ref = Resolved example_schema"

definition example_deps :: epoch_deps where
  "example_deps =
     \<lparr>ed_domainId = ''domain'', ed_preparationTtlMs = None, ed_contentDigest = (\<lambda>s. ''d''), ed_collation = (\<lambda>l r. 0),
      ed_toISOString = (\<lambda>t. ''t''), ed_parse = (\<lambda>s. Some 60000)\<rparr>"

definition example_readings :: epoch_readings where
  "example_readings = \<lparr>rd_first = 0, rd_prune = 0, rd_locks = 0, rd_records = (\<lambda>i. 0)\<rparr>"

definition example_governed :: "nat governed" where
  "example_governed = initial_governed example_snapshot (createActiveSchemaContext example_schema ''e1'' (Some example_binding))
     example_binding True True 0"

text \<open>Prepare without anything in between, and commit.\<close>

definition prepare_now ::
  "epoch_request \<Rightarrow> nat governed \<Rightarrow> (runtime_violation + prepared_token) \<times> nat governed" where
  "prepare_now req gv =
     (case prepareEpochTransition example_deps example_readings req gv of
        (Answered a, gv') \<Rightarrow> (a, gv')
      | (Waiting r s, gv') \<Rightarrow> finishPreparation example_deps (uuidIdGenerator show_nat) example_resolver 0 r s gv')"

definition example_request :: "string \<Rightarrow> epoch_id \<Rightarrow> nat governed \<Rightarrow> epoch_request" where
  "example_request i e gv =
     \<lparr>eq_admissionId = i, eq_domainId = ''domain'',
      eq_expectedBindingGeneration = sb_bindingGeneration (ea_binding (gv_admin gv)),
      eq_expectedHead = opt_default [] (durable_head (rt_durable (gv_runtime gv))),
      eq_expectedEpochId = sb_epochId (ea_binding (gv_admin gv)), eq_expectedEpochOrdinal = sb_epochOrdinal (ea_binding (gv_admin gv)),
      eq_targetSchemaRef = \<lparr>sr_schemaId = os_schemaId example_schema, sr_revisionId = ''2'', sr_digest = ''d''\<rparr>,
      eq_targetEpochId = e, eq_targetEpochOrdinal = sb_epochOrdinal (ea_binding (gv_admin gv)) + 1, eq_planDigest = ''plan''\<rparr>"

definition transition :: "string \<Rightarrow> epoch_id \<Rightarrow> nat governed \<Rightarrow> (runtime_violation + epoch_receipt) \<times> nat governed" where
  "transition i e gv =
     (case prepare_now (example_request i e gv) gv of
        (Inl v, gv') \<Rightarrow> (Inl v, gv')
      | (Inr token, gv') \<Rightarrow> commitEpochTransition example_deps example_resolver example_readings token gv')"

definition governed_propose :: "actor_id \<Rightarrow> nat governed \<Rightarrow> propose_outcome \<times> nat governed" where
  "governed_propose i gv =
     (case proposeAndCommit (governed_config example_config (gv_admin gv)) (0, 0, 0) 1 1 ''t1''
         (coordinationIntent (actorRef ''h'' Human) ''register_participant'' [BFrom ''h'', BParticipant i] None None None)
         None None (gv_runtime gv) of
        (out, st) \<Rightarrow> (out, gv\<lparr>gv_runtime := st\<rparr>))"

abbreviation example_reaches :: "nat governed \<Rightarrow> bool" where
  "example_reaches gv \<equiv> governed_reachable example_config example_deps example_governed (gv, [])"

lemma example_generator: "cf_idGen example_config = uuidIdGenerator show_nat"
  by (simp add: example_config_def)

lemma prepare_now_reached: "example_reaches gv \<Longrightarrow> example_reaches (snd (prepare_now req gv))"
proof -
  assume r: "example_reaches gv"
  obtain out gv' where p: "prepareEpochTransition example_deps example_readings req gv = (out, gv')" by (metis surj_pair)
  show ?thesis
  proof (cases out)
    case (Answered a)
    from governed_next [OF r gov_answer [OF p [unfolded Answered]]] show ?thesis by (simp add: prepare_now_def p Answered)
  next
    case (Waiting q s)
    obtain out' gv2 where f: "finishPreparation example_deps (uuidIdGenerator show_nat) example_resolver 0 q s gv' = (out', gv2)"
      by (metis surj_pair)
    have "governed_step example_config example_deps (gv', [(q, s)]) (gv2, remove1 (q, s) [(q, s)])"
      by (rule gov_finish [of q s _ _ _ example_resolver 0]) (simp_all add: f example_generator)
    with governed_next [OF r gov_wait [OF p [unfolded Waiting]]] have "example_reaches gv2" by (auto intro: governed_next)
    then show ?thesis by (simp add: prepare_now_def p Waiting f)
  qed
qed

lemma transition_reached: "example_reaches gv \<Longrightarrow> example_reaches (snd (transition i e gv))"
proof -
  assume "example_reaches gv"
  then have r: "example_reaches (snd (prepare_now (example_request i e gv) gv))" by (rule prepare_now_reached)
  obtain out gv' where p: "prepare_now (example_request i e gv) gv = (out, gv')" by (metis surj_pair)
  show ?thesis
  proof (cases out)
    case (Inr token)
    obtain out' gv2 where c: "commitEpochTransition example_deps example_resolver example_readings token gv' = (out', gv2)"
      by (metis surj_pair)
    from governed_next [OF _ gov_commit [OF c]] r show ?thesis by (simp add: transition_def p Inr c)
  qed (use r in \<open>simp add: transition_def p\<close>)
qed

lemma propose_reached: "example_reaches gv \<Longrightarrow> example_reaches (snd (governed_propose i gv))"
proof -
  assume r: "example_reaches gv"
  obtain out st where p: "proposeAndCommit (governed_config example_config (gv_admin gv)) (0, 0, 0) 1 1 ''t1''
         (coordinationIntent (actorRef ''h'' Human) ''register_participant'' [BFrom ''h'', BParticipant i] None None None)
         None None (gv_runtime gv) = (out, st)" by (metis surj_pair)
  from governed_next [OF r gov_runtime [OF step_propose [OF p]]] show ?thesis by (simp add: governed_propose_def p)
qed

lemma example_governed_from: "example_reaches gv \<Longrightarrow> governed_from show_nat example_config example_deps example_snapshot gv []"
proof -
  assume r: "example_reaches gv"
  have "well_governed example_snapshot (createActiveSchemaContext example_schema ''e1'' (Some example_binding)) example_binding"
    unfolding well_governed_def by code_simp
  with r example_configured numerals.uuid_inj show ?thesis
    unfolding governed_from_def example_governed_def by blast
qed

definition example_prepared :: "nat governed" where
  "example_prepared = snd (prepare_now (example_request ''a1'' ''e2'' example_governed) example_governed)"

definition example_token :: prepared_token where
  "example_token = \<lparr>pt_preparedId = ''prep-a1'', pt_planDigest = ''plan'', pt_issuedAt = ''t'', pt_expiresAt = ''t''\<rparr>"

definition example_activation :: "(runtime_violation + epoch_receipt) \<times> nat governed" where
  "example_activation = commitEpochTransition example_deps example_resolver example_readings example_token example_prepared"

lemma example_prepared_from: "governed_from show_nat example_config example_deps example_snapshot example_prepared []"
  unfolding example_prepared_def by (intro example_governed_from prepare_now_reached governed_start)

lemma example_prepared_unique: "epochs_unique (gv_admin example_prepared)"
proof -
  have "ea_committed (gv_admin example_prepared) = []" by code_simp
  then show ?thesis by (simp add: epochs_unique_def map_get_def)
qed

lemma example_activation_ok:
  obtains receipt gv' where "example_activation = (Inr receipt, gv')" "er_afterSnapshotRef receipt = ''0''"
proof -
  have e: "case fst example_activation of Inr r \<Rightarrow> er_afterSnapshotRef r = ''0'' | Inl v \<Rightarrow> False" by code_simp
  obtain out gv' where a: "example_activation = (out, gv')" by (metis surj_pair)
  from e obtain receipt where "out = Inr receipt" "er_afterSnapshotRef receipt = ''0''"
    unfolding a by (cases out) simp_all
  then show ?thesis using that a by blast
qed

section \<open>Witnesses\<close>

theorem epochs_agree_witness:
  "\<exists>s. getHead (gv_runtime (snd (transition ''a1'' ''e2'' example_governed))) = Some s \<and>
     sb_epochId (ea_binding (gv_admin (snd (transition ''a1'' ''e2'' example_governed)))) = sn_epochId s"
  using epochs_agree [OF example_governed_from [OF transition_reached [OF governed_start]], of "''a1''" "''e2''"] by blast

theorem active_schema_verified_witness:
  "\<exists>t. getTemplate (ea_context (gv_admin (snd (transition ''a1'' ''e2'' example_governed)))) ''register_participant'' None = Some t"
proof -
  have "snapshotOrchestrationSchema example_schema = example_schema" by code_simp
  moreover have "validateResolvedSchema example_deps \<lparr>sr_schemaId = ''s'', sr_revisionId = ''1'', sr_digest = ''d''\<rparr> example_schema = None"
    by code_simp
  ultimately have v: "context_verified example_deps (createActiveSchemaContext example_schema ''e1'' (Some example_binding))"
    by (intro context_verified_create) (simp add: verified_def example_binding_def)
  have "example_reaches (snd (transition ''a1'' ''e2'' example_governed))" by (rule transition_reached [OF governed_start])
  from active_schema_verified [OF v this [unfolded example_governed_def]]
  have a: "''register_participant'' \<in> set (ax_allowedOperations c) \<Longrightarrow> CHR ''@'' \<notin> set ''register_participant'' \<Longrightarrow>
      list_all (\<lambda>t. CHR ''@'' \<notin> set (op_operationTypeId t)) (os_templates (ax_schema c)) \<Longrightarrow>
      \<exists>t. getTemplate c ''register_participant'' None = Some t"
    if "c = ea_context (gv_admin (snd (transition ''a1'' ''e2'' example_governed)))" for c
    unfolding that example_governed_def by blast
  show ?thesis
  proof (rule a [OF refl])
    show "''register_participant'' \<in> set (ax_allowedOperations (ea_context (gv_admin (snd (transition ''a1'' ''e2'' example_governed)))))"
      by code_simp
    show "list_all (\<lambda>t. CHR ''@'' \<notin> set (op_operationTypeId t))
        (os_templates (ax_schema (ea_context (gv_admin (snd (transition ''a1'' ''e2'' example_governed))))))" by code_simp
  qed simp
qed

theorem epoch_commit_exact_witness:
  "durable_head (rt_durable (gv_runtime (snd example_activation))) = Some ''0''"
proof -
  obtain receipt gv' where a: "example_activation = (Inr receipt, gv')" and r: "er_afterSnapshotRef receipt = ''0''"
    by (rule example_activation_ok)
  have "map_get (ea_committed (gv_admin example_prepared)) i = None" for i
  proof -
    have "ea_committed (gv_admin example_prepared) = []" by code_simp
    then show ?thesis by (simp add: map_get_def)
  qed
  with epoch_commit_exact [OF example_prepared_from a [unfolded example_activation_def]] r
  show ?thesis by (auto simp: a)
qed

theorem epoch_commit_completes_witness:
  "\<exists>p. map_get (ea_prepared (gv_admin example_prepared)) ''prep-a1'' = Some p \<and> preparedTokensEqual (pp_prepared p) example_token \<and>
     binding_expected (pp_request p) (ea_binding (gv_admin example_prepared)) \<and>
     resolveUnchangedTargetSchema example_deps example_resolver p = None"
proof -
  have e: "ea_committed (gv_admin example_prepared) = []" by code_simp
  have "map_get (ea_prepared (gv_admin example_prepared)) (pt_preparedId example_token) \<noteq> None" by code_simp
  then obtain p where p: "map_get (ea_prepared (gv_admin example_prepared)) (pt_preparedId example_token) = Some p" by blast
  have "getHead (gv_runtime example_prepared) \<noteq> None" by code_simp
  then obtain before where b: "getHead (gv_runtime example_prepared) = Some before" by blast
  obtain receipt gv' where a: "example_activation = (Inr receipt, gv')" by (rule example_activation_ok)
  have "map_get (ea_committed (gv_admin example_prepared)) (eq_admissionId (pp_request p)) = None" by (simp add: e map_get_def)
  from epoch_commit_completes [OF example_prepared_from p this b, of example_resolver example_readings]
    a [unfolded example_activation_def] p show ?thesis by (simp add: example_token_def)
qed

theorem epoch_commit_repeats_witness:
  "\<exists>receipt gv'. commitEpochTransition example_deps (\<lambda>ref. Unresolved) example_readings example_token (snd example_activation) = (Inr receipt, gv')"
proof -
  obtain receipt gv' where a: "example_activation = (Inr receipt, gv')" by (rule example_activation_ok)
  from epoch_commit_repeats [OF example_prepared_from a [unfolded example_activation_def], of "\<lambda>ref. Unresolved" example_readings]
  show ?thesis by (auto simp: a)
qed

section \<open>An epoch id that returns\<close>

text \<open>
  Nothing forbids to activate an earlier epoch id again. If that happens with neither a change nor
  an observation in between, the head differs from the world after the last change in its ref
  only, which no check of the log recognises: every later commit is refused.
\<close>

lemma epoch_reuse_blocks_commits:
  "case fst (governed_propose ''c'' (snd (transition ''a2'' ''e1'' (snd (transition ''a1'' ''e2''
      (snd (governed_propose ''b'' example_governed))))))) of
     ProposeCommit (CommitRefused v) \<Rightarrow> rv_code v = CommitAtomicFailed | _ \<Rightarrow> False"
  by code_simp

text \<open>Recovery from the journal looks at the epoch id only, and so brings an old binding back.\<close>

lemma recovery_rolls_back:
  "case recoverEpochTransition example_deps example_resolver ''a1'' (snd (transition ''a3'' ''e2'' (snd (transition ''a2'' ''e1''
      (snd (transition ''a1'' ''e2'' example_governed)))))) of
     (Inr receipt, gv) \<Rightarrow> sb_bindingGeneration (ea_binding (gv_admin gv)) = 2 \<and>
       map_option sb_bindingGeneration (md_activeBinding (rt_durable (gv_runtime gv))) = Some 4
   | _ \<Rightarrow> False"
  by code_simp

end
