(* ===== verification/Runtime_Growth.thy ===== *)
theory Runtime_Growth
  imports Runtime_Governed
begin

text \<open>
  The store of a runtime only grows: no operation of the runtime or of its epoch administration
  changes or removes a stored world or a logged change.
\<close>

text \<open>A state that has grown keeps every stored world and every logged change.\<close>

definition grows :: "'g runtime_state \<Rightarrow> 'g runtime_state \<Rightarrow> bool" where
  "grows st st' \<longleftrightarrow> extends (durable_get (rt_durable st)) (durable_get (rt_durable st')) \<and>
     (\<exists>new. durable_changes (rt_durable st') = durable_changes (rt_durable st) @ new)"

lemma grows_refl [simp]: "rt_durable st' = rt_durable st \<Longrightarrow> grows st st'"
  by (simp add: grows_def)

lemma grows_log: "(\<And>i. grows (sts i) (sts (Suc i))) \<Longrightarrow> \<exists>xs. durable_changes (rt_durable (sts i)) = durable_changes (rt_durable (sts 0)) @ xs"
proof (induction i)
  case (Suc i)
  then obtain xs where "durable_changes (rt_durable (sts i)) = durable_changes (rt_durable (sts 0)) @ xs" by blast
  with Suc.prems [of i] show ?case by (auto simp: grows_def)
qed simp

section \<open>Steps of the runtime\<close>

lemma observe_log: "runtime_observe cf now inp caller st = (out, st') \<Longrightarrow> md_changelog (rt_durable st') = md_changelog (rt_durable st)"
  unfolding runtime_observe_def ingestObservation_def Let_def
  by (auto simp: durable_cas_eq split: option.split_asm sum.split_asm prod.split_asm bool.split_asm if_split_asm observe_outcome.split_asm)

lemma commit_log:
  assumes "runtime_commit cf now now' t ticket st = (out, st')"
  shows "\<exists>new. md_changelog (rt_durable st') = md_changelog (rt_durable st) @ new"
proof -
  have "\<exists>new. md_changelog d' = md_changelog d @ new"
    if "executeCommit cf t a d h g = (o1, d', h', g')" for a d h g o1 d' h' g'
  proof (cases "\<exists>c s i. o1 = Committed c s i")
    case True
    with that show ?thesis by (auto simp: executeCommit_Committed)
  next
    case False
    with executeCommit_unchanged [OF that] show ?thesis by simp
  qed
  with assms show ?thesis
    unfolding runtime_commit_def by (fastforce split: prod.split_asm sum.split_asm)
qed

lemma admit_log: "runtime_admit cf readings intent beforeRef caller st = (r, st') \<Longrightarrow> rt_durable st' = rt_durable st"
  by (auto simp: runtime_admit_def split: sum.split_asm prod.split_asm)

lemma step_log:
  assumes "runtime_step cf st st'"
  shows "\<exists>new. md_changelog (rt_durable st') = md_changelog (rt_durable st) @ new"
  using assms
proof (cases rule: runtime_step.cases)
  case (step_propose readings now now' t intent beforeRef caller out)
  obtain r st1 where a: "runtime_admit cf readings intent beforeRef caller st = (r, st1)" by (metis surj_pair)
  note same = admit_log [OF a]
  have "st' = st1 \<or> (\<exists>ticket out. runtime_commit cf now now' t ticket st1 = (out, st'))"
    using step_propose a by (auto simp: proposeAndCommit_def split: admit_outcome.splits admission_result.splits prod.splits)
  then show ?thesis using commit_log same by (metis append_Nil2)
qed (auto simp: cancelAdmission_def runtime_admitComposition_def dest: observe_log commit_log admit_log)

context fresh_generator
begin

lemma step_grows:
  assumes "well_configured cf gen s0" and "runtime_inv cf used s0 st" and "runtime_step cf st st'"
  shows "grows st st'"
  using step_inv [OF assms] step_log [OF assms(3)] advances_extends by (auto simp: grows_def durable_changes_def)

end

section \<open>Steps of the administration\<close>

lemma inspect_durable: "inspectActivationPoint deps rd domain gv = (out, gv') \<Longrightarrow> rt_durable (gv_runtime gv') = rt_durable (gv_runtime gv)"
  by (auto simp: inspectActivationPoint_def resourcesClear_def count_admissions_def Let_def
      split: if_split_asm option.split_asm prod.split_asm)

lemma prepare_durable: "prepareEpochTransition deps rd req gv = (out, gv') \<Longrightarrow> rt_durable (gv_runtime gv') = rt_durable (gv_runtime gv)"
  by (auto simp: prepareEpochTransition_def Let_def dest: inspect_durable
      split: option.split_asm sum.split_asm prod.split_asm)

text \<open>C9. The store only grows: whatever a governed runtime does next, an operation of the runtime, a
  step of an epoch transition or a recovery, every stored world stays what it was under its ref
  and the log of changes is only appended to.\<close>

theorem store_only_grows:
  assumes "governed_from uuid cf deps s0 gv ws" and "governed_step cf deps (gv, ws) (gv', ws')"
  shows "(\<forall>r s. durable_get (rt_durable (gv_runtime gv)) r = Some s \<longrightarrow> durable_get (rt_durable (gv_runtime gv')) r = Some s) \<and>
    (\<exists>new. durable_changes (rt_durable (gv_runtime gv')) = durable_changes (rt_durable (gv_runtime gv)) @ new)"
proof -
  have inv: "governed_inv cf (\<lambda>n. uuid ` {..<n}) s0 gv ws" by (rule governed_inv_from [OF assms(1)])
  have wc: "inj uuid" "well_configured cf (uuidIdGenerator uuid) s0" using assms(1) by (auto simp: governed_from_def)
  have "grows (gv_runtime gv) (gv_runtime gv')"
    using assms(2)
  proof (cases rule: governed_step.cases)
    case (gov_runtime st)
    have "well_configured (governed_config cf (gv_admin gv)) (uuidIdGenerator uuid) s0"
      "runtime_inv (governed_config cf (gv_admin gv)) (\<lambda>n. uuid ` {..<n}) s0 (gv_runtime gv)"
      using wc inv by (simp_all add: governed_config_def well_configured_def governed_inv_def runtime_inv_def)
    from fresh_generator.step_grows [OF uuid_fresh [OF wc(1)] this gov_runtime(3)] show ?thesis by (simp add: gov_runtime)
  next
    case (gov_finish r s resolve now out)
    show ?thesis
    proof (cases out)
      case (Inr token)
      from gov_finish(3) [unfolded Inr] show ?thesis by (rule finish_ok) simp
    qed (use gov_finish in \<open>auto dest: finish_refused\<close>)
  next
    case (gov_commit resolve rd token out)
    from gov_commit(2) show ?thesis
    proof (cases rule: commit_epoch_cases)
      case (activated p receipt)
      from activated(6) show ?thesis
      proof (rule activated_state)
        fix before :: snapshot
        assume get: "durable_get (rt_durable (gv_runtime gv')) = (durable_get (rt_durable (gv_runtime gv)))(pp_afterRef p \<mapsto>
            before\<lparr>sn_snapshotRef := pp_afterRef p, sn_epochId := eq_targetEpochId (pp_request p)\<rparr>)"
          and log: "md_changelog (rt_durable (gv_runtime gv')) = md_changelog (rt_durable (gv_runtime gv))"
        have "durable_get (rt_durable (gv_runtime gv)) (pp_afterRef p) = None"
          using inv activated(2) by (simp add: governed_inv_def admin_inv_def prepared_ok_def)
        then show ?thesis unfolding grows_def get durable_changes_def log by (simp add: extends_put)
      qed
    qed (auto simp: calmer_simps)
  next
    case (gov_recover resolve i out)
    from gov_recover(2) show ?thesis by (cases rule: recover_cases) auto
  qed (auto dest: inspect_durable prepare_durable)
  then show ?thesis by (simp add: grows_def extends_def)
qed

theorem store_only_grows_witness:
  "durable_get (rt_durable (gv_runtime example_prepared)) ''s0'' \<noteq> None \<and>
   durable_get (rt_durable (gv_runtime (snd example_activation))) ''s0'' = durable_get (rt_durable (gv_runtime example_prepared)) ''s0''"
proof -
  obtain out gv' where a: "example_activation = (out, gv')" by (metis surj_pair)
  have "durable_get (rt_durable (gv_runtime example_prepared)) ''s0'' \<noteq> None" by code_simp
  with store_only_grows [OF example_prepared_from gov_commit [OF a [unfolded example_activation_def]]]
  show ?thesis by (auto simp: a)
qed

end
