(* ===== verification/Runtime_Verified.thy ===== *)
theory Runtime_Verified
  imports Runtime_Replay Runtime_Growth
begin

text \<open>
  What the replay verifier establishes and when it succeeds: a verified log is a run of recomputed
  changes, every logged change of a reachable state verifies, and the schemas kept by a verifier
  are the ones their bindings name.
\<close>

section \<open>What a verification is\<close>

text \<open>From \<open>s\<close>, change \<open>c\<close> was recomputed in the context \<open>ctx\<close> and gave \<open>t\<close>.\<close>

definition change_revision :: "replay_recipe \<Rightarrow> coordination_change \<Rightarrow> string option" where
  "change_revision recipe c = (case rp_templateRef recipe of
     Some t \<Rightarrow> Some (ot_revision t) | None \<Rightarrow> map_option ot_revision (cc_templateRef c))"

definition recomputed ::
  "verifier_deps \<Rightarrow> replay_port \<Rightarrow> active_schema_context \<Rightarrow> snapshot \<Rightarrow> coordination_change \<Rightarrow> snapshot \<Rightarrow> bool" where
  "recomputed deps port ctx s c t \<longleftrightarrow>
     sn_snapshotRef s = cc_beforeRef c \<and> sn_epochId s = cc_epochId c \<and> ax_epochId ctx = cc_epochId c \<and>
     (\<exists>recipe template after involved ss. vp_recipeForChange port c = Some recipe \<and> rp_epochId recipe = cc_epochId c \<and>
        getTemplate ctx (cc_operationTypeId c) (change_revision recipe c) = Some template \<and>
        applyRecipe s recipe (ve_handlers deps) \<lparr>ac_template = template\<rparr> = Inr (ApplyOk after involved ss) \<and>
        integrity after \<and>
        (case vp_get port (cc_afterRef c) of
           None \<Rightarrow> t = after
         | Some stored \<Rightarrow> t = stored \<and> snapshotsCanonicallyEqual (ve_collation deps) after stored))"

definition bridged :: "verifier_deps \<Rightarrow> replay_port \<Rightarrow> snapshot \<Rightarrow> coordination_change \<Rightarrow> snapshot \<Rightarrow> bool" where
  "bridged deps port s c b \<longleftrightarrow>
     (if sn_snapshotRef s = cc_beforeRef c then b = s
      else vp_get port (cc_beforeRef c) = Some b \<and> isVerifiableUnloggedAdvance (ve_collation deps) s b)"

lemma bridge_Inr: "bridgeUnloggedAdvance deps port s c = Inr b \<longleftrightarrow> bridged deps port s c b"
  by (auto simp: bridgeUnloggedAdvance_def bridged_def split: option.split)

lemma integrity_Inr: "validateSnapshotIntegrity s = Inr u \<longleftrightarrow> integrity s"
  using validateSnapshotIntegrity_ok [of s] by (cases u) simp

lemma replay_next: "replayOneChange deps port s c ctx = StepNext t \<longleftrightarrow> recomputed deps port ctx s c t"
  unfolding replayOneChange_def replay_applied_def recomputed_def change_revision_def [symmetric] Let_def
  by (auto simp: integrity_Inr split: option.split sum.split apply_result.split dest: validateSnapshotIntegrity_Inl)

lemma change_chain_None: "change_chain_loop lc get i cs = None \<longleftrightarrow> successively (\<lambda>a b. changeContinuesChain lc a b get) cs"
  by (induction lc get i cs rule: change_chain_loop.induct) simp_all

text \<open>A run of changes, each recomputed from the world the one before it led to.\<close>

inductive verified_run :: "(snapshot \<Rightarrow> coordination_change \<Rightarrow> snapshot \<Rightarrow> bool) \<Rightarrow>
    snapshot \<Rightarrow> coordination_change list \<Rightarrow> snapshot \<Rightarrow> bool" for step where
  verified_none: "verified_run step s [] s"
| verified_next: "step s c t \<Longrightarrow> verified_run step t cs u \<Longrightarrow> verified_run step s (c # cs) u"

inductive_simps verified_run_simps [simp]: "verified_run step s [] t" "verified_run step s (c # cs) t"

text \<open>Where a verification stops: at the first change that leads to the target, or at the end.\<close>

definition stops_at :: "snapshot_ref option \<Rightarrow> coordination_change list \<Rightarrow> coordination_change list \<Rightarrow> bool" where
  "stops_at toRef used rest \<longleftrightarrow>
     (\<forall>c\<in>set (butlast used). toRef \<noteq> Some (cc_afterRef c)) \<and>
     (rest \<noteq> [] \<longrightarrow> used \<noteq> [] \<and> toRef = Some (cc_afterRef (last used)))"

lemma stops_at_Nil: "stops_at toRef [] rest \<longleftrightarrow> rest = []"
  by (simp add: stops_at_def)

lemma stops_at_Cons:
  "stops_at toRef (c # used) rest \<longleftrightarrow>
    (if toRef = Some (cc_afterRef c) then used = [] else stops_at toRef used rest)"
  by (cases used) (auto simp: stops_at_def)

lemma terminal_verified:
  "replayTerminalResult s steps toRef = ReplayVerified r t steps' \<longleftrightarrow>
    t = s \<and> r = sn_snapshotRef s \<and> steps' = steps \<and> (toRef = None \<or> toRef = Some r)"
  by (auto simp: replayTerminalResult_def split: option.split)

definition verifies ::
  "verifier_deps \<Rightarrow> replay_port \<Rightarrow> active_schema_context \<Rightarrow> snapshot \<Rightarrow> coordination_change \<Rightarrow> snapshot \<Rightarrow> bool" where
  "verifies deps port ctx s c t \<longleftrightarrow> (\<exists>b. bridged deps port s c b \<and> recomputed deps port ctx b c t)"

lemma verify_loop_verified:
  "verify_loop deps port toRef s steps cs = ReplayVerified r t steps' \<longleftrightarrow>
    (\<exists>used rest. cs = used @ rest \<and>
       verified_run (verifies deps port (resolveActiveSchemaContext (ve_schemaContext deps))) s used t \<and>
       steps' = steps @ map step_of used \<and> r = sn_snapshotRef t \<and> (toRef = None \<or> toRef = Some r) \<and> stops_at toRef used rest)"
proof (induction cs arbitrary: s steps)
  case Nil
  show ?case by (auto simp: terminal_verified stops_at_Nil)
next
  case (Cons c cs)
  let ?ctx = "resolveActiveSchemaContext (ve_schemaContext deps)"
  have step: "verify_loop deps port toRef s steps (c # cs) = ReplayVerified r t steps' \<longleftrightarrow>
      (\<exists>nxt. verifies deps port ?ctx s c nxt \<and>
         (if toRef = Some (cc_afterRef c)
          then replayTerminalResult nxt (steps @ [step_of c]) toRef = ReplayVerified r t steps'
          else verify_loop deps port toRef nxt (steps @ [step_of c]) cs = ReplayVerified r t steps'))"
    unfolding verifies_def bridge_Inr [symmetric] replay_next [symmetric]
    by (cases "bridgeUnloggedAdvance deps port s c") (auto split: step_outcome.split)
  have split: "(\<exists>used rest. c # cs = used @ rest \<and> P used rest) \<longleftrightarrow>
      P [] (c # cs) \<or> (\<exists>used rest. cs = used @ rest \<and> P (c # used) rest)" for P
    by (auto simp: Cons_eq_append_conv)
  show ?case
  proof (cases "toRef = Some (cc_afterRef c)")
    case True
    then show ?thesis unfolding step split terminal_verified stops_at_Nil stops_at_Cons by (simp; blast)
  next
    case False
    then show ?thesis unfolding step Cons.IH split stops_at_Nil stops_at_Cons by (simp; blast)
  qed
qed

section \<open>Logged changes verify\<close>

text \<open>The default handlers take nothing from the template.\<close>

lemma handler_context: "h \<in> set (map (snd \<circ> snd) DEFAULT_HANDLERS) \<Longrightarrow> h s r x = h s r y"
  by (auto simp: DEFAULT_HANDLERS_def introduceArtifactHandler_def delegateHandler_def createSessionHandler_def
      forkBranchHandler_def publishArtifactHandler_def transferSessionHandler_def registerParticipantHandler_def
      activateParticipantHandler_def signalDoneHandler_def retireParticipantHandler_def emitHeartbeatHandler_def
      commitTranscriptHandler_def)

lemma applyRecipe_context: "applyRecipe s r createDefaultHandlers x = applyRecipe s r createDefaultHandlers y"
  unfolding applyRecipe_def Let_def by (auto split: option.split dest!: handler_get_default intro: handler_context)

text \<open>The context is of the epoch of the change and knows its template.\<close>

definition context_knows :: "active_schema_context \<Rightarrow> coordination_change \<Rightarrow> bool" where
  "context_knows ctx c \<longleftrightarrow> ax_epochId ctx = cc_epochId c \<and>
     getTemplate ctx (cc_operationTypeId c) (map_option ot_revision (cc_templateRef c)) \<noteq> None"

lemma memory_port_simps [simp]:
  "vp_get (memory_port lc d) = durable_get d" "vp_since (memory_port lc d) r = durable_since lc r d"
  "vp_recipeForChange (memory_port lc d) c = Some (durable_recipeForChange c d)"
  by (simp_all add: memory_port_def)

lemma integrity_ref: "integrity (s\<lparr>sn_snapshotRef := r\<rparr>) = integrity s"
proof -
  have "integrity (s\<lparr>sn_snapshotRef := r\<rparr>) = integrity (s\<lparr>sn_snapshotRef := r, sn_epochId := sn_epochId s\<rparr>)" by simp
  also have "\<dots> = integrity s" by (rule integrity_epoch)
  finally show ?thesis .
qed

lemma change_recomputed:
  assumes inv: "durable_inv lc issued s0 d" and c: "c \<in> set (md_changelog d)" and b: "durable_get d (cc_beforeRef c) = Some b"
    and deps: "ve_handlers deps = createDefaultHandlers" "ve_collation deps = lc" and knows: "context_knows ctx c"
  shows "\<exists>t. durable_get d (cc_afterRef c) = Some t \<and> recomputed deps (memory_port lc d) ctx b c t"
proof -
  from inv c b obtain template applied ss where
    run: "applyRecipe b (durable_recipeForChange c d) createDefaultHandlers \<lparr>ac_template = template\<rparr> =
      Inr (ApplyOk applied (cc_involved c) ss)"
    and after: "durable_get d (cc_afterRef c) = Some (withSnapshotRef applied (cc_afterRef c))"
    and eq: "sn_epochId b = cc_epochId c" "rp_epochId (durable_recipeForChange c d) = cc_epochId c"
      "rp_templateRef (durable_recipeForChange c d) = cc_templateRef c"
    unfolding durable_inv_def change_replays_def replayKernelRun_def by fastforce
  have wb: "frozen b" "integrity b" "sn_snapshotRef b = cc_beforeRef c"
    using inv b by (auto simp: durable_inv_def dest: durable_get_frozen)
  have "operates (durable_recipeForChange c d) b applied" by (rule applyRecipe_operates(1) [OF run wb(1,2)])
  then have fa: "frozen applied" by (simp add: operates_def)
  have "integrity (withSnapshotRef applied (cc_afterRef c))" using inv after by (simp add: durable_inv_def)
  then have int: "integrity applied" by (simp add: with_frozen(7) [OF fa] integrity_ref)
  have equal: "snapshotsCanonicallyEqual lc applied (withSnapshotRef applied (cc_afterRef c))"
    by (rule canonical_refl) (simp_all add: with_frozen(7) [OF fa])
  obtain template' where t: "getTemplate ctx (cc_operationTypeId c) (map_option ot_revision (cc_templateRef c)) = Some template'"
    using knows by (auto simp: context_knows_def)
  have rev: "change_revision (durable_recipeForChange c d) c = map_option ot_revision (cc_templateRef c)"
    by (simp add: change_revision_def eq split: option.split)
  have run': "applyRecipe b (durable_recipeForChange c d) createDefaultHandlers \<lparr>ac_template = template'\<rparr> =
      Inr (ApplyOk applied (cc_involved c) ss)"
    using run by (subst applyRecipe_context [where y = "\<lparr>ac_template = template\<rparr>"]) (simp add: run)
  have "recomputed deps (memory_port lc d) ctx b c (withSnapshotRef applied (cc_afterRef c))"
    unfolding recomputed_def memory_port_simps deps
    using wb(3) eq knows t run' int equal after by (auto simp: rev context_knows_def)
  with after show ?thesis by blast
qed

text \<open>After a change, the next one can be reached: at once or across unlogged advances.\<close>

lemma next_bridged:
  assumes inv: "durable_inv lc issued s0 d" and l: "md_changelog d = pre @ c # c' # post" and lc: "ve_collation deps = lc"
    and s: "durable_get d (cc_afterRef c) = Some s"
  shows "\<exists>b. durable_get d (cc_beforeRef c') = Some b \<and> bridged deps (memory_port lc d) s c' b"
proof -
  have "changeContinuesChain lc c c' (durable_get d)"
    using inv by (auto simp: durable_inv_def l successively_append_iff)
  moreover have "sn_snapshotRef s = cc_afterRef c" using inv s by (auto simp: durable_inv_def)
  moreover have "\<exists>b. durable_get d (cc_beforeRef c') = Some b"
    using inv by (auto simp: durable_inv_def change_replays_def l)
  ultimately show ?thesis
    using s by (auto simp: changeContinuesChain_def bridged_def lc split: if_split_asm option.split_asm)
qed

lemma segment_verifies:
  assumes inv: "durable_inv lc issued s0 d"
    and deps: "ve_handlers deps = createDefaultHandlers" "ve_collation deps = lc"
    and "md_changelog d = pre @ seg @ post" and "seg \<noteq> []" and "\<forall>c\<in>set seg. context_knows ctx c"
    and "durable_get d (cc_beforeRef (hd seg)) = Some b" and "bridged deps (memory_port lc d) s (hd seg) b"
  shows "\<exists>t. durable_get d (cc_afterRef (last seg)) = Some t \<and> verified_run (verifies deps (memory_port lc d) ctx) s seg t"
  using assms(4-)
proof (induction seg arbitrary: pre s b)
  case (Cons c cs)
  have "c \<in> set (md_changelog d)" using Cons.prems(1) by simp
  from change_recomputed [OF inv this _ deps, of b ctx] Cons.prems obtain t
    where t: "durable_get d (cc_afterRef c) = Some t" "recomputed deps (memory_port lc d) ctx b c t" by auto
  then have v: "verifies deps (memory_port lc d) ctx s c t" using Cons.prems(5) by (auto simp: verifies_def)
  show ?case
  proof (cases cs)
    case Nil
    with t(1) v show ?thesis by auto
  next
    case (Cons c' cs')
    with next_bridged [OF inv _ deps(2) t(1), of pre c' "cs' @ post"] Cons.prems(1) obtain b'
      where "durable_get d (cc_beforeRef c') = Some b'" "bridged deps (memory_port lc d) t c' b'" by auto
    with Cons.IH [of "pre @ [c]" b' t] Cons.prems Cons have "\<exists>u. durable_get d (cc_afterRef (last cs)) = Some u \<and>
        verified_run (verifies deps (memory_port lc d) ctx) t cs u" by auto
    with v Cons show ?thesis by (auto simp del: verified_run_simps intro: verified_next)
  qed
qed simp

text \<open>
  Where a verification may start: at the world before a change or at the one after the change
  before it. From there the log is read from that change on.
\<close>

definition starts_before :: "snapshot_ref \<Rightarrow> nat \<Rightarrow> coordination_change list \<Rightarrow> bool" where
  "starts_before r k cs \<longleftrightarrow> k < length cs \<and>
     (r = cc_beforeRef (cs ! k) \<or> (\<exists>i. k = Suc i \<and> r = cc_afterRef (cs ! i)))"

lemma start_reads:
  assumes inv: "durable_inv lc issued s0 d" and k: "starts_before r k (md_changelog d)" and lc: "ve_collation deps = lc"
  shows "durable_since lc r d = Some (drop k (md_changelog d))"
    and "\<exists>s b. durable_get d r = Some s \<and> durable_get d (cc_beforeRef (md_changelog d ! k)) = Some b \<and>
      bridged deps (memory_port lc d) s (md_changelog d ! k) b"
proof -
  let ?cs = "md_changelog d"
  from k have kl: "k < length ?cs" by (simp add: starts_before_def)
  have refs: "distinct (map cc_beforeRef ?cs)" using inv by (simp add: durable_inv_def log_refs_def)
  have stored: "\<exists>b. durable_get d (cc_beforeRef (?cs ! i)) = Some b" "\<exists>t. durable_get d (cc_afterRef (?cs ! i)) = Some t"
    if "i < length ?cs" for i
    using inv nth_mem [OF that] by (auto simp: durable_inv_def change_replays_def)
  have "durable_since lc r d = Some (drop k ?cs) \<and> (\<exists>s b. durable_get d r = Some s \<and>
      durable_get d (cc_beforeRef (?cs ! k)) = Some b \<and> bridged deps (memory_port lc d) s (?cs ! k) b)"
  proof (cases "r = cc_beforeRef (?cs ! k)")
    case True
    from stored(1) [OF kl] obtain b where b: "durable_get d r = Some b" by (auto simp: True)
    then have "sn_snapshotRef b = r" using inv by (auto simp: durable_inv_def)
    then have "bridged deps (memory_port lc d) b (?cs ! k) b" by (simp add: bridged_def True)
    moreover have "durable_since lc r d = Some (drop k ?cs)"
      using find_index_distinct [OF refs kl] kl by (simp add: durable_since_def log_since_eq True)
    ultimately show ?thesis using b True by auto
  next
    case False
    with k obtain i where i: "k = Suc i" "r = cc_afterRef (?cs ! i)" by (auto simp: starts_before_def)
    with kl have il: "i < length ?cs" by simp
    from stored(2) [OF il] obtain t where t: "durable_get d (cc_afterRef (?cs ! i)) = Some t" by blast
    have "?cs = take i ?cs @ ?cs ! i # ?cs ! Suc i # drop (Suc (Suc i)) ?cs"
      using kl il by (simp add: i Cons_nth_drop_Suc)
    from next_bridged [OF inv this lc t] t feed_after_change [OF inv il] show ?thesis by (auto simp: i)
  qed
  then show "durable_since lc r d = Some (drop k ?cs)"
    and "\<exists>s b. durable_get d r = Some s \<and> durable_get d (cc_beforeRef (?cs ! k)) = Some b \<and>
      bridged deps (memory_port lc d) s (?cs ! k) b" by blast+
qed

lemma log_segment:
  assumes "k \<le> j" and "j < length cs"
  shows "cs = take k cs @ take (Suc j - k) (drop k cs) @ drop (Suc j) cs" "take (Suc j - k) (drop k cs) \<noteq> []"
    "hd (take (Suc j - k) (drop k cs)) = cs ! k" "last (take (Suc j - k) (drop k cs)) = cs ! j"
    "drop k cs = take (Suc j - k) (drop k cs) @ drop (Suc j) cs"
proof -
  let ?s = "take (Suc j - k) (drop k cs)"
  show d: "drop k cs = ?s @ drop (Suc j) cs"
    using assms append_take_drop_id [of "Suc j - k" "drop k cs"] by simp
  then show "cs = take k cs @ ?s @ drop (Suc j) cs" by (metis append_take_drop_id)
  show n: "?s \<noteq> []" using assms by auto
  show "hd ?s = cs ! k" using assms by (simp add: hd_drop_conv_nth)
  have "length ?s = Suc j - k" using assms by simp
  then show "last ?s = cs ! j" using n assms by (simp add: last_conv_nth)
qed

text \<open>The refs after the changes of a segment before its last are not that of the last.\<close>

lemma segment_stops:
  assumes "log_refs d" and "md_changelog d = pre @ seg @ post" and "seg \<noteq> []"
  shows "\<forall>c\<in>set (butlast seg). cc_afterRef c \<noteq> cc_afterRef (last seg)"
proof -
  have "distinct (map cc_afterRef seg)" using assms(1,2) by (simp add: log_refs_def)
  moreover have "map cc_afterRef seg = map cc_afterRef (butlast seg) @ [cc_afterRef (last seg)]"
    using append_butlast_last_id [OF assms(3)] by (metis list.simps(8,9) map_append)
  ultimately show ?thesis by (fastforce simp: image_iff)
qed

section \<open>Historical schemas\<close>

text \<open>The resolver serves a change: the binding of its epoch and a schema of it that knows the template.\<close>

definition serves :: "verifier_deps \<Rightarrow> historical_resolver \<Rightarrow> string \<Rightarrow> coordination_change \<Rightarrow> bool" where
  "serves deps R domain c \<longleftrightarrow>
     (\<exists>b schema. hr_resolveByEpoch R domain (cc_epochId c) = Inr (Some b) \<and> sb_activationDomainId b = domain \<and>
        sb_epochId b = cc_epochId c \<and> hr_resolveSchema R (sb_schemaRef b) = Inr (Some schema) \<and>
        os_schemaId schema = sr_schemaId (sb_schemaRef b) \<and>
        ve_contentDigest deps (snapshotOrchestrationSchema schema) = sr_digest (sb_schemaRef b) \<and>
        context_knows (createActiveSchemaContext schema (cc_epochId c) (Some b)) c)"

definition caches_know :: "coordination_change list \<Rightarrow> invocation_cache \<Rightarrow> verifier_cache \<Rightarrow> bool" where
  "caches_know cs known ver \<longleftrightarrow>
     (\<forall>c\<in>set cs. (\<forall>ctx. map_get known (cc_epochId c) = Some ctx \<longrightarrow> context_knows ctx c) \<and>
        (\<forall>b ctx. map_get ver b = Some ctx \<longrightarrow> sb_epochId b = cc_epochId c \<longrightarrow> context_knows ctx c))"

lemma binding_copy [simp]: "snapshotSchemaEpochBinding b = b"
  by (simp add: snapshotSchemaEpochBinding_def)

lemma schema_copy_id [simp]: "os_schemaId (snapshotOrchestrationSchema s) = os_schemaId s"
  by (simp add: snapshotOrchestrationSchema_def)

lemma create_copy [simp]: "createActiveSchemaContext (snapshotOrchestrationSchema s) e b = createActiveSchemaContext s e b"
  by (simp add: createActiveSchemaContext_def)

text \<open>The context a resolution gives is cached, fetched by its binding or just verified.\<close>

lemma historical_cases:
  assumes "resolveHistoricalSchemaContext deps R domain e known ver = (out, known', ver')"
  obtains (refused) "isl out" "known' = known" "ver' = ver"
  | (epoch) ctx where "out = Inr ctx" "map_get known e = Some ctx" "known' = known" "ver' = ver"
  | (binding) ctx b where "out = Inr ctx" "sb_epochId b = e" "map_get ver b = Some ctx" "known' = map_set e ctx known" "ver' = ver"
  | (schema) b s where "sb_activationDomainId b = domain" "sb_epochId b = e" "os_schemaId s = sr_schemaId (sb_schemaRef b)"
      "ve_contentDigest deps (snapshotOrchestrationSchema s) = sr_digest (sb_schemaRef b)"
      "hr_resolveByEpoch R domain e = Inr (Some b)" "hr_resolveSchema R (sb_schemaRef b) = Inr (Some s)"
      "out = Inr (createActiveSchemaContext s e (Some b))"
      "known' = map_set e (createActiveSchemaContext s e (Some b)) known"
      "ver' = map_set b (createActiveSchemaContext s e (Some b)) ver"
proof (cases "map_get known e")
  case (Some ctx)
  with assms show ?thesis by (intro epoch [of ctx]) (simp_all add: resolveHistoricalSchemaContext_def)
next
  case None
  note def = resolveHistoricalSchemaContext_def None option.case
  show ?thesis
  proof (cases "hr_resolveByEpoch R domain e")
    case (Inl m)
    with assms show ?thesis by (intro refused) (auto simp: def)
  next
    case (Inr answer)
    show ?thesis
    proof (cases answer)
      case none: None
      with Inr assms show ?thesis by (intro refused) (auto simp: def)
    next
      case (Some b)
      show ?thesis
      proof (cases "sb_activationDomainId b \<noteq> domain \<or> sb_epochId b \<noteq> e")
        case True
        then have "sb_activationDomainId b = domain \<longrightarrow> sb_epochId b \<noteq> e" by blast
        with Inr Some assms show ?thesis by (intro refused) (auto simp: def)
      next
        case False
        show ?thesis
        proof (cases "map_get ver b")
          case cached: (Some ctx)
          with Inr Some False assms show ?thesis by (intro binding [of ctx b]) (simp_all add: def)
        next
          case uncached: None
          with Inr Some False assms have r: "(case resolve_context deps R e b of Inl v \<Rightarrow> (Inl v, known, ver)
              | Inr context \<Rightarrow> (Inr context, map_set e context known, map_set b context ver)) = (out, known', ver')"
            by (simp add: def)
          show ?thesis
          proof (cases "resolve_context deps R e b")
            case (Inl v)
            from r [unfolded Inl sum.case prod.inject] show ?thesis by (intro refused) auto
          next
            case ctx: (Inr ctx)
            then obtain sc where "hr_resolveSchema R (sb_schemaRef b) = Inr (Some sc)" "os_schemaId sc = sr_schemaId (sb_schemaRef b)"
              "ve_contentDigest deps (snapshotOrchestrationSchema sc) = sr_digest (sb_schemaRef b)"
              "ctx = createActiveSchemaContext sc e (Some b)"
              unfolding resolve_context_def Let_def by (auto split: sum.split_asm option.split_asm if_split_asm)
            with r ctx Inr Some False show ?thesis by (intro schema [of b sc]) simp_all
          qed
        qed
      qed
    qed
  qed
qed

lemma historical_serves:
  assumes c: "c \<in> set cs" and serves: "\<forall>c\<in>set cs. serves deps R domain c" and known: "caches_know cs known ver"
  shows "\<exists>ctx known' ver'. resolveHistoricalSchemaContext deps R domain (cc_epochId c) known ver = (Inr ctx, known', ver') \<and>
    context_knows ctx c \<and> caches_know cs known' ver'"
proof -
  obtain out known' ver' where r: "resolveHistoricalSchemaContext deps R domain (cc_epochId c) known ver = (out, known', ver')"
    by (metis surj_pair)
  have knows: "context_knows (createActiveSchemaContext s (cc_epochId x) (Some b)) x"
    if "x \<in> set cs" "hr_resolveByEpoch R domain (cc_epochId x) = Inr (Some b)" "hr_resolveSchema R (sb_schemaRef b) = Inr (Some s)"
    for x b s
    using serves that by (fastforce simp: serves_def)
  from r show ?thesis
  proof (cases rule: historical_cases)
    case refused
    then obtain v where "out = Inl v" by (cases out) auto
    with r c serves show ?thesis
      unfolding serves_def resolveHistoricalSchemaContext_def resolve_context_def Let_def
      by (fastforce split: option.split_asm sum.split_asm if_split_asm)
  next
    case (epoch ctx)
    with r known c show ?thesis by (auto simp: caches_know_def)
  next
    case (binding ctx b)
    with r known c show ?thesis by (auto simp: caches_know_def jsmap_simps split: if_split_asm)
  next
    case (schema b s)
    have "context_knows (createActiveSchemaContext s (cc_epochId c) (Some b)) x"
      if "x \<in> set cs" "cc_epochId x = cc_epochId c" for x
      using knows [OF that(1) _ schema(6)] schema(5) that(2) by simp
    then have "caches_know cs known' ver'"
      using known schema(2) unfolding caches_know_def schema(8,9) by (auto simp: jsmap_simps split: if_split_asm)
    with r schema knows [OF c schema(5,6)] show ?thesis by auto
  qed
qed

text \<open>The segment is verified while the stores grow, each from the one before.\<close>

lemma resolved_segment:
  assumes inv: "\<And>i. durable_inv lc (issued i) s0 (D i)" and grow: "\<And>i. extends (durable_get (D i)) (durable_get (D (Suc i)))"
    and log: "\<And>i. \<exists>xs. md_changelog (D i) = pre @ seg @ post @ xs"
    and deps: "ve_handlers deps = createDefaultHandlers" "ve_collation deps = lc"
    and serves: "\<And>i. \<forall>c\<in>set cs. serves deps (R i) domain c"
    and "set seg \<subseteq> set cs" and "caches_know cs known ver" and "seg \<noteq> []"
    and "durable_get (D i) (cc_beforeRef (hd seg)) = Some b" and "bridged deps (memory_port lc (D i)) s (hd seg) b"
    and "toRef = Some (cc_afterRef (last seg))" and "\<forall>c\<in>set (butlast seg). cc_afterRef c \<noteq> cc_afterRef (last seg)"
  shows "\<exists>t. durable_get (D (i + length seg)) (cc_afterRef (last seg)) = Some t \<and>
    fst (resolved_loop deps domain (\<lambda>i. memory_port lc (D i)) R toRef i s steps known ver (seg @ post)) =
      ReplayVerified (cc_afterRef (last seg)) t (steps @ map step_of seg)"
  using assms(3,7-)
proof (induction seg arbitrary: pre i s b steps known ver)
  case (Cons c seg)
  have mem: "c \<in> set (md_changelog (D i))" for i using Cons.prems(1) [of i] by auto
  have "c \<in> set cs" using Cons.prems(2) by simp
  from historical_serves [OF this serves Cons.prems(3), of i] obtain ctx known' ver'
    where h: "resolveHistoricalSchemaContext deps (R i) domain (cc_epochId c) known ver = (Inr ctx, known', ver')"
      "context_knows ctx c" "caches_know cs known' ver'" by blast
  have "durable_get (D (Suc i)) (cc_beforeRef c) = Some b" using grow [of i] Cons.prems(5) by (simp add: extends_def)
  from change_recomputed [OF inv mem this deps h(2)] obtain t where
    t: "durable_get (D (Suc i)) (cc_afterRef c) = Some t" "recomputed deps (memory_port lc (D (Suc i))) ctx b c t" by blast
  have br: "bridgeUnloggedAdvance deps (memory_port lc (D i)) s c = Inr b" using Cons.prems(6) by (simp add: bridge_Inr)
  have ref: "sn_snapshotRef t = cc_afterRef c" using inv [of "Suc i"] t(1) by (auto simp: durable_inv_def)
  note step = br h(1) t(2) [folded replay_next]
  show ?case
  proof (cases "seg = []")
    case True
    with t(1) ref Cons.prems(7) show ?thesis by (simp add: step replayTerminalResult_def)
  next
    case False
    then obtain c' seg' where seg: "seg = c' # seg'" by (cases seg) auto
    have "toRef \<noteq> Some (cc_afterRef c)" using Cons.prems(7,8) False by auto
    then have loop: "resolved_loop deps domain (\<lambda>i. memory_port lc (D i)) R toRef i s steps known ver ((c # seg) @ post) =
        resolved_loop deps domain (\<lambda>i. memory_port lc (D i)) R toRef (Suc i) t (steps @ [step_of c]) known' ver' (seg @ post)"
      by (simp add: step)
    obtain xs where "md_changelog (D (Suc i)) = pre @ c # c' # seg' @ post @ xs" using Cons.prems(1) [of "Suc i"] by (auto simp: seg)
    from next_bridged [OF inv this deps(2) t(1)] obtain b' where
      b': "durable_get (D (Suc i)) (cc_beforeRef (hd seg)) = Some b'" "bridged deps (memory_port lc (D (Suc i))) t (hd seg) b'"
      by (auto simp: seg)
    have "\<exists>u. durable_get (D (Suc i + length seg)) (cc_afterRef (last seg)) = Some u \<and>
        fst (resolved_loop deps domain (\<lambda>i. memory_port lc (D i)) R toRef (Suc i) t (steps @ [step_of c]) known' ver' (seg @ post)) =
          ReplayVerified (cc_afterRef (last seg)) u ((steps @ [step_of c]) @ map step_of seg)"
      by (rule Cons.IH [where pre = "pre @ [c]" and b = b']) (use Cons.prems False b' h(3) in auto)
    then show ?thesis unfolding loop using False by simp
  qed
qed simp

section \<open>Cached contexts\<close>

text \<open>A context made from a binding: of its epoch and of a copy of exactly the schema it names.\<close>

definition context_of :: "verifier_deps \<Rightarrow> string \<Rightarrow> schema_epoch_binding \<Rightarrow> active_schema_context \<Rightarrow> bool" where
  "context_of deps domain b ctx \<longleftrightarrow>
     sb_activationDomainId b = domain \<and> ax_epochId ctx = sb_epochId b \<and> ax_binding ctx = Some b \<and>
     snapshotOrchestrationSchema (ax_schema ctx) = ax_schema ctx \<and>
     os_schemaId (ax_schema ctx) = sr_schemaId (sb_schemaRef b) \<and>
     ve_contentDigest deps (ax_schema ctx) = sr_digest (sb_schemaRef b) \<and>
     ax_allowedOperations ctx = allowedOperationsFromSchema (ax_schema ctx)"

definition cache_verified :: "verifier_deps \<Rightarrow> string \<Rightarrow> verifier_cache \<Rightarrow> bool" where
  "cache_verified deps domain ver \<longleftrightarrow> (\<forall>b ctx. map_get ver b = Some ctx \<longrightarrow> context_of deps domain b ctx)"

definition known_verified :: "verifier_deps \<Rightarrow> string \<Rightarrow> invocation_cache \<Rightarrow> bool" where
  "known_verified deps domain known \<longleftrightarrow>
     (\<forall>e ctx. map_get known e = Some ctx \<longrightarrow> (\<exists>b. context_of deps domain b ctx \<and> sb_epochId b = e))"

lemma historical_verified:
  assumes "resolveHistoricalSchemaContext deps R domain e known ver = (out, known', ver')"
    and "cache_verified deps domain ver" and "known_verified deps domain known"
  shows "cache_verified deps domain ver' \<and> known_verified deps domain known' \<and>
    (\<forall>ctx. out = Inr ctx \<longrightarrow> (\<exists>b. context_of deps domain b ctx \<and> sb_epochId b = e))"
  using assms(1)
proof (cases rule: historical_cases)
  case refused
  with assms show ?thesis by auto
next
  case (epoch ctx)
  with assms show ?thesis by (auto simp: known_verified_def)
next
  case (binding ctx b)
  with assms(2) have c: "context_of deps domain b ctx" by (simp add: cache_verified_def)
  with assms binding show ?thesis by (auto simp: known_verified_def jsmap_simps split: if_split_asm)
next
  case (schema b s)
  then have c: "context_of deps domain b (createActiveSchemaContext s e (Some b))"
    by (simp add: context_of_def createActiveSchemaContext_def Let_def)
  with assms schema show ?thesis
    by (auto simp: known_verified_def cache_verified_def jsmap_simps split: if_split_asm)
qed

text \<open>One step of a resolved verification.\<close>

definition verifies_historically ::
  "verifier_deps \<Rightarrow> string \<Rightarrow> (nat \<Rightarrow> replay_port) \<Rightarrow> snapshot \<Rightarrow> coordination_change \<Rightarrow> snapshot \<Rightarrow> bool" where
  "verifies_historically deps domain port s c t \<longleftrightarrow>
     (\<exists>i b ctx w. context_of deps domain b ctx \<and> sb_epochId b = cc_epochId c \<and>
        bridged deps (port i) s c w \<and> recomputed deps (port (Suc i)) ctx w c t)"

lemma resolved_loop_verified:
  assumes "resolved_loop deps domain port R toRef i s steps known ver cs = (res, ver')"
    and "cache_verified deps domain ver" and "known_verified deps domain known"
  shows "cache_verified deps domain ver' \<and>
    (\<forall>r t steps'. res = ReplayVerified r t steps' \<longrightarrow>
      (\<exists>used rest. cs = used @ rest \<and> verified_run (verifies_historically deps domain port) s used t \<and>
         steps' = steps @ map step_of used \<and> r = sn_snapshotRef t \<and> (toRef = None \<or> toRef = Some r) \<and> stops_at toRef used rest))"
  using assms
proof (induction cs arbitrary: i s steps known ver)
  case Nil
  then show ?case by (auto simp: terminal_verified stops_at_Nil)
next
  case (Cons c cs)
  show ?case
  proof (cases "bridgeUnloggedAdvance deps (port i) s c")
    case (Inl v)
    with Cons.prems show ?thesis by auto
  next
    case br: (Inr w)
    obtain out known1 ver1 where h: "resolveHistoricalSchemaContext deps (R i) domain (cc_epochId c) known ver = (out, known1, ver1)"
      by (metis surj_pair)
    note hv = historical_verified [OF h Cons.prems(2,3)]
    show ?thesis
    proof (cases out)
      case (Inl v)
      with Cons.prems(1) br h hv show ?thesis by auto
    next
      case (Inr ctx)
      show ?thesis
      proof (cases "replayOneChange deps (port (Suc i)) w c ctx")
        case (StepNext t)
        have v: "verifies_historically deps domain port s c t"
          using br hv Inr StepNext unfolding verifies_historically_def bridge_Inr replay_next by blast
        show ?thesis
        proof (cases "toRef = Some (cc_afterRef c)")
          case True
          with Cons.prems(1) br h Inr StepNext
          have res: "res = replayTerminalResult t (steps @ [step_of c]) toRef" "ver' = ver1" by simp_all
          show ?thesis
          proof (intro conjI allI impI)
            show "cache_verified deps domain ver'" using hv res(2) by simp
            fix r u steps' assume "res = ReplayVerified r u steps'"
            then have "u = t" "r = sn_snapshotRef t" "steps' = steps @ [step_of c]" "toRef = None \<or> toRef = Some r"
              unfolding res terminal_verified by blast+
            with v True show "\<exists>used rest. c # cs = used @ rest \<and> verified_run (verifies_historically deps domain port) s used u \<and>
                steps' = steps @ map step_of used \<and> r = sn_snapshotRef u \<and> (toRef = None \<or> toRef = Some r) \<and>
                stops_at toRef used rest"
              by (intro exI [of _ "[c]"] exI [of _ cs]) (auto simp: stops_at_def)
          qed
        next
          case False
          with Cons.prems(1) br h Inr StepNext have
            "resolved_loop deps domain port R toRef (Suc i) t (steps @ [step_of c]) known1 ver1 cs = (res, ver')" by simp
          from Cons.IH [OF this] hv have ih: "cache_verified deps domain ver'"
            "\<And>r u steps'. res = ReplayVerified r u steps' \<Longrightarrow> \<exists>used rest. cs = used @ rest \<and>
              verified_run (verifies_historically deps domain port) t used u \<and>
              steps' = (steps @ [step_of c]) @ map step_of used \<and> r = sn_snapshotRef u \<and> (toRef = None \<or> toRef = Some r) \<and>
              stops_at toRef used rest" by blast+
          show ?thesis
          proof (intro conjI allI impI ih(1))
            fix r u steps' assume "res = ReplayVerified r u steps'"
            from ih(2) [OF this] obtain used rest where "cs = used @ rest"
              "verified_run (verifies_historically deps domain port) t used u"
              "steps' = (steps @ [step_of c]) @ map step_of used" "r = sn_snapshotRef u" "toRef = None \<or> toRef = Some r"
              "stops_at toRef used rest" by blast
            with v False show "\<exists>used rest. c # cs = used @ rest \<and> verified_run (verifies_historically deps domain port) s used u \<and>
                steps' = steps @ map step_of used \<and> r = sn_snapshotRef u \<and> (toRef = None \<or> toRef = Some r) \<and>
                stops_at toRef used rest"
              by (intro exI [of _ "c # used"] exI [of _ rest]) (auto simp: stops_at_Cons)
          qed
        qed
      qed (use Cons.prems(1) br h hv Inr in auto)
    qed
  qed
qed

section \<open>Properties\<close>

text \<open>C11. What a verification says: it succeeds exactly when the requested changes form a chain and, from
  the stored start world, change after change up to the target (or all of them) was recomputed
  from its recipe over the world the one before it led to, possibly after a recognised unlogged
  advance, in an active schema of its epoch that has its template, with an integral result equal
  to what the store holds. The steps it reports are these changes, the terminal their last world.\<close>

theorem verify_decides:
  "verify deps port options = Some (ReplayVerified r t steps) \<longleftrightarrow>
    (\<exists>s used rest.
       vp_get port (ro_fromRef options) = Some s \<and>
       (case ro_changes options of None \<Rightarrow> vp_since port (ro_fromRef options) | Some cs \<Rightarrow> Some cs) = Some (used @ rest) \<and>
       successively (\<lambda>a b. changeContinuesChain (ve_collation deps) a b (vp_get port)) (used @ rest) \<and>
       verified_run (verifies deps port (resolveActiveSchemaContext (ve_schemaContext deps))) s used t \<and>
       steps = map step_of used \<and> r = sn_snapshotRef t \<and> (ro_toRef options = None \<or> ro_toRef options = Some r) \<and>
       stops_at (ro_toRef options) used rest)"
proof (cases "vp_get port (ro_fromRef options)")
  case None
  then show ?thesis by (simp add: verify_def missing_start_def)
next
  case (Some s)
  let ?cs = "case ro_changes options of None \<Rightarrow> vp_since port (ro_fromRef options) | Some cs \<Rightarrow> Some cs"
  show ?thesis
  proof (cases ?cs)
    case None
    then show ?thesis unfolding verify_def Some by simp
  next
    case changes: (Some cs)
    have loop: "verify deps port options = Some (ReplayVerified r t steps) \<longleftrightarrow>
        successively (\<lambda>a b. changeContinuesChain (ve_collation deps) a b (vp_get port)) cs \<and>
        verify_loop deps port (ro_toRef options) s [] cs = ReplayVerified r t steps"
      using change_chain_None [of "ve_collation deps" "vp_get port" 1 cs]
      unfolding verify_def Some changes validateChangeChain_def
      by (cases cs; cases "change_chain_loop (ve_collation deps) (vp_get port) 1 cs") (simp_all del: verify_loop.simps(2))
    show ?thesis unfolding loop verify_loop_verified Some changes by auto
  qed
qed

text \<open>C10. Every stretch of the log of a reachable state verifies: starting at the world before one of
  its changes or at the one the change before led to, up to any later change, given an active
  schema of the changes' epoch that has their templates, the verifier succeeds with exactly
  these changes as its steps and the stored world of the last as its terminal.\<close>

theorem log_verifies:
  assumes "runs_from uuid cf s0 st" and "starts_before r k (durable_changes (rt_durable st))"
    and "k \<le> j" and "j < length (durable_changes (rt_durable st))"
    and "ve_handlers deps = createDefaultHandlers" and "ve_collation deps = cf_collation cf"
    and "list_all (context_knows (resolveActiveSchemaContext (ve_schemaContext deps)))
      (take (Suc j - k) (drop k (durable_changes (rt_durable st))))"
  shows "\<exists>t. durable_get (rt_durable st) (cc_afterRef (durable_changes (rt_durable st) ! j)) = Some t \<and>
    verify deps (memory_port (cf_collation cf) (rt_durable st))
      \<lparr>ro_fromRef = r, ro_toRef = Some (cc_afterRef (durable_changes (rt_durable st) ! j)), ro_changes = None\<rparr> =
    Some (ReplayVerified (cc_afterRef (durable_changes (rt_durable st) ! j)) t
      (map step_of (take (Suc j - k) (drop k (durable_changes (rt_durable st))))))"
proof -
  let ?d = "rt_durable st" and ?cs = "md_changelog (rt_durable st)"
  let ?seg = "take (Suc j - k) (drop k ?cs)"
  have c: "durable_changes ?d = ?cs" by (simp add: durable_changes_def)
  note assms = assms [unfolded c]
  have inv: "durable_inv (cf_collation cf) (uuid ` {..<rt_ids st}) s0 ?d"
    using runs_inv [OF assms(1)] by (simp add: runtime_inv_def)
  note seg = log_segment [OF assms(3,4)]
  from start_reads [OF inv assms(2) assms(6)] obtain s b where start: "durable_since (cf_collation cf) r ?d = Some (drop k ?cs)"
    "durable_get ?d r = Some s" "durable_get ?d (cc_beforeRef (?cs ! k)) = Some b"
    "bridged deps (memory_port (cf_collation cf) ?d) s (?cs ! k) b" by blast
  have knows: "\<forall>c\<in>set ?seg. context_knows (resolveActiveSchemaContext (ve_schemaContext deps)) c"
    using assms(7) by (simp only: list_all_iff)
  have hd: "durable_get ?d (cc_beforeRef (hd ?seg)) = Some b" "bridged deps (memory_port (cf_collation cf) ?d) s (hd ?seg) b"
    by (simp_all only: seg(3) start(3,4))
  from segment_verifies [OF inv assms(5,6) seg(1,2) knows hd] obtain t where
    t: "durable_get ?d (cc_afterRef (?cs ! j)) = Some t"
    "verified_run (verifies deps (memory_port (cf_collation cf) ?d) (resolveActiveSchemaContext (ve_schemaContext deps))) s ?seg t"
    by (simp only: seg(4)) blast
  have ref: "sn_snapshotRef t = cc_afterRef (?cs ! j)" using inv t(1) by (auto simp: durable_inv_def)
  have chain: "successively (\<lambda>a b. changeContinuesChain (cf_collation cf) a b (durable_get ?d)) (drop k ?cs)"
    using inv unfolding durable_inv_def by (metis append_take_drop_id successively_append_iff)
  have "log_refs ?d" using inv by (simp add: durable_inv_def)
  from segment_stops [OF this seg(1,2)] have "stops_at (Some (cc_afterRef (?cs ! j))) ?seg (drop (Suc j) ?cs)"
    using seg(2,4) by (auto simp: stops_at_def)
  with start t ref chain seg(5) show ?thesis
    unfolding c verify_decides by (intro exI [of _ t] conjI exI [of _ s] exI [of _ ?seg] exI [of _ "drop (Suc j) ?cs"]) (simp_all add: assms(6))
qed

text \<open>C12. Every stretch of the log also verifies against the schemas of the changes' own epochs, while
  the runtime goes on: if each store the verification looks at is that of a reachable state and
  extends the one before, and the resolver always serves the changes of the log, then it succeeds
  with exactly the changes of the stretch and the stored world of the last. The cache may be in
  use already, as long as its contexts know the templates of the changes.\<close>

theorem log_verifies_resolved:
  assumes "\<And>i. runs_from uuid cf s0 (sts i)" and "\<And>i. grows (sts i) (sts (Suc i))"
    and "starts_before r k (durable_changes (rt_durable (sts 0)))" and "k \<le> j" and "j < length (durable_changes (rt_durable (sts 0)))"
    and "ve_handlers deps = createDefaultHandlers" and "ve_collation deps = cf_collation cf"
    and "ve_activationDomainId deps = Some domain"
    and "\<And>i. list_all (serves deps (R i) domain) (durable_changes (rt_durable (sts 0)))"
    and "caches_know (durable_changes (rt_durable (sts 0))) [] ver"
  shows "\<exists>i t ver'. durable_get (rt_durable (sts i)) (cc_afterRef (durable_changes (rt_durable (sts 0)) ! j)) = Some t \<and>
    verifyResolved deps (\<lambda>i. memory_port (cf_collation cf) (rt_durable (sts i))) (Some R)
      \<lparr>ro_fromRef = r, ro_toRef = Some (cc_afterRef (durable_changes (rt_durable (sts 0)) ! j)), ro_changes = None\<rparr> ver =
    Some (ReplayVerified (cc_afterRef (durable_changes (rt_durable (sts 0)) ! j)) t
      (map step_of (take (Suc j - k) (drop k (durable_changes (rt_durable (sts 0)))))), ver')"
proof -
  let ?D = "\<lambda>i. rt_durable (sts i)" and ?cs = "md_changelog (rt_durable (sts 0))"
  let ?seg = "take (Suc j - k) (drop k ?cs)" and ?lc = "cf_collation cf"
  have c: "durable_changes d = md_changelog d" for d by (simp add: durable_changes_def)
  note assms = assms [unfolded c]
  have inv: "durable_inv ?lc (uuid ` {..<rt_ids (sts i)}) s0 (?D i)" for i
    using runs_inv [OF assms(1)] by (simp add: runtime_inv_def)
  note seg = log_segment [OF assms(4,5)]
  from start_reads [OF inv [of 0] assms(3,7)] obtain s b where start: "durable_since ?lc r (?D 0) = Some (drop k ?cs)"
    "durable_get (?D 0) r = Some s" "durable_get (?D 0) (cc_beforeRef (?cs ! k)) = Some b"
    "bridged deps (memory_port ?lc (?D 0)) s (?cs ! k) b" by blast
  have hd: "durable_get (?D 0) (cc_beforeRef (hd ?seg)) = Some b" "bridged deps (memory_port ?lc (?D 0)) s (hd ?seg) b"
    by (simp_all only: seg(3) start(3,4))
  have log: "\<exists>xs. md_changelog (?D i) = take k ?cs @ ?seg @ drop (Suc j) ?cs @ xs" for i
  proof -
    obtain xs where xs: "md_changelog (?D i) = ?cs @ xs" using grows_log [of sts i, OF assms(2)] by (auto simp: c)
    show ?thesis by (rule exI [of _ xs]) (subst xs, subst seg(1), simp only: append_assoc)
  qed
  have grow: "extends (durable_get (?D i)) (durable_get (?D (Suc i)))" for i using assms(2) by (simp add: grows_def)
  have serves: "\<forall>c\<in>set ?cs. serves deps (R i) domain c" for i using assms(9) by (simp only: list_all_iff)
  have sub: "set ?seg \<subseteq> set ?cs" by (meson order_trans set_drop_subset set_take_subset)
  have "log_refs (?D 0)" using inv by (simp add: durable_inv_def)
  from segment_stops [OF this seg(1,2)]
  have last: "\<forall>c\<in>set (butlast ?seg). cc_afterRef c \<noteq> cc_afterRef (last ?seg)" .
  let ?to = "Some (cc_afterRef (?cs ! j))" and ?port = "\<lambda>i. memory_port ?lc (?D i)"
  from resolved_segment [where R = R and i = 0 and steps = "[]" and toRef = ?to, OF inv grow log assms(6,7) serves sub assms(10) seg(2) hd]
    last obtain t where
    t: "durable_get (?D (length ?seg)) (cc_afterRef (?cs ! j)) = Some t"
    "fst (resolved_loop deps domain ?port R ?to 0 s [] [] ver (?seg @ drop (Suc j) ?cs)) =
      ReplayVerified (cc_afterRef (?cs ! j)) t ([] @ map step_of ?seg)" by (simp only: seg(4) add_0) blast
  obtain ver' where loop: "resolved_loop deps domain ?port R ?to 0 s [] [] ver (drop k ?cs) =
      (ReplayVerified (cc_afterRef (?cs ! j)) t (map step_of ?seg), ver')"
    using t(2) unfolding seg(5) [symmetric] append_Nil by (metis prod.collapse)
  have chain: "successively (\<lambda>a b. changeContinuesChain ?lc a b (durable_get (?D 0))) (drop k ?cs)"
    using inv unfolding durable_inv_def by (metis append_take_drop_id successively_append_iff)
  have "drop k ?cs \<noteq> []" using assms(3) by (simp add: starts_before_def)
  then have "verifyResolved deps ?port (Some R) \<lparr>ro_fromRef = r, ro_toRef = ?to, ro_changes = None\<rparr> ver =
      Some (ReplayVerified (cc_afterRef (?cs ! j)) t (map step_of ?seg), ver')"
    using change_chain_None [of ?lc "durable_get (?D 0)" 1 "drop k ?cs"] chain loop start
    by (simp add: verifyResolved_def assms(7,8) replayInitialState_def validateChangeChain_def)
  with t(1) show ?thesis unfolding c by blast
qed

text \<open>C13. What a resolved verification says, whatever the stores and the resolver do between its
  steps: every change it reports was recomputed in a context of the change's epoch, made from a
  copy of exactly the schema that a binding of that epoch and of the verifier's domain names, by
  id and content digest. Only such contexts are ever kept for later verifications, also when
  the verification fails.\<close>

theorem resolved_sound:
  assumes "ve_activationDomainId deps = Some domain" and "cache_verified deps domain ver"
    and "verifyResolved deps port (Some R) options ver = Some (res, ver')"
  shows "cache_verified deps domain ver' \<and>
    (case res of
       ReplayVerified r t steps \<Rightarrow>
         (\<exists>s used rest. vp_get (port 0) (ro_fromRef options) = Some s \<and>
            (case ro_changes options of None \<Rightarrow> vp_since (port 0) (ro_fromRef options) | Some cs \<Rightarrow> Some cs) = Some (used @ rest) \<and>
            verified_run (verifies_historically deps domain port) s used t \<and> steps = map step_of used \<and>
            r = sn_snapshotRef t \<and> (ro_toRef options = None \<or> ro_toRef options = Some r) \<and> stops_at (ro_toRef options) used rest)
     | _ \<Rightarrow> True)"
proof -
  from assms(1,3) obtain i where i: "replayInitialState (port 0) options = Some i"
    by (auto simp: verifyResolved_def split: option.split_asm)
  show ?thesis
  proof (cases i)
    case (Inl r)
    with assms i have "res = r" "ver' = ver" by (simp_all add: verifyResolved_def)
    moreover from i Inl have "\<exists>v. r = ReplayRefused v"
      by (auto simp: replayInitialState_def missing_start_def split: option.split_asm)
    ultimately show ?thesis using assms(2) by auto
  next
    case (Inr p)
    obtain s cs where p: "p = (s, cs)" by (metis surj_pair)
    have start: "vp_get (port 0) (ro_fromRef options) = Some s"
      "(case ro_changes options of None \<Rightarrow> vp_since (port 0) (ro_fromRef options) | Some cs \<Rightarrow> Some cs) = Some cs"
      using i Inr p by (auto simp: replayInitialState_def split: option.split_asm)
    have none: "known_verified deps domain []" by (simp add: known_verified_def map_get_def)
    show ?thesis
    proof (cases "cs = []")
      case True
      with assms i Inr p have "res = replayTerminalResult s [] (ro_toRef options)" "ver' = ver" by (simp_all add: verifyResolved_def)
      with assms(2) start True show ?thesis
        by (auto simp: replayTerminalResult_def stops_at_Nil split: option.split intro!: exI [of _ s])
    next
      case False
      show ?thesis
      proof (cases "validateChangeChain deps (port 0) cs")
        case (Some v)
        with False assms i Inr p have "res = ReplayRefused v" "ver' = ver" by (simp_all add: verifyResolved_def)
        with assms(2) show ?thesis by simp
      next
        case None
        with False assms i Inr p have "resolved_loop deps domain port R (ro_toRef options) 0 s [] [] ver cs = (res, ver')"
          by (simp add: verifyResolved_def)
        note v = resolved_loop_verified [OF this assms(2) none]
        show ?thesis
        proof (cases res)
          case (ReplayVerified r t steps)
          with v obtain used rest where "cs = used @ rest" "verified_run (verifies_historically deps domain port) s used t"
            "steps = map step_of used" "r = sn_snapshotRef t" "ro_toRef options = None \<or> ro_toRef options = Some r"
            "stops_at (ro_toRef options) used rest" by auto
          with v start ReplayVerified show ?thesis by auto
        qed (use v in simp_all)
      qed
    qed
  qed
qed

section \<open>Verifications of the small world\<close>

definition example_verifier :: verifier_deps where
  "example_verifier =
     \<lparr>ve_handlers = createDefaultHandlers,
      ve_schemaContext = FixedContext (createActiveSchemaContext (createDefaultSchema None) ''e1'' None),
      ve_activationDomainId = Some ''domain'', ve_collation = code_point_compare, ve_contentDigest = (\<lambda>s. ''d'')\<rparr>"

definition example_historical :: historical_resolver where
  "example_historical =
     \<lparr>hr_resolveByEpoch = (\<lambda>domain e. Inr (Some example_binding)), hr_resolveSchema = (\<lambda>ref. Inr (Some example_schema))\<rparr>"

lemma example_log: "length (durable_changes (rt_durable (snd example_commit))) = 1"
  using arg_cong [OF example_commit_log, of length] by (simp add: durable_changes_def)

lemma example_change:
  "list_all (\<lambda>c. cc_epochId c = ''e1'' \<and> cc_operationTypeId c = ''register_participant'' \<and>
      map_option ot_revision (cc_templateRef c) = Some ''1'') (durable_changes (rt_durable (snd example_commit)))"
  by code_simp

lemma example_templates:
  "getTemplate (createActiveSchemaContext (createDefaultSchema None) ''e1'' None) ''register_participant'' (Some ''1'') \<noteq> None"
  "getTemplate (createActiveSchemaContext example_schema ''e1'' (Some example_binding)) ''register_participant'' (Some ''1'') \<noteq> None"
  by code_simp+

lemma example_knows:
  "list_all (context_knows (resolveActiveSchemaContext (ve_schemaContext example_verifier))) (durable_changes (rt_durable (snd example_commit)))"
  "list_all (\<lambda>c. cc_epochId c = ''e1'' \<and> context_knows (createActiveSchemaContext example_schema ''e1'' (Some example_binding)) c)
     (durable_changes (rt_durable (snd example_commit)))"
  by (rule list.pred_mono_strong [OF example_change],
      use example_templates in \<open>auto simp: context_knows_def example_verifier_def resolveActiveSchemaContext_def createActiveSchemaContext_def Let_def\<close>)+

lemma example_serves: "list_all (serves example_verifier example_historical ''domain'') (durable_changes (rt_durable (snd example_commit)))"
proof -
  have "serves example_verifier example_historical ''domain'' c"
    if "cc_epochId c = ''e1''" "context_knows (createActiveSchemaContext example_schema ''e1'' (Some example_binding)) c" for c
    unfolding serves_def
    by (rule exI [of _ example_binding], rule exI [of _ example_schema])
       (use that in \<open>simp add: example_historical_def example_verifier_def\<close>, simp add: example_binding_def example_schema_def)
  with example_knows(2) show ?thesis by (auto simp: list_all_iff)
qed

lemma example_start:
  "starts_before (cc_beforeRef (durable_changes (rt_durable (snd example_commit)) ! 0)) 0 (durable_changes (rt_durable (snd example_commit)))"
  "list_all P (durable_changes (rt_durable (snd example_commit))) \<Longrightarrow>
    list_all P (take (Suc 0 - 0) (drop 0 (durable_changes (rt_durable (snd example_commit)))))"
  using example_log by (simp_all add: starts_before_def)

theorem log_verifies_witness:
  "\<exists>t r steps. length steps = 1 \<and> verify example_verifier (memory_port code_point_compare (rt_durable (snd example_commit)))
      \<lparr>ro_fromRef = cc_beforeRef (durable_changes (rt_durable (snd example_commit)) ! 0), ro_toRef = Some r, ro_changes = None\<rparr> =
    Some (ReplayVerified r t steps)"
proof -
  have "0 < length (durable_changes (rt_durable (snd example_commit)))" by (simp add: example_log)
  from log_verifies [OF example_runs(2) example_start(1) _ this, of example_verifier] example_start(2) [OF example_knows(1)]
  have "\<exists>t. verify example_verifier (memory_port (cf_collation example_config) (rt_durable (snd example_commit)))
      \<lparr>ro_fromRef = cc_beforeRef (durable_changes (rt_durable (snd example_commit)) ! 0),
       ro_toRef = Some (cc_afterRef (durable_changes (rt_durable (snd example_commit)) ! 0)), ro_changes = None\<rparr> =
    Some (ReplayVerified (cc_afterRef (durable_changes (rt_durable (snd example_commit)) ! 0)) t
      (map step_of (take (Suc 0 - 0) (drop 0 (durable_changes (rt_durable (snd example_commit)))))))"
    by (auto simp: example_verifier_def example_config_def)
  moreover have "length (map step_of (take (Suc 0 - 0) (drop 0 (durable_changes (rt_durable (snd example_commit)))))) = 1"
    by (simp add: example_log)
  ultimately show ?thesis by (auto simp: example_config_def simp del: length_map)
qed

theorem log_verifies_resolved_witness:
  "\<exists>t r steps ver'. verifyResolved example_verifier (\<lambda>i. memory_port code_point_compare (rt_durable (snd example_commit))) (Some (\<lambda>i. example_historical))
      \<lparr>ro_fromRef = cc_beforeRef (durable_changes (rt_durable (snd example_commit)) ! 0), ro_toRef = Some r, ro_changes = None\<rparr> [] =
    Some (ReplayVerified r t steps, ver')"
proof -
  have l: "0 < length (durable_changes (rt_durable (snd example_commit)))" by (simp add: example_log)
  have g: "grows (snd example_commit) (snd example_commit)" by (simp add: grows_def)
  have k: "caches_know (durable_changes (rt_durable (snd example_commit))) [] []" by (simp add: caches_know_def map_get_def)
  have v: "ve_handlers example_verifier = createDefaultHandlers" "ve_collation example_verifier = cf_collation example_config"
    "ve_activationDomainId example_verifier = Some ''domain''" by (simp_all add: example_verifier_def example_config_def)
  from log_verifies_resolved [of show_nat example_config example_snapshot "\<lambda>i. snd example_commit", OF example_runs(2) g example_start(1) le_refl l
      v example_serves k]
  show ?thesis by (auto simp: example_config_def)
qed

theorem resolved_sound_witness:
  "\<exists>res ver'. verifyResolved example_verifier (\<lambda>i. memory_port code_point_compare (rt_durable (snd example_commit))) (Some (\<lambda>i. example_historical))
      \<lparr>ro_fromRef = ''s0'', ro_toRef = None, ro_changes = None\<rparr> [] = Some (res, ver') \<and>
    ver' \<noteq> [] \<and> cache_verified example_verifier ''domain'' ver'"
proof -
  let ?v = "verifyResolved example_verifier (\<lambda>i. memory_port code_point_compare (rt_durable (snd example_commit))) (Some (\<lambda>i. example_historical))
      \<lparr>ro_fromRef = ''s0'', ro_toRef = None, ro_changes = None\<rparr> []"
  have "case ?v of Some (res, ver') \<Rightarrow> length ver' = 1 | None \<Rightarrow> False" by code_simp
  then obtain res ver' where v: "?v = Some (res, ver')" "length ver' = 1" by (auto split: option.split_asm prod.split_asm)
  have "ve_activationDomainId example_verifier = Some ''domain''" by (simp add: example_verifier_def)
  moreover have "cache_verified example_verifier ''domain'' []" by (simp add: cache_verified_def map_get_def)
  ultimately show ?thesis using resolved_sound [OF _ _ v(1)] v by (intro exI [of _ res] exI [of _ ver']) auto
qed

end
