(* ===== verification/Prelude_Number.thy ===== *)
theory Prelude_Number
  imports Prelude_Json "HOL-Library.Log_Nat"
begin

text \<open>
  Arithmetic on JavaScript numbers. A number is \<open>NaN\<close>, an infinity or a finite double, kept
  as the rational it denotes (the sign of zero is not kept: nothing modelled here observes
  it). An operation computes the exact result and rounds it to the nearest double, ties to
  the even significand (\<open>binary64\<close>: 53 bits of significand, gradual underflow below
  \<open>2 ^ -1022\<close>), and overflows to an infinity at \<open>2 ^ 1024\<close>.

  What the proofs about weighted sums need of the rounding is stated once, as the locale
  \<open>rounding\<close>: it is monotone and keeps 0 and 1.
\<close>

named_theorems js_arith \<open>arithmetic and comparison of finite JavaScript numbers\<close>

section \<open>Rounding to the nearest double\<close>

definition round_half_even :: "rat \<Rightarrow> int" where
  "round_half_even x =
     (let f = \<lfloor>x\<rfloor>; d = x - of_int f
      in if d < 1 / 2 then f else if d > 1 / 2 then f + 1 else if even f then f else f + 1)"

text \<open>The binary exponent of a positive rational: \<open>2 ^ e \<le> x < 2 ^ (e + 1)\<close>.\<close>

definition binary_exponent :: "rat \<Rightarrow> int" where
  "binary_exponent x =
     (let (a, b) = quotient_of x; k = bitlen a - bitlen b
      in if 2 powi k \<le> x then k else k - 1)"

text \<open>The distance between neighbouring doubles in the binade of \<open>x\<close>.\<close>

definition ulp :: "rat \<Rightarrow> rat" where
  "ulp x = 2 powi (max (binary_exponent x) (- 1022) - 52)"

definition binary64 :: "rat \<Rightarrow> rat" where
  "binary64 x =
     (if x = 0 then 0 else let u = ulp \<bar>x\<bar> in of_int (round_half_even (x / u)) * u)"

definition to_number :: "rat \<Rightarrow> js_number" where
  "to_number x =
     (let r = binary64 x
      in if r \<noteq> 0 \<and> binary_exponent \<bar>r\<bar> \<ge> 1024 then if r > 0 then PosInf else NegInf else Fin r)"

section \<open>Operations\<close>

fun js_add :: "js_number \<Rightarrow> js_number \<Rightarrow> js_number" where
  "js_add (Fin x) (Fin y) = to_number (x + y)"
| "js_add NaN _ = NaN"
| "js_add _ NaN = NaN"
| "js_add PosInf NegInf = NaN"
| "js_add NegInf PosInf = NaN"
| "js_add PosInf _ = PosInf"
| "js_add NegInf _ = NegInf"
| "js_add (Fin _) y = y"

fun js_neg :: "js_number \<Rightarrow> js_number" where
  "js_neg (Fin x) = Fin (- x)"
| "js_neg PosInf = NegInf"
| "js_neg NegInf = PosInf"
| "js_neg NaN = NaN"

definition js_sub :: "js_number \<Rightarrow> js_number \<Rightarrow> js_number" where
  "js_sub x y = js_add x (js_neg y)"

definition inf_of_sign :: "rat \<Rightarrow> js_number" where
  "inf_of_sign s = (if s = 0 then NaN else if s > 0 then PosInf else NegInf)"

fun sign_of :: "js_number \<Rightarrow> rat" where
  "sign_of (Fin x) = x"
| "sign_of PosInf = 1"
| "sign_of NegInf = - 1"
| "sign_of NaN = 0"

definition js_mul :: "js_number \<Rightarrow> js_number \<Rightarrow> js_number" where
  "js_mul x y =
     (case (x, y) of
        (Fin a, Fin b) \<Rightarrow> to_number (a * b)
      | _ \<Rightarrow> inf_of_sign (sign_of x * sign_of y))"

fun js_div :: "js_number \<Rightarrow> js_number \<Rightarrow> js_number" where
  "js_div (Fin x) (Fin y) = (if y = 0 then inf_of_sign x else to_number (x / y))"
| "js_div NaN _ = NaN"
| "js_div _ NaN = NaN"
| "js_div (Fin _) _ = Fin 0"
| "js_div x (Fin y) = inf_of_sign (sign_of x * (if y = 0 then 1 else y))"
| "js_div _ _ = NaN"

text \<open>Comparison: false as soon as one side is \<open>NaN\<close>.\<close>

fun js_less :: "js_number \<Rightarrow> js_number \<Rightarrow> bool" where
  "js_less (Fin x) (Fin y) = (x < y)"
| "js_less NaN _ = False"
| "js_less _ NaN = False"
| "js_less NegInf y = (y \<noteq> NegInf)"
| "js_less _ NegInf = False"
| "js_less (Fin _) PosInf = True"
| "js_less PosInf _ = False"

definition js_eq :: "js_number \<Rightarrow> js_number \<Rightarrow> bool" where
  "js_eq x y \<longleftrightarrow> x \<noteq> NaN \<and> x = y"

definition js_le :: "js_number \<Rightarrow> js_number \<Rightarrow> bool" where
  "js_le x y \<longleftrightarrow> js_less x y \<or> js_eq x y"

text \<open>\<open>Math.max\<close>, \<open>Math.min\<close> and \<open>Math.abs\<close>.\<close>

definition js_max2 :: "js_number \<Rightarrow> js_number \<Rightarrow> js_number" where
  "js_max2 x y = (if x = NaN \<or> y = NaN then NaN else if js_less x y then y else x)"

definition js_min2 :: "js_number \<Rightarrow> js_number \<Rightarrow> js_number" where
  "js_min2 x y = (if x = NaN \<or> y = NaN then NaN else if js_less y x then y else x)"

definition math_max :: "js_number list \<Rightarrow> js_number" where
  "math_max xs = foldl js_max2 NegInf xs"

definition math_min :: "js_number list \<Rightarrow> js_number" where
  "math_min xs = foldl js_min2 PosInf xs"

fun math_abs :: "js_number \<Rightarrow> js_number" where
  "math_abs (Fin x) = Fin \<bar>x\<bar>"
| "math_abs NegInf = PosInf"
| "math_abs x = x"

text \<open>
  \<open>Math.sqrt\<close>: the root of \<open>n / d\<close>, correctly rounded. Scaled by an even power of two so
  that its integer part has at least 55 bits, the root is that integer part, or lies strictly
  between it and the next integer; half of the unit then stands for the rest.
\<close>

function isqrt :: "int \<Rightarrow> int" where
  "isqrt n =
     (if n \<le> 0 then 0
      else let r = 2 * isqrt (n div 4) in if (r + 1) * (r + 1) \<le> n then r + 1 else r)"
  by pat_completeness auto

termination by (relation "measure nat") auto

declare isqrt.simps [simp del]

definition rat_sqrt :: "rat \<Rightarrow> rat" where
  "rat_sqrt x =
     (let k = 56 - binary_exponent x div 2;
          y = x * 4 powi k;
          s = isqrt \<lfloor>y\<rfloor>
      in (of_int s + (if of_int (s * s) = y then 0 else 1 / 2)) / 2 powi k)"

fun math_sqrt :: "js_number \<Rightarrow> js_number" where
  "math_sqrt (Fin x) = (if x < 0 then NaN else if x = 0 then Fin 0 else to_number (rat_sqrt x))"
| "math_sqrt PosInf = PosInf"
| "math_sqrt _ = NaN"

section \<open>Decimal renderings\<close>

function int_digits :: "int \<Rightarrow> string" where
  "int_digits n =
     (if n < 10 then [show_digit (nat n)]
      else int_digits (n div 10) @ [show_digit (nat (n mod 10))])"
  by pat_completeness auto

termination by (relation "measure nat") auto

declare int_digits.simps [simp del]

text \<open>
  \<open>Number::toString\<close>: the shortest digits \<open>s\<close> (at most 17) and the exponent \<open>n\<close> with
  \<open>s * 10 ^ (n - k)\<close> rounding to the number, the closest such \<open>s\<close>.
\<close>

definition decimal_exponent :: "rat \<Rightarrow> int" where
  "decimal_exponent x =
     (let (a, b) = quotient_of x; g = int (length (int_digits a)) - int (length (int_digits b))
      in if 10 powi g \<le> x then g + 1 else g)"

definition digits_at :: "rat \<Rightarrow> int \<Rightarrow> nat \<Rightarrow> nat \<times> int \<times> int" where
  "digits_at x n k =
     (let s = round_half_even (x / 10 powi (n - int k))
      in if s = 10 ^ k then (k, s div 10, n + 1) else (k, s, n))"

definition shortest_digits :: "rat \<Rightarrow> nat \<times> int \<times> int" where
  "shortest_digits x =
     (let n = decimal_exponent x
      in case List.find (\<lambda>k. case digits_at x n k of (k, s, m) \<Rightarrow> binary64 (of_int s * 10 powi (m - int k)) = x)
                [1..<18] of
           Some k \<Rightarrow> digits_at x n k
         | None \<Rightarrow> digits_at x n 17)"

definition positive_to_string :: "rat \<Rightarrow> string" where
  "positive_to_string x =
     (let (k, s, n) = shortest_digits x; ds = int_digits s
      in if int k \<le> n \<and> n \<le> 21 then ds @ replicate (nat n - k) (CHR ''0'')
         else if 0 < n \<and> n \<le> 21 then take (nat n) ds @ ''.'' @ drop (nat n) ds
         else if -6 < n \<and> n \<le> 0 then ''0.'' @ replicate (nat (- n)) (CHR ''0'') @ ds
         else let e = (if n \<ge> 1 then ''e+'' else ''e-'') @ int_digits \<bar>n - 1\<bar>
              in if k = 1 then ds @ e else take 1 ds @ ''.'' @ drop 1 ds @ e)"

fun number_to_string :: "js_number \<Rightarrow> string" where
  "number_to_string NaN = ''NaN''"
| "number_to_string PosInf = ''Infinity''"
| "number_to_string NegInf = ''-Infinity''"
| "number_to_string (Fin x) =
     (if x = 0 then ''0'' else if x < 0 then ''-'' @ positive_to_string (- x) else positive_to_string x)"

text \<open>\<open>Number.prototype.toFixed(f)\<close>: the closest multiple of \<open>10 ^ -f\<close>, the larger of two.\<close>

definition fixed_digits :: "nat \<Rightarrow> rat \<Rightarrow> string" where
  "fixed_digits f x =
     (let m = int_digits \<lfloor>x * 10 ^ f + 1 / 2\<rfloor>;
          padded = replicate (f + 1 - length m) (CHR ''0'') @ m
      in if f = 0 then m else take (length padded - f) padded @ ''.'' @ drop (length padded - f) padded)"

fun toFixed :: "nat \<Rightarrow> js_number \<Rightarrow> string" where
  "toFixed f (Fin x) =
     (if \<bar>x\<bar> \<ge> 10 ^ 21 then number_to_string (Fin x)
      else if x < 0 then ''-'' @ fixed_digits f (- x) else fixed_digits f x)"
| "toFixed f x = number_to_string x"

section \<open>\<open>Number(value)\<close>\<close>

text \<open>\<open>StringToNumber\<close> on the trimmed text.\<close>

definition radix_number :: "nat \<Rightarrow> string \<Rightarrow> js_number" where
  "radix_number b ds =
     (if ds \<noteq> [] \<and> list_all (\<lambda>c. case hex_val c of Some d \<Rightarrow> d < b | None \<Rightarrow> False) ds
      then to_number (of_int (foldl (\<lambda>acc c. acc * int b + int (the (hex_val c))) 0 ds)) else NaN)"

definition unsigned_decimal :: "string \<Rightarrow> rat option" where
  "unsigned_decimal s =
     (let (ds, s1) = take_digits s;
          (fs, s2) = (case s1 of c # t \<Rightarrow> if c = CHR ''.'' then take_digits t else ([], s1) | [] \<Rightarrow> ([], []))
      in if ds = [] \<and> fs = [] then None
         else case exponent_part s2 of
                Some (e, r) \<Rightarrow>
                  if r = [] then Some ((of_nat (digits_val ds) + of_nat (digits_val fs) / 10 ^ length fs) * e)
                  else None
              | None \<Rightarrow> None)"

definition string_to_number :: "string \<Rightarrow> js_number" where
  "string_to_number s =
     (case s of
        [] \<Rightarrow> Fin 0
      | c # t \<Rightarrow>
          (let prefix = take 2 s; rest = drop 2 s;
               (neg, u) = (if c = CHR ''-'' then (True, t) else if c = CHR ''+'' then (False, t) else (False, s))
           in if prefix = ''0x'' \<or> prefix = ''0X'' then radix_number 16 rest
              else if prefix = ''0o'' \<or> prefix = ''0O'' then radix_number 8 rest
              else if prefix = ''0b'' \<or> prefix = ''0B'' then radix_number 2 rest
              else if u = ''Infinity'' then if neg then NegInf else PosInf
              else case unsigned_decimal u of
                     Some q \<Rightarrow> to_number (if neg then - q else q)
                   | None \<Rightarrow> NaN))"

section \<open>The rounding is monotone\<close>

lemma round_half_even_bounds: "\<lfloor>x\<rfloor> \<le> round_half_even x \<and> round_half_even x \<le> \<lfloor>x\<rfloor> + 1"
  by (simp add: round_half_even_def Let_def)

lemma round_half_even_int [simp]: "round_half_even (of_int n) = n"
  by (simp add: round_half_even_def)

lemma round_half_even_mono: "x \<le> y \<Longrightarrow> round_half_even x \<le> round_half_even y"
proof -
  assume le: "x \<le> y"
  show ?thesis
  proof (cases "\<lfloor>x\<rfloor> = \<lfloor>y\<rfloor>")
    case True
    with le show ?thesis by (auto simp: round_half_even_def Let_def)
  next
    case False
    then have "\<lfloor>x\<rfloor> + 1 \<le> \<lfloor>y\<rfloor>" using floor_mono [OF le] by linarith
    then show ?thesis using round_half_even_bounds [of x] round_half_even_bounds [of y] by linarith
  qed
qed

lemma round_half_even_minus: "round_half_even (- x) = - round_half_even x"
proof (cases "of_int \<lfloor>x\<rfloor> = x")
  case True
  then show ?thesis by (metis of_int_minus round_half_even_int)
next
  case False
  then have "\<lfloor>- x\<rfloor> = - \<lfloor>x\<rfloor> - 1" by linarith
  then show ?thesis by (auto simp: round_half_even_def Let_def)
qed

lemma round_half_even_le_int: "x \<le> of_int n \<Longrightarrow> round_half_even x \<le> n"
  using round_half_even_mono [of x "of_int n"] by simp

lemma round_half_even_ge_int: "of_int n \<le> x \<Longrightarrow> n \<le> round_half_even x"
  using round_half_even_mono [of "of_int n" x] by simp

lemma powi_pos: "0 < (2::rat) powi k"
  by (simp add: zero_less_power_int)

lemma bitlen_rat_bounds: "0 < n \<Longrightarrow> 2 powi (bitlen n - 1) \<le> (of_int n :: rat) \<and> (of_int n :: rat) < 2 powi bitlen n"
proof -
  assume n: "0 < n"
  from bitlen_bounds [OF n] have b: "2 ^ nat (bitlen n - 1) \<le> n" "n < 2 ^ nat (bitlen n)" by auto
  have pos: "1 \<le> bitlen n" using n by (simp add: bitlen_ge_iff_power)
  have "(2::rat) powi (bitlen n - 1) = of_int (2 ^ nat (bitlen n - 1))"
    and "(2::rat) powi bitlen n = of_int (2 ^ nat (bitlen n))"
    using pos by (simp_all add: power_int_def)
  then show ?thesis using b by (simp only: of_int_le_iff of_int_less_iff)
qed

lemma binary_exponent_bounds:
  assumes "0 < x"
  shows "2 powi binary_exponent x \<le> x" and "x < 2 powi (binary_exponent x + 1)"
proof -
  obtain a b where q: "quotient_of x = (a, b)" by (cases "quotient_of x")
  have x: "x = of_int a / of_int b" and b: "0 < b" using quotient_of_div [OF q] quotient_of_denom_pos [OF q] by auto
  have a: "0 < a" using assms b unfolding x by (simp add: zero_less_divide_iff)
  let ?k = "bitlen a - bitlen b"
  have lo: "2 powi (?k - 1) \<le> x"
  proof -
    have "(2::rat) powi (?k - 1) = 2 powi (bitlen a - 1) / 2 powi bitlen b"
      by (simp add: power_int_diff [symmetric] algebra_simps)
    also have "\<dots> \<le> of_int a / of_int b"
      using bitlen_rat_bounds [OF a] bitlen_rat_bounds [OF b] a b by (intro frac_le) auto
    finally show ?thesis using x by simp
  qed
  have hi: "x < 2 powi (?k + 1)"
  proof -
    have "x < 2 powi bitlen a / 2 powi (bitlen b - 1)"
      unfolding x using bitlen_rat_bounds [OF a] bitlen_rat_bounds [OF b] b a powi_pos
      by (intro frac_less) auto
    also have "\<dots> = 2 powi (?k + 1)" by (simp add: power_int_diff [symmetric] algebra_simps)
    finally show ?thesis .
  qed
  from lo hi show "2 powi binary_exponent x \<le> x" and "x < 2 powi (binary_exponent x + 1)"
    by (auto simp: binary_exponent_def q Let_def)
qed

lemma powi_mono: "j \<le> k \<Longrightarrow> (2::rat) powi j \<le> 2 powi k"
  by (simp add: power_int_increasing)

lemma powi_less: "(2::rat) powi j < 2 powi k \<Longrightarrow> j < k"
  by (meson linorder_not_less powi_mono)

lemma binary_exponent_mono: "0 < x \<Longrightarrow> x \<le> y \<Longrightarrow> binary_exponent x \<le> binary_exponent y"
proof -
  assume "0 < x" "x \<le> y"
  then have "2 powi binary_exponent x < (2::rat) powi (binary_exponent y + 1)"
    using binary_exponent_bounds(1) [of x] binary_exponent_bounds(2) [of y] by linarith
  then show ?thesis using powi_less by fastforce
qed

lemma ulp_pos: "0 < ulp x"
  by (simp add: ulp_def powi_pos)

lemma powi_split: "j \<le> k \<Longrightarrow> (2::rat) powi k = of_int (2 ^ nat (k - j)) * 2 powi j"
  by (simp add: power_int_add [symmetric] flip: power_int_of_nat)

lemma binary64_pos: "0 < x \<Longrightarrow> binary64 x = of_int (round_half_even (x / ulp x)) * ulp x"
  by (simp add: binary64_def Let_def)

lemma binary64_0 [simp]: "binary64 0 = 0"
  by (simp add: binary64_def)

lemma binary64_minus: "binary64 (- x) = - binary64 x"
  by (simp add: binary64_def Let_def round_half_even_minus flip: minus_divide_left)

text \<open>A power of two that is a multiple of the spacing bounds the rounded value.\<close>

lemma binary64_le_powi:
  assumes "0 < x" and "x \<le> 2 powi k" and "max (binary_exponent x) (- 1022) - 52 \<le> k"
  shows "binary64 x \<le> 2 powi k"
proof -
  have p: "(2::rat) powi k = of_int (2 ^ nat (k - (max (binary_exponent x) (- 1022) - 52))) * ulp x"
    unfolding ulp_def by (rule powi_split [OF assms(3)])
  then have "x / ulp x \<le> of_int (2 ^ nat (k - (max (binary_exponent x) (- 1022) - 52)))"
    using assms(2) ulp_pos [of x] by (simp add: pos_divide_le_eq)
  from round_half_even_le_int [OF this] show ?thesis
    unfolding p binary64_pos [OF assms(1)] using ulp_pos [of x] by (intro mult_right_mono) (simp_all only: of_int_le_iff less_imp_le)
qed

lemma binary64_ge_powi:
  assumes "0 < x" and "2 powi k \<le> x" and "max (binary_exponent x) (- 1022) - 52 \<le> k"
  shows "2 powi k \<le> binary64 x"
proof -
  have p: "(2::rat) powi k = of_int (2 ^ nat (k - (max (binary_exponent x) (- 1022) - 52))) * ulp x"
    unfolding ulp_def by (rule powi_split [OF assms(3)])
  then have "of_int (2 ^ nat (k - (max (binary_exponent x) (- 1022) - 52))) \<le> x / ulp x"
    using assms(2) ulp_pos [of x] by (simp add: pos_le_divide_eq)
  from round_half_even_ge_int [OF this] show ?thesis
    unfolding p binary64_pos [OF assms(1)] using ulp_pos [of x] by (intro mult_right_mono) (simp_all only: of_int_le_iff less_imp_le)
qed

lemma binary64_mono_pos:
  assumes "0 < x" and "x \<le> y"
  shows "binary64 x \<le> binary64 y"
proof (cases "ulp x = ulp y")
  case True
  have y: "0 < y" using assms by linarith
  have "round_half_even (x / ulp x) \<le> round_half_even (y / ulp x)"
    using assms(2) ulp_pos [of x] by (intro round_half_even_mono divide_right_mono) auto
  then show ?thesis
    unfolding binary64_pos [OF assms(1)] binary64_pos [OF y] True [symmetric]
    using ulp_pos [of x] by (intro mult_right_mono) (simp_all only: of_int_le_iff less_imp_le)
next
  case False
  let ?k = "binary_exponent y"
  have y: "0 < y" using assms by linarith
  have "binary_exponent x \<le> ?k" by (rule binary_exponent_mono [OF assms])
  moreover from False have "max (binary_exponent x) (- 1022) \<noteq> max ?k (- 1022)" by (auto simp: ulp_def)
  ultimately have k: "- 1022 < ?k" "binary_exponent x < ?k" by (auto simp: max_def split: if_splits)
  have "x \<le> 2 powi ?k"
    using binary_exponent_bounds(2) [OF assms(1)] powi_mono [of "binary_exponent x + 1" ?k] k(2) by linarith
  then have "binary64 x \<le> 2 powi ?k" using k by (intro binary64_le_powi assms(1)) auto
  also have "\<dots> \<le> binary64 y"
    using binary_exponent_bounds(1) [OF y] k by (intro binary64_ge_powi y) auto
  finally show ?thesis .
qed

lemma binary64_nonneg: "0 \<le> x \<Longrightarrow> 0 \<le> binary64 x"
proof (cases "x = 0")
  case False
  assume "0 \<le> x"
  with False have x: "0 < x" by simp
  have "0 \<le> round_half_even (x / ulp x)" using x ulp_pos [of x] by (intro round_half_even_ge_int) simp
  then show ?thesis using ulp_pos [of x] by (simp add: binary64_pos [OF x])
qed simp

lemma binary64_mono: "x \<le> y \<Longrightarrow> binary64 x \<le> binary64 y"
proof -
  assume le: "x \<le> y"
  consider "0 < x" | "x \<le> 0" "0 \<le> y" | "y < 0" by linarith
  then show ?thesis
  proof cases
    case 1 then show ?thesis using le by (rule binary64_mono_pos)
  next
    case 2 then show ?thesis
      using binary64_nonneg [of y] binary64_nonneg [of "- x"] by (simp add: binary64_minus)
  next
    case 3 then show ?thesis
      using binary64_mono_pos [of "- y" "- x"] le by (simp add: binary64_minus)
  qed
qed

lemma binary_exponent_eqI:
  assumes "2 powi k \<le> x" and "x < 2 powi (k + 1)"
  shows "binary_exponent x = k"
proof -
  have x: "0 < x" using assms(1) powi_pos [of k] by linarith
  from binary_exponent_bounds [OF x] assms
  have "(2::rat) powi k < 2 powi (binary_exponent x + 1)" "(2::rat) powi binary_exponent x < 2 powi (k + 1)"
    by linarith+
  from this [THEN powi_less] show ?thesis by simp
qed

text \<open>The doubles: \<open>m * 2 ^ e\<close> with at most 53 bits of \<open>m\<close>. Rounding keeps them.\<close>

lemma binary64_multiple:
  assumes "0 < x" and "x = of_int m * 2 powi e" and "max (binary_exponent x) (- 1022) - 52 \<le> e"
  shows "binary64 x = x"
proof -
  have "(2::rat) powi e = of_int (2 ^ nat (e - (max (binary_exponent x) (- 1022) - 52))) * ulp x"
    unfolding ulp_def by (rule powi_split [OF assms(3)])
  then have "x = of_int (m * 2 ^ nat (e - (max (binary_exponent x) (- 1022) - 52))) * ulp x"
    using assms(2) by simp
  then obtain k where "x = of_int k * ulp x" by blast
  moreover from this have "x / ulp x = of_int k" using ulp_pos [of x] by (metis divide_eq_eq less_irrefl)
  ultimately show ?thesis by (simp add: binary64_pos [OF assms(1)])
qed

lemma binary64_exact:
  assumes "0 < m" and "m \<le> 2 ^ 53" and "- 1074 \<le> e"
  shows "binary64 (of_int m * 2 powi e) = of_int m * 2 powi e"
proof (cases "m = 2 ^ 53")
  case True
  have x: "of_int m * 2 powi e = (2::rat) powi (53 + e)" unfolding True by (simp add: power_int_add)
  have "binary_exponent (2 powi (53 + e)) = 53 + e"
    by (rule binary_exponent_eqI) (simp_all add: power_int_strict_increasing)
  then show ?thesis
    unfolding x using assms(3) powi_pos [of "53 + e"]
    by (intro binary64_multiple [where m = 1 and e = "53 + e"]) auto
next
  case False
  let ?x = "of_int m * (2::rat) powi e"
  have pos: "0 < ?x" using assms(1) powi_pos [of e] by simp
  have "(of_int m :: rat) < of_int (2 ^ 53)" using False assms(2) by (simp only: of_int_less_iff)
  then have "?x < of_int (2 ^ 53) * 2 powi e" using powi_pos [of e] by (rule mult_strict_right_mono)
  then have "?x < 2 powi (53 + e)" by (simp add: power_int_add)
  with binary_exponent_bounds(1) [OF pos] have "(2::rat) powi binary_exponent ?x < 2 powi (53 + e)" by linarith
  then have "binary_exponent ?x < 53 + e" by (rule powi_less)
  then show ?thesis using assms(3) by (intro binary64_multiple [OF pos refl]) auto
qed

lemma binary64_of_int: "\<bar>n\<bar> \<le> 2 ^ 53 \<Longrightarrow> binary64 (of_int n) = of_int n"
proof -
  assume n: "\<bar>n\<bar> \<le> 2 ^ 53"
  consider "n = 0" | "0 < n" | "n < 0" by linarith
  then show ?thesis
  proof cases
    case 2 then show ?thesis using binary64_exact [of n 0] n by simp
  next
    case 3 then show ?thesis using binary64_exact [of "- n" 0] n by (simp add: binary64_minus)
  qed simp
qed

lemma binary64_idem: "binary64 (binary64 x) = binary64 x"
proof -
  have pos: "binary64 (binary64 x) = binary64 x" if x: "0 < x" for x
  proof -
    let ?E = "max (binary_exponent x) (- 1022)" and ?m = "round_half_even (x / ulp x)"
    have "x < 2 powi (?E + 1)"
      using binary_exponent_bounds(2) [OF x] powi_mono [of "binary_exponent x + 1" "?E + 1"] by simp
    also have "(2::rat) powi (?E + 1) = of_int (2 ^ 53) * ulp x"
      unfolding ulp_def by (simp add: power_int_add power_int_diff)
    finally have "x / ulp x \<le> of_int (2 ^ 53)" using ulp_pos [of x] by (simp add: pos_divide_le_eq)
    then have m: "?m \<le> 2 ^ 53" by (rule round_half_even_le_int)
    have "0 \<le> ?m" using x ulp_pos [of x] by (intro round_half_even_ge_int) simp
    then consider "?m = 0" | "0 < ?m" by linarith
    then show ?thesis
    proof cases
      case 2
      from binary64_exact [OF this m, of "?E - 52"] show ?thesis
        by (simp add: binary64_pos [OF x] ulp_def)
    qed (simp add: binary64_pos [OF x])
  qed
  consider "x = 0" | "0 < x" | "x < 0" by linarith
  then show ?thesis
  proof cases
    case 3 then show ?thesis using pos [of "- x"] by (simp add: binary64_minus)
  qed (use pos in simp_all)
qed

section \<open>What the clients use of the rounding\<close>

text \<open>
  A rounding is monotone, keeps what it has rounded, 0 and 1, and has a bound \<open>M\<close> at which
  adding one more is lost: sums of numbers up to 1 stay below it.
\<close>

locale rounding =
  fixes rd :: "rat \<Rightarrow> rat" and M :: rat
  assumes rd_mono: "x \<le> y \<Longrightarrow> rd x \<le> rd y"
    and rd_idem: "rd (rd x) = rd x"
    and rd_zero: "rd 0 = 0"
    and rd_one: "rd 1 = 1"
    and rd_saturates: "rd (M + 1) = M"
    and M_pos: "1 \<le> M"
begin

lemma rd_ge_zero: "0 \<le> x \<Longrightarrow> 0 \<le> rd x"
  using rd_mono [of 0 x] by (simp add: rd_zero)

lemma rd_le_one: "x \<le> 1 \<Longrightarrow> rd x \<le> 1"
  using rd_mono [of x 1] by (simp add: rd_one)

text \<open>A number scaled by a factor of the unit interval does not grow.\<close>

lemma rd_scaled: "rd w = w \<Longrightarrow> 0 \<le> w \<Longrightarrow> 0 \<le> q \<Longrightarrow> q \<le> 1 \<Longrightarrow> 0 \<le> rd (w * q) \<and> rd (w * q) \<le> w"
  using rd_mono [of "w * q" w] by (simp add: rd_ge_zero mult_left_le)

text \<open>A ratio of a part to the whole lies in the unit interval.\<close>

lemma rd_ratio: "0 \<le> s \<Longrightarrow> s \<le> t \<Longrightarrow> 0 < t \<Longrightarrow> 0 \<le> rd (s / t) \<and> rd (s / t) \<le> 1"
  by (simp add: rd_ge_zero rd_le_one)

text \<open>A running sum of numbers up to 1 stays between 0 and the saturation bound.\<close>

lemma rd_sum_step: "0 \<le> s \<Longrightarrow> s \<le> M \<Longrightarrow> 0 \<le> w \<Longrightarrow> w \<le> 1 \<Longrightarrow> 0 \<le> rd (s + w) \<and> rd (s + w) \<le> M"
  using rd_mono [of "s + w" "M + 1"] by (simp add: rd_ge_zero rd_saturates)

end

interpretation double: rounding binary64 "9007199254740992"
proof unfold_locales
  show "binary64 1 = 1" using binary64_of_int [of 1] by simp
  show "binary64 (9007199254740992 + 1) = 9007199254740992" by code_simp
qed (simp_all add: binary64_mono binary64_idem)

text \<open>No overflow up to the saturation bound.\<close>

lemma to_number_bounded: "\<bar>binary64 x\<bar> \<le> 9007199254740992 \<Longrightarrow> to_number x = Fin (binary64 x)"
proof (cases "binary64 x = 0")
  case False
  assume le: "\<bar>binary64 x\<bar> \<le> 9007199254740992"
  have "2 powi binary_exponent \<bar>binary64 x\<bar> \<le> (9007199254740992::rat)"
    using binary_exponent_bounds(1) [of "\<bar>binary64 x\<bar>"] False le by linarith
  then have "(2::rat) powi binary_exponent \<bar>binary64 x\<bar> < 2 powi 54" by (simp add: power_int_def)
  from powi_less [OF this] show ?thesis by (simp add: to_number_def Let_def)
qed (simp add: to_number_def)

lemma to_number_small: "\<bar>x\<bar> \<le> 9007199254740992 \<Longrightarrow> to_number x = Fin (binary64 x)"
proof (rule to_number_bounded)
  assume x: "\<bar>x\<bar> \<le> 9007199254740992"
  have m: "binary64 9007199254740992 = 9007199254740992" using binary64_of_int [of 9007199254740992] by simp
  show "\<bar>binary64 x\<bar> \<le> 9007199254740992"
    using binary64_mono [of x 9007199254740992] binary64_mono [of "- 9007199254740992" x] x m
    unfolding abs_le_iff binary64_minus by linarith
qed

section \<open>Bounds of computed numbers\<close>

text \<open>A finite number between two multiples of \<open>1 / 1024\<close>, which rounding keeps.\<close>

definition near :: "js_number \<Rightarrow> int \<Rightarrow> int \<Rightarrow> bool" where
  "near x m n \<longleftrightarrow> (\<exists>q. x = Fin q \<and> of_int m / 1024 \<le> q \<and> q \<le> of_int n / 1024)"

lemma binary64_grid: "\<bar>m\<bar> \<le> 2 ^ 53 \<Longrightarrow> binary64 (of_int m / 1024) = of_int m / 1024"
proof -
  assume m: "\<bar>m\<bar> \<le> 2 ^ 53"
  have p: "(2::rat) powi (- 10) = 1 / 1024" by (simp add: power_int_minus)
  consider "m = 0" | "0 < m" | "m < 0" by linarith
  then show ?thesis
  proof cases
    case 2 then show ?thesis using binary64_exact [of m "- 10"] m by (simp add: p)
  next
    case 3 then show ?thesis using binary64_exact [of "- m" "- 10"] m binary64_minus [of "of_int (- m) / 1024"]
      by (simp add: p)
  qed simp
qed

lemma near_number:
  assumes "of_int m / 1024 \<le> x" and "x \<le> of_int n / 1024" and "\<bar>m\<bar> \<le> 1000000" and "\<bar>n\<bar> \<le> 1000000"
  shows "near (to_number x) m n"
proof -
  have b: "of_int m / 1024 \<le> binary64 x" "binary64 x \<le> of_int n / 1024"
    using binary64_mono [OF assms(1)] binary64_mono [OF assms(2)] assms(3,4) by (simp_all add: binary64_grid)
  have "(of_int (- 1000000) :: rat) \<le> of_int m" "(of_int n :: rat) \<le> of_int 1000000"
    unfolding of_int_le_iff using assms(3,4) by linarith+
  with assms(1,2) have "\<bar>x\<bar> \<le> 9007199254740992" by (simp add: abs_le_iff field_simps)
  then have "to_number x = Fin (binary64 x)" by (rule to_number_small)
  with b show ?thesis by (simp add: near_def)
qed

lemma near_mul:
  assumes "near x a b" and "near y c d" and "0 \<le> a" and "0 \<le> c"
    and "m * 1024 \<le> a * c" and "b * d \<le> n * 1024" and "\<bar>m\<bar> \<le> 1000000" and "\<bar>n\<bar> \<le> 1000000"
  shows "near (js_mul x y) m n"
proof -
  obtain p q where x: "x = Fin p" "of_int a / 1024 \<le> p" "p \<le> of_int b / 1024"
    and y: "y = Fin q" "of_int c / 1024 \<le> q" "q \<le> of_int d / 1024"
    using assms(1,2) by (auto simp: near_def)
  have nn: "0 \<le> (of_int a / 1024 :: rat)" "0 \<le> (of_int c / 1024 :: rat)" using assms(3,4) by simp_all
  then have pq: "0 \<le> p" "0 \<le> q" using x(2) y(2) by linarith+
  have "(of_int (m * 1024) :: rat) \<le> of_int (a * c)" "(of_int (b * d) :: rat) \<le> of_int (n * 1024)"
    unfolding of_int_le_iff by (rule assms(5), rule assms(6))
  then have mn: "of_int m / 1024 \<le> of_int a / 1024 * (of_int c / 1024 :: rat)"
    "of_int b / 1024 * (of_int d / 1024 :: rat) \<le> of_int n / 1024" by (simp_all add: field_simps)
  have "of_int a / 1024 * (of_int c / 1024) \<le> p * q" using x y nn pq by (intro mult_mono) auto
  moreover have "p * q \<le> of_int b / 1024 * (of_int d / 1024)" using x y pq by (intro mult_mono) linarith+
  ultimately have "of_int m / 1024 \<le> p * q" "p * q \<le> of_int n / 1024" using mn by linarith+
  from near_number [OF this assms(7,8)] show ?thesis by (simp add: x y js_mul_def)
qed

lemma near_sub:
  assumes "near x a b" and "near y c d" and "m \<le> a - d" and "b - c \<le> n" and "\<bar>m\<bar> \<le> 1000000" and "\<bar>n\<bar> \<le> 1000000"
  shows "near (js_sub x y) m n"
proof -
  obtain p q where x: "x = Fin p" "of_int a / 1024 \<le> p" "p \<le> of_int b / 1024"
    and y: "y = Fin q" "of_int c / 1024 \<le> q" "q \<le> of_int d / 1024"
    using assms(1,2) by (auto simp: near_def)
  have "(of_int m :: rat) \<le> of_int (a - d)" "(of_int (b - c) :: rat) \<le> of_int n" using assms(3,4) by (simp_all only: of_int_le_iff)
  then have "near (to_number (p - q)) m n"
    using x y by (intro near_number assms(5,6)) (simp_all add: field_simps)
  then show ?thesis by (simp add: x y js_sub_def)
qed

lemma near_add_0: "near x a b \<Longrightarrow> \<bar>a\<bar> \<le> 1000000 \<Longrightarrow> \<bar>b\<bar> \<le> 1000000 \<Longrightarrow> near (js_add (Fin 0) x) a b"
proof -
  assume a: "near x a b" "\<bar>a\<bar> \<le> 1000000" "\<bar>b\<bar> \<le> 1000000"
  then obtain p where "x = Fin p" "of_int a / 1024 \<le> p" "p \<le> of_int b / 1024" by (auto simp: near_def)
  with near_number [of a p b] a show ?thesis by simp
qed

lemma near_Fin: "of_int m / 1024 \<le> q \<Longrightarrow> q \<le> of_int n / 1024 \<Longrightarrow> near (Fin q) m n"
  by (simp add: near_def)

lemma near_less: "near x a b \<Longrightarrow> near y c d \<Longrightarrow> b < c \<Longrightarrow> js_less x y"
proof -
  assume n: "near x a b" "near y c d" "b < c"
  then have "(of_int b :: rat) < of_int c" by simp
  then have "(of_int b / 1024 :: rat) < of_int c / 1024" by simp
  with n(1,2) show ?thesis unfolding near_def by auto
qed

lemma near_finite: "near x a b \<Longrightarrow> isFinite x"
  by (auto simp: near_def)

end
