(* ===== verification/Boot_Types.thy ===== *)
theory Boot_Types
  imports Prelude_Number Core_StartCondition
begin

text \<open>
  \<open>packages/boot/src/termination/{types,stateEvidenceLedger,verifierRegistry}.ts\<close>: the data
  of the termination controller, the projection of a turn into the state that is judged, and
  the registry of deterministic verifiers. Scores, weights and thresholds are JavaScript
  numbers; counts are naturals. The text functions (\<open>trim\<close>, \<open>toLowerCase\<close>, \<open>split\<close>, \<open>slice\<close>)
  are those of ASCII text.
\<close>

section \<open>Goal contract and agent state (types.ts)\<close>

datatype criterion_kind = HardCriterion | SoftCriterion

record criterion =
  cr_id :: string
  cr_description :: string
  cr_kind :: criterion_kind
  cr_weight :: js_number
  cr_threshold :: js_number
  cr_verifierId :: string

datatype compiled_by = ByLlm | BySystem

record goal_contract =
  gc_contractId :: string
  gc_instruction :: string
  gc_criteria :: "criterion list"
  gc_frozenAt :: string
  gc_compiledBy :: compiled_by

record environment_state =
  env_worldSummary :: string
  env_headRef :: "string option"
  env_epochId :: "string option"
  env_participantCount :: nat
  env_artifactCount :: nat
  env_auditTailLength :: nat

record artifact_set =
  as_artifactIds :: "string list"
  as_contentRefs :: "string list"

datatype evidence_tier = EnvironmentTier | ToolTier | ArtifactTier | UserTier | AgentSelfTier

record evidence =
  ev_ref :: string
  ev_tier :: evidence_tier
  ev_rho :: js_number
  ev_summary :: string

record execution_trace =
  tr_conversationTurns :: nat
  tr_plainTextTurns :: nat
  tr_toolCallTurns :: nat
  tr_recentAssistantTexts :: "string list"
  tr_committedOperations :: nat
  tr_rejectedOperations :: nat

record pending_reply =
  pr_text :: string
  pr_hasToolCalls :: bool

record agent_state =
  ag_environment :: environment_state
  ag_artifacts :: artifact_set
  ag_evidence :: "evidence list"
  ag_trace :: execution_trace
  ag_pendingReply :: pending_reply

record criterion_evaluation =
  ce_criterionId :: string
  ce_q :: js_number
  ce_rho :: js_number
  ce_passed :: bool
  ce_evidenceRefs :: "string list"
  ce_rationale :: string

record judge_call_record =
  jr_criterionId :: string
  jr_promptDigest :: string
  jr_modelId :: string
  jr_seed :: string
  jr_rawQ :: "js_number option"
  jr_rawRationale :: "string option"
  jr_clamped :: bool
  jr_fellBack :: bool

record termination_audit =
  ta_H :: js_number
  ta_C :: js_number
  ta_U :: js_number
  ta_VOC_star :: js_number
  ta_residual :: "js_number list"
  ta_criterionEvals :: "criterion_evaluation list"
  ta_decisionChain :: "string list"
  ta_judgeRecords :: "judge_call_record list option"

text \<open>The union \<open>ControlVerdict\<close>: every member carries its audit.\<close>

datatype control_verdict =
    DONE (cv_audit: termination_audit)
  | CONTINUE (cv_audit: termination_audit) (cv_recommendedAction: "string option")
  | VERIFY (cv_audit: termination_audit) (cv_missingEvidence: "string list")
  | ASK_USER (cv_audit: termination_audit) (cv_question: string)
  | REPLAN (cv_audit: termination_audit) (cv_reason: string)
  | STALLED (cv_audit: termination_audit) (cv_blocker: string)

record controller_thresholds =
  th_tauC :: js_number
  th_tauU :: js_number
  th_epsilon :: js_number
  th_lambda :: js_number
  th_mu :: js_number
  th_hardGate :: js_number

definition DEFAULT_THRESHOLDS :: controller_thresholds where
  "DEFAULT_THRESHOLDS =
     \<lparr>th_tauC = to_number (8 / 10), th_tauU = to_number (2 / 10), th_epsilon = to_number (5 / 100),
      th_lambda = to_number (1 / 10), th_mu = to_number (2 / 10), th_hardGate = Fin 1\<rparr>"

datatype action_kind = ToolAction | CoordinationAction | TextAction

record candidate_action =
  ca_name :: string
  ca_kind :: action_kind

record value_of_continuation =
  vc_perAction :: "(string, js_number) jsmap"
  vc_star :: js_number
  vc_bestAction :: "string option"

section \<open>The judged state (stateEvidenceLedger.ts)\<close>

text \<open>\<open>WorldSnapshot\<close> and \<open>TraceCounts\<close> have the fields of the records they become.\<close>

type_synonym world_snapshot = environment_state
type_synonym trace_counts = execution_trace

definition TIER_RHO :: "evidence_tier \<Rightarrow> js_number" where
  "TIER_RHO t =
     (case t of EnvironmentTier \<Rightarrow> Fin 1 | ToolTier \<Rightarrow> to_number (9 / 10) | ArtifactTier \<Rightarrow> to_number (8 / 10)
      | UserTier \<Rightarrow> to_number (5 / 10) | AgentSelfTier \<Rightarrow> to_number (3 / 10))"

fun messageTier :: "transcript_message \<Rightarrow> evidence_tier option" where
  "messageTier (MTool _ _) = Some ToolTier"
| "messageTier (MUser _) = Some UserTier"
| "messageTier (MAssistant _ _) = Some AgentSelfTier"
| "messageTier (MSystem _) = None"

fun refForMessage :: "transcript_message \<Rightarrow> string option" where
  "refForMessage (MTool i _) = Some i"
| "refForMessage _ = None"

definition message_evidence :: "transcript_message \<Rightarrow> evidence list \<Rightarrow> evidence list" where
  "message_evidence m items =
     (case messageTier m of
        None \<Rightarrow> items
      | Some tier \<Rightarrow>
          items @ [\<lparr>ev_ref = (case refForMessage m of Some r \<Rightarrow> r | None \<Rightarrow> ''msg:'' @ show_nat (length items)),
                    ev_tier = tier, ev_rho = TIER_RHO tier, ev_summary = take 120 (m_content m)\<rparr>])"

definition content_evidence :: "string \<Rightarrow> evidence" where
  "content_evidence r =
     \<lparr>ev_ref = r, ev_tier = ArtifactTier, ev_rho = TIER_RHO ArtifactTier, ev_summary = ''written content''\<rparr>"

definition collectAgentState ::
  "world_snapshot \<Rightarrow> trace_counts \<Rightarrow> artifact_set \<Rightarrow> transcript_message list \<Rightarrow> pending_reply \<Rightarrow> agent_state" where
  "collectAgentState world counts produce messages reply =
     \<lparr>ag_environment = world, ag_artifacts = produce,
      ag_evidence = fold message_evidence messages [] @ map content_evidence (as_contentRefs produce),
      ag_trace = counts, ag_pendingReply = reply\<rparr>"

definition maxCredibility :: "evidence list \<Rightarrow> js_number" where
  "maxCredibility items = (if items = [] then Fin 0 else math_max (map ev_rho items))"

section \<open>Words\<close>

text \<open>\<open>text.split(/\s+/)\<close>: a leading or trailing run of spaces gives an empty field.\<close>

function split_ws :: "string \<Rightarrow> string list" where
  "split_ws s =
     (let w = takeWhile (\<lambda>c. \<not> is_space c) s; r = dropWhile (\<lambda>c. \<not> is_space c) s
      in if r = [] then [w] else w # split_ws (dropWhile is_space r))"
  by pat_completeness auto

termination
proof (relation "measure length")
  fix s w r assume "r = dropWhile (\<lambda>c. \<not> is_space c) s" "r \<noteq> []"
  then have "is_space (hd r)" using hd_dropWhile [of "\<lambda>c. \<not> is_space c" s] by auto
  then have "length (dropWhile is_space r) < length r"
    using \<open>r \<noteq> []\<close> by (cases r) (auto simp: le_imp_less_Suc length_dropWhile_le)
  also have "\<dots> \<le> length s" unfolding \<open>r = _\<close> by (rule length_dropWhile_le)
  finally show "(dropWhile is_space r, s) \<in> measure length" by simp
qed simp

declare split_ws.simps [simp del]

definition words_of :: "string \<Rightarrow> string list" where
  "words_of s = new_Set (filter (\<lambda>w. w \<noteq> []) (split_ws s))"

text \<open>\<open>|A \<inter> B| / |A \<union> B|\<close> of two word sets, 0 when one is empty.\<close>

definition word_overlap :: "string list \<Rightarrow> string list \<Rightarrow> js_number" where
  "word_overlap sa sb =
     (if sa = [] \<or> sb = [] then Fin 0
      else js_div (Fin (of_nat (length (filter (\<lambda>w. w \<in> set sb) sa))))
                  (Fin (of_nat (length (new_Set (sa @ sb))))))"

section \<open>Verifiers (verifierRegistry.ts)\<close>

record verifier =
  vf_id :: string
  vf_evaluate :: "criterion \<Rightarrow> agent_state \<Rightarrow> criterion_evaluation"

type_synonym verifier_registry = "(string, verifier) jsmap"

definition register :: "verifier \<Rightarrow> verifier_registry \<Rightarrow> string + verifier_registry" where
  "register v r =
     (if map_has r (vf_id v) then Inl (''Verifier '' @ [CHR 0x22] @ vf_id v @ [CHR 0x22] @ '' is already registered.'')
      else Inr (map_set (vf_id v) v r))"

fun register_all :: "verifier list \<Rightarrow> verifier_registry \<Rightarrow> string + verifier_registry" where
  "register_all [] r = Inr r"
| "register_all (v # vs) r = (case register v r of Inl e \<Rightarrow> Inl e | Inr r' \<Rightarrow> register_all vs r')"

definition new_VerifierRegistry :: "verifier list \<Rightarrow> string + verifier_registry" where
  "new_VerifierRegistry vs = register_all vs []"

definition EM_DASH :: string where "EM_DASH = [CHR 0xE2, CHR 0x80, CHR 0x94]"
definition ELLIPSIS :: string where "ELLIPSIS = [CHR 0xE2, CHR 0x80, CHR 0xA6]"
definition ARROW :: string where "ARROW = [CHR 0xE2, CHR 0x86, CHR 0x92]"
definition RHO :: string where "RHO = [CHR 0xCF, CHR 0x81]"
definition TAU :: string where "TAU = [CHR 0xCF, CHR 0x84]"
definition EPSILON :: string where "EPSILON = [CHR 0xCE, CHR 0xB5]"

definition registry_evaluate ::
  "verifier_registry \<Rightarrow> string \<Rightarrow> criterion \<Rightarrow> agent_state \<Rightarrow> criterion_evaluation" where
  "registry_evaluate r i c s =
     (case map_get r i of
        None \<Rightarrow>
          \<lparr>ce_criterionId = cr_id c, ce_q = Fin 0, ce_rho = Fin 1,
           ce_passed = js_le (cr_threshold c) (js_mul (Fin 0) (Fin 1)), ce_evidenceRefs = [],
           ce_rationale = ''Unknown verifier '' @ [CHR 0x22] @ i @ [CHR 0x22] @ '' '' @ EM_DASH @ '' failing closed.''\<rparr>
      | Some v \<Rightarrow> vf_evaluate v c s)"

definition normalize_text :: "string \<Rightarrow> string" where
  "normalize_text s = toLowerCase (trim s)"

definition jaccardSimilarity :: "string \<Rightarrow> string \<Rightarrow> js_number" where
  "jaccardSimilarity a b = word_overlap (words_of (normalize_text a)) (words_of (normalize_text b))"

definition show_bool :: "bool \<Rightarrow> string" where
  "show_bool b = (if b then ''true'' else ''false'')"

definition looks_stuck :: "execution_trace \<Rightarrow> bool" where
  "looks_stuck t \<longleftrightarrow>
     tr_plainTextTurns t \<ge> 3 \<and> tr_toolCallTurns t = 0 \<and> tr_committedOperations t = 0"

definition duplicate_reply :: "string list \<Rightarrow> bool" where
  "duplicate_reply recent \<longleftrightarrow>
     length recent \<ge> 2 \<and>
     js_le (to_number (6 / 10)) (jaccardSimilarity (recent ! (length recent - 1)) (recent ! (length recent - 2)))"

definition no_infinite_loop_evaluate :: "criterion \<Rightarrow> agent_state \<Rightarrow> criterion_evaluation" where
  "no_infinite_loop_evaluate c s =
     (let trace = ag_trace s; dup = duplicate_reply (tr_recentAssistantTexts trace)
      in if looks_stuck trace \<or> dup
         then \<lparr>ce_criterionId = cr_id c, ce_q = Fin 0, ce_rho = Fin 1, ce_passed = False, ce_evidenceRefs = [],
               ce_rationale = ''Unproductive loop detected: plainTextTurns='' @ show_nat (tr_plainTextTurns trace) @ '', ''
                 @ ''toolCallTurns='' @ show_nat (tr_toolCallTurns trace)
                 @ '', committed='' @ show_nat (tr_committedOperations trace) @ '', ''
                 @ ''duplicateReply='' @ show_bool dup @ ''.''\<rparr>
         else \<lparr>ce_criterionId = cr_id c, ce_q = Fin 1, ce_rho = Fin 1, ce_passed = True, ce_evidenceRefs = [],
               ce_rationale = ''No unproductive loop: plainTextTurns='' @ show_nat (tr_plainTextTurns trace) @ ''.''\<rparr>)"

definition NO_INFINITE_LOOP_VERIFIER :: verifier where
  "NO_INFINITE_LOOP_VERIFIER = \<lparr>vf_id = ''no_infinite_loop'', vf_evaluate = no_infinite_loop_evaluate\<rparr>"

text \<open>The most similar earlier reply: the first one with the largest similarity above 0.\<close>

fun most_similar :: "string \<Rightarrow> string list \<Rightarrow> js_number \<times> string \<Rightarrow> js_number \<times> string" where
  "most_similar reply [] best = best"
| "most_similar reply (p # ps) (maxSim, matched) =
     (let sim = jaccardSimilarity reply p
      in most_similar reply ps (if js_less maxSim sim then (sim, take 40 p) else (maxSim, matched)))"

definition duplicate_reply_evaluate :: "criterion \<Rightarrow> agent_state \<Rightarrow> criterion_evaluation" where
  "duplicate_reply_evaluate c s =
     (let reply = pr_text (ag_pendingReply s)
      in if trim reply = []
         then \<lparr>ce_criterionId = cr_id c, ce_q = Fin 0, ce_rho = Fin 1, ce_passed = False, ce_evidenceRefs = [],
               ce_rationale = ''Pending reply is empty.''\<rparr>
         else let (maxSim, matched) =
                    most_similar reply (butlast (tr_recentAssistantTexts (ag_trace s))) (Fin 0, []);
                  duplicate = js_le (to_number (6 / 10)) maxSim
              in \<lparr>ce_criterionId = cr_id c, ce_q = (if duplicate then Fin 0 else Fin 1), ce_rho = Fin 1,
                  ce_passed = (\<not> duplicate), ce_evidenceRefs = [],
                  ce_rationale =
                    (if duplicate
                     then ''Pending reply duplicates a prior reply (similarity '' @ toFixed 2 maxSim
                            @ ''; matched '' @ [CHR 0x22] @ matched @ ELLIPSIS @ [CHR 0x22] @ '').''
                     else ''Pending reply is distinct from prior replies (max similarity '' @ toFixed 2 maxSim @ '').'')\<rparr>)"

definition DUPLICATE_REPLY_VERIFIER :: verifier where
  "DUPLICATE_REPLY_VERIFIER = \<lparr>vf_id = ''duplicate_reply'', vf_evaluate = duplicate_reply_evaluate\<rparr>"

definition coordination_progress_evaluate :: "criterion \<Rightarrow> agent_state \<Rightarrow> criterion_evaluation" where
  "coordination_progress_evaluate c s =
     (let committed = tr_committedOperations (ag_trace s); q = (if committed > 0 then Fin 1 else Fin 0)
      in \<lparr>ce_criterionId = cr_id c, ce_q = q, ce_rho = Fin 1, ce_passed = js_le (cr_threshold c) (js_mul q (Fin 1)),
          ce_evidenceRefs = [],
          ce_rationale = (if committed > 0 then show_nat committed @ '' coordination operation(s) committed.''
                          else ''No coordination operation committed yet.'')\<rparr>)"

definition COORDINATION_PROGRESS_VERIFIER :: verifier where
  "COORDINATION_PROGRESS_VERIFIER = \<lparr>vf_id = ''coordination_progress'', vf_evaluate = coordination_progress_evaluate\<rparr>"

definition task_artifact_exists_evaluate :: "criterion \<Rightarrow> agent_state \<Rightarrow> criterion_evaluation" where
  "task_artifact_exists_evaluate c s =
     (let count = length (as_artifactIds (ag_artifacts s)) + length (as_contentRefs (ag_artifacts s));
          q = (if count > 0 then Fin 1 else Fin 0)
      in \<lparr>ce_criterionId = cr_id c, ce_q = q, ce_rho = Fin 1, ce_passed = js_le (cr_threshold c) (js_mul q (Fin 1)),
          ce_evidenceRefs = as_contentRefs (ag_artifacts s),
          ce_rationale = (if count > 0 then show_nat count @ '' artifact(s)/content ref(s) produced.''
                          else ''No artifact produced yet.'')\<rparr>)"

definition TASK_ARTIFACT_EXISTS_VERIFIER :: verifier where
  "TASK_ARTIFACT_EXISTS_VERIFIER = \<lparr>vf_id = ''task_artifact_exists'', vf_evaluate = task_artifact_exists_evaluate\<rparr>"

definition structured_rubric_evaluate :: "criterion \<Rightarrow> agent_state \<Rightarrow> criterion_evaluation" where
  "structured_rubric_evaluate c s =
     (let hasReply = (trim (pr_text (ag_pendingReply s)) \<noteq> []);
          hasProgress = (tr_committedOperations (ag_trace s) > 0 \<or> tr_toolCallTurns (ag_trace s) > 0);
          q = js_add (if hasReply then to_number (5 / 10) else Fin 0) (if hasProgress then to_number (5 / 10) else Fin 0)
      in \<lparr>ce_criterionId = cr_id c, ce_q = q, ce_rho = to_number (3 / 10),
          ce_passed = js_le (cr_threshold c) (js_mul q (to_number (3 / 10))), ce_evidenceRefs = [],
          ce_rationale = ''Rubric placeholder: reply='' @ show_bool hasReply @ '', progress='' @ show_bool hasProgress @ ''.''\<rparr>)"

definition STRUCTURED_RUBRIC_VERIFIER :: verifier where
  "STRUCTURED_RUBRIC_VERIFIER = \<lparr>vf_id = ''structured_rubric'', vf_evaluate = structured_rubric_evaluate\<rparr>"

definition BUILTIN_VERIFIERS :: "verifier list" where
  "BUILTIN_VERIFIERS =
     [NO_INFINITE_LOOP_VERIFIER, DUPLICATE_REPLY_VERIFIER, COORDINATION_PROGRESS_VERIFIER,
      TASK_ARTIFACT_EXISTS_VERIFIER, STRUCTURED_RUBRIC_VERIFIER]"

end
