(* ===== verification/Boot_Judge.thy ===== *)
theory Boot_Judge
  imports Boot_Types
begin

text \<open>
  \<open>packages/boot/src/termination/{judgeBudget,judgeAudit,judgeVerifier,judgeCalibration}.ts\<close>:
  the ceilings on judge calls, the audit journal, the judge verifier with its per-turn cache,
  and the calibration run. The language models are parameters: an adapter maps the number of
  the call and the messages to a response, or \<open>None\<close> where the call throws. SHA-256 is a
  parameter. The readings of the clock are arguments.
\<close>

section \<open>Budget (judgeBudget.ts)\<close>

record judge_budget_limits =
  bl_maxJudgeCalls :: "js_number option"
  bl_maxTokens :: "js_number option"
  bl_maxCostUsd :: "js_number option"
  bl_maxWallMs :: "js_number option"
  bl_hardKillEnabled :: "bool option"

record judge_budget_reservation =
  br_reservationId :: string
  br_reservedAt :: js_number
  br_estimatedTokens :: js_number
  br_estimatedCostUsd :: js_number

record judge_budget_reconcile =
  bc_reservationId :: string
  bc_actualTokens :: js_number
  bc_actualCostUsd :: js_number
  bc_wallMs :: js_number

text \<open>
  The variables a policy closes over; \<open>bs_reservationSeq\<close> is the counter of the module,
  which every policy shares.
\<close>

record budget_state =
  bs_calls :: js_number
  bs_tokens :: js_number
  bs_costUsd :: js_number
  bs_wallMs :: js_number
  bs_hardKilled :: bool
  bs_exhaustedReason :: "string option"
  bs_startedAt :: js_number
  bs_open :: "(string, judge_budget_reservation) jsmap"
  bs_reservationSeq :: nat

definition createJudgeBudgetPolicy :: "js_number \<Rightarrow> nat \<Rightarrow> budget_state" where
  "createJudgeBudgetPolicy now seq =
     \<lparr>bs_calls = Fin 0, bs_tokens = Fin 0, bs_costUsd = Fin 0, bs_wallMs = Fin 0, bs_hardKilled = False,
      bs_exhaustedReason = None, bs_startedAt = now, bs_open = [], bs_reservationSeq = seq\<rparr>"

definition maybeHardKill :: "judge_budget_limits \<Rightarrow> string \<Rightarrow> budget_state \<Rightarrow> budget_state" where
  "maybeHardKill l reason s =
     (if bl_hardKillEnabled l = Some False then s
      else s\<lparr>bs_hardKilled := True, bs_exhaustedReason := Some reason\<rparr>)"

definition exceeded :: "string \<Rightarrow> js_number \<Rightarrow> string" where
  "exceeded name limit = name @ '' '' @ number_to_string limit @ '' exceeded''"

definition over :: "js_number option \<Rightarrow> js_number \<Rightarrow> bool" where
  "over limit x = (case limit of None \<Rightarrow> False | Some m \<Rightarrow> js_less m x)"

definition checkSpendCeilings ::
  "judge_budget_limits \<Rightarrow> js_number \<Rightarrow> js_number \<Rightarrow> js_number \<Rightarrow> js_number \<Rightarrow> string option" where
  "checkSpendCeilings l startedAt now nextTokens nextCost =
     (if over (bl_maxTokens l) nextTokens then Some (exceeded ''maxTokens'' (the (bl_maxTokens l)))
      else if over (bl_maxCostUsd l) nextCost then Some (exceeded ''maxCostUsd'' (the (bl_maxCostUsd l)))
      else if over (bl_maxWallMs l) (js_sub now startedAt) then Some (exceeded ''maxWallMs'' (the (bl_maxWallMs l)))
      else None)"

text \<open>\<open>reserve\<close>: the estimate's tokens and cost, and two readings of the clock.\<close>

definition reserve_spend ::
  "judge_budget_limits \<Rightarrow> js_number option \<times> js_number option \<Rightarrow> js_number \<times> js_number \<Rightarrow> budget_state
    \<Rightarrow> (string + judge_budget_reservation) \<times> budget_state" where
  "reserve_spend l estimate clock s =
     (let estTokens = (case fst estimate of Some t \<Rightarrow> t | None \<Rightarrow> Fin 0);
          estCost = (case snd estimate of Some t \<Rightarrow> t | None \<Rightarrow> Fin 0)
      in case checkSpendCeilings l (bs_startedAt s) (fst clock) (js_add (bs_tokens s) estTokens)
                (js_add (bs_costUsd s) estCost) of
           Some reason \<Rightarrow> (Inl reason, maybeHardKill l reason s)
         | None \<Rightarrow>
             (let seq = Suc (bs_reservationSeq s);
                  r = \<lparr>br_reservationId = ''jbud-'' @ show_nat seq, br_reservedAt = snd clock,
                       br_estimatedTokens = estTokens, br_estimatedCostUsd = estCost\<rparr>
              in (Inr r, s\<lparr>bs_reservationSeq := seq, bs_open := map_set (br_reservationId r) r (bs_open s)\<rparr>)))"

definition reserve ::
  "judge_budget_limits \<Rightarrow> js_number option \<times> js_number option \<Rightarrow> js_number \<times> js_number \<Rightarrow> budget_state
    \<Rightarrow> (string + judge_budget_reservation) \<times> budget_state" where
  "reserve l estimate clock s =
     (if bs_hardKilled s
      then (Inl (case bs_exhaustedReason s of Some r \<Rightarrow> r | None \<Rightarrow> ''judge budget hard-killed''), s)
      else case bl_maxJudgeCalls l of
        Some m \<Rightarrow>
          (if js_le m (bs_calls s)
           then (Inl (exceeded ''maxJudgeCalls'' m), maybeHardKill l (exceeded ''maxJudgeCalls'' m) s)
           else reserve_spend l estimate clock s)
      | None \<Rightarrow> reserve_spend l estimate clock s)"

definition reconcile :: "judge_budget_limits \<Rightarrow> judge_budget_reconcile \<Rightarrow> js_number \<Rightarrow> budget_state \<Rightarrow> budget_state" where
  "reconcile l i now s =
     (let s1 = s\<lparr>bs_open := map_delete (bc_reservationId i) (bs_open s), bs_calls := js_add (bs_calls s) (Fin 1),
                 bs_tokens := js_add (bs_tokens s) (bc_actualTokens i),
                 bs_costUsd := js_add (bs_costUsd s) (bc_actualCostUsd i),
                 bs_wallMs := js_add (bs_wallMs s) (bc_wallMs i)\<rparr>;
          s2 = (case bl_maxJudgeCalls l of
                  Some m \<Rightarrow> if js_le m (bs_calls s1)
                            then maybeHardKill l (''maxJudgeCalls '' @ number_to_string m @ '' reached'') s1 else s1
                | None \<Rightarrow> s1)
      in case checkSpendCeilings l (bs_startedAt s2) now (bs_tokens s2) (bs_costUsd s2) of
           Some reason \<Rightarrow> maybeHardKill l reason s2
         | None \<Rightarrow> s2)"

definition isHardKilled :: "judge_budget_limits \<Rightarrow> js_number \<Rightarrow> budget_state \<Rightarrow> bool \<times> budget_state" where
  "isHardKilled l now s =
     (if bs_hardKilled s then (True, s)
      else case bl_maxWallMs l of
        Some m \<Rightarrow> (if js_less m (js_sub now (bs_startedAt s)) then (True, maybeHardKill l (exceeded ''maxWallMs'' m) s)
                   else (False, s))
      | None \<Rightarrow> (False, s))"

record budget_snapshot =
  bn_calls :: js_number
  bn_tokens :: js_number
  bn_costUsd :: js_number
  bn_wallMs :: js_number
  bn_hardKilled :: bool
  bn_exhaustedReason :: "string option"

definition budget_snapshot_of :: "budget_state \<Rightarrow> budget_snapshot" where
  "budget_snapshot_of s =
     \<lparr>bn_calls = bs_calls s, bn_tokens = bs_tokens s, bn_costUsd = bs_costUsd s, bn_wallMs = bs_wallMs s,
      bn_hardKilled = bs_hardKilled s, bn_exhaustedReason = bs_exhaustedReason s\<rparr>"

section \<open>Audit journal (judgeAudit.ts)\<close>

type_synonym judge_audit_journal = "judge_call_record list"

definition createJudgeAuditJournal :: judge_audit_journal where
  "createJudgeAuditJournal = []"

definition journal_record :: "judge_call_record \<Rightarrow> judge_audit_journal \<Rightarrow> judge_audit_journal" where
  "journal_record r j = j @ [r]"

definition journal_drain :: "judge_audit_journal \<Rightarrow> judge_call_record list \<times> judge_audit_journal" where
  "journal_drain j = (j, [])"

section \<open>The judge (judgeVerifier.ts)\<close>

definition LLM_JUDGE_VERIFIER_ID :: string where "LLM_JUDGE_VERIFIER_ID = ''llm_judge''"
definition DEFAULT_JUDGE_RHO :: js_number where "DEFAULT_JUDGE_RHO = to_number (5 / 10)"
definition JUDGE_PLACEHOLDER_RHO :: js_number where "JUDGE_PLACEHOLDER_RHO = to_number (3 / 10)"

record llm_tool_call =
  tc_name :: string
  tc_arguments :: js_value

record llm_chat_response =
  lr_text :: "string option"
  lr_toolCalls :: "llm_tool_call list"

record llm_tool_def =
  ld_name :: string
  ld_description :: string
  ld_parameters :: js_value

type_synonym llm_adapter = "nat \<Rightarrow> transcript_message list \<Rightarrow> llm_tool_def list \<Rightarrow> llm_chat_response option"

record judge_options =
  jo_judgeLlm :: llm_adapter
  jo_judgeQuorum :: "llm_adapter list"
  jo_rho :: "js_number option"
  jo_modelId :: "string option"

definition kind_text :: "criterion_kind \<Rightarrow> string" where
  "kind_text k = (case k of HardCriterion \<Rightarrow> ''hard'' | SoftCriterion \<Rightarrow> ''soft'')"

definition NEWLINE :: string where "NEWLINE = [CHR 0x0A]"

definition buildJudgeMessages :: "criterion \<Rightarrow> agent_state \<Rightarrow> string \<Rightarrow> transcript_message list" where
  "buildJudgeMessages c s seed =
     (let q = [CHR 0x22];
          system = join '' ''
            [''You are a soft-criterion acceptance judge for an autonomous agent OS.'',
             ''Score ONLY the provided criterion against the provided execution context.'',
             ''You never see the agent'' @ [CHR 0x27] @ ''s pending reply '' @ EM_DASH @ '' it is deliberately withheld to'',
             ''prevent self-assessment contamination. Return ONLY a JSON object'',
             ''{ '' @ q @ ''q'' @ q @ '': <number 0..1>, '' @ q @ ''rationale'' @ q @ '': <short string> }. No prose, no fences.''];
          context = join NEWLINE
            [''seed='' @ seed,
             ''criterionId='' @ cr_id c,
             ''criterion='' @ cr_description c,
             ''kind='' @ kind_text (cr_kind c),
             ''threshold='' @ number_to_string (cr_threshold c),
             ''conversationTurns='' @ show_nat (tr_conversationTurns (ag_trace s)),
             ''plainTextTurns='' @ show_nat (tr_plainTextTurns (ag_trace s)),
             ''toolCallTurns='' @ show_nat (tr_toolCallTurns (ag_trace s)),
             ''committedOperations='' @ show_nat (tr_committedOperations (ag_trace s)),
             ''rejectedOperations='' @ show_nat (tr_rejectedOperations (ag_trace s)),
             ''artifactIds='' @ show_nat (length (as_artifactIds (ag_artifacts s))),
             ''contentRefs='' @ show_nat (length (as_contentRefs (ag_artifacts s))),
             ''evidenceItems='' @ show_nat (length (ag_evidence s)),
             ''participantCount='' @ show_nat (env_participantCount (ag_environment s)),
             ''worldSummary='' @ env_worldSummary (ag_environment s)]
      in [MSystem system, MUser context])"

definition deriveSeed :: "(string \<Rightarrow> string) \<Rightarrow> string \<Rightarrow> nat \<Rightarrow> string" where
  "deriveSeed sha256 digest tick = sha256 (digest @ '':'' @ show_nat tick)"

text \<open>
  The match of \<open>/\{[\s\S]*\}/\<close>: from the first opening brace to the last closing brace after it.
\<close>

definition braces_match :: "string \<Rightarrow> string option" where
  "braces_match text =
     (let from_open = dropWhile (\<lambda>c. c \<noteq> CHR ''{'') text;
          to_close = rev (dropWhile (\<lambda>c. c \<noteq> CHR ''}'') (rev from_open))
      in if to_close = [] then None else Some to_close)"

fun isPlainObject :: "js_value \<Rightarrow> bool" where
  "isPlainObject (JObject _) = True"
| "isPlainObject _ = False"

text \<open>A numeric literal of the text becomes a double.\<close>

fun js_double :: "js_number \<Rightarrow> js_number" where
  "js_double (Fin q) = to_number q"
| "js_double x = x"

definition parseJudgeResponse :: "llm_chat_response \<Rightarrow> js_number option \<times> string option" where
  "parseJudgeResponse r =
     (case braces_match (case lr_text r of Some t \<Rightarrow> t | None \<Rightarrow> []) of
        None \<Rightarrow> (None, None)
      | Some m \<Rightarrow>
          (case JSON_parse m of
             None \<Rightarrow> (None, None)
           | Some parsed \<Rightarrow>
               if \<not> isPlainObject parsed then (None, None)
               else ((case js_field parsed ''q'' of
                        JNumber x \<Rightarrow> if isFinite (js_double x) then Some (js_double x) else None
                      | _ \<Rightarrow> None),
                     js_string (js_field parsed ''rationale''))))"

text \<open>The value, and whether it was clamped or replaced.\<close>

definition clampQ :: "js_number option \<Rightarrow> js_number \<times> bool \<times> bool" where
  "clampQ q =
     (case q of
        None \<Rightarrow> (Fin 0, False, True)
      | Some x \<Rightarrow> if \<not> isFinite x then (Fin 0, False, True)
                  else if js_less x (Fin 0) then (Fin 0, True, False)
                  else if js_less (Fin 1) x then (Fin 1, True, False)
                  else (x, False, False))"

record single_judge_result =
  sr_q :: js_number
  sr_rationale :: "string option"
  sr_clamped :: bool
  sr_fellBack :: bool
  sr_promptDigest :: string
  sr_modelId :: string

definition callJudge ::
  "(string \<Rightarrow> string) \<Rightarrow> llm_adapter \<Rightarrow> nat \<Rightarrow> transcript_message list \<Rightarrow> string \<Rightarrow> string \<Rightarrow> single_judge_result" where
  "callJudge sha256 adapter call messages promptText modelId =
     (case adapter call messages [] of
        None \<Rightarrow> \<lparr>sr_q = Fin 0, sr_rationale = None, sr_clamped = False, sr_fellBack = True,
                 sr_promptDigest = sha256 promptText, sr_modelId = modelId\<rparr>
      | Some response \<Rightarrow>
          (let (q, rationale) = parseJudgeResponse response; (v, clamped, fellBack) = clampQ q
           in \<lparr>sr_q = v, sr_rationale = rationale, sr_clamped = clamped, sr_fellBack = fellBack,
               sr_promptDigest = sha256 promptText, sr_modelId = modelId\<rparr>))"

definition numeric_order :: "js_number \<Rightarrow> js_number \<Rightarrow> int" where
  "numeric_order a b =
     (let d = js_sub a b in if js_less d (Fin 0) then - 1 else if js_less (Fin 0) d then 1 else 0)"

definition median :: "js_number list \<Rightarrow> js_number" where
  "median vs =
     (if vs = [] then Fin 0
      else let sorted = sort_by numeric_order vs; mid = length sorted div 2
           in if length sorted mod 2 = 0 then js_div (js_add (sorted ! (mid - 1)) (sorted ! mid)) (Fin 2)
              else sorted ! mid)"

definition interRaterSpread :: "js_number list \<Rightarrow> js_number" where
  "interRaterSpread vs = (if length vs < 2 then Fin 0 else js_sub (math_max vs) (math_min vs))"

record judge_state =
  js_cache :: "(string, criterion_evaluation) jsmap"
  js_records :: "judge_call_record list"
  js_calls :: nat

definition new_judge_state :: judge_state where
  "new_judge_state = \<lparr>js_cache = [], js_records = [], js_calls = 0\<rparr>"

definition judge_adapters :: "judge_options \<Rightarrow> llm_adapter list" where
  "judge_adapters o1 = jo_judgeLlm o1 # jo_judgeQuorum o1"

definition judge_model_ids :: "judge_options \<Rightarrow> string list" where
  "judge_model_ids o1 =
     (case jo_modelId o1 of Some m \<Rightarrow> m | None \<Rightarrow> ''judge-primary'')
       # map (\<lambda>i. ''judge-quorum-'' @ show_nat (i + 1)) [0..<length (jo_judgeQuorum o1)]"

text \<open>One criterion of the pre-pass; the calls of a criterion are numbered in adapter order.\<close>

definition judge_criterion ::
  "(string \<Rightarrow> string) \<Rightarrow> judge_options \<Rightarrow> string \<Rightarrow> agent_state \<Rightarrow> criterion \<Rightarrow> judge_state \<Rightarrow> judge_state" where
  "judge_criterion sha256 o1 seed s c st =
     (let adapters = judge_adapters o1;
          messages = buildJudgeMessages c s seed;
          promptText = join NEWLINE (map m_content messages);
          perJudge = map (\<lambda>i. callJudge sha256 (adapters ! i) (js_calls st + i) messages promptText
                                (judge_model_ids o1 ! i)) [0..<length adapters];
          qs = map sr_q perJudge;
          aggregated = median qs;
          spread = interRaterSpread qs;
          anyFellBack = list_ex sr_fellBack perJudge;
          anyClamped = list_ex sr_clamped perJudge;
          primary = hd perJudge;
          rho = (case jo_rho o1 of Some r \<Rightarrow> r | None \<Rightarrow> DEFAULT_JUDGE_RHO);
          effectiveRho = (if anyFellBack then JUDGE_PLACEHOLDER_RHO else rho);
          fallbackTag = (if anyFellBack then '' [fallback]'' else []);
          rationale = (if length adapters > 1
             then ''LLM judge quorum (n='' @ show_nat (length adapters) @ '') median q='' @ toFixed 3 aggregated
                    @ '', spread='' @ toFixed 3 spread @ fallbackTag @ ''.''
             else ''LLM judge q='' @ toFixed 3 aggregated @ fallbackTag @ ''.'');
          evaluation = \<lparr>ce_criterionId = cr_id c, ce_q = aggregated, ce_rho = effectiveRho,
             ce_passed = js_le (cr_threshold c) (js_mul aggregated effectiveRho), ce_evidenceRefs = [],
             ce_rationale = rationale\<rparr>
      in st\<lparr>js_cache := map_set (cr_id c) evaluation (js_cache st),
            js_records := js_records st @
              [\<lparr>jr_criterionId = cr_id c, jr_promptDigest = sr_promptDigest primary, jr_modelId = sr_modelId primary,
                jr_seed = seed, jr_rawQ = (if sr_fellBack primary then None else Some (sr_q primary)),
                jr_rawRationale = sr_rationale primary, jr_clamped = anyClamped, jr_fellBack = anyFellBack\<rparr>],
            js_calls := js_calls st + length adapters\<rparr>)"

definition prepass ::
  "(string \<Rightarrow> string) \<Rightarrow> judge_options \<Rightarrow> string \<Rightarrow> nat \<Rightarrow> goal_contract \<Rightarrow> agent_state \<Rightarrow> judge_state \<Rightarrow> judge_state" where
  "prepass sha256 o1 digest tick contract s st =
     fold (judge_criterion sha256 o1 (deriveSeed sha256 digest tick) s)
       (filter (\<lambda>c. cr_verifierId c = LLM_JUDGE_VERIFIER_ID) (gc_criteria contract)) st"

definition judge_flushTo :: "judge_state \<Rightarrow> judge_audit_journal \<Rightarrow> judge_state \<times> judge_audit_journal" where
  "judge_flushTo st j = (st\<lparr>js_records := [], js_cache := []\<rparr>, fold journal_record (js_records st) j)"

definition judge_evaluate :: "judge_state \<Rightarrow> criterion \<Rightarrow> agent_state \<Rightarrow> criterion_evaluation" where
  "judge_evaluate st c s =
     (case map_get (js_cache st) (cr_id c) of
        Some e \<Rightarrow> e
      | None \<Rightarrow>
          \<lparr>ce_criterionId = cr_id c, ce_q = Fin 0, ce_rho = JUDGE_PLACEHOLDER_RHO, ce_passed = False,
           ce_evidenceRefs = [],
           ce_rationale = ''LLM judge cache miss '' @ EM_DASH @ '' fail-closed placeholder ('' @ RHO @ ''=0.3).''\<rparr>)"

definition judge_verifier :: "judge_state \<Rightarrow> verifier" where
  "judge_verifier st = \<lparr>vf_id = LLM_JUDGE_VERIFIER_ID, vf_evaluate = judge_evaluate st\<rparr>"

section \<open>Calibration (judgeCalibration.ts)\<close>

record calibration_sample =
  cs_id :: string
  cs_criterion :: criterion
  cs_state :: agent_state
  cs_expectedQ :: js_number

record calibration_report =
  cp_sampleId :: string
  cp_observedQ :: js_number
  cp_expectedQ :: js_number
  cp_deviation :: js_number

definition emptyCalibrationState :: agent_state where
  "emptyCalibrationState =
     \<lparr>ag_environment = \<lparr>env_worldSummary = ''empty calibration world'', env_headRef = None, env_epochId = None,
         env_participantCount = 0, env_artifactCount = 0, env_auditTailLength = 0\<rparr>,
      ag_artifacts = \<lparr>as_artifactIds = [], as_contentRefs = []\<rparr>,
      ag_evidence = [],
      ag_trace = \<lparr>tr_conversationTurns = 0, tr_plainTextTurns = 0, tr_toolCallTurns = 0,
         tr_recentAssistantTexts = [], tr_committedOperations = 0, tr_rejectedOperations = 0\<rparr>,
      ag_pendingReply = \<lparr>pr_text = [], pr_hasToolCalls = False\<rparr>\<rparr>"

definition progressCalibrationState :: agent_state where
  "progressCalibrationState =
     \<lparr>ag_environment = \<lparr>env_worldSummary = ''calibration world with one committed op'', env_headRef = None,
         env_epochId = None, env_participantCount = 1, env_artifactCount = 0, env_auditTailLength = 1\<rparr>,
      ag_artifacts = \<lparr>as_artifactIds = [], as_contentRefs = []\<rparr>,
      ag_evidence = [],
      ag_trace = \<lparr>tr_conversationTurns = 1, tr_plainTextTurns = 0, tr_toolCallTurns = 1,
         tr_recentAssistantTexts = [], tr_committedOperations = 1, tr_rejectedOperations = 0\<rparr>,
      ag_pendingReply = \<lparr>pr_text = [], pr_hasToolCalls = False\<rparr>\<rparr>"

definition frozenCalibrationSamples :: "calibration_sample list" where
  "frozenCalibrationSamples =
     [\<lparr>cs_id = ''calib-empty-reply'',
       cs_criterion = \<lparr>cr_id = ''calib-empty-reply'',
         cr_description = ''The agent must produce a substantive final answer.'', cr_kind = SoftCriterion,
         cr_weight = Fin 1, cr_threshold = to_number (5 / 10), cr_verifierId = ''llm_judge''\<rparr>,
       cs_state = emptyCalibrationState, cs_expectedQ = Fin 0\<rparr>,
      \<lparr>cs_id = ''calib-progress-no-reply'',
       cs_criterion = \<lparr>cr_id = ''calib-progress-no-reply'',
         cr_description = ''The agent must show measurable progress toward the goal.'', cr_kind = SoftCriterion,
         cr_weight = Fin 1, cr_threshold = to_number (5 / 10), cr_verifierId = ''llm_judge''\<rparr>,
       cs_state = progressCalibrationState, cs_expectedQ = to_number (5 / 10)\<rparr>]"

definition runCalibration ::
  "(criterion \<Rightarrow> agent_state \<Rightarrow> criterion_evaluation) \<Rightarrow> calibration_sample list \<Rightarrow> calibration_report list" where
  "runCalibration evaluate samples =
     map (\<lambda>x. let observed = ce_q (evaluate (cs_criterion x) (cs_state x))
               in \<lparr>cp_sampleId = cs_id x, cp_observedQ = observed, cp_expectedQ = cs_expectedQ x,
                   cp_deviation = math_abs (js_sub observed (cs_expectedQ x))\<rparr>) samples"

end
