(* ===== verification/Boot_Contract.thy ===== *)
theory Boot_Contract
  imports Boot_Judge Runtime_Canonical
begin

text \<open>
  \<open>packages/boot/src/termination/goalContract.ts\<close>: a goal contract is drafted by a language
  model, every criterion of the draft is validated against the registry and normalized, and
  the result is frozen under the digest of its canonical JSON. A draft is a value of type
  \<open>unknown\<close>, so \<open>Number(value)\<close> is written out for every JSON value; \<open>None\<close> is its
  \<open>TypeError\<close> on an object with an own \<open>toString\<close>.
\<close>

section \<open>\<open>Number(value)\<close>\<close>

fun value_to_string :: "js_value \<Rightarrow> string option"
  and element_strings :: "js_value list \<Rightarrow> string list option" where
  "value_to_string JUndefined = Some ''undefined''"
| "value_to_string JNull = Some ''null''"
| "value_to_string (JBool b) = Some (show_bool b)"
| "value_to_string (JNumber x) = Some (number_to_string (js_double x))"
| "value_to_string (JString s) = Some s"
| "value_to_string (JArray xs) = map_option (join '','') (element_strings xs)"
| "value_to_string (JObject ps) = (if map_has ps ''toString'' then None else Some ''[object Object]'')"
| "element_strings [] = Some []"
| "element_strings (x # xs) =
     (case if x = JUndefined \<or> x = JNull then Some [] else value_to_string x of
        None \<Rightarrow> None
      | Some s \<Rightarrow> map_option (Cons s) (element_strings xs))"

fun value_to_number :: "js_value \<Rightarrow> js_number option" where
  "value_to_number JUndefined = Some NaN"
| "value_to_number JNull = Some (Fin 0)"
| "value_to_number (JBool b) = Some (Fin (if b then 1 else 0))"
| "value_to_number (JNumber x) = Some (js_double x)"
| "value_to_number v = map_option (\<lambda>s. string_to_number (trim s)) (value_to_string v)"

definition clamp :: "js_value \<Rightarrow> js_number \<Rightarrow> js_number \<Rightarrow> js_number option option" where
  "clamp v lo hi =
     (case value_to_number v of
        None \<Rightarrow> None
      | Some n \<Rightarrow> Some (if \<not> isFinite n then None else Some (math_min [hi, math_max [lo, n]])))"

section \<open>Criteria of a draft\<close>

definition js_truthy_string :: "js_value \<Rightarrow> string option" where
  "js_truthy_string v = (case v of JString s \<Rightarrow> if s = [] then None else Some s | _ \<Rightarrow> None)"

definition js_kind :: "js_value \<Rightarrow> criterion_kind option" where
  "js_kind v = (if v = JString ''hard'' then Some HardCriterion
                else if v = JString ''soft'' then Some SoftCriterion else None)"

text \<open>\<open>None\<close>: the normalization throws; \<open>Some None\<close>: it returns \<open>undefined\<close>.\<close>

definition normalizeCriterion :: "js_value \<Rightarrow> verifier_registry \<Rightarrow> criterion option option" where
  "normalizeCriterion raw registry =
     (if \<not> isPlainObject raw then Some None
      else case (js_truthy_string (js_field raw ''id''), js_truthy_string (js_field raw ''description''),
                 js_kind (js_field raw ''kind''), js_truthy_string (js_field raw ''verifierId'')) of
        (Some i, Some d, Some k, Some v) \<Rightarrow>
          (if \<not> map_has registry v then Some None
           else case clamp (js_field raw ''weight'') (Fin 0) (Fin 1) of
             None \<Rightarrow> None
           | Some w \<Rightarrow>
               (case clamp (js_field raw ''threshold'') (Fin 0) (Fin 1) of
                  None \<Rightarrow> None
                | Some t \<Rightarrow>
                    Some (Some \<lparr>cr_id = i, cr_description = d, cr_kind = k,
                       cr_weight = (case w of Some x \<Rightarrow> x
                                    | None \<Rightarrow> if k = HardCriterion then Fin 1 else to_number (5 / 10)),
                       cr_threshold = (case t of Some x \<Rightarrow> x | None \<Rightarrow> Fin 1), cr_verifierId = v\<rparr>)))
      | _ \<Rightarrow> Some None)"

text \<open>\<open>raw.criteria.map(...).filter(c => c !== undefined)\<close>.\<close>

fun normalize_criteria :: "js_value list \<Rightarrow> verifier_registry \<Rightarrow> criterion list option" where
  "normalize_criteria [] registry = Some []"
| "normalize_criteria (r # rs) registry =
     (case normalizeCriterion r registry of
        None \<Rightarrow> None
      | Some c \<Rightarrow> map_option (\<lambda>cs. case c of None \<Rightarrow> cs | Some x \<Rightarrow> x # cs) (normalize_criteria rs registry))"

section \<open>Canonical JSON and the digest\<close>

fun sortKeys :: "js_value \<Rightarrow> js_value"
  and sort_elements :: "js_value list \<Rightarrow> js_value list"
  and sort_fields :: "(string \<times> js_value) list \<Rightarrow> (string \<times> js_value) list" where
  "sortKeys (JArray xs) = JArray (sort_elements xs)"
| "sortKeys (JObject ps) = JObject (sort_key fst (sort_fields ps))"
| "sortKeys JUndefined = JUndefined"
| "sortKeys JNull = JNull"
| "sortKeys (JBool b) = JBool b"
| "sortKeys (JNumber x) = JNumber x"
| "sortKeys (JString s) = JString s"
| "sort_elements [] = []"
| "sort_elements (x # xs) = sortKeys x # sort_elements xs"
| "sort_fields [] = []"
| "sort_fields ((k, v) # ps) = (k, sortKeys v) # sort_fields ps"

text \<open>\<open>JSON.stringify\<close>: \<open>undefined\<close> is left out of an object and is \<open>null\<close> in an array.\<close>

fun json_stringify :: "js_value \<Rightarrow> string"
  and json_items :: "js_value list \<Rightarrow> string list"
  and json_fields :: "(string \<times> js_value) list \<Rightarrow> string list" where
  "json_stringify JUndefined = ''null''"
| "json_stringify JNull = ''null''"
| "json_stringify (JBool b) = show_bool b"
| "json_stringify (JNumber x) = (if isFinite x then number_to_string x else ''null'')"
| "json_stringify (JString s) = json_quote s"
| "json_stringify (JArray xs) = ''['' @ join '','' (json_items xs) @ '']''"
| "json_stringify (JObject ps) = ''{'' @ join '','' (json_fields ps) @ ''}''"
| "json_items [] = []"
| "json_items (x # xs) = json_stringify x # json_items xs"
| "json_fields [] = []"
| "json_fields ((k, v) # ps) =
     (if v = JUndefined then json_fields ps else (json_quote k @ '':'' @ json_stringify v) # json_fields ps)"

definition canonicalJson :: "js_value \<Rightarrow> string" where
  "canonicalJson v = json_stringify (sortKeys v)"

definition criterion_json :: "criterion \<Rightarrow> js_value" where
  "criterion_json c =
     JObject [(''id'', JString (cr_id c)), (''description'', JString (cr_description c)),
              (''kind'', JString (kind_text (cr_kind c))), (''weight'', JNumber (cr_weight c)),
              (''threshold'', JNumber (cr_threshold c)), (''verifierId'', JString (cr_verifierId c))]"

definition digestContract :: "(string \<Rightarrow> string) \<Rightarrow> string \<Rightarrow> criterion list \<Rightarrow> string" where
  "digestContract sha256 instruction criteria =
     ''sha256:'' @ sha256 (canonicalJson
       (JObject [(''instruction'', JString instruction), (''criteria'', JArray (map criterion_json criteria))]))"

section \<open>Compilation\<close>

definition default_criterion :: criterion where
  "default_criterion =
     \<lparr>cr_id = ''no_infinite_loop'',
      cr_description = ''The agent must not enter an unproductive loop of repeated plain-text turns.'',
      cr_kind = HardCriterion, cr_weight = Fin 1, cr_threshold = Fin 1, cr_verifierId = ''no_infinite_loop''\<rparr>"

definition defaultSystemContract :: "(string \<Rightarrow> string) \<Rightarrow> string \<Rightarrow> string \<Rightarrow> goal_contract" where
  "defaultSystemContract sha256 instruction frozenAt =
     \<lparr>gc_contractId = digestContract sha256 instruction [default_criterion], gc_instruction = instruction,
      gc_criteria = [default_criterion], gc_frozenAt = frozenAt, gc_compiledBy = BySystem\<rparr>"

definition SYSTEM_PROMPT :: string where
  "SYSTEM_PROMPT = join '' ''
     [''You are a goal-contract compiler for an autonomous agent OS.'',
      ''Given a user instruction, decompose it into a small set of structured acceptance criteria.'',
      ''Each criterion has: id, description, kind (hard|soft), weight, threshold, verifierId.'',
      ''Use only verifier ids from the provided list. Prefer hard criteria for concrete deliverables;'',
      ''use soft criteria for qualitative goals. Aim for 1-5 criteria; avoid over-decomposition.'',
      ''Return ONLY a JSON object { criteria: [...] }. No prose, no markdown fences.'']"

definition typed :: "string \<Rightarrow> (string \<times> js_value) list \<Rightarrow> js_value" where
  "typed t ps = JObject ((''type'', JString t) # ps)"

definition contractExtractionTool :: "string list \<Rightarrow> llm_tool_def" where
  "contractExtractionTool verifierIds =
     (let unit_number = typed ''number'' [(''minimum'', JNumber (Fin 0)), (''maximum'', JNumber (Fin 1))];
          properties = JObject
            [(''id'', typed ''string'' [(''description'', JString ''Stable kebab-case id'')]),
             (''description'', typed ''string'' []),
             (''kind'', typed ''string'' [(''enum'', JArray [JString ''hard'', JString ''soft''])]),
             (''weight'', unit_number),
             (''threshold'', unit_number),
             (''verifierId'', typed ''string'' [(''description'', JString (''One of: '' @ join '', '' verifierIds))])];
          items = typed ''object''
            [(''additionalProperties'', JBool False), (''properties'', properties),
             (''required'', JArray (map JString [''id'', ''description'', ''kind'', ''weight'', ''threshold'', ''verifierId'']))]
      in \<lparr>ld_name = ''propose_contract'',
          ld_description = ''Propose the structured acceptance criteria for the instruction.'',
          ld_parameters = typed ''object''
            [(''additionalProperties'', JBool False),
             (''properties'', JObject [(''criteria'', typed ''array'' [(''minItems'', JNumber (Fin 1)), (''items'', items)])]),
             (''required'', JArray [JString ''criteria''])]\<rparr>)"

definition extractToolCallArgs :: "llm_chat_response \<Rightarrow> js_value option" where
  "extractToolCallArgs r =
     (case lr_toolCalls r of
        [] \<Rightarrow> None
      | call # _ \<Rightarrow>
          if tc_name call \<noteq> ''propose_contract'' then None
          else if isPlainObject (tc_arguments call) then Some (tc_arguments call) else None)"

definition extractTextJson :: "llm_chat_response \<Rightarrow> js_value option" where
  "extractTextJson r =
     (case braces_match (case lr_text r of Some t \<Rightarrow> t | None \<Rightarrow> []) of
        None \<Rightarrow> None
      | Some m \<Rightarrow>
          (case JSON_parse m of
             None \<Rightarrow> None
           | Some parsed \<Rightarrow> if isPlainObject parsed then Some parsed else None))"

definition CONTRACT_VERIFIERS :: "string list" where
  "CONTRACT_VERIFIERS =
     [''no_infinite_loop'', ''duplicate_reply'', ''coordination_progress'', ''task_artifact_exists'',
      ''structured_rubric'', ''semantic_coverage'']"

text \<open>The criteria a response drafts; \<open>None\<close> when there are none to use or a step throws.\<close>

definition drafted_criteria :: "llm_chat_response \<Rightarrow> verifier_registry \<Rightarrow> criterion list option" where
  "drafted_criteria response registry =
     (case (case extractToolCallArgs response of Some a \<Rightarrow> Some a | None \<Rightarrow> extractTextJson response) of
        None \<Rightarrow> None
      | Some raw \<Rightarrow>
          (case js_field raw ''criteria'' of
             JArray items \<Rightarrow>
               (case normalize_criteria items registry of
                  Some (c # cs) \<Rightarrow> Some (c # cs)
                | _ \<Rightarrow> None)
           | _ \<Rightarrow> None))"

definition compileGoalContract ::
  "(string \<Rightarrow> string) \<Rightarrow> string \<Rightarrow> llm_adapter option \<Rightarrow> verifier_registry \<Rightarrow> string \<Rightarrow> goal_contract" where
  "compileGoalContract sha256 instruction llm registry frozenAt =
     (let verifierIds = filter (map_has registry) CONTRACT_VERIFIERS
      in case llm of
           None \<Rightarrow> defaultSystemContract sha256 instruction frozenAt
         | Some chat \<Rightarrow>
             (case chat 0 [MSystem SYSTEM_PROMPT, MUser (''Instruction: '' @ instruction)]
                     [contractExtractionTool verifierIds] of
                None \<Rightarrow> defaultSystemContract sha256 instruction frozenAt
              | Some response \<Rightarrow>
                  (case drafted_criteria response registry of
                     None \<Rightarrow> defaultSystemContract sha256 instruction frozenAt
                   | Some criteria \<Rightarrow>
                       \<lparr>gc_contractId = digestContract sha256 instruction criteria, gc_instruction = instruction,
                        gc_criteria = criteria, gc_frozenAt = frozenAt, gc_compiledBy = ByLlm\<rparr>)))"

end
