(* ===== verification/Boot_Residual.thy ===== *)
theory Boot_Residual
  imports Boot_Types
begin

text \<open>
  \<open>packages/boot/src/termination/{semanticResidual,valueOfContinuation}.ts\<close>: the match of
  criteria against evidence texts, and the value of a continuation. An embedding adapter is a
  parameter: from the number of the call and the texts to vectors, or \<open>None\<close> where it throws.
\<close>

section \<open>Similarity (semanticResidual.ts)\<close>

text \<open>\<open>dot\<close> runs over the shorter vector.\<close>

definition dot :: "js_number list \<Rightarrow> js_number list \<Rightarrow> js_number" where
  "dot a b = foldl (\<lambda>sum (x, y). js_add sum (js_mul x y)) (Fin 0) (zip a b)"

text \<open>\<open>Math.sqrt(dot(a, a)) || 1\<close>: 0 and \<open>NaN\<close> give 1.\<close>

definition vector_norm :: "js_number list \<Rightarrow> js_number" where
  "vector_norm a = (let r = math_sqrt (dot a a) in if r = Fin 0 \<or> r = NaN then Fin 1 else r)"

definition cosine :: "js_number list \<Rightarrow> js_number list \<Rightarrow> js_number" where
  "cosine a b = js_div (dot a b) (js_mul (vector_norm a) (vector_norm b))"

definition jaccard :: "string \<Rightarrow> string \<Rightarrow> js_number" where
  "jaccard a b = word_overlap (words_of (toLowerCase a)) (words_of (toLowerCase b))"

definition evidenceTexts :: "agent_state \<Rightarrow> (string \<times> string) list" where
  "evidenceTexts s =
     map (\<lambda>e. (ev_summary e, ev_ref e)) (filter (\<lambda>e. ev_summary e \<noteq> []) (ag_evidence s))
       @ (if trim (pr_text (ag_pendingReply s)) \<noteq> [] then [(pr_text (ag_pendingReply s), ''pending_reply'')] else [])"

section \<open>The constrained match\<close>

text \<open>\<open>cost[i]?.[j] ?? 1\<close>.\<close>

definition cost_at :: "js_number list list \<Rightarrow> nat \<Rightarrow> nat \<Rightarrow> js_number" where
  "cost_at cost i j =
     (if i < length cost then if j < length (cost ! i) then cost ! i ! j else Fin 1 else Fin 1)"

text \<open>The cheapest unclaimed evidence of one goal: the first of the smallest.\<close>

fun best_unclaimed ::
  "(nat \<Rightarrow> js_number) \<Rightarrow> nat list \<Rightarrow> nat list \<Rightarrow> js_number \<times> nat option \<Rightarrow> js_number \<times> nat option" where
  "best_unclaimed c claimed [] b = b"
| "best_unclaimed c claimed (j # js) (best, bestJ) =
     (if j \<in> set claimed then best_unclaimed c claimed js (best, bestJ)
      else if js_less (c j) best then best_unclaimed c claimed js (c j, Some j)
      else best_unclaimed c claimed js (best, bestJ))"

record match_state =
  ms_residual :: "js_number list"
  ms_claimed :: "nat list"
  ms_totalCost :: js_number

definition match_goal :: "js_number list list \<Rightarrow> nat \<Rightarrow> nat \<Rightarrow> match_state \<Rightarrow> match_state" where
  "match_goal cost n i s =
     (case best_unclaimed (cost_at cost i) (ms_claimed s) [0..<n] (PosInf, None) of
        (best, Some j) \<Rightarrow>
          \<lparr>ms_residual = (ms_residual s)[i := best], ms_claimed = set_add j (ms_claimed s),
           ms_totalCost = js_add (ms_totalCost s) best\<rparr>
      | (best, None) \<Rightarrow> s)"

definition constrainedMatch :: "js_number list list \<Rightarrow> nat \<Rightarrow> nat \<Rightarrow> js_number list \<times> js_number" where
  "constrainedMatch cost m n =
     (let s = fold (match_goal cost n) [0..<m]
                \<lparr>ms_residual = replicate m (Fin 1), ms_claimed = [], ms_totalCost = Fin 0\<rparr>
      in (ms_residual s, ms_totalCost s))"

record residual_result =
  rr_residual :: "js_number list"
  rr_D_sem :: js_number
  rr_usedEmbeddings :: bool

type_synonym embedding_adapter = "nat \<Rightarrow> string list \<Rightarrow> js_number list list option"

definition vector_at :: "js_number list list \<Rightarrow> nat \<Rightarrow> js_number list" where
  "vector_at vs i = (if i < length vs then vs ! i else [])"

definition embedding_cost :: "js_number list list \<Rightarrow> js_number list list \<Rightarrow> nat \<Rightarrow> nat \<Rightarrow> js_number list list" where
  "embedding_cost goalVecs evidenceVecs m n =
     map (\<lambda>i. map (\<lambda>j. js_sub (Fin 1) (math_max [Fin 0, cosine (vector_at goalVecs i) (vector_at evidenceVecs j)]))
                [0..<n]) [0..<m]"

definition jaccard_cost :: "string list \<Rightarrow> string list \<Rightarrow> js_number list list" where
  "jaccard_cost goals texts = map (\<lambda>g. map (\<lambda>t. js_sub (Fin 1) (jaccard g t)) texts) goals"

definition match_result :: "js_number list list \<Rightarrow> nat \<Rightarrow> nat \<Rightarrow> bool \<Rightarrow> residual_result" where
  "match_result cost m n used =
     (let (residual, totalCost) = constrainedMatch cost m n
      in \<lparr>rr_residual = residual, rr_D_sem = js_div totalCost (Fin (of_nat m)), rr_usedEmbeddings = used\<rparr>)"

text \<open>\<open>computeResidual\<close>; the two calls of an embedder in one computation are \<open>call\<close> and \<open>call + 1\<close>.\<close>

definition computeResidual ::
  "goal_contract \<Rightarrow> agent_state \<Rightarrow> embedding_adapter option \<Rightarrow> nat \<Rightarrow> residual_result" where
  "computeResidual contract s embedder call =
     (let goals = map cr_description (gc_criteria contract);
          texts = map fst (evidenceTexts s);
          m = length goals; n = length texts;
          fallback = match_result (jaccard_cost goals texts) m n False
      in if m = 0 \<or> n = 0
         then \<lparr>rr_residual = replicate m (Fin 1), rr_D_sem = Fin 1, rr_usedEmbeddings = False\<rparr>
         else case embedder of
           None \<Rightarrow> fallback
         | Some embedTexts \<Rightarrow>
             (case (embedTexts call goals, embedTexts (call + 1) texts) of
                (Some goalVecs, Some evidenceVecs) \<Rightarrow>
                  match_result (embedding_cost goalVecs evidenceVecs m n) m n True
              | _ \<Rightarrow> fallback))"

definition coverageFromResidual :: "js_number list \<Rightarrow> js_number" where
  "coverageFromResidual residual =
     (if residual = [] then Fin 0 else math_max [Fin 0, js_sub (Fin 1) (math_max residual)])"

section \<open>Value of continuation (valueOfContinuation.ts)\<close>

definition relevance :: "candidate_action \<Rightarrow> string \<Rightarrow> js_number" where
  "relevance a v =
     (if v = ''coordination_progress''
      then if ca_kind a = CoordinationAction then to_number (9 / 10) else to_number (1 / 10)
      else if v = ''task_artifact_exists''
      then if ca_kind a = CoordinationAction \<or> ca_kind a = ToolAction then to_number (8 / 10) else to_number (2 / 10)
      else if v = ''duplicate_reply'' \<or> v = ''no_infinite_loop''
      then if ca_kind a = TextAction then to_number (3 / 10) else to_number (2 / 10)
      else if v = ''semantic_coverage''
      then if ca_kind a = ToolAction \<or> ca_kind a = CoordinationAction then to_number (7 / 10) else to_number (2 / 10)
      else to_number (3 / 10))"

definition successProbability :: "candidate_action \<Rightarrow> js_number" where
  "successProbability a =
     (case ca_kind a of CoordinationAction \<Rightarrow> to_number (85 / 100) | ToolAction \<Rightarrow> to_number (7 / 10) | TextAction \<Rightarrow> Fin 1)"

definition actionCost :: "candidate_action \<Rightarrow> js_number" where
  "actionCost a =
     (case ca_kind a of CoordinationAction \<Rightarrow> Fin 1 | ToolAction \<Rightarrow> to_number (15 / 10) | TextAction \<Rightarrow> to_number (5 / 10))"

definition actionRisk :: "candidate_action \<Rightarrow> js_number" where
  "actionRisk a =
     (case ca_kind a of CoordinationAction \<Rightarrow> to_number (2 / 10) | ToolAction \<Rightarrow> to_number (4 / 10) | TextAction \<Rightarrow> to_number (1 / 10))"

definition gain_term ::
  "(string, criterion_evaluation) jsmap \<Rightarrow> candidate_action \<Rightarrow> js_number \<Rightarrow> criterion \<Rightarrow> js_number" where
  "gain_term evalById a deltaC c =
     (let q = (case map_get evalById (cr_id c) of Some e \<Rightarrow> ce_q e | None \<Rightarrow> Fin 0)
      in js_add deltaC
           (js_mul (js_mul (js_mul (cr_weight c) (js_sub (Fin 1) q)) (relevance a (cr_verifierId c)))
              (successProbability a)))"

definition action_value ::
  "goal_contract \<Rightarrow> (string, criterion_evaluation) jsmap \<Rightarrow> controller_thresholds \<Rightarrow> candidate_action \<Rightarrow> js_number" where
  "action_value contract evalById th a =
     js_sub (js_sub (foldl (gain_term evalById a) (Fin 0) (gc_criteria contract))
               (js_mul (th_lambda th) (actionCost a)))
       (js_mul (th_mu th) (actionRisk a))"

definition voc_step ::
  "(candidate_action \<Rightarrow> js_number) \<Rightarrow> candidate_action \<Rightarrow> value_of_continuation \<Rightarrow> value_of_continuation" where
  "voc_step value a v =
     (let voc = value a; v1 = v\<lparr>vc_perAction := map_set (ca_name a) voc (vc_perAction v)\<rparr>
      in if js_less (vc_star v) voc then v1\<lparr>vc_star := voc, vc_bestAction := Some (ca_name a)\<rparr> else v1)"

definition estimateVOC ::
  "goal_contract \<Rightarrow> criterion_evaluation list \<Rightarrow> candidate_action list \<Rightarrow> controller_thresholds \<Rightarrow> value_of_continuation" where
  "estimateVOC contract evaluations actions th =
     (if actions = [] then \<lparr>vc_perAction = [], vc_star = Fin 0, vc_bestAction = None\<rparr>
      else let evalById = new_Map (map (\<lambda>e. (ce_criterionId e, e)) evaluations);
               v = fold (voc_step (action_value contract evalById th)) actions
                     \<lparr>vc_perAction = [], vc_star = NegInf, vc_bestAction = None\<rparr>
           in if \<not> isFinite (vc_star v) then v\<lparr>vc_star := Fin 0\<rparr> else v)"

end
