(* ===== verification/Boot_Controller.thy ===== *)
theory Boot_Controller
  imports Boot_Contract Boot_Residual
begin

text \<open>
  \<open>packages/boot/src/termination/{terminationStateMachine,index}.ts\<close>: the decision, and the
  controller that compiles the contract once and evaluates each turn: judge pre-pass under
  the budget, evaluations, residual, value of continuation, decision, audit.
\<close>

section \<open>The decision (terminationStateMachine.ts)\<close>

definition evaluation_of :: "criterion_evaluation list \<Rightarrow> string \<Rightarrow> criterion_evaluation option" where
  "evaluation_of evaluations i = List.find (\<lambda>e. ce_criterionId e = i) evaluations"

definition hardGateFromContract :: "goal_contract \<Rightarrow> criterion_evaluation list \<Rightarrow> js_number" where
  "hardGateFromContract contract evaluations =
     (let hard = filter (\<lambda>c. cr_kind c = HardCriterion) (gc_criteria contract)
      in if hard = [] then Fin 1
         else if list_all (\<lambda>c. case evaluation_of evaluations (cr_id c) of Some e \<Rightarrow> ce_passed e | None \<Rightarrow> False) hard
         then Fin 1 else Fin 0)"

record weighted_sums =
  ws_weightSum :: js_number
  ws_satisfaction :: js_number
  ws_rhoGap :: js_number

definition weighted_step :: "criterion_evaluation list \<Rightarrow> criterion \<Rightarrow> weighted_sums \<Rightarrow> weighted_sums" where
  "weighted_step evaluations c s =
     (let e = evaluation_of evaluations (cr_id c);
          q = (case e of Some x \<Rightarrow> ce_q x | None \<Rightarrow> Fin 0);
          rho = (case e of Some x \<Rightarrow> ce_rho x | None \<Rightarrow> Fin 0);
          w = cr_weight c
      in \<lparr>ws_weightSum = js_add (ws_weightSum s) w,
          ws_satisfaction = js_add (ws_satisfaction s) (js_mul w q),
          ws_rhoGap = js_add (ws_rhoGap s) (js_mul w (js_sub (Fin 1) rho))\<rparr>)"

definition weightedCompletion :: "goal_contract \<Rightarrow> criterion_evaluation list \<Rightarrow> js_number \<times> js_number" where
  "weightedCompletion contract evaluations =
     (let s = fold (weighted_step evaluations) (gc_criteria contract)
                \<lparr>ws_weightSum = Fin 0, ws_satisfaction = Fin 0, ws_rhoGap = Fin 0\<rparr>
      in if js_less (Fin 0) (ws_weightSum s)
         then (js_div (ws_satisfaction s) (ws_weightSum s), js_div (ws_rhoGap s) (ws_weightSum s))
         else (Fin 0, Fin 0))"

definition buildAudit ::
  "goal_contract \<Rightarrow> criterion_evaluation list \<Rightarrow> value_of_continuation \<Rightarrow> js_number list \<Rightarrow> string list \<Rightarrow> termination_audit" where
  "buildAudit contract evaluations voc residual decisionChain =
     (let (C, U) = weightedCompletion contract evaluations
      in \<lparr>ta_H = hardGateFromContract contract evaluations, ta_C = C, ta_U = U, ta_VOC_star = vc_star voc,
          ta_residual = residual, ta_criterionEvals = evaluations, ta_decisionChain = decisionChain,
          ta_judgeRecords = None\<rparr>)"

record decision_context =
  dc_contract :: goal_contract
  dc_evaluations :: "criterion_evaluation list"
  dc_voc :: value_of_continuation
  dc_residual :: "js_number list"
  dc_thresholds :: controller_thresholds
  dc_H :: js_number
  dc_C :: js_number
  dc_U :: js_number
  dc_VOC_star :: js_number

definition audit_of :: "decision_context \<Rightarrow> string list \<Rightarrow> termination_audit" where
  "audit_of x chain = buildAudit (dc_contract x) (dc_evaluations x) (dc_voc x) (dc_residual x) chain"

text \<open>Each helper returns its verdict, or \<open>None\<close> and the extended chain.\<close>

definition tryDone :: "decision_context \<Rightarrow> string list \<Rightarrow> control_verdict option \<times> string list" where
  "tryDone x chain =
     (let th = dc_thresholds x
      in if js_le (th_hardGate th) (dc_H x) \<and> js_le (th_tauC th) (dc_C x) \<and> js_le (dc_U x) (th_tauU th)
         then if js_le (dc_VOC_star x) (th_epsilon th)
              then let chain1 = chain @ [ARROW @ '' DONE: hard gate open, completion met, uncertainty low, no worthwhile action.'']
                   in (Some (DONE (audit_of x chain1)), chain1)
              else (None, chain @ [ARROW @ '' not DONE: worthwhile continuation action remains (VOC* > '' @ EPSILON @ '').''])
         else (None, chain
                @ (if js_less (dc_H x) (th_hardGate th) then [ARROW @ '' not DONE: hard gate closed.''] else [])
                @ (if js_less (dc_C x) (th_tauC th) then [ARROW @ '' not DONE: completion below '' @ TAU @ ''_C.''] else [])
                @ (if js_less (th_tauU th) (dc_U x) then [ARROW @ '' not DONE: uncertainty above '' @ TAU @ ''_U.''] else [])))"

definition missingEvidence :: "criterion_evaluation list \<Rightarrow> string list" where
  "missingEvidence evaluations =
     (let missing = map (\<lambda>e. ''low-evidence criterion '' @ ce_criterionId e @ '' ('' @ RHO @ ''='' @ toFixed 2 (ce_rho e) @ '')'')
                      (filter (\<lambda>e. js_less (ce_rho e) (Fin 1)) evaluations)
      in if missing \<noteq> [] then missing else [''unspecified evidence gap''])"

definition tryVerify :: "decision_context \<Rightarrow> string list \<Rightarrow> control_verdict option \<times> string list" where
  "tryVerify x chain =
     (let th = dc_thresholds x
      in if \<not> (js_le (th_tauC th) (dc_C x) \<and> js_less (th_tauU th) (dc_U x)) then (None, chain)
         else let chain1 = chain @ [ARROW @ '' VERIFY: completion reached but evidence credibility too low.'']
              in (Some (VERIFY (audit_of x chain1) (missingEvidence (dc_evaluations x))), chain1))"

definition has_progress :: "criterion_evaluation list \<Rightarrow> bool" where
  "has_progress evaluations = list_ex (\<lambda>e. ce_passed e \<and> js_le (to_number (5 / 10)) (ce_rho e)) evaluations"

definition USER_QUESTION :: string where
  "USER_QUESTION = ''I cannot make further progress without more information. What would you like me to do next?''"

definition tryAskUser :: "decision_context \<Rightarrow> string list \<Rightarrow> control_verdict option \<times> string list" where
  "tryAskUser x chain =
     (let th = dc_thresholds x
      in if \<not> (js_less (dc_C x) (th_tauC th) \<and> js_le (dc_VOC_star x) (th_epsilon th) \<and> \<not> has_progress (dc_evaluations x))
         then (None, chain)
         else let chain1 = chain @ [ARROW @ '' ASK_USER: no progress and no worthwhile action; user input needed.'']
              in (Some (ASK_USER (audit_of x chain1) USER_QUESTION), chain1))"

definition tryContinue :: "decision_context \<Rightarrow> string list \<Rightarrow> control_verdict option \<times> string list" where
  "tryContinue x chain =
     (if \<not> js_less (th_epsilon (dc_thresholds x)) (dc_VOC_star x) then (None, chain)
      else let chain1 = chain @ [ARROW @ '' CONTINUE: a worthwhile continuation action exists.'']
           in (Some (CONTINUE (audit_of x chain1) (vc_bestAction (dc_voc x))), chain1))"

definition any_positive :: "value_of_continuation \<Rightarrow> bool" where
  "any_positive voc = list_ex (js_less (Fin 0)) (map_values (vc_perAction voc))"

definition REPLAN_REASON :: string where
  "REPLAN_REASON = ''Current approach lacks progress; reconsider the plan.''"

definition STALLED_BLOCKER :: string where
  "STALLED_BLOCKER = ''No candidate action yields positive value; goal cannot progress.''"

definition replanOrStalled :: "decision_context \<Rightarrow> string list \<Rightarrow> control_verdict" where
  "replanOrStalled x chain =
     (if any_positive (dc_voc x)
      then REPLAN (audit_of x (chain @ [ARROW @ '' REPLAN: current direction stalled but an alternative shows promise.''])) REPLAN_REASON
      else STALLED (audit_of x (chain @ [ARROW @ '' STALLED: no completion and no worthwhile continuation path.''])) STALLED_BLOCKER)"

definition decide ::
  "goal_contract \<Rightarrow> criterion_evaluation list \<Rightarrow> value_of_continuation \<Rightarrow> js_number list \<Rightarrow> controller_thresholds
    \<Rightarrow> bool \<Rightarrow> control_verdict" where
  "decide contract evaluations voc residual thresholds llmDoneSignal =
     (let H = hardGateFromContract contract evaluations;
          (C, U) = weightedCompletion contract evaluations;
          chain = [''H='' @ number_to_string H @ '' (hard gate)'',
                   ''C='' @ toFixed 3 C @ '' (completion)'',
                   ''U='' @ toFixed 3 U @ '' (uncertainty)'',
                   ''VOC*='' @ toFixed 3 (vc_star voc) @ '' (value of continuation)'']
                  @ (if llmDoneSignal then [''LLM signaled done (advisory only)''] else []);
          x = \<lparr>dc_contract = contract, dc_evaluations = evaluations, dc_voc = voc, dc_residual = residual,
               dc_thresholds = thresholds, dc_H = H, dc_C = C, dc_U = U, dc_VOC_star = vc_star voc\<rparr>
      in case tryDone x chain of
           (Some v, _) \<Rightarrow> v
         | (None, chain1) \<Rightarrow>
             (case tryVerify x chain1 of
                (Some v, _) \<Rightarrow> v
              | (None, chain2) \<Rightarrow>
                  (case tryAskUser x chain2 of
                     (Some v, _) \<Rightarrow> v
                   | (None, chain3) \<Rightarrow>
                       (case tryContinue x chain3 of
                          (Some v, _) \<Rightarrow> v
                        | (None, chain4) \<Rightarrow> replanOrStalled x chain4))))"

section \<open>The controller (index.ts)\<close>

record partial_thresholds =
  pt_tauC :: "js_number option"
  pt_tauU :: "js_number option"
  pt_epsilon :: "js_number option"
  pt_lambda :: "js_number option"
  pt_mu :: "js_number option"
  pt_hardGate :: "js_number option"

definition merge_thresholds :: "partial_thresholds option \<Rightarrow> controller_thresholds" where
  "merge_thresholds p =
     (case p of
        None \<Rightarrow> DEFAULT_THRESHOLDS
      | Some t \<Rightarrow>
          \<lparr>th_tauC = case_option (th_tauC DEFAULT_THRESHOLDS) id (pt_tauC t),
           th_tauU = case_option (th_tauU DEFAULT_THRESHOLDS) id (pt_tauU t),
           th_epsilon = case_option (th_epsilon DEFAULT_THRESHOLDS) id (pt_epsilon t),
           th_lambda = case_option (th_lambda DEFAULT_THRESHOLDS) id (pt_lambda t),
           th_mu = case_option (th_mu DEFAULT_THRESHOLDS) id (pt_mu t),
           th_hardGate = case_option (th_hardGate DEFAULT_THRESHOLDS) id (pt_hardGate t)\<rparr>)"

record controller_options =
  co_llm :: "llm_adapter option"
  co_embedder :: "embedding_adapter option"
  co_registry :: "verifier_registry option"
  co_thresholds :: "partial_thresholds option"
  co_extraVerifiers :: "verifier list"
  co_judgeLlm :: "llm_adapter option"
  co_judgeQuorum :: "llm_adapter list"
  co_judgeBudget :: "judge_budget_limits option"

text \<open>The variables the controller closes over.\<close>

record controller_state =
  ct_contract :: "goal_contract option"
  ct_tick :: nat
  ct_budget :: "budget_state option"
  ct_journal :: judge_audit_journal
  ct_judge :: judge_state

definition controller_judge :: "controller_options \<Rightarrow> judge_options option" where
  "controller_judge o1 =
     map_option (\<lambda>llm. \<lparr>jo_judgeLlm = llm, jo_judgeQuorum = co_judgeQuorum o1,
                        jo_rho = Some (to_number (5 / 10)), jo_modelId = None\<rparr>) (co_judgeLlm o1)"

definition finalRegistry :: "controller_options \<Rightarrow> string + verifier_registry" where
  "finalRegistry o1 =
     (case co_registry o1 of
        Some r \<Rightarrow> Inr r
      | None \<Rightarrow> new_VerifierRegistry (BUILTIN_VERIFIERS @ co_extraVerifiers o1))"

text \<open>The verifier of the judge reads the cache of the moment it is called.\<close>

definition registryWithJudge :: "controller_options \<Rightarrow> judge_state \<Rightarrow> string + verifier_registry" where
  "registryWithJudge o1 js =
     (case controller_judge o1 of
        Some _ \<Rightarrow> new_VerifierRegistry (BUILTIN_VERIFIERS @ [judge_verifier js] @ co_extraVerifiers o1)
      | None \<Rightarrow> finalRegistry o1)"

text \<open>Creation throws where a verifier is registered twice.\<close>

definition createTerminationController ::
  "controller_options \<Rightarrow> js_number \<Rightarrow> nat \<Rightarrow> string + controller_state" where
  "createTerminationController o1 now seq =
     (case finalRegistry o1 of
        Inl e \<Rightarrow> Inl e
      | Inr _ \<Rightarrow>
          (case registryWithJudge o1 new_judge_state of
             Inl e \<Rightarrow> Inl e
           | Inr _ \<Rightarrow>
               Inr \<lparr>ct_contract = None, ct_tick = 0,
                    ct_budget = map_option (\<lambda>_. createJudgeBudgetPolicy now seq) (co_judgeBudget o1),
                    ct_journal = createJudgeAuditJournal, ct_judge = new_judge_state\<rparr>))"

definition registry_or_empty :: "string + verifier_registry \<Rightarrow> verifier_registry" where
  "registry_or_empty r = (case r of Inr x \<Rightarrow> x | Inl _ \<Rightarrow> [])"

text \<open>
  A compilation awaits the drafting model. What it does after the await, setting the cache and
  returning it, does not look at the cache again: a compilation that was begun while the cache
  was empty replaces a contract cached in the meantime.
\<close>

definition finish_compilation ::
  "(string \<Rightarrow> string) \<Rightarrow> controller_options \<Rightarrow> string \<Rightarrow> string \<Rightarrow> controller_state \<Rightarrow> goal_contract \<times> controller_state" where
  "finish_compilation sha256 o1 instruction now s =
     (let c = compileGoalContract sha256 instruction (co_llm o1) (registry_or_empty (finalRegistry o1)) now
      in (c, s\<lparr>ct_contract := Some c\<rparr>))"

definition compileContract ::
  "(string \<Rightarrow> string) \<Rightarrow> controller_options \<Rightarrow> string \<Rightarrow> string \<Rightarrow> controller_state \<Rightarrow> goal_contract \<times> controller_state" where
  "compileContract sha256 o1 instruction now s =
     (case ct_contract s of
        Some c \<Rightarrow> (c, s)
      | None \<Rightarrow> finish_compilation sha256 o1 instruction now s)"

definition evaluateAll :: "verifier_registry \<Rightarrow> goal_contract \<Rightarrow> agent_state \<Rightarrow> criterion_evaluation list" where
  "evaluateAll registry contract s = map (\<lambda>c. registry_evaluate registry (cr_verifierId c) c s) (gc_criteria contract)"

text \<open>The clock readings of one turn, in the order they are taken.\<close>

record turn_clock =
  ck_killCheck :: js_number
  ck_spendCheck :: js_number
  ck_reservedAt :: js_number
  ck_started :: js_number
  ck_ended :: js_number
  ck_reconciled :: js_number

definition run_prepass ::
  "(string \<Rightarrow> string) \<Rightarrow> judge_options \<Rightarrow> goal_contract \<Rightarrow> agent_state \<Rightarrow> controller_state \<Rightarrow> controller_state" where
  "run_prepass sha256 j contract x s =
     s\<lparr>ct_judge := prepass sha256 j (case ct_contract s of Some c \<Rightarrow> gc_contractId c | None \<Rightarrow> ''no-contract'')
                     (ct_tick s) contract x (ct_judge s)\<rparr>"

definition judged_prepass ::
  "(string \<Rightarrow> string) \<Rightarrow> controller_options \<Rightarrow> judge_options \<Rightarrow> turn_clock \<Rightarrow> goal_contract \<Rightarrow> agent_state
    \<Rightarrow> controller_state \<Rightarrow> controller_state" where
  "judged_prepass sha256 o1 j ck contract x s =
     (case (co_judgeBudget o1, ct_budget s) of
        (Some l, Some b) \<Rightarrow>
          (case isHardKilled l (ck_killCheck ck) b of
             (True, b1) \<Rightarrow> s\<lparr>ct_budget := Some b1\<rparr>
           | (False, b1) \<Rightarrow>
               (case reserve l (Some (Fin 512), Some (to_number (1 / 100))) (ck_spendCheck ck, ck_reservedAt ck) b1 of
                  (Inl _, b2) \<Rightarrow> s\<lparr>ct_budget := Some b2\<rparr>
                | (Inr r, b2) \<Rightarrow>
                    (let s1 = run_prepass sha256 j contract x (s\<lparr>ct_budget := Some b2\<rparr>)
                     in s1\<lparr>ct_budget := Some (reconcile l
                          \<lparr>bc_reservationId = br_reservationId r, bc_actualTokens = Fin 512,
                           bc_actualCostUsd = to_number (1 / 100), bc_wallMs = js_sub (ck_ended ck) (ck_started ck)\<rparr>
                          (ck_reconciled ck) b2)\<rparr>)))
      | _ \<Rightarrow> run_prepass sha256 j contract x s)"

fun with_audit :: "(termination_audit \<Rightarrow> termination_audit) \<Rightarrow> control_verdict \<Rightarrow> control_verdict" where
  "with_audit f (DONE a) = DONE (f a)"
| "with_audit f (CONTINUE a r) = CONTINUE (f a) r"
| "with_audit f (VERIFY a m) = VERIFY (f a) m"
| "with_audit f (ASK_USER a q) = ASK_USER (f a) q"
| "with_audit f (REPLAN a r) = REPLAN (f a) r"
| "with_audit f (STALLED a b) = STALLED (f a) b"

record control_input =
  ci_contract :: goal_contract
  ci_state :: agent_state
  ci_candidateActions :: "candidate_action list"
  ci_llmDoneSignal :: bool

definition evaluateTurn ::
  "(string \<Rightarrow> string) \<Rightarrow> controller_options \<Rightarrow> turn_clock \<Rightarrow> control_input \<Rightarrow> controller_state
    \<Rightarrow> control_verdict \<times> controller_state" where
  "evaluateTurn sha256 o1 ck i s =
     (let contract = ci_contract i;
          s1 = s\<lparr>ct_tick := Suc (ct_tick s)\<rparr>;
          s2 = (case controller_judge o1 of
                  Some j \<Rightarrow> judged_prepass sha256 o1 j ck contract (ci_state i) s1
                | None \<Rightarrow> s1);
          evaluations = evaluateAll (registry_or_empty (registryWithJudge o1 (ct_judge s2))) contract (ci_state i);
          residual = computeResidual contract (ci_state i) (co_embedder o1) (2 * ct_tick s1);
          thresholds = merge_thresholds (co_thresholds o1);
          voc = estimateVOC contract evaluations (ci_candidateActions i) thresholds;
          verdict = decide contract evaluations voc (rr_residual residual) thresholds (ci_llmDoneSignal i)
      in case controller_judge o1 of
           None \<Rightarrow> (verdict, s2)
         | Some _ \<Rightarrow>
             (let (js, journal) = judge_flushTo (ct_judge s2) (ct_journal s2);
                  (records, journal1) = journal_drain journal;
                  s3 = s2\<lparr>ct_judge := js, ct_journal := journal1\<rparr>
              in (if records = [] then verdict else with_audit (\<lambda>a. a\<lparr>ta_judgeRecords := Some records\<rparr>) verdict, s3)))"

end
