(* ===== verification/Boot_Facts.thy ===== *)
theory Boot_Facts
  imports Boot_Controller
begin

text \<open>
  Lemmas about the termination controller: comparison of JavaScript numbers, scores in the
  unit interval, weighted sums, the greedy match, the decision, the contract and the judge.
\<close>

section \<open>Comparison\<close>

lemma js_le_Fin [js_arith, simp]: "js_le (Fin x) (Fin y) \<longleftrightarrow> x \<le> y"
  by (auto simp: js_le_def js_eq_def)

lemma js_less_irrefl [simp]: "\<not> js_less x x"
  by (cases x) auto

lemma js_less_not_le: "js_less x y \<Longrightarrow> \<not> js_le y x"
  by (cases x; cases y) (auto simp: js_le_def js_eq_def)

lemma js_le_not_less: "js_le x y \<Longrightarrow> \<not> js_less y x"
  using js_less_not_le by blast

section \<open>Scores\<close>

text \<open>A score is a double of the unit interval.\<close>

definition score :: "js_number \<Rightarrow> bool" where
  "score x \<longleftrightarrow> (\<exists>q. x = Fin q \<and> binary64 q = q \<and> 0 \<le> q \<and> q \<le> 1)"

lemma scoreE: "score x \<Longrightarrow> (\<And>q. x = Fin q \<Longrightarrow> binary64 q = q \<Longrightarrow> 0 \<le> q \<Longrightarrow> q \<le> 1 \<Longrightarrow> thesis) \<Longrightarrow> thesis"
  by (auto simp: score_def)

lemma to_number_unit: "0 \<le> x \<Longrightarrow> x \<le> 1 \<Longrightarrow> to_number x = Fin (binary64 x)"
  by (rule to_number_small) simp

lemma score_to_number [simp]: "0 \<le> x \<Longrightarrow> x \<le> 1 \<Longrightarrow> score (to_number x)"
  by (auto simp: to_number_unit score_def double.rd_idem double.rd_ge_zero double.rd_le_one)

lemma score_01 [simp]: "score (Fin 0)" "score (Fin 1)"
  by (auto simp: score_def double.rd_one)

lemma score_mul: "score x \<Longrightarrow> score y \<Longrightarrow> score (js_mul x y)"
  by (auto simp: score_def js_mul_def to_number_unit mult_le_one double.rd_idem double.rd_ge_zero double.rd_le_one)

lemma score_complement: "score x \<Longrightarrow> score (js_sub (Fin 1) x)"
  by (auto simp: js_sub_def elim!: scoreE)

lemma score_isFinite: "score x \<Longrightarrow> isFinite x"
  by (auto elim: scoreE)

text \<open>The ratio of two counts.\<close>

lemma score_ratio: "a \<le> b \<Longrightarrow> 0 < b \<Longrightarrow> score (js_div (Fin (of_nat a)) (Fin (of_nat b)))"
  by simp

lemma length_filter_common: "distinct sa \<Longrightarrow> length (filter (\<lambda>w. w \<in> set sb) sa) \<le> length (new_Set (sa @ sb))"
proof -
  assume sa: "distinct sa"
  have "length (filter (\<lambda>w. w \<in> set sb) sa) \<le> length sa" by simp
  also have "\<dots> = card (set sa)" using sa by (simp add: distinct_card)
  also have "\<dots> \<le> card (set (new_Set (sa @ sb)))" by (rule card_mono) auto
  also have "\<dots> = length (new_Set (sa @ sb))" by (rule distinct_card) (rule distinct_new_Set)
  finally show ?thesis .
qed

lemma score_word_overlap: "distinct sa \<Longrightarrow> score (word_overlap sa sb)"
proof (cases "sa = [] \<or> sb = []")
  case False
  assume sa: "distinct sa"
  have "set (new_Set (sa @ sb)) \<noteq> {}" using False by simp
  then have "0 < length (new_Set (sa @ sb))" by (metis length_greater_0_conv set_empty)
  then show ?thesis using False length_filter_common [OF sa, of sb] unfolding word_overlap_def
    by (simp only: if_False score_ratio)
qed (simp add: word_overlap_def)

lemma distinct_words_of [simp]: "distinct (words_of s)"
  by (simp add: words_of_def)

lemma score_jaccard [simp]: "score (jaccard a b)" "score (jaccardSimilarity a b)"
  by (simp_all add: jaccard_def jaccardSimilarity_def score_word_overlap)

section \<open>Weighted sums\<close>

definition unit_evaluation :: "criterion_evaluation \<Rightarrow> bool" where
  "unit_evaluation e \<longleftrightarrow> score (ce_q e) \<and> score (ce_rho e)"

text \<open>The three sums stay finite and the two parts stay below the whole.\<close>

definition sums_ok :: "weighted_sums \<Rightarrow> bool" where
  "sums_ok s \<longleftrightarrow>
     (\<exists>w a b. ws_weightSum s = Fin w \<and> ws_satisfaction s = Fin a \<and> ws_rhoGap s = Fin b \<and>
        0 \<le> a \<and> a \<le> w \<and> 0 \<le> b \<and> b \<le> w \<and> w \<le> 9007199254740992)"

lemma scaled_score:
  assumes "score w" and "score q"
  obtains v p where "w = Fin v" and "js_mul w q = Fin p" and "0 \<le> p" and "p \<le> v" and "v \<le> 1"
proof -
  from assms obtain v u where v: "w = Fin v" "binary64 v = v" "0 \<le> v" "v \<le> 1"
    and u: "q = Fin u" "0 \<le> u" "u \<le> 1" by (auto elim!: scoreE)
  have "js_mul w q = Fin (binary64 (v * u))"
    using v u by (simp add: js_mul_def to_number_unit mult_le_one)
  with double.rd_scaled [OF v(2,3) u(2,3)] v that show thesis by auto
qed

lemma sum_step:
  assumes "0 \<le> a" and "a \<le> w" and "w \<le> 9007199254740992" and "0 \<le> p" and "p \<le> v" and "v \<le> 1"
  shows "\<exists>a' w'. js_add (Fin a) (Fin p) = Fin a' \<and> js_add (Fin w) (Fin v) = Fin w' \<and> 0 \<le> a' \<and> a' \<le> w' \<and>
    w' \<le> 9007199254740992"
proof -
  have fin: "js_add (Fin x) (Fin y) = Fin (binary64 (x + y))"
    if "0 \<le> x" "x \<le> 9007199254740992" "0 \<le> y" "y \<le> 1" for x y
  proof -
    have "0 \<le> binary64 (x + y) \<and> binary64 (x + y) \<le> 9007199254740992"
      using double.rd_sum_step [of x y] that by simp
    then show ?thesis by (simp add: to_number_bounded)
  qed
  have "js_add (Fin a) (Fin p) = Fin (binary64 (a + p))" "js_add (Fin w) (Fin v) = Fin (binary64 (w + v))"
    using assms by (intro fin; linarith)+
  moreover have "binary64 (a + p) \<le> binary64 (w + v)" using assms by (intro binary64_mono) simp
  ultimately show ?thesis using double.rd_sum_step [of w v] double.rd_sum_step [of a p] assms by simp
qed

lemma evaluation_of_unit: "list_all unit_evaluation es \<Longrightarrow> evaluation_of es i = Some e \<Longrightarrow> unit_evaluation e"
  unfolding evaluation_of_def list_all_iff by (metis find_Some_mem)

lemma weighted_step_ok:
  assumes "sums_ok s" and "score (cr_weight c)" and "list_all unit_evaluation es"
  shows "sums_ok (weighted_step es c s)"
proof -
  obtain w a b where s: "ws_weightSum s = Fin w" "ws_satisfaction s = Fin a" "ws_rhoGap s = Fin b"
    and ab: "0 \<le> a" "a \<le> w" "0 \<le> b" "b \<le> w" "w \<le> 9007199254740992"
    using assms(1) by (auto simp: sums_ok_def)
  let ?e = "evaluation_of es (cr_id c)"
  define q where "q = (case ?e of Some x \<Rightarrow> ce_q x | None \<Rightarrow> Fin 0)"
  define rho where "rho = (case ?e of Some x \<Rightarrow> ce_rho x | None \<Rightarrow> Fin 0)"
  have q: "score q" and r: "score (js_sub (Fin 1) rho)"
    using evaluation_of_unit [OF assms(3), of "cr_id c"] score_complement
    by (auto simp: q_def rho_def unit_evaluation_def split: option.splits)
  obtain v p where p: "cr_weight c = Fin v" "js_mul (cr_weight c) q = Fin p" "0 \<le> p" "p \<le> v" "v \<le> 1"
    using scaled_score [OF assms(2) q] .
  obtain v' g where g: "cr_weight c = Fin v'" "js_mul (cr_weight c) (js_sub (Fin 1) rho) = Fin g" "0 \<le> g" "g \<le> v'" "v' \<le> 1"
    using scaled_score [OF assms(2) r] .
  have "v' = v" using p(1) g(1) by simp
  then show ?thesis
    using sum_step [OF ab(1,2,5) p(3,4,5)] sum_step [OF ab(3,4,5) g(3) _ p(5)] g(4) p(1,2) g(2) s
    by (auto simp: sums_ok_def weighted_step_def Let_def simp flip: q_def rho_def)
qed

lemma weightedCompletion_score:
  assumes "list_all (\<lambda>c. score (cr_weight c)) (gc_criteria k)" and "list_all unit_evaluation es"
  shows "score (fst (weightedCompletion k es)) \<and> score (snd (weightedCompletion k es))"
proof -
  let ?s0 = "\<lparr>ws_weightSum = Fin 0, ws_satisfaction = Fin 0, ws_rhoGap = Fin 0\<rparr>"
  have "sums_ok s \<Longrightarrow> list_all (\<lambda>c. score (cr_weight c)) cs \<Longrightarrow> sums_ok (fold (weighted_step es) cs s)" for s cs
    using assms(2) by (induction cs arbitrary: s) (auto intro: weighted_step_ok)
  moreover have "sums_ok ?s0" by (simp add: sums_ok_def)
  ultimately have "sums_ok (fold (weighted_step es) (gc_criteria k) ?s0)" using assms(1) by blast
  then obtain w a b where f: "fold (weighted_step es) (gc_criteria k) ?s0 =
      \<lparr>ws_weightSum = Fin w, ws_satisfaction = Fin a, ws_rhoGap = Fin b\<rparr>"
    and ab: "0 \<le> a" "a \<le> w" "0 \<le> b" "b \<le> w"
    unfolding sums_ok_def by (cases "fold (weighted_step es) (gc_criteria k) ?s0") auto
  show ?thesis unfolding weightedCompletion_def f using ab by (simp add: Let_def)
qed

section \<open>Verifiers give scores\<close>

lemma math_max2: "score x \<Longrightarrow> score y \<Longrightarrow> score (js_max2 x y)"
  by (auto simp: js_max2_def)

lemma half: "to_number (1 / 2) = Fin (1 / 2)"
  using binary64_exact [of 1 "- 1"] by (simp add: to_number_unit power_int_minus)

lemma one: "to_number 1 = Fin 1"
  by (simp add: to_number_unit double.rd_one)

lemma rubric_score:
  "score (js_add (if a then to_number (5 / 10) else Fin 0) (if b then to_number (5 / 10) else Fin 0))"
  using score_to_number [of "1 / 2"] by (auto simp: half one)

lemma builtin_unit:
  "v \<in> set BUILTIN_VERIFIERS \<Longrightarrow> unit_evaluation (vf_evaluate v c s)"
proof -
  assume "v \<in> set BUILTIN_VERIFIERS"
  then consider "v = NO_INFINITE_LOOP_VERIFIER" | "v = DUPLICATE_REPLY_VERIFIER"
    | "v = COORDINATION_PROGRESS_VERIFIER" | "v = TASK_ARTIFACT_EXISTS_VERIFIER" | "v = STRUCTURED_RUBRIC_VERIFIER"
    by (auto simp: BUILTIN_VERIFIERS_def)
  then show ?thesis
  proof cases
    case 5
    then show ?thesis
      unfolding STRUCTURED_RUBRIC_VERIFIER_def structured_rubric_evaluate_def unit_evaluation_def Let_def
      by (simp only: verifier.simps criterion_evaluation.simps rubric_score) simp
  qed (auto simp: NO_INFINITE_LOOP_VERIFIER_def no_infinite_loop_evaluate_def DUPLICATE_REPLY_VERIFIER_def
      duplicate_reply_evaluate_def COORDINATION_PROGRESS_VERIFIER_def coordination_progress_evaluate_def
      TASK_ARTIFACT_EXISTS_VERIFIER_def task_artifact_exists_evaluate_def unit_evaluation_def Let_def split: prod.splits)
qed

text \<open>A registry built from a list holds exactly its verifiers under their ids.\<close>

definition registers :: "verifier_registry \<Rightarrow> verifier list \<Rightarrow> bool" where
  "registers r vs \<longleftrightarrow> (\<forall>i v. map_get r i = Some v \<longleftrightarrow> v \<in> set vs \<and> vf_id v = i)"

lemma register_all_result:
  assumes "register_all ws r = Inr r'" and "registers r vs"
  shows "registers r' (vs @ ws) \<and> distinct (map vf_id ws) \<and> vf_id ` set ws \<inter> vf_id ` set vs = {}"
  using assms
proof (induction ws arbitrary: r vs)
  case (Cons w ws)
  from Cons.prems(1) have new: "\<not> map_has r (vf_id w)" and rest: "register_all ws (map_set (vf_id w) w r) = Inr r'"
    by (auto simp: register_def split: if_splits)
  have fresh: "\<forall>v\<in>set vs. vf_id v \<noteq> vf_id w"
    using new Cons.prems(2) unfolding registers_def map_has_get by (metis option.distinct(1))
  have "registers (map_set (vf_id w) w r) (vs @ [w])"
    using Cons.prems(2) fresh by (auto simp: registers_def jsmap_simps)
  from Cons.IH [OF rest this] fresh show ?case by auto
qed simp

lemma new_VerifierRegistry_registers: "new_VerifierRegistry vs = Inr r \<Longrightarrow> registers r vs"
  using register_all_result [of vs "[]" r "[]"] by (simp add: new_VerifierRegistry_def registers_def)

text \<open>Whether a list registers depends on the ids only.\<close>

lemma register_all_ids:
  "map vf_id vs = map vf_id ws \<Longrightarrow> map_keys r = map_keys r' \<Longrightarrow>
   (\<exists>x. register_all vs r = Inr x) = (\<exists>x. register_all ws r' = Inr x)"
proof (induction vs arbitrary: ws r r')
  case (Cons v vs)
  then obtain w ws' where ws: "ws = w # ws'" "vf_id w = vf_id v" "map vf_id vs = map vf_id ws'" by auto
  have has: "map_has r (vf_id v) = map_has r' (vf_id v)"
    using Cons.prems(2) unfolding map_has_keys map_keys_def by (metis list.set_map)
  have "map_keys (map_set k x m) = (if map_has m k then map_keys m else map_keys m @ [k])" for k :: string and x :: verifier and m
    by (simp add: map_keys_def map_set_def update_keys map_has_keys)
  then show ?case using Cons.IH [OF ws(3), of "map_set (vf_id v) v r" "map_set (vf_id v) w r'"] has Cons.prems(2)
    by (auto simp: ws(1,2) register_def)
qed simp

lemma registry_evaluate_unit:
  assumes "registers r vs" and "\<forall>v\<in>set vs. unit_evaluation (vf_evaluate v c s)"
  shows "unit_evaluation (registry_evaluate r i c s)"
proof (cases "map_get r i")
  case (Some v)
  then have "v \<in> set vs" using assms(1) by (auto simp: registers_def)
  with Some assms(2) show ?thesis by (simp add: registry_evaluate_def)
qed (simp add: registry_evaluate_def unit_evaluation_def)

section \<open>The contract\<close>

definition criterion_ok :: "verifier_registry \<Rightarrow> criterion \<Rightarrow> bool" where
  "criterion_ok r c \<longleftrightarrow>
     cr_id c \<noteq> [] \<and> cr_description c \<noteq> [] \<and> map_has r (cr_verifierId c) \<and>
     score (cr_weight c) \<and> score (cr_threshold c)"

lemma clamp_score:
  assumes "clamp v (Fin 0) (Fin 1) = Some (Some x)"
    and "\<And>q. value_to_number v = Some (Fin q) \<Longrightarrow> binary64 q = q"
  shows "score x"
proof -
  obtain q where q: "value_to_number v = Some (Fin q)" "x = math_min [Fin 1, math_max [Fin 0, Fin q]]"
    using assms(1) by (auto simp: clamp_def split: option.splits if_splits) (metis isFinite.elims(2))
  show ?thesis unfolding q(2) using assms(2) [OF q(1)]
    by (auto simp: math_min_def math_max_def js_min2_def js_max2_def score_def double.rd_one)
qed

lemma to_number_double: "to_number x = Fin q \<Longrightarrow> binary64 q = q"
  by (auto simp: to_number_def Let_def double.rd_idem split: if_splits)

lemma js_double_double: "js_double x = Fin q \<Longrightarrow> binary64 q = q"
  by (cases x) (auto intro: to_number_double)

lemma string_to_number_double: "string_to_number s = Fin q \<Longrightarrow> binary64 q = q"
  by (auto simp: string_to_number_def radix_number_def Let_def double.rd_idem
      split: list.splits if_splits option.splits prod.splits intro: to_number_double)

lemma value_to_number_double: "value_to_number v = Some (Fin q) \<Longrightarrow> binary64 q = q"
  by (cases v) (auto intro: js_double_double string_to_number_double simp: double.rd_one split: if_splits)

lemma normalizeCriterion_ok: "normalizeCriterion raw r = Some (Some c) \<Longrightarrow> criterion_ok r c"
proof -
  assume n: "normalizeCriterion raw r = Some (Some c)"
  have string: "js_truthy_string v = Some s \<Longrightarrow> s \<noteq> []" for v s
    by (cases v) (auto simp: js_truthy_string_def split: if_splits)
  have "clamp v (Fin 0) (Fin 1) = Some (Some x) \<Longrightarrow> score x" for v x
    using clamp_score value_to_number_double by blast
  with n string show ?thesis
    by (auto simp: normalizeCriterion_def criterion_ok_def split: if_splits option.splits prod.splits)
qed

lemma normalize_criteria_ok: "normalize_criteria rs r = Some cs \<Longrightarrow> list_all (criterion_ok r) cs"
  by (induction rs arbitrary: cs) (auto split: option.splits dest: normalizeCriterion_ok)

lemma drafted_ok: "drafted_criteria x r = Some cs \<Longrightarrow> cs \<noteq> [] \<and> list_all (criterion_ok r) cs"
  by (auto simp: drafted_criteria_def split: option.splits js_value.splits list.splits dest: normalize_criteria_ok)

section \<open>The decision\<close>

definition context_of ::
  "goal_contract \<Rightarrow> criterion_evaluation list \<Rightarrow> value_of_continuation \<Rightarrow> js_number list \<Rightarrow> controller_thresholds
    \<Rightarrow> decision_context" where
  "context_of k es voc res th =
     \<lparr>dc_contract = k, dc_evaluations = es, dc_voc = voc, dc_residual = res, dc_thresholds = th,
      dc_H = hardGateFromContract k es, dc_C = fst (weightedCompletion k es),
      dc_U = snd (weightedCompletion k es), dc_VOC_star = vc_star voc\<rparr>"

definition may_finish :: "decision_context \<Rightarrow> bool" where
  "may_finish x \<longleftrightarrow>
     js_le (th_hardGate (dc_thresholds x)) (dc_H x) \<and> js_le (th_tauC (dc_thresholds x)) (dc_C x) \<and>
     js_le (dc_U x) (th_tauU (dc_thresholds x)) \<and> js_le (dc_VOC_star x) (th_epsilon (dc_thresholds x))"

definition needs_evidence :: "decision_context \<Rightarrow> bool" where
  "needs_evidence x \<longleftrightarrow>
     js_le (th_tauC (dc_thresholds x)) (dc_C x) \<and> js_less (th_tauU (dc_thresholds x)) (dc_U x)"

definition needs_user :: "decision_context \<Rightarrow> bool" where
  "needs_user x \<longleftrightarrow>
     js_less (dc_C x) (th_tauC (dc_thresholds x)) \<and> js_le (dc_VOC_star x) (th_epsilon (dc_thresholds x)) \<and>
     \<not> has_progress (dc_evaluations x)"

definition worth_continuing :: "decision_context \<Rightarrow> bool" where
  "worth_continuing x \<longleftrightarrow> js_less (th_epsilon (dc_thresholds x)) (dc_VOC_star x)"

lemma tryDone_result:
  "\<exists>c. tryDone x chain = (if may_finish x then Some (DONE (audit_of x c)) else None, c)"
  by (auto simp: tryDone_def may_finish_def Let_def)

lemma tryVerify_result:
  "\<exists>c. tryVerify x chain = (if needs_evidence x then Some (VERIFY (audit_of x c) (missingEvidence (dc_evaluations x))) else None, c)"
  by (auto simp: tryVerify_def needs_evidence_def Let_def)

lemma tryAskUser_result:
  "\<exists>c. tryAskUser x chain = (if needs_user x then Some (ASK_USER (audit_of x c) USER_QUESTION) else None, c)"
  by (auto simp: tryAskUser_def needs_user_def Let_def)

lemma tryContinue_result:
  "\<exists>c. tryContinue x chain = (if worth_continuing x then Some (CONTINUE (audit_of x c) (vc_bestAction (dc_voc x))) else None, c)"
  by (auto simp: tryContinue_def worth_continuing_def Let_def)

lemma replanOrStalled_result:
  "\<exists>c. replanOrStalled x chain =
     (if any_positive (dc_voc x) then REPLAN (audit_of x c) REPLAN_REASON else STALLED (audit_of x c) STALLED_BLOCKER)"
  by (auto simp: replanOrStalled_def)

text \<open>The ruling of a context: the first condition that holds, in the order of the source.\<close>

definition ruling :: "decision_context \<Rightarrow> string list \<Rightarrow> control_verdict" where
  "ruling x c =
     (if may_finish x then DONE (audit_of x c)
      else if needs_evidence x then VERIFY (audit_of x c) (missingEvidence (dc_evaluations x))
      else if needs_user x then ASK_USER (audit_of x c) USER_QUESTION
      else if worth_continuing x then CONTINUE (audit_of x c) (vc_bestAction (dc_voc x))
      else if any_positive (dc_voc x) then REPLAN (audit_of x c) REPLAN_REASON
      else STALLED (audit_of x c) STALLED_BLOCKER)"

lemma decide_ruling: "\<exists>c. decide k es voc res th b = ruling (context_of k es voc res th) c"
proof -
  define x where "x = context_of k es voc res th"
  obtain chain where d: "decide k es voc res th b =
    (case tryDone x chain of
           (Some v, _) \<Rightarrow> v
         | (None, chain1) \<Rightarrow>
             (case tryVerify x chain1 of
                (Some v, _) \<Rightarrow> v
              | (None, chain2) \<Rightarrow>
                  (case tryAskUser x chain2 of
                     (Some v, _) \<Rightarrow> v
                   | (None, chain3) \<Rightarrow>
                       (case tryContinue x chain3 of
                          (Some v, _) \<Rightarrow> v
                        | (None, chain4) \<Rightarrow> replanOrStalled x chain4))))"
    unfolding decide_def x_def context_of_def Let_def prod.case_eq_if by blast
  obtain c1 where c1: "tryDone x chain = (if may_finish x then Some (DONE (audit_of x c1)) else None, c1)"
    using tryDone_result by blast
  obtain c2 where c2: "tryVerify x c1 = (if needs_evidence x then Some (VERIFY (audit_of x c2) (missingEvidence (dc_evaluations x))) else None, c2)"
    using tryVerify_result by blast
  obtain c3 where c3: "tryAskUser x c2 = (if needs_user x then Some (ASK_USER (audit_of x c3) USER_QUESTION) else None, c3)"
    using tryAskUser_result by blast
  obtain c4 where c4: "tryContinue x c3 = (if worth_continuing x then Some (CONTINUE (audit_of x c4) (vc_bestAction (dc_voc x))) else None, c4)"
    using tryContinue_result by blast
  obtain c5 where c5: "replanOrStalled x c4 =
     (if any_positive (dc_voc x) then REPLAN (audit_of x c5) REPLAN_REASON else STALLED (audit_of x c5) STALLED_BLOCKER)"
    using replanOrStalled_result by blast
  show ?thesis unfolding d c1 x_def [symmetric] ruling_def by (auto simp: c2 c3 c4 c5)
qed

lemma audit_chain [simp]: "(audit_of x c)\<lparr>ta_decisionChain := c'\<rparr> = audit_of x c'"
  by (simp add: audit_of_def buildAudit_def split: prod.splits)

text \<open>The verdict without the texts of the decision chain.\<close>

definition without_chain :: "control_verdict \<Rightarrow> control_verdict" where
  "without_chain = with_audit (\<lambda>a. a\<lparr>ta_decisionChain := []\<rparr>)"

lemma without_chain_ruling: "without_chain (ruling x c) = ruling x []"
  by (simp add: without_chain_def ruling_def)

lemma decide_without_chain: "without_chain (decide k es voc res th b) = ruling (context_of k es voc res th) []"
  using decide_ruling [of k es voc res th b] without_chain_ruling by metis

text \<open>The conditions exclude each other, so each verdict has one.\<close>

lemma conditions_exclusive:
  "may_finish x \<Longrightarrow> \<not> needs_evidence x" "may_finish x \<Longrightarrow> \<not> needs_user x" "may_finish x \<Longrightarrow> \<not> worth_continuing x"
  "needs_evidence x \<Longrightarrow> \<not> needs_user x" "needs_user x \<Longrightarrow> \<not> worth_continuing x"
  using js_less_not_le by (auto simp: may_finish_def needs_evidence_def needs_user_def worth_continuing_def)

lemma ruling_kinds:
  "is_DONE (ruling x c) \<longleftrightarrow> may_finish x"
  "is_VERIFY (ruling x c) \<longleftrightarrow> needs_evidence x"
  "is_ASK_USER (ruling x c) \<longleftrightarrow> needs_user x"
  "is_CONTINUE (ruling x c) \<longleftrightarrow> worth_continuing x \<and> \<not> needs_evidence x"
  using conditions_exclusive by (auto simp: ruling_def)

end
