(* ===== verification/Boot_Turns.thy ===== *)
theory Boot_Turns
  imports Boot_Facts
begin

text \<open>
  Lemmas about whole turns of the termination controller: the best continuation, the default
  contract, the judge behind its cache and budget, and the states a sequence of calls reaches.
\<close>

section \<open>The best continuation\<close>

text \<open>The star is the largest value, the recommendation the first action that has it.\<close>

definition best_at :: "(candidate_action \<Rightarrow> js_number) \<Rightarrow> candidate_action list \<Rightarrow> value_of_continuation \<Rightarrow> nat \<Rightarrow> bool" where
  "best_at value as v i \<longleftrightarrow>
     i < length as \<and> vc_star v = value (as ! i) \<and> vc_bestAction v = Some (ca_name (as ! i)) \<and>
     (\<forall>j<i. js_less (value (as ! j)) (vc_star v)) \<and> (\<forall>j<length as. js_le (value (as ! j)) (vc_star v))"

lemma js_less_trans: "js_less x y \<Longrightarrow> js_less y z \<Longrightarrow> js_less x z"
  by (cases x; cases y; cases z) (auto split: if_splits)

lemma voc_fold_best:
  assumes "as \<noteq> []" and "\<And>a. a \<in> set as \<Longrightarrow> isFinite (value a)"
  shows "\<exists>i. best_at value as (fold (voc_step value) as \<lparr>vc_perAction = [], vc_star = NegInf, vc_bestAction = None\<rparr>) i"
  using assms
proof (induction as rule: rev_induct)
  case (snoc a as)
  let ?v0 = "\<lparr>vc_perAction = [], vc_star = NegInf, vc_bestAction = None\<rparr>"
  define v where "v = fold (voc_step value) as ?v0"
  have step: "fold (voc_step value) (as @ [a]) ?v0 = voc_step value a v" by (simp add: v_def)
  obtain q where q: "value a = Fin q" using snoc.prems(2) [of a] by (cases "value a") auto
  show ?case
  proof (cases "as = []")
    case True
    then show ?thesis unfolding step by (intro exI [of _ 0]) (simp add: best_at_def voc_step_def v_def q Let_def)
  next
    case False
    with snoc obtain i where i: "best_at value as v i" unfolding v_def by auto
    then have ile: "i < length as" and star: "vc_star v = value (as ! i)" by (auto simp: best_at_def)
    have "isFinite (value (as ! i))" using snoc.prems(2) ile by simp
    then obtain p where p: "vc_star v = Fin p" unfolding star by (cases "value (as ! i)") auto
    have vals: "\<exists>r. value (as ! j) = Fin r \<and> r \<le> p" if "j < length as" for j
    proof -
      have "js_le (value (as ! j)) (Fin p)" using i that p by (auto simp: best_at_def)
      then show ?thesis using snoc.prems(2) [of "as ! j"] that by (cases "value (as ! j)") auto
    qed
    show ?thesis
    proof (cases "p < q")
      case True
      have "j < length as \<Longrightarrow> js_less (value (as ! j)) (Fin q)" for j using vals [of j] True by auto
      with True show ?thesis unfolding step
        by (intro exI [of _ "length as"]) (auto simp: best_at_def voc_step_def p q Let_def nth_append less_Suc_eq
          dest!: vals)
    next
      case ge: False
      have "value (as ! i) = Fin p" using star p by simp
      moreover have "voc_step value a v = v\<lparr>vc_perAction := map_set (ca_name a) (Fin q) (vc_perAction v)\<rparr>"
        using ge by (simp add: voc_step_def p q Let_def)
      moreover have "vc_bestAction v = Some (ca_name (as ! i))" "\<forall>j<i. js_less (value (as ! j)) (Fin p)"
        using i p by (auto simp: best_at_def)
      ultimately show ?thesis unfolding step using ile ge vals
        by (intro exI [of _ i]) (auto simp: best_at_def nth_append less_Suc_eq p q dest!: vals)
    qed
  qed
qed simp

lemma voc_fold_values:
  "vc_perAction (fold (voc_step value) as v) = fold (\<lambda>a. map_set (ca_name a) (value a)) as (vc_perAction v)"
  by (induction as arbitrary: v) (simp_all add: voc_step_def Let_def)

lemma estimateVOC_best:
  assumes "as \<noteq> []" and "\<And>a. a \<in> set as \<Longrightarrow> isFinite (action_value k (new_Map (map (\<lambda>e. (ce_criterionId e, e)) es)) th a)"
  obtains i where "best_at (action_value k (new_Map (map (\<lambda>e. (ce_criterionId e, e)) es)) th) as (estimateVOC k es as th) i"
proof -
  let ?worth = "action_value k (new_Map (map (\<lambda>e. (ce_criterionId e, e)) es)) th"
  obtain i where i: "best_at ?worth as (fold (voc_step ?worth) as \<lparr>vc_perAction = [], vc_star = NegInf, vc_bestAction = None\<rparr>) i"
    using voc_fold_best [OF assms(1)] assms(2) by blast
  then have "isFinite (vc_star (fold (voc_step ?worth) as \<lparr>vc_perAction = [], vc_star = NegInf, vc_bestAction = None\<rparr>))"
    using assms(2) by (simp add: best_at_def)
  then have "estimateVOC k es as th = fold (voc_step ?worth) as \<lparr>vc_perAction = [], vc_star = NegInf, vc_bestAction = None\<rparr>"
    using assms(1) by (simp add: estimateVOC_def Let_def)
  with i that show thesis by simp
qed

section \<open>The default contract\<close>

text \<open>What an action is worth when the only criterion is \<open>no_infinite_loop\<close> and its score is \<open>q\<close>.\<close>

definition loop_value :: "js_number \<Rightarrow> action_kind \<Rightarrow> js_number" where
  "loop_value q kind =
     (let a = \<lparr>ca_name = [], ca_kind = kind\<rparr>
      in js_sub (js_sub (js_add (Fin 0) (js_mul (js_mul (js_mul (Fin 1) (js_sub (Fin 1) q)) (relevance a ''no_infinite_loop''))
              (successProbability a)))
            (js_mul (th_lambda DEFAULT_THRESHOLDS) (actionCost a)))
          (js_mul (th_mu DEFAULT_THRESHOLDS) (actionRisk a)))"

lemma action_value_default:
  "gc_criteria k = [default_criterion] \<Longrightarrow> ce_criterionId e = ''no_infinite_loop'' \<Longrightarrow>
   action_value k (new_Map (map (\<lambda>e. (ce_criterionId e, e)) [e])) DEFAULT_THRESHOLDS a = loop_value (ce_q e) (ca_kind a)"
  by (simp add: action_value_def loop_value_def gain_term_def default_criterion_def new_Map_def jsmap_simps
      relevance_def successProbability_def actionCost_def actionRisk_def Let_def)

text \<open>The worth of each kind of action, to a thousandth.\<close>

lemma default_costs:
  "near (js_mul (th_lambda DEFAULT_THRESHOLDS) (actionCost \<lparr>ca_name = [], ca_kind = TextAction\<rparr>)) 50 52"
  "near (js_mul (th_lambda DEFAULT_THRESHOLDS) (actionCost \<lparr>ca_name = [], ca_kind = CoordinationAction\<rparr>)) 102 103"
  "near (js_mul (th_lambda DEFAULT_THRESHOLDS) (actionCost \<lparr>ca_name = [], ca_kind = ToolAction\<rparr>)) 152 155"
  "near (js_mul (th_mu DEFAULT_THRESHOLDS) (actionRisk \<lparr>ca_name = [], ca_kind = TextAction\<rparr>)) 19 21"
  "near (js_mul (th_mu DEFAULT_THRESHOLDS) (actionRisk \<lparr>ca_name = [], ca_kind = CoordinationAction\<rparr>)) 40 42"
  "near (js_mul (th_mu DEFAULT_THRESHOLDS) (actionRisk \<lparr>ca_name = [], ca_kind = ToolAction\<rparr>)) 81 83"
proof -
  have l: "near (to_number (1 / 10)) 102 103" and m: "near (to_number (2 / 10)) 204 205"
    and h: "near (to_number (5 / 10)) 512 512" and o: "near (to_number (15 / 10)) 1536 1536"
    and f: "near (to_number (4 / 10)) 409 410" and u: "near (Fin 1) 1024 1024"
    by (simp_all add: near_number near_Fin)
  show "near (js_mul (th_lambda DEFAULT_THRESHOLDS) (actionCost \<lparr>ca_name = [], ca_kind = TextAction\<rparr>)) 50 52"
    using near_mul [OF l h, of 50 52] by (simp add: DEFAULT_THRESHOLDS_def actionCost_def)
  show "near (js_mul (th_lambda DEFAULT_THRESHOLDS) (actionCost \<lparr>ca_name = [], ca_kind = CoordinationAction\<rparr>)) 102 103"
    using near_mul [OF l u, of 102 103] by (simp add: DEFAULT_THRESHOLDS_def actionCost_def)
  show "near (js_mul (th_lambda DEFAULT_THRESHOLDS) (actionCost \<lparr>ca_name = [], ca_kind = ToolAction\<rparr>)) 152 155"
    using near_mul [OF l o, of 152 155] by (simp add: DEFAULT_THRESHOLDS_def actionCost_def)
  show "near (js_mul (th_mu DEFAULT_THRESHOLDS) (actionRisk \<lparr>ca_name = [], ca_kind = TextAction\<rparr>)) 19 21"
    using near_mul [OF m l, of 19 21] by (simp add: DEFAULT_THRESHOLDS_def actionRisk_def)
  show "near (js_mul (th_mu DEFAULT_THRESHOLDS) (actionRisk \<lparr>ca_name = [], ca_kind = CoordinationAction\<rparr>)) 40 42"
    using near_mul [OF m m, of 40 42] by (simp add: DEFAULT_THRESHOLDS_def actionRisk_def)
  show "near (js_mul (th_mu DEFAULT_THRESHOLDS) (actionRisk \<lparr>ca_name = [], ca_kind = ToolAction\<rparr>)) 81 83"
    using near_mul [OF m f, of 81 83] by (simp add: DEFAULT_THRESHOLDS_def actionRisk_def)
qed

text \<open>The expected gain of an action towards the one criterion, by its score.\<close>

definition loop_gain :: "js_number \<Rightarrow> action_kind \<Rightarrow> js_number" where
  "loop_gain q kind =
     (let a = \<lparr>ca_name = [], ca_kind = kind\<rparr>
      in js_add (Fin 0) (js_mul (js_mul (js_mul (Fin 1) (js_sub (Fin 1) q)) (relevance a ''no_infinite_loop''))
           (successProbability a)))"

lemma loop_gains:
  "near (loop_gain (Fin 1) k) 0 0"
  "near (loop_gain (Fin 0) TextAction) 307 308"
  "near (loop_gain (Fin 0) CoordinationAction) 173 175"
  "near (loop_gain (Fin 0) ToolAction) 142 144"
proof -
  have u: "js_mul (Fin 1) (js_sub (Fin 1) (Fin 0)) = Fin 1" and z: "js_mul (Fin 1) (js_sub (Fin 1) (Fin 1)) = Fin 0"
    by (simp_all add: js_mul_def js_sub_def one to_number_small)
  have o: "near (Fin 1) 1024 1024" and zz: "near (Fin 0) 0 0" by (simp_all add: near_Fin)
  have t: "near (to_number (3 / 10)) 307 308" and m: "near (to_number (2 / 10)) 204 205"
    and c: "near (to_number (85 / 100)) 870 871" and s: "near (to_number (7 / 10)) 716 717"
    by (simp_all add: near_number)
  have m0: "near x a b \<Longrightarrow> 0 \<le> a \<Longrightarrow> near (js_mul (Fin 0) x) 0 0" for x a b
    using near_mul [OF zz, of x a b 0 0] by simp
  show "near (loop_gain (Fin 1) k) 0 0"
  proof -
    have r: "near (relevance \<lparr>ca_name = [], ca_kind = k\<rparr> ''no_infinite_loop'') 204 308"
      using t m by (cases k) (auto simp: relevance_def near_def)
    have p: "near (successProbability \<lparr>ca_name = [], ca_kind = k\<rparr>) 716 1024"
      using c s o by (cases k) (auto simp: successProbability_def near_def)
    show ?thesis using near_add_0 [OF near_mul [OF m0 [OF r] p, of 0 0]] by (simp add: loop_gain_def z Let_def)
  qed
  show "near (loop_gain (Fin 0) TextAction) 307 308"
    using near_add_0 [OF near_mul [OF near_mul [OF o t, of 307 308] o, of 307 308]]
    by (simp add: loop_gain_def u relevance_def successProbability_def Let_def)
  show "near (loop_gain (Fin 0) CoordinationAction) 173 175"
    using near_add_0 [OF near_mul [OF near_mul [OF o m, of 204 205] c, of 173 175]]
    by (simp add: loop_gain_def u relevance_def successProbability_def Let_def)
  show "near (loop_gain (Fin 0) ToolAction) 142 144"
    using near_add_0 [OF near_mul [OF near_mul [OF o m, of 204 205] s, of 142 144]]
    by (simp add: loop_gain_def u relevance_def successProbability_def Let_def)
qed

lemma loop_value_near:
  "near (loop_value (Fin 1) k) (- 250) (- 60)"
  "near (loop_value (Fin 0) TextAction) 230 240"
  "k \<noteq> TextAction \<Longrightarrow> near (loop_value (Fin 0) k) (- 100) 40"
proof -
  have v: "loop_value q k = js_sub (js_sub (loop_gain q k) (js_mul (th_lambda DEFAULT_THRESHOLDS) (actionCost \<lparr>ca_name = [], ca_kind = k\<rparr>)))
      (js_mul (th_mu DEFAULT_THRESHOLDS) (actionRisk \<lparr>ca_name = [], ca_kind = k\<rparr>))" for q k
    by (simp add: loop_value_def loop_gain_def Let_def)
  note costs = default_costs
  show "near (loop_value (Fin 0) TextAction) 230 240" unfolding v
    by (rule near_sub [OF near_sub [OF loop_gains(2) costs(1), of 255 258] costs(4)]) simp_all
  show "near (loop_value (Fin 1) k) (- 250) (- 60)"
  proof (cases k)
    case TextAction
    show ?thesis unfolding v TextAction
      by (rule near_sub [OF near_sub [OF loop_gains(1) costs(1), of "- 52" "- 50"] costs(4)]) simp_all
  next
    case CoordinationAction
    show ?thesis unfolding v CoordinationAction
      by (rule near_sub [OF near_sub [OF loop_gains(1) costs(2), of "- 103" "- 102"] costs(5)]) simp_all
  next
    case ToolAction
    show ?thesis unfolding v ToolAction
      by (rule near_sub [OF near_sub [OF loop_gains(1) costs(3), of "- 155" "- 152"] costs(6)]) simp_all
  qed
  assume k: "k \<noteq> TextAction"
  then consider "k = CoordinationAction" | "k = ToolAction" by (cases k) auto
  then show "near (loop_value (Fin 0) k) (- 100) 40"
  proof cases
    case 1
    show ?thesis unfolding v 1
      by (rule near_sub [OF near_sub [OF loop_gains(3) costs(2), of 70 73] costs(5)]) simp_all
  next
    case 2
    show ?thesis unfolding v 2
      by (rule near_sub [OF near_sub [OF loop_gains(4) costs(3), of "- 13" "- 8"] costs(6)]) simp_all
  qed
qed

lemma default_thresholds_near:
  "near (th_epsilon DEFAULT_THRESHOLDS) 51 52" "near (th_tauC DEFAULT_THRESHOLDS) 819 820"
  "near (th_tauU DEFAULT_THRESHOLDS) 204 205" "th_hardGate DEFAULT_THRESHOLDS = Fin 1"
  by (simp_all add: DEFAULT_THRESHOLDS_def near_number)

section \<open>The judge gives scores\<close>

lemma parsed_double: "parseJudgeResponse r = (Some x, t) \<Longrightarrow> \<exists>q. x = Fin q \<and> binary64 q = q"
proof -
  assume p: "parseJudgeResponse r = (Some x, t)"
  then obtain n where n: "x = js_double n" "isFinite (js_double n)"
    by (auto simp: parseJudgeResponse_def split: option.splits if_splits js_value.splits)
  from n(2) obtain q where "js_double n = Fin q" by (cases "js_double n") auto
  with n(1) js_double_double show ?thesis by auto
qed

lemma clampQ_score: "(\<And>x. q = Some x \<Longrightarrow> \<exists>p. x = Fin p \<and> binary64 p = p) \<Longrightarrow> score (fst (clampQ q))"
  by (auto simp: clampQ_def score_def double.rd_one split: option.splits)

lemma callJudge_score: "score (sr_q (callJudge sha adapter n ms p m))"
proof (cases "adapter n ms []")
  case (Some response)
  obtain q t where q: "parseJudgeResponse response = (q, t)" by (cases "parseJudgeResponse response")
  have "score (fst (clampQ q))" using parsed_double q by (intro clampQ_score) blast
  then show ?thesis using Some q by (cases "clampQ q") (simp add: callJudge_def)
qed (simp add: callJudge_def)

lemma median_score: "vs \<noteq> [] \<Longrightarrow> \<forall>v\<in>set vs. score v \<Longrightarrow> score (median vs)"
proof -
  assume vs: "vs \<noteq> []" "\<forall>v\<in>set vs. score v"
  let ?s = "sort_by numeric_order vs"
  have nth: "i < length vs \<Longrightarrow> score (?s ! i)" for i
    using vs(2) nth_mem [of i ?s] by simp
  have half: "score (js_div (js_add x y) (Fin 2))" if xy: "score x" "score y" for x y
  proof -
    obtain p q where p: "x = Fin p" "0 \<le> p" "p \<le> 1" and q: "y = Fin q" "0 \<le> q" "q \<le> 1"
      using xy by (auto elim!: scoreE)
    have "binary64 2 = 2" using binary64_of_int [of 2] by simp
    then have b: "0 \<le> binary64 (p + q)" "binary64 (p + q) \<le> 2"
      using p q binary64_mono [of "p + q" 2] by (auto intro: double.rd_ge_zero)
    have "to_number (p + q) = Fin (binary64 (p + q))" using p q by (intro to_number_small) simp
    then show ?thesis using b by (simp add: p(1) q(1))
  qed
  show ?thesis using vs(1) nth [of "length vs div 2"] nth [of "length vs div 2 - 1"] half
    by (auto simp: median_def Let_def less_imp_diff_less)
qed

text \<open>The cache holds scored evaluations under the ids of their criteria.\<close>

definition cache_ok :: "judge_state \<Rightarrow> bool" where
  "cache_ok st \<longleftrightarrow> (\<forall>i e. map_get (js_cache st) i = Some e \<longrightarrow> ce_criterionId e = i \<and> unit_evaluation e)"

lemma judge_criterion_cache:
  assumes "cache_ok st" and "\<And>r. jo_rho j = Some r \<Longrightarrow> score r"
  shows "cache_ok (judge_criterion sha j seed s c st)"
proof -
  let ?per = "map (\<lambda>i. callJudge sha (judge_adapters j ! i) (js_calls st + i) (buildJudgeMessages c s seed)
      (join NEWLINE (map m_content (buildJudgeMessages c s seed))) (judge_model_ids j ! i)) [0..<length (judge_adapters j)]"
  have "map sr_q ?per \<noteq> []" by (simp add: judge_adapters_def)
  moreover have "\<forall>v\<in>set (map sr_q ?per). score v" by (auto simp: callJudge_score)
  ultimately have q: "score (median (map sr_q ?per))" by (rule median_score)
  have r: "score JUDGE_PLACEHOLDER_RHO" "score (case jo_rho j of Some r \<Rightarrow> r | None \<Rightarrow> DEFAULT_JUDGE_RHO)"
    using assms(2) by (simp_all add: JUDGE_PLACEHOLDER_RHO_def DEFAULT_JUDGE_RHO_def split: option.splits)
  show ?thesis using assms(1) q r unfolding cache_ok_def judge_criterion_def Let_def
    by (simp add: jsmap_simps unit_evaluation_def)
qed

lemma prepass_cache: "cache_ok st \<Longrightarrow> (\<And>r. jo_rho j = Some r \<Longrightarrow> score r) \<Longrightarrow> cache_ok (prepass sha j d t k s st)"
proof -
  assume a: "cache_ok st" "\<And>r. jo_rho j = Some r \<Longrightarrow> score r"
  have "cache_ok st \<Longrightarrow> cache_ok (fold (judge_criterion sha j x s) cs st)" for cs x st
    using a(2) by (induction cs arbitrary: st) (auto intro: judge_criterion_cache)
  with a(1) show ?thesis by (simp add: prepass_def)
qed

section \<open>Calls of the controller\<close>

text \<open>
  A call of \<open>compileContract\<close> that no other call overlaps, the end of one that was begun while
  nothing was cached and overlaps others, and a call of \<open>evaluateTurn\<close>.
\<close>

datatype controller_call =
  CompileCall string string
| LateCompile string string
| TurnCall turn_clock control_input

fun controller_step ::
  "(string \<Rightarrow> string) \<Rightarrow> controller_options \<Rightarrow> controller_call \<Rightarrow> controller_state \<Rightarrow> controller_state" where
  "controller_step sha o1 (CompileCall instruction now) s = snd (compileContract sha o1 instruction now s)"
| "controller_step sha o1 (LateCompile instruction now) s = snd (finish_compilation sha o1 instruction now s)"
| "controller_step sha o1 (TurnCall ck i) s = snd (evaluateTurn sha o1 ck i s)"

definition controller_run ::
  "(string \<Rightarrow> string) \<Rightarrow> controller_options \<Rightarrow> controller_call list \<Rightarrow> controller_state \<Rightarrow> controller_state" where
  "controller_run sha o1 calls s = fold (controller_step sha o1) calls s"

text \<open>A turn up to its evaluations: the tick, and the pre-pass of the judge.\<close>

definition turn_prepass ::
  "(string \<Rightarrow> string) \<Rightarrow> controller_options \<Rightarrow> turn_clock \<Rightarrow> control_input \<Rightarrow> controller_state \<Rightarrow> controller_state" where
  "turn_prepass sha o1 ck i s =
     (case controller_judge o1 of
        Some j \<Rightarrow> judged_prepass sha o1 j ck (ci_contract i) (ci_state i) (s\<lparr>ct_tick := Suc (ct_tick s)\<rparr>)
      | None \<Rightarrow> s\<lparr>ct_tick := Suc (ct_tick s)\<rparr>)"

definition turn_registry :: "controller_options \<Rightarrow> controller_state \<Rightarrow> verifier_registry" where
  "turn_registry o1 s = registry_or_empty (registryWithJudge o1 (ct_judge s))"

definition turn_evaluations ::
  "(string \<Rightarrow> string) \<Rightarrow> controller_options \<Rightarrow> turn_clock \<Rightarrow> control_input \<Rightarrow> controller_state \<Rightarrow> criterion_evaluation list" where
  "turn_evaluations sha o1 ck i s =
     evaluateAll (turn_registry o1 (turn_prepass sha o1 ck i s)) (ci_contract i) (ci_state i)"

definition turn_context ::
  "(string \<Rightarrow> string) \<Rightarrow> controller_options \<Rightarrow> turn_clock \<Rightarrow> control_input \<Rightarrow> controller_state \<Rightarrow> decision_context" where
  "turn_context sha o1 ck i s =
     (let es = turn_evaluations sha o1 ck i s; th = merge_thresholds (co_thresholds o1)
      in context_of (ci_contract i) es (estimateVOC (ci_contract i) es (ci_candidateActions i) th)
           (rr_residual (computeResidual (ci_contract i) (ci_state i) (co_embedder o1) (2 * Suc (ct_tick s)))) th)"

lemma ruling_with_audit: "is_DONE (with_audit f v) = is_DONE v" "is_VERIFY (with_audit f v) = is_VERIFY v"
  "is_ASK_USER (with_audit f v) = is_ASK_USER v" "is_CONTINUE (with_audit f v) = is_CONTINUE v"
  "cv_audit (with_audit f v) = f (cv_audit v)" "with_audit f (with_audit g v) = with_audit (f \<circ> g) v"
  by (cases v; simp)+

lemma judged_prepass_tick: "ct_tick (judged_prepass sha o1 j ck k x s) = ct_tick s"
  by (simp add: judged_prepass_def run_prepass_def Let_def split: option.splits prod.splits sum.splits bool.splits)

lemma evaluateTurn_ruling:
  "\<exists>c recs. fst (evaluateTurn sha o1 ck i s) =
     with_audit (\<lambda>a. a\<lparr>ta_judgeRecords := recs\<rparr>) (ruling (turn_context sha o1 ck i s) c)"
proof -
  define s2 where "s2 = turn_prepass sha o1 ck i s"
  define es where "es = turn_evaluations sha o1 ck i s"
  define th where "th = merge_thresholds (co_thresholds o1)"
  define v where "v = decide (ci_contract i) es (estimateVOC (ci_contract i) es (ci_candidateActions i) th)
     (rr_residual (computeResidual (ci_contract i) (ci_state i) (co_embedder o1) (2 * Suc (ct_tick s)))) th (ci_llmDoneSignal i)"
  obtain c where c: "v = ruling (turn_context sha o1 ck i s) c"
    using decide_ruling unfolding v_def turn_context_def es_def th_def Let_def by blast
  have none: "with_audit (\<lambda>a. a\<lparr>ta_judgeRecords := None\<rparr>) v = v" unfolding c
    by (simp add: ruling_def audit_of_def buildAudit_def split: prod.splits)
  have "fst (evaluateTurn sha o1 ck i s) = v \<or>
     (\<exists>recs. fst (evaluateTurn sha o1 ck i s) = with_audit (\<lambda>a. a\<lparr>ta_judgeRecords := Some recs\<rparr>) v)"
    unfolding evaluateTurn_def v_def es_def turn_evaluations_def turn_registry_def turn_prepass_def th_def Let_def
    by (cases "controller_judge o1") (auto split: prod.splits)
  with none show ?thesis unfolding c by metis
qed

text \<open>Between calls the cache, the records and the journal are empty.\<close>

definition at_rest :: "controller_state \<Rightarrow> bool" where
  "at_rest s \<longleftrightarrow> js_cache (ct_judge s) = [] \<and> js_records (ct_judge s) = [] \<and> ct_journal s = []"

lemma created_at_rest: "createTerminationController o1 now seq = Inr s \<Longrightarrow> at_rest s"
  by (auto simp: createTerminationController_def at_rest_def new_judge_state_def createJudgeAuditJournal_def split: sum.splits)

lemma step_at_rest: "at_rest s \<Longrightarrow> at_rest (controller_step sha o1 c s)"
proof (cases c)
  case (CompileCall x y)
  assume "at_rest s"
  with CompileCall show ?thesis
    by (simp add: compileContract_def finish_compilation_def at_rest_def Let_def split: option.splits)
next
  case (LateCompile x y)
  assume "at_rest s"
  with LateCompile show ?thesis by (simp add: finish_compilation_def at_rest_def Let_def)
next
  case (TurnCall ck i)
  assume "at_rest s"
  with TurnCall show ?thesis
    by (cases "controller_judge o1")
      (simp_all add: evaluateTurn_def at_rest_def judge_flushTo_def journal_drain_def Let_def)
qed

lemma run_at_rest: "at_rest s \<Longrightarrow> at_rest (controller_run sha o1 calls s)"
  unfolding controller_run_def by (induction calls arbitrary: s) (auto intro: step_at_rest)

section \<open>The registry of a turn\<close>

text \<open>A host's own verifier labels its evaluation with the criterion and gives scores.\<close>

definition good_verifier :: "verifier \<Rightarrow> bool" where
  "good_verifier v \<longleftrightarrow> (\<forall>c s. ce_criterionId (vf_evaluate v c s) = cr_id c \<and> unit_evaluation (vf_evaluate v c s))"

lemma builtin_good: "v \<in> set BUILTIN_VERIFIERS \<Longrightarrow> good_verifier v"
  using builtin_unit by (auto simp: good_verifier_def BUILTIN_VERIFIERS_def NO_INFINITE_LOOP_VERIFIER_def
      no_infinite_loop_evaluate_def DUPLICATE_REPLY_VERIFIER_def duplicate_reply_evaluate_def
      COORDINATION_PROGRESS_VERIFIER_def coordination_progress_evaluate_def TASK_ARTIFACT_EXISTS_VERIFIER_def
      task_artifact_exists_evaluate_def STRUCTURED_RUBRIC_VERIFIER_def structured_rubric_evaluate_def Let_def split: prod.splits)

lemma judge_good: "cache_ok js \<Longrightarrow> good_verifier (judge_verifier js)"
  by (auto simp: good_verifier_def judge_verifier_def judge_evaluate_def cache_ok_def unit_evaluation_def
      JUDGE_PLACEHOLDER_RHO_def split: option.splits)

lemma judge_registers_some:
  assumes "createTerminationController o1 now seq = Inr s" and "co_judgeLlm o1 = Some llm"
  shows "registers (registry_or_empty (registryWithJudge o1 js))
     (BUILTIN_VERIFIERS @ [judge_verifier js] @ co_extraVerifiers o1)"
proof -
  let ?vs = "\<lambda>js. BUILTIN_VERIFIERS @ [judge_verifier js] @ co_extraVerifiers o1"
  have "\<exists>x. register_all (?vs new_judge_state) [] = Inr x"
    using assms by (auto simp: createTerminationController_def registryWithJudge_def controller_judge_def
        new_VerifierRegistry_def split: sum.splits)
  moreover have "map vf_id (?vs new_judge_state) = map vf_id (?vs js)" by (simp add: judge_verifier_def)
  ultimately obtain x where "new_VerifierRegistry (?vs js) = Inr x"
    using register_all_ids [of "?vs new_judge_state" "?vs js" "[]" "[]"] by (auto simp: new_VerifierRegistry_def)
  with new_VerifierRegistry_registers [OF this] assms(2) show ?thesis
    by (simp add: registryWithJudge_def controller_judge_def registry_or_empty_def)
qed

lemma judge_registers:
  assumes "createTerminationController o1 now seq = Inr s" and "co_registry o1 = None"
  shows "registers (registry_or_empty (registryWithJudge o1 js))
     (BUILTIN_VERIFIERS @ (if co_judgeLlm o1 = None then [] else [judge_verifier js]) @ co_extraVerifiers o1)"
proof (cases "co_judgeLlm o1")
  case None
  then show ?thesis using assms new_VerifierRegistry_registers
    by (auto simp: createTerminationController_def registryWithJudge_def controller_judge_def finalRegistry_def
        registry_or_empty_def split: sum.splits)
next
  case (Some llm)
  with judge_registers_some [OF assms(1)] show ?thesis by simp
qed

lemma prepass_cache_ok:
  assumes "cache_ok (ct_judge s)"
  shows "cache_ok (ct_judge (turn_prepass sha o1 ck i s))"
proof (cases "controller_judge o1")
  case (Some j)
  then have j: "\<And>r. jo_rho j = Some r \<Longrightarrow> score r" by (auto simp: controller_judge_def)
  have "cache_ok (ct_judge (judged_prepass sha o1 j ck k x s'))" if "cache_ok (ct_judge s')" for k x s'
    using prepass_cache [OF that j] that
    by (simp add: judged_prepass_def run_prepass_def Let_def split: option.splits prod.splits sum.splits bool.splits)
  with Some assms show ?thesis by (simp add: turn_prepass_def)
qed (use assms in \<open>simp add: turn_prepass_def\<close>)

text \<open>The states the calls of a created controller lead to.\<close>

definition controller_reached ::
  "(string \<Rightarrow> string) \<Rightarrow> controller_options \<Rightarrow> controller_state \<Rightarrow> bool" where
  "controller_reached sha o1 s \<longleftrightarrow>
     (\<exists>now seq s0 calls. createTerminationController o1 now seq = Inr s0 \<and> s = controller_run sha o1 calls s0)"

lemma reached_at_rest: "controller_reached sha o1 s \<Longrightarrow> at_rest s"
  by (auto simp: controller_reached_def intro: run_at_rest created_at_rest)

lemma rest_cache_ok: "at_rest s \<Longrightarrow> cache_ok (ct_judge s)"
  by (simp add: at_rest_def cache_ok_def)

lemma turn_registry_good:
  assumes "controller_reached sha o1 s" and "co_registry o1 = None" and "list_all good_verifier (co_extraVerifiers o1)"
  shows "good_verifier \<lparr>vf_id = x, vf_evaluate = registry_evaluate (turn_registry o1 (turn_prepass sha o1 ck i s)) y\<rparr>"
    and "v \<in> set BUILTIN_VERIFIERS \<Longrightarrow>
      registry_evaluate (turn_registry o1 (turn_prepass sha o1 ck i s)) (vf_id v) = vf_evaluate v"
proof -
  let ?js = "ct_judge (turn_prepass sha o1 ck i s)" and ?r = "turn_registry o1 (turn_prepass sha o1 ck i s)"
  let ?vs = "BUILTIN_VERIFIERS @ (if co_judgeLlm o1 = None then [] else [judge_verifier ?js]) @ co_extraVerifiers o1"
  have reg: "registers ?r ?vs"
    using assms(1,2) judge_registers unfolding controller_reached_def turn_registry_def by blast
  have "good_verifier (judge_verifier ?js)"
    by (intro judge_good prepass_cache_ok rest_cache_ok reached_at_rest [OF assms(1)])
  then have good: "\<forall>v\<in>set ?vs. good_verifier v"
    using builtin_good assms(3) by (auto simp: list_all_iff)
  show "good_verifier \<lparr>vf_id = x, vf_evaluate = registry_evaluate ?r y\<rparr>"
  proof (cases "map_get ?r y")
    case (Some v)
    then have "v \<in> set ?vs" using reg unfolding registers_def by blast
    with good Some show ?thesis by (auto simp: good_verifier_def registry_evaluate_def)
  qed (simp add: good_verifier_def registry_evaluate_def unit_evaluation_def)
  assume "v \<in> set BUILTIN_VERIFIERS"
  then have "map_get ?r (vf_id v) = Some v" using reg unfolding registers_def by auto
  then show "registry_evaluate ?r (vf_id v) = vf_evaluate v" by (intro ext) (simp add: registry_evaluate_def)
qed

section \<open>Evaluations of a turn\<close>

lemma evaluateAll_unit:
  "(\<And>y. good_verifier \<lparr>vf_id = x, vf_evaluate = registry_evaluate r y\<rparr>) \<Longrightarrow> list_all unit_evaluation (evaluateAll r k s)"
  by (auto simp: evaluateAll_def list_all_iff good_verifier_def)

text \<open>The decision looks an evaluation up by the id of its criterion: it finds the one of the first
  criterion with that id.\<close>

definition first_with_id :: "goal_contract \<Rightarrow> criterion \<Rightarrow> bool" where
  "first_with_id k c \<longleftrightarrow> List.find (\<lambda>d. cr_id d = cr_id c) (gc_criteria k) = Some c"

lemma first_with_id_distinct:
  "distinct (map cr_id (gc_criteria k)) \<Longrightarrow> c \<in> set (gc_criteria k) \<Longrightarrow> first_with_id k c"
proof -
  have "distinct (map cr_id cs) \<Longrightarrow> c \<in> set cs \<Longrightarrow> List.find (\<lambda>d. cr_id d = cr_id c) cs = Some c" for cs
    by (induction cs) auto
  then show "distinct (map cr_id (gc_criteria k)) \<Longrightarrow> c \<in> set (gc_criteria k) \<Longrightarrow> first_with_id k c"
    by (simp add: first_with_id_def)
qed

lemma find_labelled:
  "List.find (\<lambda>d. f d = f c) cs = Some c \<Longrightarrow> (\<And>d. d \<in> set cs \<Longrightarrow> lab (g d) = f d) \<Longrightarrow>
   List.find (\<lambda>e. lab e = f c) (map g cs) = Some (g c)"
  by (induction cs) (auto split: if_splits)

lemma evaluation_of_all:
  assumes "\<And>y. good_verifier \<lparr>vf_id = x, vf_evaluate = registry_evaluate r y\<rparr>" and "first_with_id k c"
  shows "evaluation_of (evaluateAll r k s) (cr_id c) = Some (registry_evaluate r (cr_verifierId c) c s)"
  unfolding evaluation_of_def evaluateAll_def
  by (rule find_labelled [OF assms(2) [unfolded first_with_id_def]]) (use assms(1) in \<open>auto simp: good_verifier_def\<close>)

lemma hardGate_open:
  "js_le (Fin 1) (hardGateFromContract k es) \<longleftrightarrow>
     (\<forall>c\<in>set (gc_criteria k). cr_kind c = HardCriterion \<longrightarrow> (\<exists>e. evaluation_of es (cr_id c) = Some e \<and> ce_passed e))"
proof -
  have "hardGateFromContract k es = (if \<forall>c\<in>set (gc_criteria k). cr_kind c = HardCriterion \<longrightarrow>
      (\<exists>e. evaluation_of es (cr_id c) = Some e \<and> ce_passed e) then Fin 1 else Fin 0)"
    by (auto simp: hardGateFromContract_def Let_def list_all_iff filter_empty_conv split: option.splits)
  then show ?thesis by simp
qed

lemma hardGate_01: "hardGateFromContract k es = Fin 0 \<or> hardGateFromContract k es = Fin 1"
  by (simp add: hardGateFromContract_def Let_def)

section \<open>The greedy match\<close>

lemma best_unclaimed_result:
  "best_unclaimed c cl js (b, J) = (best, bestJ) \<Longrightarrow>
   (best, bestJ) = (b, J) \<and> (\<forall>j\<in>set js. j \<notin> set cl \<longrightarrow> \<not> js_less (c j) b) \<or>
   (\<exists>j\<in>set js. j \<notin> set cl \<and> best = c j \<and> bestJ = Some j \<and> js_less (c j) b \<and>
      (\<forall>j'\<in>set js. j' \<notin> set cl \<longrightarrow> \<not> js_less (c j') (c j)))"
proof (induction js arbitrary: b J)
  case (Cons j js)
  show ?case
  proof (cases "j \<notin> set cl \<and> js_less (c j) b")
    case True
    then have r: "best_unclaimed c cl js (c j, Some j) = (best, bestJ)" using Cons.prems by simp
    from Cons.IH [OF r] show ?thesis
    proof
      assume "(best, bestJ) = (c j, Some j) \<and> (\<forall>j'\<in>set js. j' \<notin> set cl \<longrightarrow> \<not> js_less (c j') (c j))"
      with True show ?thesis by auto
    next
      assume "\<exists>i\<in>set js. i \<notin> set cl \<and> best = c i \<and> bestJ = Some i \<and> js_less (c i) (c j) \<and>
          (\<forall>j'\<in>set js. j' \<notin> set cl \<longrightarrow> \<not> js_less (c j') (c i))"
      then obtain i where i: "i \<in> set js" "i \<notin> set cl" "best = c i" "bestJ = Some i" "js_less (c i) (c j)"
        "\<forall>j'\<in>set js. j' \<notin> set cl \<longrightarrow> \<not> js_less (c j') (c i)" by blast
      have "js_less (c i) b" "\<not> js_less (c j) (c i)" using i(5) True js_less_trans js_less_irrefl by blast+
      with i show ?thesis by auto
    qed
  next
    case False
    then have r: "best_unclaimed c cl js (b, J) = (best, bestJ)" using Cons.prems by (auto split: if_splits)
    from Cons.IH [OF r] show ?thesis
    proof
      assume "(best, bestJ) = (b, J) \<and> (\<forall>j\<in>set js. j \<notin> set cl \<longrightarrow> \<not> js_less (c j) b)"
      with False show ?thesis by auto
    next
      assume "\<exists>i\<in>set js. i \<notin> set cl \<and> best = c i \<and> bestJ = Some i \<and> js_less (c i) b \<and>
          (\<forall>j'\<in>set js. j' \<notin> set cl \<longrightarrow> \<not> js_less (c j') (c i))"
      then obtain i where i: "i \<in> set js" "i \<notin> set cl" "best = c i" "bestJ = Some i" "js_less (c i) b"
        "\<forall>j'\<in>set js. j' \<notin> set cl \<longrightarrow> \<not> js_less (c j') (c i)" by blast
      have "j \<notin> set cl \<longrightarrow> \<not> js_less (c j) (c i)" using i(5) False js_less_trans by blast
      with i show ?thesis by auto
    qed
  qed
qed simp

text \<open>
  The first \<open>k\<close> goals are matched by \<open>f\<close>: each takes the cheapest evidence no earlier goal has
  taken, no two take the same, and a goal without evidence keeps the residual 1.
\<close>

definition free :: "(nat \<Rightarrow> nat option) \<Rightarrow> nat \<Rightarrow> nat \<Rightarrow> bool" where
  "free f i j \<longleftrightarrow> (\<forall>i'<i. f i' \<noteq> Some j)"

definition takes :: "js_number list list \<Rightarrow> nat \<Rightarrow> (nat \<Rightarrow> nat option) \<Rightarrow> nat \<Rightarrow> js_number \<Rightarrow> bool" where
  "takes cost n f i r =
     (case f i of
        Some j \<Rightarrow> j < n \<and> free f i j \<and> r = cost_at cost i j \<and>
          (\<forall>j'<n. free f i j' \<longrightarrow> \<not> js_less (cost_at cost i j') r)
      | None \<Rightarrow> r = Fin 1 \<and> (\<forall>j'<n. free f i j' \<longrightarrow> \<not> js_less (cost_at cost i j') PosInf))"

definition greedy :: "js_number list list \<Rightarrow> nat \<Rightarrow> nat \<Rightarrow> nat \<Rightarrow> (nat \<Rightarrow> nat option) \<Rightarrow> match_state \<Rightarrow> bool" where
  "greedy cost m n k f s \<longleftrightarrow>
     length (ms_residual s) = m \<and> (\<forall>i<k. takes cost n f i (ms_residual s ! i)) \<and>
     (\<forall>i. k \<le> i \<longrightarrow> i < m \<longrightarrow> ms_residual s ! i = Fin 1) \<and> set (ms_claimed s) = {j. \<exists>i<k. f i = Some j}"

lemma free_claimed: "set cl = {j. \<exists>i<k. f i = Some j} \<Longrightarrow> j \<notin> set cl \<longleftrightarrow> free f k j"
  by (auto simp: free_def)

lemma takes_cong: "(\<And>i'. i' \<le> i \<Longrightarrow> f i' = g i') \<Longrightarrow> takes cost n f i r = takes cost n g i r"
proof -
  assume a: "\<And>i'. i' \<le> i \<Longrightarrow> f i' = g i'"
  then have "f i = g i" "free f i j = free g i j" for j by (auto simp: free_def)
  then show ?thesis unfolding takes_def by (simp only: option.case_eq_if)
qed

lemma greedy_step:
  assumes "greedy cost m n k f s" and "k < m"
  shows "\<exists>g. greedy cost m n (Suc k) g (match_goal cost n k s)"
proof -
  obtain best bestJ where b: "best_unclaimed (cost_at cost k) (ms_claimed s) [0..<n] (PosInf, None) = (best, bestJ)"
    by (cases "best_unclaimed (cost_at cost k) (ms_claimed s) [0..<n] (PosInf, None)")
  let ?g = "f(k := bestJ)"
  have cl: "j \<notin> set (ms_claimed s) \<longleftrightarrow> free f k j" for j
    using assms(1) by (intro free_claimed) (simp add: greedy_def)
  have fr: "free (f(k := x)) k j = free f k j" for x j by (auto simp: free_def)
  have res: "bestJ = None \<and> (\<forall>j<n. free f k j \<longrightarrow> \<not> js_less (cost_at cost k j) PosInf) \<or>
     (\<exists>j<n. free f k j \<and> best = cost_at cost k j \<and> bestJ = Some j \<and>
        (\<forall>j'<n. free f k j' \<longrightarrow> \<not> js_less (cost_at cost k j') best))"
    using best_unclaimed_result [OF b] by (auto simp: cl)
  have old: "takes cost n (f(k := x)) i r = takes cost n f i r" if "i < k" for i r x
    by (rule takes_cong) (use that in auto)
  from res show ?thesis
  proof
    assume r: "bestJ = None \<and> (\<forall>j<n. free f k j \<longrightarrow> \<not> js_less (cost_at cost k j) PosInf)"
    then have m: "match_goal cost n k s = s" by (simp add: match_goal_def b)
    have "takes cost n ?g k (ms_residual s ! k)" using r assms by (simp add: takes_def fr greedy_def)
    then show ?thesis using assms r unfolding m
      by (intro exI [of _ ?g]) (auto simp: greedy_def old less_Suc_eq)
  next
    assume "\<exists>j<n. free f k j \<and> best = cost_at cost k j \<and> bestJ = Some j \<and>
        (\<forall>j'<n. free f k j' \<longrightarrow> \<not> js_less (cost_at cost k j') best)"
    then obtain j where j: "j < n" "free f k j" "best = cost_at cost k j" "bestJ = Some j"
      "\<forall>j'<n. free f k j' \<longrightarrow> \<not> js_less (cost_at cost k j') best" by blast
    then have m: "match_goal cost n k s = \<lparr>ms_residual = (ms_residual s)[k := best],
        ms_claimed = set_add j (ms_claimed s), ms_totalCost = js_add (ms_totalCost s) best\<rparr>"
      by (simp add: match_goal_def b)
    have "takes cost n ?g k best" using j by (simp add: takes_def fr)
    then show ?thesis using assms j(4) unfolding m
      by (intro exI [of _ ?g]) (auto simp: greedy_def old less_Suc_eq nth_list_update)
  qed
qed

lemma constrainedMatch_greedy:
  "\<exists>f. length (fst (constrainedMatch cost m n)) = m \<and>
       (\<forall>i<m. takes cost n f i (fst (constrainedMatch cost m n) ! i))"
proof -
  let ?s0 = "\<lparr>ms_residual = replicate m (Fin 1), ms_claimed = [], ms_totalCost = Fin 0\<rparr>"
  have "k \<le> m \<Longrightarrow> \<exists>f. greedy cost m n k f (fold (match_goal cost n) [0..<k] ?s0)" for k
  proof (induction k)
    case 0
    then show ?case by (simp add: greedy_def)
  next
    case (Suc k)
    then show ?case using greedy_step [of cost m n k] by auto
  qed
  from this [of m] show ?thesis by (auto simp: constrainedMatch_def greedy_def Let_def)
qed

lemma constrainedMatch_scores:
  assumes "\<And>i j. i < m \<Longrightarrow> j < n \<Longrightarrow> score (cost_at cost i j)"
  shows "length (fst (constrainedMatch cost m n)) = m \<and> list_all score (fst (constrainedMatch cost m n))"
proof -
  obtain f where f: "length (fst (constrainedMatch cost m n)) = m"
    "\<forall>i<m. takes cost n f i (fst (constrainedMatch cost m n) ! i)" using constrainedMatch_greedy by blast
  have "score (fst (constrainedMatch cost m n) ! i)" if "i < m" for i
    using f(2) [rule_format, OF that] assms [OF that] by (auto simp: takes_def split: option.splits)
  with f(1) show ?thesis by (simp add: list_all_length)
qed

lemma computeResidual_scores:
  "length (rr_residual (computeResidual k s None call)) = length (gc_criteria k) \<and>
   list_all score (rr_residual (computeResidual k s None call))"
proof -
  let ?goals = "map cr_description (gc_criteria k)" and ?texts = "map fst (evidenceTexts s)"
  have "score (cost_at (jaccard_cost ?goals ?texts) i j)" for i j
    by (auto simp: cost_at_def jaccard_cost_def intro!: score_complement)
  from constrainedMatch_scores [OF this] show ?thesis
    by (auto simp: computeResidual_def match_result_def Let_def list_all_iff split: prod.splits)
      (metis fst_conv length_map)+
qed

section \<open>The budget\<close>

text \<open>A kill is final, and a killed budget reserves nothing.\<close>

lemma killed_stays:
  "bs_hardKilled b \<Longrightarrow> bs_hardKilled (snd (reserve l e ck b))"
  "bs_hardKilled b \<Longrightarrow> bs_hardKilled (reconcile l i now b)"
  "bs_hardKilled b \<Longrightarrow> bs_hardKilled (snd (isHardKilled l now b))"
  by (auto simp: reserve_def reconcile_def isHardKilled_def maybeHardKill_def Let_def split: option.splits)

lemma reserve_ok:
  assumes "reserve l (Some t, Some c) ck b = (Inr r, b')"
  shows "\<not> bs_hardKilled b" and "bs_calls b' = bs_calls b" and "bs_tokens b' = bs_tokens b"
    and "bs_hardKilled b' = bs_hardKilled b"
    and "bl_maxJudgeCalls l = Some m \<Longrightarrow> \<not> js_le m (bs_calls b)"
    and "bl_maxTokens l = Some m \<Longrightarrow> \<not> js_less m (js_add (bs_tokens b) t)"
  using assms by (auto simp: reserve_def reserve_spend_def checkSpendCeilings_def over_def Let_def
      split: option.splits if_splits)

lemma kill_counts [simp]:
  "bs_calls (maybeHardKill l r b) = bs_calls b" "bs_tokens (maybeHardKill l r b) = bs_tokens b"
  by (simp_all add: maybeHardKill_def)

lemma reserve_refused:
  "reserve l e ck b = (Inl m, b') \<Longrightarrow> bs_calls b' = bs_calls b \<and> bs_tokens b' = bs_tokens b"
  by (auto simp: reserve_def reserve_spend_def Let_def split: option.splits if_splits)

lemma reconcile_counts:
  "bs_calls (reconcile l i now b) = js_add (bs_calls b) (Fin 1)"
  "bs_tokens (reconcile l i now b) = js_add (bs_tokens b) (bc_actualTokens i)"
  by (simp_all add: reconcile_def Let_def split: option.splits)

lemma isHardKilled_counts:
  "bs_calls (snd (isHardKilled l now b)) = bs_calls b \<and> bs_tokens (snd (isHardKilled l now b)) = bs_tokens b"
  by (auto simp: isHardKilled_def split: option.splits)

section \<open>Judged turns\<close>

text \<open>Whether the pre-pass of a turn called a judge, and how many turns of a run did.\<close>

definition judged :: "(string \<Rightarrow> string) \<Rightarrow> controller_options \<Rightarrow> controller_call \<Rightarrow> controller_state \<Rightarrow> bool" where
  "judged sha o1 c s \<longleftrightarrow> js_calls (ct_judge (controller_step sha o1 c s)) \<noteq> js_calls (ct_judge s)"

fun judged_turns :: "(string \<Rightarrow> string) \<Rightarrow> controller_options \<Rightarrow> controller_call list \<Rightarrow> controller_state \<Rightarrow> nat" where
  "judged_turns sha o1 [] s = 0"
| "judged_turns sha o1 (c # cs) s =
     (if judged sha o1 c s then 1 else 0) + judged_turns sha o1 cs (controller_step sha o1 c s)"

text \<open>The counters of the budget: \<open>k\<close> pre-passes have been paid for.\<close>

definition paid :: "controller_state \<Rightarrow> nat \<Rightarrow> bool" where
  "paid s k \<longleftrightarrow>
     (\<exists>b. ct_budget s = Some b \<and> bs_calls b = Fin (of_nat k) \<and> bs_tokens b = Fin (of_nat (512 * k)))"

definition tokens_cover :: "judge_budget_limits \<Rightarrow> nat \<Rightarrow> bool" where
  "tokens_cover l k \<longleftrightarrow>
     k = 0 \<or> (case bl_maxTokens l of Some m \<Rightarrow> \<not> js_less m (Fin (of_nat (512 * k))) | None \<Rightarrow> True)"

lemma js_add_nat: "m + n \<le> 2 ^ 53 \<Longrightarrow> js_add (Fin (of_nat m)) (Fin (of_nat n)) = Fin (of_nat (m + n))"
proof -
  assume mn: "m + n \<le> 2 ^ 53"
  have e: "(of_nat m + of_nat n :: rat) = of_int (int (m + n))" by simp
  have i: "int (m + n) \<le> 2 ^ 53" using mn by (metis of_nat_le_iff of_nat_numeral of_nat_power)
  then have "(of_int (int (m + n)) :: rat) \<le> of_int (2 ^ 53)" by (simp only: of_int_le_iff)
  then have "\<bar>of_nat m + of_nat n :: rat\<bar> \<le> 9007199254740992" unfolding e by simp
  then have "to_number (of_nat m + of_nat n) = Fin (binary64 (of_nat m + of_nat n))" by (rule to_number_small)
  moreover have "binary64 (of_nat m + of_nat n) = of_nat (m + n)"
    unfolding e using binary64_of_int [of "int (m + n)"] i by simp
  ultimately show ?thesis by simp
qed

lemma turn_budget_counts:
  "ct_budget (snd (evaluateTurn sha o1 ck i s)) = ct_budget (turn_prepass sha o1 ck i s)"
  "js_calls (ct_judge (snd (evaluateTurn sha o1 ck i s))) = js_calls (ct_judge (turn_prepass sha o1 ck i s))"
  by (cases "controller_judge o1";
      simp add: evaluateTurn_def turn_prepass_def judge_flushTo_def journal_drain_def Let_def)+

lemma judged_prepass_pays:
  assumes "paid s k" and "co_judgeBudget o1 = Some l" and "bl_maxJudgeCalls l = Some (Fin (of_nat N))" and "N \<le> 2 ^ 40"
  shows "(paid (judged_prepass sha o1 j ck c x s) k \<and>
      js_calls (ct_judge (judged_prepass sha o1 j ck c x s)) = js_calls (ct_judge s)) \<or>
    (paid (judged_prepass sha o1 j ck c x s) (Suc k) \<and> k < N \<and> tokens_cover l (Suc k))"
proof -
  obtain b where b: "ct_budget s = Some b" "bs_calls b = Fin (of_nat k)" "bs_tokens b = Fin (of_nat (512 * k))"
    using assms(1) by (auto simp: paid_def)
  obtain kill b1 where k1: "isHardKilled l (ck_killCheck ck) b = (kill, b1)" by (cases "isHardKilled l (ck_killCheck ck) b")
  have c1: "bs_calls b1 = Fin (of_nat k)" "bs_tokens b1 = Fin (of_nat (512 * k))"
    using isHardKilled_counts [of l "ck_killCheck ck" b] b k1 by auto
  obtain r b2 where r: "reserve l (Some (Fin 512), Some (to_number (1 / 100))) (ck_spendCheck ck, ck_reservedAt ck) b1 = (r, b2)"
    by (cases "reserve l (Some (Fin 512), Some (to_number (1 / 100))) (ck_spendCheck ck, ck_reservedAt ck) b1")
  show ?thesis
  proof (cases "kill \<or> (\<exists>m. r = Inl m)")
    case True
    then have "\<exists>b'. judged_prepass sha o1 j ck c x s = s\<lparr>ct_budget := Some b'\<rparr> \<and> bs_calls b' = bs_calls b1 \<and> bs_tokens b' = bs_tokens b1"
      using k1 r b(1) assms(2) reserve_refused by (auto simp: judged_prepass_def split: bool.splits)
    then show ?thesis using c1 by (auto simp: paid_def)
  next
    case False
    then obtain v where v: "kill = False" "r = Inr v" by (cases r) auto
    note ok = reserve_ok [OF r [unfolded v(2)]]
    have kN: "k < N" using ok(5) [OF assms(3)] c1(1) by (simp add: not_le)
    then have small: "k + 1 \<le> 2 ^ 53" "512 * k + 512 \<le> 2 ^ 53" using assms(4) by simp_all
    have sums: "js_add (Fin (of_nat k)) (Fin 1) = Fin (of_nat (Suc k))"
      "js_add (Fin (of_nat (512 * k))) (Fin 512) = Fin (of_nat (512 * Suc k))"
      using js_add_nat [OF small(1)] js_add_nat [OF small(2)] by (simp_all add: algebra_simps)
    have "paid (judged_prepass sha o1 j ck c x s) (Suc k)"
      unfolding judged_prepass_def paid_def using k1 v r b(1) assms(2) ok(2,3) c1 sums
      by (simp add: run_prepass_def Let_def reconcile_counts del: of_nat_Suc of_nat_mult)
    moreover have "tokens_cover l (Suc k)"
      using ok(6) c1(2) sums(2) by (auto simp: tokens_cover_def simp del: of_nat_Suc of_nat_mult split: option.splits)
    ultimately show ?thesis using kN by blast
  qed
qed

lemma step_pays:
  assumes "paid s k" and "co_judgeBudget o1 = Some l" and "bl_maxJudgeCalls l = Some (Fin (of_nat N))" and "N \<le> 2 ^ 40"
  shows "(paid (controller_step sha o1 c s) k \<and> \<not> judged sha o1 c s) \<or>
    (paid (controller_step sha o1 c s) (Suc k) \<and> k < N \<and> tokens_cover l (Suc k))"
proof (cases c)
  case (CompileCall x y)
  with assms(1) show ?thesis
    by (auto simp: paid_def judged_def compileContract_def finish_compilation_def Let_def split: option.splits)
next
  case (LateCompile x y)
  with assms(1) show ?thesis by (auto simp: paid_def judged_def finish_compilation_def Let_def)
next
  case (TurnCall ck i)
  have p: "paid (s\<lparr>ct_tick := Suc (ct_tick s)\<rparr>) k" using assms(1) by (simp add: paid_def)
  have eq: "paid (controller_step sha o1 c s) n = paid (turn_prepass sha o1 ck i s) n" for n
    by (simp add: paid_def TurnCall turn_budget_counts)
  show ?thesis
  proof (cases "controller_judge o1")
    case None
    with p show ?thesis unfolding eq
      by (simp add: judged_def TurnCall turn_budget_counts turn_prepass_def)
  next
    case (Some j)
    from judged_prepass_pays [OF p assms(2-4), of sha j ck "ci_contract i" "ci_state i"] Some show ?thesis unfolding eq
      by (auto simp: judged_def TurnCall turn_budget_counts turn_prepass_def)
  qed
qed

lemma run_pays:
  assumes "paid s k" and "k \<le> N" and "tokens_cover l k"
    and "co_judgeBudget o1 = Some l" and "bl_maxJudgeCalls l = Some (Fin (of_nat N))" and "N \<le> 2 ^ 40"
  shows "\<exists>k'. k + judged_turns sha o1 cs s \<le> k' \<and> k' \<le> N \<and> tokens_cover l k'"
  using assms(1-3)
proof (induction cs arbitrary: s k)
  case (Cons c cs)
  from step_pays [OF Cons.prems(1) assms(4-6), of sha c] show ?case
  proof
    assume "paid (controller_step sha o1 c s) k \<and> \<not> judged sha o1 c s"
    with Cons.IH [of "controller_step sha o1 c s" k] Cons.prems show ?case by simp
  next
    assume "paid (controller_step sha o1 c s) (Suc k) \<and> k < N \<and> tokens_cover l (Suc k)"
    with Cons.IH [of "controller_step sha o1 c s" "Suc k"] show ?case by fastforce
  qed
qed auto

lemma tokens_cover_less: "tokens_cover l k \<Longrightarrow> j \<le> k \<Longrightarrow> tokens_cover l j"
proof -
  assume k: "tokens_cover l k" "j \<le> k"
  then have "(of_nat (512 * j) :: rat) \<le> of_nat (512 * k)" by (simp only: of_nat_le_iff)
  then have "js_less m (Fin (of_nat (512 * j))) \<Longrightarrow> js_less m (Fin (of_nat (512 * k)))" for m
    by (cases m) (auto simp del: of_nat_mult)
  with k show ?thesis by (auto simp: tokens_cover_def simp del: of_nat_mult split: option.splits)
qed

text \<open>A judged turn calls every judge once for every criterion of the judge.\<close>

definition judged_criteria :: "goal_contract \<Rightarrow> criterion list" where
  "judged_criteria k = filter (\<lambda>c. cr_verifierId c = LLM_JUDGE_VERIFIER_ID) (gc_criteria k)"

definition judge_seed :: "(string \<Rightarrow> string) \<Rightarrow> controller_state \<Rightarrow> string" where
  "judge_seed sha s =
     deriveSeed sha (case ct_contract s of Some k \<Rightarrow> gc_contractId k | None \<Rightarrow> ''no-contract'') (Suc (ct_tick s))"

lemma turn_judge:
  assumes "controller_judge o1 = Some j"
  shows "ct_judge (turn_prepass sha o1 ck i s) = ct_judge s \<or>
    ct_judge (turn_prepass sha o1 ck i s) =
      fold (judge_criterion sha j (judge_seed sha s) (ci_state i)) (judged_criteria (ci_contract i)) (ct_judge s)"
  using assms by (simp add: turn_prepass_def judged_prepass_def run_prepass_def prepass_def judge_seed_def judged_criteria_def Let_def
      split: option.splits prod.splits sum.splits bool.splits)

lemma judge_criterion_calls:
  "js_calls (judge_criterion sha j seed x c st) = js_calls st + length (judge_adapters j)"
  by (simp add: judge_criterion_def Let_def)

lemma judge_fold_calls:
  "js_calls (fold (judge_criterion sha j seed x) cs st) = js_calls st + length cs * length (judge_adapters j)"
  by (induction cs arbitrary: st) (simp_all add: judge_criterion_calls)

lemma step_calls:
  assumes "\<And>ck i. c = TurnCall ck i \<Longrightarrow> length (judged_criteria (ci_contract i)) \<le> M"
  shows "js_calls (ct_judge (controller_step sha o1 c s)) \<le>
    js_calls (ct_judge s) + (if judged sha o1 c s then M * Suc (length (co_judgeQuorum o1)) else 0)"
proof (cases "judged sha o1 c s")
  case True
  then obtain ck i where c: "c = TurnCall ck i"
    by (cases c) (auto simp: judged_def compileContract_def finish_compilation_def Let_def split: option.splits)
  with True obtain j where j: "controller_judge o1 = Some j"
    by (cases "controller_judge o1") (auto simp: judged_def turn_budget_counts turn_prepass_def)
  then have a: "length (judge_adapters j) = Suc (length (co_judgeQuorum o1))"
    by (auto simp: controller_judge_def judge_adapters_def)
  have "length (judged_criteria (ci_contract i)) * Suc (length (co_judgeQuorum o1)) \<le> M * Suc (length (co_judgeQuorum o1))"
    using assms [OF c] by (rule mult_le_mono1)
  with turn_judge [OF j, of sha ck i s] True show ?thesis
    by (auto simp: c turn_budget_counts judge_fold_calls a)
qed (simp add: judged_def)

lemma run_calls:
  assumes "\<And>ck i. TurnCall ck i \<in> set cs \<Longrightarrow> length (judged_criteria (ci_contract i)) \<le> M"
  shows "js_calls (ct_judge (controller_run sha o1 cs s)) \<le>
    js_calls (ct_judge s) + judged_turns sha o1 cs s * (M * Suc (length (co_judgeQuorum o1)))"
  using assms unfolding controller_run_def
proof (induction cs arbitrary: s)
  case (Cons c cs)
  let ?b = "M * Suc (length (co_judgeQuorum o1))" and ?s = "controller_step sha o1 c s"
  have "js_calls (ct_judge (fold (controller_step sha o1) cs ?s)) \<le> js_calls (ct_judge ?s) + judged_turns sha o1 cs ?s * ?b"
    by (rule Cons.IH) (rule Cons.prems [OF list.set_intros(2)])
  moreover have "length (judged_criteria (ci_contract i)) \<le> M" if "c = TurnCall ck i" for ck i
    using Cons.prems [of ck i] that by simp
  then have "js_calls (ct_judge ?s) \<le> js_calls (ct_judge s) + (if judged sha o1 c s then ?b else 0)"
    by (rule step_calls)
  ultimately show ?case by (simp add: algebra_simps split: if_splits)
qed simp

section \<open>What the judge decides\<close>

text \<open>The answers of all judges to one criterion; the calls before it are \<open>n\<close>.\<close>

definition judge_answers ::
  "(string \<Rightarrow> string) \<Rightarrow> judge_options \<Rightarrow> string \<Rightarrow> agent_state \<Rightarrow> criterion \<Rightarrow> nat \<Rightarrow> single_judge_result list" where
  "judge_answers sha j seed x c n =
     map (\<lambda>i. callJudge sha (judge_adapters j ! i) (n + i) (buildJudgeMessages c x seed)
                (join NEWLINE (map m_content (buildJudgeMessages c x seed))) (judge_model_ids j ! i))
       [0..<length (judge_adapters j)]"

definition judged_evaluation :: "js_number \<Rightarrow> criterion \<Rightarrow> single_judge_result list \<Rightarrow> criterion_evaluation \<Rightarrow> bool" where
  "judged_evaluation rho c as e \<longleftrightarrow>
     ce_criterionId e = cr_id c \<and> ce_q e = median (map sr_q as) \<and>
     ce_rho e = (if list_ex sr_fellBack as then JUDGE_PLACEHOLDER_RHO else rho) \<and>
     (ce_passed e \<longleftrightarrow> js_le (cr_threshold c) (js_mul (ce_q e) (ce_rho e)))"

lemma judge_criterion_cached:
  assumes "jo_rho j = Some rho"
  shows "\<exists>e. map_get (js_cache (judge_criterion sha j seed x c st)) (cr_id c) = Some e \<and>
    judged_evaluation rho c (judge_answers sha j seed x c (js_calls st)) e"
  using assms by (simp add: judge_criterion_def judged_evaluation_def judge_answers_def jsmap_simps Let_def)

lemma judge_criterion_other:
  "i \<noteq> cr_id c \<Longrightarrow> map_get (js_cache (judge_criterion sha j seed x c st)) i = map_get (js_cache st) i"
  by (simp add: judge_criterion_def jsmap_simps Let_def)

lemma judge_fold_other:
  "i \<notin> cr_id ` set cs \<Longrightarrow> map_get (js_cache (fold (judge_criterion sha j seed x) cs st)) i = map_get (js_cache st) i"
  by (induction cs arbitrary: st) (simp_all add: judge_criterion_other)

lemma judge_fold_cached:
  assumes "jo_rho j = Some rho" and "c \<in> set cs" and "distinct (map cr_id cs)"
  shows "\<exists>n e. map_get (js_cache (fold (judge_criterion sha j seed x) cs st)) (cr_id c) = Some e \<and>
    judged_evaluation rho c (judge_answers sha j seed x c n) e"
  using assms(2,3)
proof (induction cs arbitrary: st)
  case (Cons d ds)
  show ?case
  proof (cases "c \<in> set ds")
    case False
    with Cons.prems have "c = d" "cr_id c \<notin> cr_id ` set ds" by auto
    with judge_fold_other [of "cr_id c" ds] judge_criterion_cached [OF assms(1)] show ?thesis by fastforce
  qed (use Cons in simp)
qed simp

lemma judged_not_above:
  assumes "judged_evaluation rho c as e" and "as \<noteq> []" and "\<forall>a\<in>set as. score (sr_q a)"
    and "list_ex sr_fellBack as" and "js_less JUDGE_PLACEHOLDER_RHO (cr_threshold c)"
  shows "\<not> ce_passed e"
proof -
  have "score (median (map sr_q as))" using assms(2,3) by (intro median_score) auto
  then obtain q where q: "ce_q e = Fin q" "0 \<le> q" "q \<le> 1"
    using assms(1) by (auto simp: judged_evaluation_def elim!: scoreE)
  define w where "w = binary64 (3 / 10)"
  have w: "JUDGE_PLACEHOLDER_RHO = Fin w" "binary64 w = w" "0 \<le> w" "w \<le> 1"
    unfolding JUDGE_PLACEHOLDER_RHO_def w_def
    using binary64_idem double.rd_ge_zero [of "3 / 10"] double.rd_le_one [of "3 / 10"] by (simp_all add: to_number_small)
  note small = double.rd_scaled [OF w(2,3) q(2,3)]
  have "\<bar>q * w\<bar> \<le> 1" using q(2,3) w(3,4) by (simp add: mult_le_one)
  then have "js_mul (Fin q) (Fin w) = Fin (binary64 (w * q))"
    by (simp add: js_mul_def to_number_small mult.commute)
  moreover have "ce_rho e = Fin w" using assms(1,4) by (simp add: judged_evaluation_def w(1))
  ultimately have "js_mul (ce_q e) (ce_rho e) = Fin (binary64 (w * q))" by (simp only: q(1))
  moreover have "js_less (Fin (binary64 (w * q))) (cr_threshold c)"
    using small assms(5) by (cases "cr_threshold c") (auto simp: w(1))
  ultimately show ?thesis using assms(1) js_less_not_le unfolding judged_evaluation_def by metis
qed

section \<open>A compiled contract has no criterion for the judge\<close>

lemma compiled_criteria:
  "map_has r ''no_infinite_loop'' \<Longrightarrow> list_all (criterion_ok r) (gc_criteria (compileGoalContract sha i llm r now))"
  by (auto simp: compileGoalContract_def defaultSystemContract_def criterion_ok_def default_criterion_def Let_def
      split: option.splits dest: drafted_ok)

lemma prepass_unjudged:
  "\<forall>c\<in>set (gc_criteria k). cr_verifierId c \<noteq> LLM_JUDGE_VERIFIER_ID \<Longrightarrow> prepass sha j d t k x st = st"
  by (simp add: prepass_def filter_False)

end
