(* ===== verification/Boot_Properties.thy ===== *)
theory Boot_Properties
  imports Boot_Turns
begin

text \<open>
  The properties of the termination controller of \<open>packages/boot/src/termination\<close>.
\<close>

section \<open>Verdicts\<close>

lemma turn_context_signal:
  "turn_context sha o1 ck (i\<lparr>ci_llmDoneSignal := b\<rparr>) s = turn_context sha o1 ck i s"
  by (simp add: turn_context_def turn_evaluations_def turn_prepass_def split: option.splits)

lemma audit_of_simps [simp]:
  "ta_H (audit_of x c) = hardGateFromContract (dc_contract x) (dc_evaluations x)"
  "ta_C (audit_of x c) = fst (weightedCompletion (dc_contract x) (dc_evaluations x))"
  "ta_U (audit_of x c) = snd (weightedCompletion (dc_contract x) (dc_evaluations x))"
  "ta_VOC_star (audit_of x c) = vc_star (dc_voc x)" "ta_residual (audit_of x c) = dc_residual x"
  "ta_criterionEvals (audit_of x c) = dc_evaluations x"
  by (simp_all add: audit_of_def buildAudit_def split: prod.splits)

lemma ruling_audit [simp]: "cv_audit (ruling x c) = audit_of x c"
  by (simp add: ruling_def)

lemma turn_context_simps [simp]:
  "dc_contract (turn_context sha o1 ck i s) = ci_contract i"
  "dc_evaluations (turn_context sha o1 ck i s) = turn_evaluations sha o1 ck i s"
  "dc_H (turn_context sha o1 ck i s) = hardGateFromContract (ci_contract i) (turn_evaluations sha o1 ck i s)"
  "dc_C (turn_context sha o1 ck i s) = fst (weightedCompletion (ci_contract i) (turn_evaluations sha o1 ck i s))"
  "dc_U (turn_context sha o1 ck i s) = snd (weightedCompletion (ci_contract i) (turn_evaluations sha o1 ck i s))"
  "dc_thresholds (turn_context sha o1 ck i s) = merge_thresholds (co_thresholds o1)"
  by (simp_all add: turn_context_def context_of_def Let_def)

lemma is_REPLAN_ruling:
  "is_REPLAN (ruling x c) \<longleftrightarrow> \<not> may_finish x \<and> \<not> needs_evidence x \<and> \<not> needs_user x \<and> \<not> worth_continuing x \<and>
     any_positive (dc_voc x)"
  by (simp add: ruling_def)

lemma is_REPLAN_with_audit: "is_REPLAN (with_audit f v) = is_REPLAN v"
  by (cases v) simp_all

lemma turn_signal:
  "without_chain (fst (evaluateTurn sha o1 ck (i\<lparr>ci_llmDoneSignal := b\<rparr>) s)) = without_chain (fst (evaluateTurn sha o1 ck i s)) \<and>
   snd (evaluateTurn sha o1 ck (i\<lparr>ci_llmDoneSignal := b\<rparr>) s) = snd (evaluateTurn sha o1 ck i s)"
proof -
  have comm: "without_chain (with_audit (\<lambda>a. a\<lparr>ta_judgeRecords := r\<rparr>) v) =
      with_audit (\<lambda>a. a\<lparr>ta_judgeRecords := r\<rparr>) (without_chain v)" for r v
    by (cases v) (simp_all add: without_chain_def)
  show ?thesis
    by (cases "controller_judge o1")
      (simp_all add: evaluateTurn_def Let_def decide_without_chain comm judge_flushTo_def journal_drain_def)
qed

text \<open>C20. The verdict of a turn is decided by the state of the run alone: DONE, VERIFY, ASK_USER,
  CONTINUE and REPLAN are given exactly when their conditions on gate, completion, uncertainty
  and value of continuation hold, the audit carries the numbers the decision used, and the
  model's own \<open>done\<close> signal changes neither the verdict nor the state of the controller, only
  the texts of the decision chain.\<close>

theorem turn_verdicts:
  "let v = fst (evaluateTurn sha o1 ck i s); x = turn_context sha o1 ck i s
   in (is_DONE v \<longleftrightarrow> may_finish x) \<and>
      (is_VERIFY v \<longleftrightarrow> needs_evidence x) \<and>
      (is_ASK_USER v \<longleftrightarrow> needs_user x) \<and>
      (is_CONTINUE v \<longleftrightarrow> worth_continuing x \<and> \<not> needs_evidence x) \<and>
      (is_REPLAN v \<longleftrightarrow> \<not> may_finish x \<and> \<not> needs_evidence x \<and> \<not> needs_user x \<and> \<not> worth_continuing x \<and>
         any_positive (dc_voc x)) \<and>
      ta_H (cv_audit v) = dc_H x \<and> ta_C (cv_audit v) = dc_C x \<and> ta_U (cv_audit v) = dc_U x \<and>
      ta_criterionEvals (cv_audit v) = dc_evaluations x \<and>
      without_chain (fst (evaluateTurn sha o1 ck (i\<lparr>ci_llmDoneSignal := b\<rparr>) s)) = without_chain v \<and>
      snd (evaluateTurn sha o1 ck (i\<lparr>ci_llmDoneSignal := b\<rparr>) s) = snd (evaluateTurn sha o1 ck i s)"
proof -
  obtain c recs where v: "fst (evaluateTurn sha o1 ck i s) =
      with_audit (\<lambda>a. a\<lparr>ta_judgeRecords := recs\<rparr>) (ruling (turn_context sha o1 ck i s) c)"
    using evaluateTurn_ruling by blast
  show ?thesis unfolding Let_def
    using turn_signal [where b = b and sha = sha and ?o1.0 = o1 and ck = ck and i = i and s = s] by (simp add: v ruling_with_audit ruling_kinds is_REPLAN_with_audit is_REPLAN_ruling)
qed

section \<open>The default contract\<close>

text \<open>A controller without adapters, without verifiers and thresholds of the host.\<close>

definition default_options :: controller_options where
  "default_options =
     \<lparr>co_llm = None, co_embedder = None, co_registry = None, co_thresholds = None, co_extraVerifiers = [],
      co_judgeLlm = None, co_judgeQuorum = [], co_judgeBudget = None\<rparr>"

definition loops :: "agent_state \<Rightarrow> bool" where
  "loops s \<longleftrightarrow> looks_stuck (ag_trace s) \<or> duplicate_reply (tr_recentAssistantTexts (ag_trace s))"

lemma builtin_distinct: "register_all BUILTIN_VERIFIERS [] = Inr (map (\<lambda>v. (vf_id v, v)) BUILTIN_VERIFIERS)"
  by (simp add: BUILTIN_VERIFIERS_def register_def NO_INFINITE_LOOP_VERIFIER_def DUPLICATE_REPLY_VERIFIER_def
      COORDINATION_PROGRESS_VERIFIER_def TASK_ARTIFACT_EXISTS_VERIFIER_def STRUCTURED_RUBRIC_VERIFIER_def
      map_has_def map_set_def)

lemma default_created: "\<exists>s0. createTerminationController default_options now seq = Inr s0"
  by (simp add: createTerminationController_def finalRegistry_def registryWithJudge_def controller_judge_def
      default_options_def new_VerifierRegistry_def builtin_distinct)

lemma default_registry: "turn_registry default_options s = map (\<lambda>v. (vf_id v, v)) BUILTIN_VERIFIERS"
  by (simp add: turn_registry_def registryWithJudge_def finalRegistry_def controller_judge_def default_options_def
      new_VerifierRegistry_def builtin_distinct registry_or_empty_def)

lemma default_turn_evaluations:
  "gc_criteria (ci_contract i) = [default_criterion] \<Longrightarrow>
   turn_evaluations sha default_options ck i s = [no_infinite_loop_evaluate default_criterion (ci_state i)]"
  by (simp add: turn_evaluations_def evaluateAll_def default_registry registry_evaluate_def default_criterion_def
      BUILTIN_VERIFIERS_def NO_INFINITE_LOOP_VERIFIER_def map_get_def)

lemma no_infinite_loop_q:
  "no_infinite_loop_evaluate default_criterion s = e \<Longrightarrow>
   ce_criterionId e = ''no_infinite_loop'' \<and> ce_q e = Fin (if loops s then 0 else 1) \<and> ce_rho e = Fin 1 \<and>
   (ce_passed e \<longleftrightarrow> \<not> loops s)"
  by (auto simp: no_infinite_loop_evaluate_def default_criterion_def loops_def Let_def)

lemma default_completion:
  assumes "gc_criteria k = [default_criterion]" and "ce_criterionId e = ''no_infinite_loop''" and "ce_rho e = Fin 1"
    and "ce_q e = Fin (if b then 0 else 1)" and "ce_passed e \<longleftrightarrow> \<not> b"
  shows "weightedCompletion k [e] = (Fin (if b then 0 else 1), Fin 0) \<and> hardGateFromContract k [e] = Fin (if b then 0 else 1)"
  using assms by (simp add: weightedCompletion_def weighted_step_def hardGateFromContract_def evaluation_of_def
      default_criterion_def js_mul_def js_sub_def one to_number_small double.rd_one Let_def)

lemma near_Fin_0: "near x m n \<Longrightarrow> n < 0 \<Longrightarrow> js_less x (Fin 0)"
  by (rule near_less [of _ m n "Fin 0" 0 0]) (simp_all add: near_Fin)

lemma near_not_less: "near x a b \<Longrightarrow> near y c d \<Longrightarrow> b < c \<Longrightarrow> js_le x y \<and> \<not> js_less y x \<and> \<not> js_le y x"
  using near_less js_less_not_le js_le_not_less unfolding js_le_def by metis

text \<open>Nothing is worth doing when the criterion is met; otherwise replying is, and nothing else.\<close>

lemma default_star:
  fixes as :: "candidate_action list"
  assumes k: "gc_criteria k = [default_criterion]" and e: "ce_criterionId e = ''no_infinite_loop''"
    and q: "ce_q e = Fin (if b then 0 else 1)"
  defines "v \<equiv> estimateVOC k [e] as DEFAULT_THRESHOLDS"
  shows "if b \<and> (\<exists>a\<in>set as. ca_kind a = TextAction)
     then js_less (th_epsilon DEFAULT_THRESHOLDS) (vc_star v) \<and>
          vc_bestAction v = map_option ca_name (List.find (\<lambda>a. ca_kind a = TextAction) as)
     else js_le (vc_star v) (th_epsilon DEFAULT_THRESHOLDS)"
proof (cases "as = []")
  case True
  have "near (Fin 0) 0 0" by (simp add: near_Fin)
  from near_not_less [OF this default_thresholds_near(1)] True show ?thesis by (simp add: v_def estimateVOC_def)
next
  case False
  let ?V = "\<lambda>a. loop_value (ce_q e) (ca_kind a)"
  have val: "action_value k (new_Map (map (\<lambda>e. (ce_criterionId e, e)) [e])) DEFAULT_THRESHOLDS = ?V"
    using action_value_default [OF k e] by (intro ext) simp
  have near1: "near (loop_value (Fin 1) kk) (- 250) (- 60)" for kk by (rule loop_value_near(1))
  have "near (loop_value (Fin 0) kk) (- 100) 40 \<or> near (loop_value (Fin 0) kk) 230 240" for kk
    using loop_value_near(2) loop_value_near(3) by (cases "kk = TextAction") auto
  then have "isFinite (loop_value (Fin 0) kk)" "isFinite (loop_value (Fin 1) kk)" for kk
    using near_finite near1 by blast+
  then have fin: "isFinite (?V a)" for a by (cases b) (simp_all add: q)
  obtain i where i: "best_at ?V as v i"
    using estimateVOC_best [OF False, of k "[e]" DEFAULT_THRESHOLDS] fin unfolding v_def val by blast
  then have ii: "i < length as" "vc_star v = ?V (as ! i)" "vc_bestAction v = Some (ca_name (as ! i))" by (auto simp: best_at_def)
  show ?thesis
  proof (cases "b \<and> (\<exists>a\<in>set as. ca_kind a = TextAction)")
    case True
    then obtain j where j: "j < length as" "ca_kind (as ! j) = TextAction" by (auto simp: in_set_conv_nth)
    have qb: "ce_q e = Fin 0" using q True by simp
    have reply: "ca_kind (as ! i) = TextAction"
    proof (rule ccontr)
      assume n: "ca_kind (as ! i) \<noteq> TextAction"
      have "js_le (?V (as ! j)) (vc_star v)" using i j(1) by (auto simp: best_at_def)
      with near_not_less [OF loop_value_near(3) [OF n] loop_value_near(2)] show False by (simp add: ii qb j(2))
    qed
    have first: "ca_kind (as ! l) \<noteq> TextAction" if "l < i" for l
    proof
      assume t: "ca_kind (as ! l) = TextAction"
      have "js_less (?V (as ! l)) (vc_star v)" using i that by (auto simp: best_at_def)
      then show False by (simp add: ii t reply)
    qed
    have "List.find (\<lambda>a. ca_kind a = TextAction) as = Some (as ! i)"
      unfolding find_Some_iff using ii(1) reply first by blast
    moreover have "js_less (th_epsilon DEFAULT_THRESHOLDS) (vc_star v)"
      using near_less [OF default_thresholds_near(1) loop_value_near(2)] by (simp add: ii(2) qb reply)
    ultimately show ?thesis using True ii(3) by simp
  next
    case no: False
    have "\<exists>m n. near (?V (as ! i)) m n \<and> n \<le> 40"
    proof (cases b)
      case True
      then have "ca_kind (as ! i) \<noteq> TextAction" using no ii(1) by auto
      with loop_value_near(3) q True show ?thesis by (intro exI [of _ "- 100"] exI [of _ 40]) simp
    next
      case False
      with near1 q show ?thesis by (intro exI [of _ "- 250"] exI [of _ "- 60"]) simp
    qed
    then obtain m n where "near (vc_star v) m n" "n \<le> 40" by (auto simp: ii(2))
    with near_not_less [OF this(1) default_thresholds_near(1)] no show ?thesis by auto
  qed
qed

lemma default_conditions:
  assumes "dc_H x = Fin (if b then 0 else 1)" and "dc_C x = Fin (if b then 0 else 1)" and "dc_U x = Fin 0"
    and "dc_thresholds x = DEFAULT_THRESHOLDS" and "has_progress (dc_evaluations x) \<longleftrightarrow> \<not> b"
    and "if b \<and> t then js_less (th_epsilon DEFAULT_THRESHOLDS) (dc_VOC_star x)
         else js_le (dc_VOC_star x) (th_epsilon DEFAULT_THRESHOLDS)"
  shows "(may_finish x \<longleftrightarrow> \<not> b) \<and> \<not> needs_evidence x \<and> (needs_user x \<longleftrightarrow> b \<and> \<not> t) \<and> (worth_continuing x \<longleftrightarrow> b \<and> t)"
proof -
  have zero: "near (Fin 0) 0 0" and unit: "near (Fin 1) 1024 1024" by (simp_all add: near_Fin)
  note order = near_not_less [OF zero default_thresholds_near(2)] near_not_less [OF zero default_thresholds_near(3)]
    near_not_less [OF default_thresholds_near(2) unit]
  have "js_less (Fin 0) (th_tauC DEFAULT_THRESHOLDS)" by (rule near_less [OF zero default_thresholds_near(2)]) simp
  with order assms show ?thesis
    using js_less_not_le js_le_not_less default_thresholds_near(4)
    by (cases b; cases t) (auto simp: may_finish_def needs_evidence_def needs_user_def worth_continuing_def)
qed

lemma default_decides:
  fixes sha :: "string \<Rightarrow> string" and ck :: turn_clock and s :: controller_state
  assumes "gc_criteria (ci_contract i) = [default_criterion]"
  defines "v \<equiv> fst (evaluateTurn sha default_options ck i s)"
    and "text_actions \<equiv> filter (\<lambda>a. ca_kind a = TextAction) (ci_candidateActions i)"
  shows "(is_DONE v \<longleftrightarrow> \<not> loops (ci_state i)) \<and>
    (is_CONTINUE v \<longleftrightarrow> loops (ci_state i) \<and> text_actions \<noteq> []) \<and>
    (is_ASK_USER v \<longleftrightarrow> loops (ci_state i) \<and> text_actions = []) \<and>
    (is_CONTINUE v \<longrightarrow> cv_recommendedAction v = Some (ca_name (hd text_actions)))"
proof -
  let ?b = "loops (ci_state i)"
  define x where "x = turn_context sha default_options ck i s"
  define e where "e = no_infinite_loop_evaluate default_criterion (ci_state i)"
  note en = no_infinite_loop_q [OF e_def [symmetric]]
  have es: "turn_evaluations sha default_options ck i s = [e]"
    using default_turn_evaluations [OF assms(1)] by (simp add: e_def)
  have th: "merge_thresholds (co_thresholds default_options) = DEFAULT_THRESHOLDS"
    by (simp add: merge_thresholds_def default_options_def)
  have x: "dc_H x = Fin (if ?b then 0 else 1)" "dc_C x = Fin (if ?b then 0 else 1)" "dc_U x = Fin 0"
    "dc_thresholds x = DEFAULT_THRESHOLDS" "dc_evaluations x = [e]"
    using default_completion [OF assms(1), of e ?b] en by (auto simp: x_def es th)
  have star: "dc_voc x = estimateVOC (ci_contract i) [e] (ci_candidateActions i) DEFAULT_THRESHOLDS" "dc_VOC_star x = vc_star (dc_voc x)"
    by (simp_all add: x_def turn_context_def context_of_def es th Let_def)
  have voc: "if ?b \<and> text_actions \<noteq> []
     then js_less (th_epsilon DEFAULT_THRESHOLDS) (dc_VOC_star x) \<and>
          vc_bestAction (dc_voc x) = Some (ca_name (hd text_actions))
     else js_le (dc_VOC_star x) (th_epsilon DEFAULT_THRESHOLDS)"
  proof -
    have f: "List.find P as = (if filter P as = [] then None else Some (hd (filter P as)))" for P and as :: "candidate_action list"
      by (induction as) auto
    have "(\<exists>a\<in>set (ci_candidateActions i). ca_kind a = TextAction) \<longleftrightarrow> text_actions \<noteq> []"
      by (auto simp: text_actions_def filter_empty_conv)
    with default_star [OF assms(1), of e ?b "ci_candidateActions i"] en f [of "\<lambda>a. ca_kind a = TextAction" "ci_candidateActions i"]
    show ?thesis by (auto simp: star text_actions_def split: if_splits)
  qed
  have unit: "near (Fin 1) 1024 1024" by (simp add: near_Fin)
  have "has_progress (dc_evaluations x) \<longleftrightarrow> \<not> ?b"
    using en near_not_less [OF near_number [of 512 "5 / 10" 512] unit] by (auto simp: has_progress_def x)
  note conditions = default_conditions [OF x(1-4) this, of "text_actions \<noteq> []"]
  obtain c recs where v: "v = with_audit (\<lambda>a. a\<lparr>ta_judgeRecords := recs\<rparr>) (ruling x c)"
    using evaluateTurn_ruling unfolding v_def x_def by blast
  have rec: "is_CONTINUE (ruling x c) \<longrightarrow> cv_recommendedAction v = vc_bestAction (dc_voc x)"
    unfolding v by (simp add: ruling_def)
  show ?thesis
    using voc rec conditions by (auto simp: v ruling_with_audit ruling_kinds split: if_splits)
qed

text \<open>Without adapters the contract of every instruction is the default one, and a turn under
  it is decided by the trace and the candidate actions alone: DONE exactly when the run does
  not loop; a run that loops is told to continue, recommended the first text action, when
  there is one, and to ask the user otherwise.\<close>

theorem default_controller_decides:
  "let k = compileGoalContract sha instruction None r now;
       v = fst (evaluateTurn sha default_options ck (i\<lparr>ci_contract := k\<rparr>) s);
       text_actions = filter (\<lambda>a. ca_kind a = TextAction) (ci_candidateActions i)
   in (is_DONE v \<longleftrightarrow> \<not> loops (ci_state i)) \<and>
      (is_CONTINUE v \<longleftrightarrow> loops (ci_state i) \<and> text_actions \<noteq> []) \<and>
      (is_ASK_USER v \<longleftrightarrow> loops (ci_state i) \<and> text_actions = []) \<and>
      (if is_CONTINUE v then cv_recommendedAction v else None) =
        (if loops (ci_state i) \<and> text_actions \<noteq> [] then Some (ca_name (hd text_actions)) else None)"
proof -
  have "gc_criteria (compileGoalContract sha instruction None r now) = [default_criterion]"
    by (simp add: compileGoalContract_def defaultSystemContract_def)
  with default_decides [of "i\<lparr>ci_contract := compileGoalContract sha instruction None r now\<rparr>" sha ck s] show ?thesis
    by (simp add: Let_def)
qed


section \<open>Evidence\<close>

lemma turn_evaluation:
  assumes "controller_reached sha o1 s" and "co_registry o1 = None" and "list_all good_verifier (co_extraVerifiers o1)"
    and "first_with_id (ci_contract i) c"
  shows "evaluation_of (turn_evaluations sha o1 ck i s) (cr_id c) =
    Some (registry_evaluate (turn_registry o1 (turn_prepass sha o1 ck i s)) (cr_verifierId c) c (ci_state i))"
  unfolding turn_evaluations_def
  by (rule evaluation_of_all [OF turn_registry_good(1) [OF assms(1-3)] assms(4)])

lemma builtin_passed:
  "ce_passed (no_infinite_loop_evaluate c s) \<Longrightarrow> \<not> loops s"
  "ce_passed (duplicate_reply_evaluate c s) \<Longrightarrow> trim (pr_text (ag_pendingReply s)) \<noteq> []"
  "ce_passed (coordination_progress_evaluate c s) \<Longrightarrow> js_less (Fin 0) (cr_threshold c) \<Longrightarrow> tr_committedOperations (ag_trace s) > 0"
  "ce_passed (task_artifact_exists_evaluate c s) \<Longrightarrow> js_less (Fin 0) (cr_threshold c) \<Longrightarrow>
     as_artifactIds (ag_artifacts s) @ as_contentRefs (ag_artifacts s) \<noteq> []"
proof -
  have z: "js_mul (Fin 0) (Fin 1) = Fin 0" by (simp add: js_mul_def to_number_def)
  show "ce_passed (no_infinite_loop_evaluate c s) \<Longrightarrow> \<not> loops s"
    by (auto simp: no_infinite_loop_evaluate_def loops_def Let_def split: if_splits)
  show "ce_passed (duplicate_reply_evaluate c s) \<Longrightarrow> trim (pr_text (ag_pendingReply s)) \<noteq> []"
    by (auto simp: duplicate_reply_evaluate_def Let_def split: if_splits prod.splits)
  show "ce_passed (coordination_progress_evaluate c s) \<Longrightarrow> js_less (Fin 0) (cr_threshold c) \<Longrightarrow> tr_committedOperations (ag_trace s) > 0"
    using js_less_not_le by (auto simp: coordination_progress_evaluate_def Let_def z split: if_splits)
  show "ce_passed (task_artifact_exists_evaluate c s) \<Longrightarrow> js_less (Fin 0) (cr_threshold c) \<Longrightarrow>
     as_artifactIds (ag_artifacts s) @ as_contentRefs (ag_artifacts s) \<noteq> []"
    using js_less_not_le by (auto simp: task_artifact_exists_evaluate_def Let_def z split: if_splits)
qed

text \<open>C18. DONE needs evidence: whatever the model says and whatever the judges answer, a reachable
  controller with the default thresholds gives DONE only if every hard criterion that is the first
  with its id in the contract (with distinct ids, every hard criterion) passes its own verifier
  at the judged state, so the run does not loop, the reply is not empty, an operation was
  committed and an artifact produced wherever such a criterion asks for it with a threshold
  above 0. The host gives no registry of its own, and its extra verifiers label their evaluation
  with the criterion and score in the unit interval (\<open>good_verifier\<close>). A later criterion with
  the same id is not looked at: see \<open>repeated_id_opens_gate\<close>.\<close>

theorem done_has_evidence:
  assumes "controller_reached sha o1 s" and "co_registry o1 = None" and "list_all good_verifier (co_extraVerifiers o1)"
    and "co_thresholds o1 = None" and "is_DONE (fst (evaluateTurn sha o1 ck i s))"
    and "first_with_id (ci_contract i) c" and "cr_kind c = HardCriterion"
  shows "ce_passed (registry_evaluate (turn_registry o1 (turn_prepass sha o1 ck i s)) (cr_verifierId c) c (ci_state i)) \<and>
    (cr_verifierId c = ''no_infinite_loop'' \<longrightarrow> \<not> loops (ci_state i)) \<and>
    (cr_verifierId c = ''duplicate_reply'' \<longrightarrow> trim (pr_text (ag_pendingReply (ci_state i))) \<noteq> []) \<and>
    (cr_verifierId c = ''coordination_progress'' \<and> js_less (Fin 0) (cr_threshold c) \<longrightarrow>
       tr_committedOperations (ag_trace (ci_state i)) > 0) \<and>
    (cr_verifierId c = ''task_artifact_exists'' \<and> js_less (Fin 0) (cr_threshold c) \<longrightarrow>
       as_artifactIds (ag_artifacts (ci_state i)) @ as_contentRefs (ag_artifacts (ci_state i)) \<noteq> [])"
proof -
  let ?x = "turn_context sha o1 ck i s" and ?r = "turn_registry o1 (turn_prepass sha o1 ck i s)"
  have "may_finish ?x"
    using assms(5) evaluateTurn_ruling [of sha o1 ck i s] by (auto simp: ruling_with_audit ruling_kinds)
  then have "js_le (Fin 1) (hardGateFromContract (ci_contract i) (turn_evaluations sha o1 ck i s))"
    using assms(4) default_thresholds_near(4) by (simp add: may_finish_def merge_thresholds_def)
  then have passed: "ce_passed (registry_evaluate ?r (cr_verifierId c) c (ci_state i))"
    using assms(7) turn_evaluation [OF assms(1-3,6), of ck] find_Some_mem [OF assms(6) [unfolded first_with_id_def]]
    unfolding hardGate_open by auto
  note builtin = turn_registry_good(2) [OF assms(1-3), of _ ck i]
  have ids: "registry_evaluate ?r ''no_infinite_loop'' = no_infinite_loop_evaluate"
    "registry_evaluate ?r ''duplicate_reply'' = duplicate_reply_evaluate"
    "registry_evaluate ?r ''coordination_progress'' = coordination_progress_evaluate"
    "registry_evaluate ?r ''task_artifact_exists'' = task_artifact_exists_evaluate"
    using builtin [of NO_INFINITE_LOOP_VERIFIER] builtin [of DUPLICATE_REPLY_VERIFIER]
      builtin [of COORDINATION_PROGRESS_VERIFIER] builtin [of TASK_ARTIFACT_EXISTS_VERIFIER]
    by (simp_all add: BUILTIN_VERIFIERS_def NO_INFINITE_LOOP_VERIFIER_def DUPLICATE_REPLY_VERIFIER_def
        COORDINATION_PROGRESS_VERIFIER_def TASK_ARTIFACT_EXISTS_VERIFIER_def)
  show ?thesis using passed builtin_passed ids by metis
qed

text \<open>C21. The numbers of an audit are in range, in double arithmetic: for a contract whose weights
  lie in the unit interval (a compiled one), at any reachable controller whose host gives no
  registry of its own and whose extra verifiers are well behaved (\<open>good_verifier\<close>), and whatever
  the judges answer, the gate is 0 or 1, completion, uncertainty and every score and credibility
  lie in the unit interval and there is one evaluation per criterion. Without an embedder there
  is one residual per criterion, in the unit interval; with one a rounded cosine can exceed 1
  and nothing is claimed about residuals.\<close>

theorem audit_bounds:
  assumes "controller_reached sha o1 s" and "co_registry o1 = None" and "list_all good_verifier (co_extraVerifiers o1)"
    and "list_all (\<lambda>c. score (cr_weight c)) (gc_criteria (ci_contract i))"
  shows "let a = cv_audit (fst (evaluateTurn sha o1 ck i s))
    in (ta_H a = Fin 0 \<or> ta_H a = Fin 1) \<and> score (ta_C a) \<and> score (ta_U a) \<and>
       length (ta_criterionEvals a) = length (gc_criteria (ci_contract i)) \<and>
       list_all unit_evaluation (ta_criterionEvals a) \<and>
       (co_embedder o1 = None \<longrightarrow>
          length (ta_residual a) = length (gc_criteria (ci_contract i)) \<and> list_all score (ta_residual a))"
proof -
  let ?es = "turn_evaluations sha o1 ck i s"
  have units: "list_all unit_evaluation ?es"
    unfolding turn_evaluations_def by (rule evaluateAll_unit [OF turn_registry_good(1) [OF assms(1-3)]])
  have len: "length ?es = length (gc_criteria (ci_contract i))" by (simp add: turn_evaluations_def evaluateAll_def)
  have res: "dc_residual (turn_context sha o1 ck i s) =
      rr_residual (computeResidual (ci_contract i) (ci_state i) (co_embedder o1) (2 * Suc (ct_tick s)))"
    by (simp add: turn_context_def context_of_def Let_def)
  obtain c recs where v: "fst (evaluateTurn sha o1 ck i s) =
      with_audit (\<lambda>a. a\<lparr>ta_judgeRecords := recs\<rparr>) (ruling (turn_context sha o1 ck i s) c)"
    using evaluateTurn_ruling by blast
  show ?thesis unfolding Let_def v
    using weightedCompletion_score [OF assms(4) units] units len hardGate_01 computeResidual_scores
    by (simp add: ruling_with_audit res)
qed

section \<open>The contract\<close>

lemma created_registry:
  assumes "createTerminationController o1 now seq = Inr s" and "co_registry o1 = None"
  shows "registers (registry_or_empty (finalRegistry o1)) (BUILTIN_VERIFIERS @ co_extraVerifiers o1)"
  using assms new_VerifierRegistry_registers
  by (auto simp: createTerminationController_def finalRegistry_def registry_or_empty_def split: sum.splits)

lemma registers_has: "registers r vs \<Longrightarrow> map_has r i \<longleftrightarrow> i \<in> vf_id ` set vs"
  unfolding registers_def map_has_get by (metis image_iff option.exhaust option.distinct(1))

lemma step_contract:
  assumes "ct_contract s = Some k" and "\<forall>x y. LateCompile x y \<noteq> c"
  shows "ct_contract (controller_step sha o1 c s) = Some k"
proof (cases c)
  case (TurnCall ck i)
  have p: "ct_contract (judged_prepass sha o1 j ck k x s') = ct_contract s'" for j k x s'
    by (simp add: judged_prepass_def run_prepass_def Let_def split: option.splits prod.splits sum.splits bool.splits)
  from TurnCall p assms(1) show ?thesis
    by (cases "controller_judge o1") (simp_all add: evaluateTurn_def judge_flushTo_def journal_drain_def Let_def)
qed (use assms in \<open>simp_all add: compileContract_def\<close>)

text \<open>No compilation that was begun before the first of these calls ends among them.\<close>

definition no_late_compilation :: "controller_call list \<Rightarrow> bool" where
  "no_late_compilation cs \<longleftrightarrow> (\<forall>x y. LateCompile x y \<notin> set cs)"

lemma run_contract:
  "ct_contract s = Some k \<Longrightarrow> no_late_compilation cs \<Longrightarrow> ct_contract (controller_run sha o1 cs s) = Some k"
  unfolding controller_run_def no_late_compilation_def
proof (induction cs arbitrary: s)
  case (Cons c cs)
  have "ct_contract (controller_step sha o1 c s) = Some k" using Cons.prems by (intro step_contract) auto
  with Cons show ?case by simp
qed simp

text \<open>C19. The contract is sound and frozen: at any reachable controller whose cache is empty, with the
  built-in registry or a registry of the host that has \<open>no_infinite_loop\<close>, and whatever the
  drafting model answers, or if it throws, the compiled contract has at least one criterion,
  every criterion has an id, a description, a verifier registered in the registry the contract
  is compiled against and a weight and a threshold in the unit interval, the id is the digest of
  instruction and criteria, and no later calls, of \<open>compileContract\<close> with another instruction or
  of \<open>evaluateTurn\<close>, change it, as long as no other first compilation was in progress when it was
  compiled: that one replaces it when it ends (\<open>late_compilation_replaces\<close>).\<close>

theorem contract_frozen:
  assumes "controller_reached sha o1 s0" and "ct_contract s0 = None"
    and "\<And>r. co_registry o1 = Some r \<Longrightarrow> map_has r ''no_infinite_loop''"
  shows "let (k, s1) = compileContract sha o1 instruction t s0
    in gc_criteria k \<noteq> [] \<and> list_all (criterion_ok (registry_or_empty (finalRegistry o1))) (gc_criteria k) \<and>
       gc_instruction k = instruction \<and> gc_contractId k = digestContract sha instruction (gc_criteria k) \<and>
       (no_late_compilation calls \<longrightarrow>
          fst (compileContract sha o1 instruction' t' (controller_run sha o1 calls s1)) = k)"
proof -
  let ?r = "registry_or_empty (finalRegistry o1)"
  define k where "k = compileGoalContract sha instruction (co_llm o1) ?r t"
  have c: "compileContract sha o1 instruction t s0 = (k, s0\<lparr>ct_contract := Some k\<rparr>)"
    using assms(2) by (simp add: compileContract_def finish_compilation_def k_def Let_def)
  have "ct_contract (controller_run sha o1 calls (s0\<lparr>ct_contract := Some k\<rparr>)) = Some k" if "no_late_compilation calls"
    by (rule run_contract) (simp_all add: that)
  then have frozen: "no_late_compilation calls \<longrightarrow>
      fst (compileContract sha o1 instruction' t' (controller_run sha o1 calls (s0\<lparr>ct_contract := Some k\<rparr>))) = k"
    by (simp add: compileContract_def)
  have "map_has ?r ''no_infinite_loop''"
  proof (cases "co_registry o1")
    case None
    from assms(1) obtain now seq s where "createTerminationController o1 now seq = Inr s"
      by (auto simp: controller_reached_def)
    from registers_has [OF created_registry [OF this None]] show ?thesis
      by (simp add: BUILTIN_VERIFIERS_def NO_INFINITE_LOOP_VERIFIER_def)
  qed (use assms(3) in \<open>simp add: finalRegistry_def registry_or_empty_def\<close>)
  then have "list_all (criterion_ok ?r) (gc_criteria k)" unfolding k_def by (rule compiled_criteria)
  moreover have "gc_criteria k \<noteq> [] \<and> gc_instruction k = instruction \<and> gc_contractId k = digestContract sha instruction (gc_criteria k)"
    unfolding k_def by (auto simp: compileGoalContract_def defaultSystemContract_def Let_def split: option.splits dest: drafted_ok)
  ultimately show ?thesis unfolding c using frozen by simp
qed

text \<open>Two compilations that overlap: the second to end replaces the contract of the first.\<close>

lemma late_compilation_replaces:
  "let (k, s1) = compileContract sha o1 ''a'' t s; s2 = controller_step sha o1 (LateCompile ''b'' t') s1
   in map_option gc_instruction (ct_contract s2) = Some ''b''"
  by (auto simp: finish_compilation_def compileGoalContract_def defaultSystemContract_def Let_def split: prod.splits option.splits)

section \<open>The judge\<close>

lemma compiled_unjudged:
  assumes "createTerminationController o1 now seq = Inr s0" and "co_registry o1 = None" and "co_extraVerifiers o1 = []"
    and "c \<in> set (gc_criteria (compileGoalContract sha instruction llm (registry_or_empty (finalRegistry o1)) t))"
  shows "\<exists>v\<in>set BUILTIN_VERIFIERS. cr_verifierId c = vf_id v"
proof -
  let ?r = "registry_or_empty (finalRegistry o1)"
  have r: "map_has ?r i \<longleftrightarrow> i \<in> vf_id ` set BUILTIN_VERIFIERS" for i
    using registers_has [OF created_registry [OF assms(1,2)]] assms(3) by simp
  have "map_has ?r ''no_infinite_loop''" by (simp add: r BUILTIN_VERIFIERS_def NO_INFINITE_LOOP_VERIFIER_def)
  from compiled_criteria [OF this] assms(4) have "criterion_ok ?r c" by (simp add: list_all_iff)
  then show ?thesis by (auto simp: criterion_ok_def r)
qed

text \<open>A judge has no say so far: in a controller that compiles its own contract, with the registered
  verifiers only, no criterion is ever routed to the configured judge. No judge is called, and
  every verdict is the one the controller gives without a judge.\<close>

theorem judge_has_no_say:
  assumes "controller_reached sha o1 s" and "co_registry o1 = None" and "co_extraVerifiers o1 = []"
    and "ci_contract i = compileGoalContract sha instruction llm (registry_or_empty (finalRegistry o1)) t"
  shows "fst (evaluateTurn sha o1 ck i s) = fst (evaluateTurn sha (o1\<lparr>co_judgeLlm := None\<rparr>) ck i s) \<and>
    js_calls (ct_judge (snd (evaluateTurn sha o1 ck i s))) = js_calls (ct_judge s)"
proof -
  let ?n = "o1\<lparr>co_judgeLlm := None\<rparr>" and ?k = "ci_contract i"
  obtain now seq s0 where created: "createTerminationController o1 now seq = Inr s0"
    using assms(1) by (auto simp: controller_reached_def)
  have vids: "\<exists>v\<in>set BUILTIN_VERIFIERS. cr_verifierId c = vf_id v" if "c \<in> set (gc_criteria ?k)" for c
    using compiled_unjudged [OF created assms(2,3)] that assms(4) by simp
  then have noj: "\<forall>c\<in>set (gc_criteria ?k). cr_verifierId c \<noteq> LLM_JUDGE_VERIFIER_ID"
    by (fastforce simp: BUILTIN_VERIFIERS_def LLM_JUDGE_VERIFIER_ID_def NO_INFINITE_LOOP_VERIFIER_def
        DUPLICATE_REPLY_VERIFIER_def COORDINATION_PROGRESS_VERIFIER_def TASK_ARTIFACT_EXISTS_VERIFIER_def
        STRUCTURED_RUBRIC_VERIFIER_def)
  have judge: "ct_judge (judged_prepass sha o1 j ck ?k x s') = ct_judge s'" for j x s'
    using prepass_unjudged [OF noj]
    by (simp add: judged_prepass_def run_prepass_def Let_def split: option.splits prod.splits sum.splits bool.splits)
  then have pre: "ct_judge (turn_prepass sha o1 ck i s) = ct_judge s" by (simp add: turn_prepass_def split: option.splits)
  have nonep: "controller_judge ?n = None" by (simp add: controller_judge_def)
  have reg: "registers (turn_registry ?n s') BUILTIN_VERIFIERS" for s'
    using created_registry [OF created assms(2)] assms(2,3)
    by (simp add: turn_registry_def registryWithJudge_def nonep finalRegistry_def)
  have eq: "registry_evaluate (turn_registry o1 (turn_prepass sha o1 ck i s)) (vf_id v) = registry_evaluate (turn_registry ?n s') (vf_id v)"
    if "v \<in> set BUILTIN_VERIFIERS" for v s'
  proof -
    have "map_get (turn_registry ?n s') (vf_id v) = Some v" using reg that unfolding registers_def by blast
    then have "registry_evaluate (turn_registry ?n s') (vf_id v) = vf_evaluate v" by (intro ext) (simp add: registry_evaluate_def)
    then show ?thesis using turn_registry_good(2) [OF assms(1,2) _ that] assms(3) by simp
  qed
  have evals: "evaluateAll (turn_registry o1 (turn_prepass sha o1 ck i s)) ?k x = evaluateAll (turn_registry ?n s') ?k x" for x s'
    unfolding evaluateAll_def using vids eq by (intro map_cong refl) metis
  have rest: "js_records (ct_judge s) = []" "ct_journal s = []" using reached_at_rest [OF assms(1)] by (auto simp: at_rest_def)
  have journal: "ct_journal (judged_prepass sha o1 j ck ?k x s') = ct_journal s'" for j x s'
    by (simp add: judged_prepass_def run_prepass_def Let_def split: option.splits prod.splits sum.splits bool.splits)
  show ?thesis
  proof
    show "js_calls (ct_judge (snd (evaluateTurn sha o1 ck i s))) = js_calls (ct_judge s)"
      by (simp add: turn_budget_counts pre)
    have e: "evaluateAll (registry_or_empty (registryWithJudge o1 (ct_judge s))) ?k x = evaluateAll (registry_or_empty (registryWithJudge ?n (ct_judge s))) ?k x" for x
      using evals [of x s] by (simp add: turn_registry_def pre)
    show "fst (evaluateTurn sha o1 ck i s) = fst (evaluateTurn sha ?n ck i s)"
      by (cases "controller_judge o1")
        (simp_all add: evaluateTurn_def nonep e [symmetric] judge journal rest judge_flushTo_def journal_drain_def judged_prepass_tick Let_def)
  qed
qed


text \<open>C23. What the judge budget bounds: over every run of a controller with a limit of \<open>N\<close> (at most
  \<open>2 ^ 40\<close>) judge calls, at most \<open>N\<close> turns call judges, whatever the contracts, states, clocks
  and answers are. The limit counts turns: a turn calls every judge of the quorum once for every
  criterion of the judge in its contract, so with at most \<open>M\<close> such criteria there are at most
  \<open>N * M * (1 + quorum)\<close> calls of models. With a limit on tokens, 512 for each of these turns,
  the constant the controller charges whatever the judges used, stay within that limit.\<close>

theorem judge_calls_limited:
  assumes "createTerminationController o1 now seq = Inr s0" and "co_judgeBudget o1 = Some l"
    and "bl_maxJudgeCalls l = Some (Fin (of_nat N))" and "N \<le> 2 ^ 40"
    and "\<And>ck i. TurnCall ck i \<in> set calls \<Longrightarrow> length (judged_criteria (ci_contract i)) \<le> M"
  shows "judged_turns sha o1 calls s0 \<le> N \<and>
    js_calls (ct_judge (controller_run sha o1 calls s0)) \<le> N * (M * Suc (length (co_judgeQuorum o1))) \<and>
    tokens_cover l (judged_turns sha o1 calls s0)"
proof -
  have "paid s0 0" using assms(1,2)
    by (auto simp: createTerminationController_def paid_def createJudgeBudgetPolicy_def split: sum.splits)
  from run_pays [OF this _ _ assms(2-4), of sha calls]
  have turns: "judged_turns sha o1 calls s0 \<le> N \<and> tokens_cover l (judged_turns sha o1 calls s0)"
    using tokens_cover_less by (auto simp: tokens_cover_def [of _ 0])
  have "js_calls (ct_judge s0) = 0"
    using assms(1) by (auto simp: createTerminationController_def new_judge_state_def split: sum.splits)
  with run_calls [OF assms(5), where sha = sha and ?o1.0 = o1 and s = s0]
  have "js_calls (ct_judge (controller_run sha o1 calls s0)) \<le> judged_turns sha o1 calls s0 * (M * Suc (length (co_judgeQuorum o1)))"
    by simp
  with turns show ?thesis by (meson mult_le_mono1 order_trans)
qed

section \<open>Concrete turns\<close>

text \<open>
  A run that has committed an operation, judged under the default contract; and a controller
  with a judge that always fails and a budget of one call, given a contract for the judge.
\<close>

definition example_clock :: turn_clock where
  "example_clock =
     \<lparr>ck_killCheck = Fin 10, ck_spendCheck = Fin 11, ck_reservedAt = Fin 12, ck_started = Fin 13, ck_ended = Fin 20,
      ck_reconciled = Fin 21\<rparr>"

definition example_input :: control_input where
  "example_input =
     \<lparr>ci_contract = defaultSystemContract (\<lambda>s. s) ''ship it'' ''2026'', ci_state = progressCalibrationState,
      ci_candidateActions = [\<lparr>ca_name = ''reply'', ca_kind = TextAction\<rparr>], ci_llmDoneSignal = False\<rparr>"

definition judged_options :: controller_options where
  "judged_options = default_options\<lparr>co_judgeLlm := Some (\<lambda>_ _ _. None),
     co_judgeBudget := Some \<lparr>bl_maxJudgeCalls = Some (Fin 1), bl_maxTokens = Some (Fin 1000), bl_maxCostUsd = None,
       bl_maxWallMs = None, bl_hardKillEnabled = None\<rparr>\<rparr>"

definition judged_input :: control_input where
  "judged_input = example_input\<lparr>ci_contract := (defaultSystemContract (\<lambda>s. s) ''ship it'' ''2026'')
     \<lparr>gc_criteria := [cs_criterion (hd frozenCalibrationSamples)]\<rparr>\<rparr>"

lemma example_loops: "\<not> loops progressCalibrationState"
  by (simp add: loops_def progressCalibrationState_def looks_stuck_def duplicate_reply_def)

lemma example_done: "is_DONE (fst (evaluateTurn sha default_options ck example_input s))"
proof -
  have "gc_criteria (ci_contract example_input) = [default_criterion]" "ci_state example_input = progressCalibrationState"
    by (simp_all add: example_input_def defaultSystemContract_def)
  with default_decides [of example_input sha ck s] example_loops show ?thesis by simp
qed

lemma created_reached: "createTerminationController o1 now seq = Inr s0 \<Longrightarrow> controller_reached sha o1 s0"
  unfolding controller_reached_def controller_run_def by (intro exI [of _ now] exI [of _ seq] exI [of _ s0] exI [of _ "[]"]) simp

definition fresh_controller :: "judge_budget_limits option \<Rightarrow> controller_state" where
  "fresh_controller l =
     \<lparr>ct_contract = None, ct_tick = 0, ct_budget = map_option (\<lambda>_. createJudgeBudgetPolicy (Fin 0) 0) l,
      ct_journal = [], ct_judge = new_judge_state\<rparr>"

lemma default_fresh: "createTerminationController default_options (Fin 0) 0 = Inr (fresh_controller None)"
  by (simp add: createTerminationController_def finalRegistry_def registryWithJudge_def controller_judge_def
      default_options_def new_VerifierRegistry_def builtin_distinct fresh_controller_def createJudgeAuditJournal_def)

lemma judged_fresh: "createTerminationController judged_options (Fin 0) 0 = Inr (fresh_controller (co_judgeBudget judged_options))"
proof -
  have "register_all (BUILTIN_VERIFIERS @ [judge_verifier st]) [] =
      Inr (map (\<lambda>v. (vf_id v, v)) (BUILTIN_VERIFIERS @ [judge_verifier st]))" for st
    by (simp add: BUILTIN_VERIFIERS_def register_def NO_INFINITE_LOOP_VERIFIER_def DUPLICATE_REPLY_VERIFIER_def
      COORDINATION_PROGRESS_VERIFIER_def TASK_ARTIFACT_EXISTS_VERIFIER_def STRUCTURED_RUBRIC_VERIFIER_def
      judge_verifier_def LLM_JUDGE_VERIFIER_ID_def map_has_def map_set_def)
  then show ?thesis
    by (simp add: createTerminationController_def finalRegistry_def registryWithJudge_def controller_judge_def
      default_options_def judged_options_def new_VerifierRegistry_def builtin_distinct fresh_controller_def createJudgeAuditJournal_def)
qed

lemma judged_once:
  "judged (\<lambda>s. s) judged_options (TurnCall example_clock judged_input) (fresh_controller (co_judgeBudget judged_options))"
  by (simp add: judged_def turn_budget_counts turn_prepass_def controller_judge_def judged_options_def default_options_def
      judged_prepass_def isHardKilled_def fresh_controller_def createJudgeBudgetPolicy_def reserve_def reserve_spend_def
      checkSpendCeilings_def over_def run_prepass_def prepass_def judged_input_def example_input_def
      frozenCalibrationSamples_def LLM_JUDGE_VERIFIER_ID_def judge_criterion_def judge_adapters_def new_judge_state_def
      to_number_small js_le_def js_eq_def Let_def binary64_of_int [of 512, simplified])

theorem done_has_evidence_witness:
  "ce_passed (registry_evaluate (turn_registry default_options
       (turn_prepass (\<lambda>s. s) default_options example_clock example_input (fresh_controller None)))
     (cr_verifierId default_criterion) default_criterion progressCalibrationState) \<and>
   \<not> loops progressCalibrationState"
proof -
  have i: "ci_state example_input = progressCalibrationState" "gc_criteria (ci_contract example_input) = [default_criterion]"
    by (simp_all add: example_input_def defaultSystemContract_def)
  show ?thesis
    using done_has_evidence [OF created_reached [OF default_fresh] _ _ _ example_done, of default_criterion] i
    by (auto simp: default_options_def default_criterion_def first_with_id_def)
qed

theorem audit_bounds_witness:
  "score (ta_C (cv_audit (fst (evaluateTurn (\<lambda>s. s) judged_options example_clock judged_input
     (fresh_controller (co_judgeBudget judged_options))))))"
proof -
  have "list_all (\<lambda>c. score (cr_weight c)) (gc_criteria (ci_contract judged_input))"
    by (simp add: judged_input_def frozenCalibrationSamples_def)
  moreover have "co_registry judged_options = None" "co_extraVerifiers judged_options = []" "co_embedder judged_options = None"
    by (simp_all add: judged_options_def default_options_def)
  ultimately show ?thesis using audit_bounds [OF created_reached [OF judged_fresh], of judged_input "\<lambda>s. s" example_clock]
    by (simp add: Let_def)
qed

theorem contract_frozen_witness:
  "let (k, s1) = compileContract (\<lambda>s. s) judged_options ''ship it'' ''2026'' (fresh_controller (co_judgeBudget judged_options))
   in gc_criteria k \<noteq> [] \<and>
      fst (compileContract (\<lambda>s. s) judged_options ''do less'' ''2027''
        (controller_run (\<lambda>s. s) judged_options [TurnCall example_clock judged_input] s1)) = k"
proof -
  have "ct_contract (fresh_controller (co_judgeBudget judged_options)) = None" by (simp add: fresh_controller_def)
  from contract_frozen [OF created_reached [OF judged_fresh] this, of "\<lambda>s. s" "''ship it''" "''2026''"
      "[TurnCall example_clock judged_input]" "''do less''" "''2027''"]
  show ?thesis
    by (simp add: judged_options_def default_options_def no_late_compilation_def Let_def split: prod.splits)
qed

theorem judge_has_no_say_witness:
  "fst (evaluateTurn (\<lambda>s. s) judged_options example_clock example_input (fresh_controller (co_judgeBudget judged_options))) =
   fst (evaluateTurn (\<lambda>s. s) (default_options\<lparr>co_judgeBudget := co_judgeBudget judged_options\<rparr>) example_clock example_input
     (fresh_controller (co_judgeBudget judged_options)))"
proof -
  have "ci_contract example_input = compileGoalContract (\<lambda>s. s) ''ship it'' None (registry_or_empty (finalRegistry judged_options)) ''2026''"
    by (simp add: example_input_def compileGoalContract_def)
  moreover have "co_registry judged_options = None" "co_extraVerifiers judged_options = []"
    "judged_options\<lparr>co_judgeLlm := None\<rparr> = default_options\<lparr>co_judgeBudget := co_judgeBudget judged_options\<rparr>"
    by (simp_all add: judged_options_def default_options_def)
  ultimately show ?thesis using judge_has_no_say [OF created_reached [OF judged_fresh]] by metis
qed

theorem judge_calls_limited_witness:
  "judged_turns (\<lambda>s. s) judged_options [TurnCall example_clock judged_input, TurnCall example_clock judged_input]
     (fresh_controller (co_judgeBudget judged_options)) = 1"
proof -
  let ?cs = "[TurnCall example_clock judged_input, TurnCall example_clock judged_input]"
  have "length (judged_criteria (ci_contract i)) \<le> 1" if "TurnCall ck i \<in> set ?cs" for ck i
    using that by (auto simp: judged_input_def judged_criteria_def)
  note few = this
  have l: "co_judgeBudget judged_options = Some (the (co_judgeBudget judged_options))"
    "bl_maxJudgeCalls (the (co_judgeBudget judged_options)) = Some (Fin (of_nat 1))"
    by (simp_all add: judged_options_def default_options_def)
  let ?s = "fresh_controller (co_judgeBudget judged_options)"
  have "judged_turns (\<lambda>s. s) judged_options ?cs ?s \<le> 1 \<and>
      js_calls (ct_judge (controller_run (\<lambda>s. s) judged_options ?cs ?s)) \<le> 1 * (1 * Suc (length (co_judgeQuorum judged_options))) \<and>
      tokens_cover (the (co_judgeBudget judged_options)) (judged_turns (\<lambda>s. s) judged_options ?cs ?s)"
    by (rule judge_calls_limited [OF judged_fresh l]) (simp, rule few)
  with judged_once show ?thesis by (simp split: if_splits)
qed


text \<open>
  A contract with two hard criteria of one id, at a run that has done nothing yet: the second
  fails, the gate is open.
\<close>

lemma repeated_id_opens_gate:
  "let progress = default_criterion\<lparr>cr_verifierId := ''coordination_progress''\<rparr>;
       k = (defaultSystemContract (\<lambda>s. s) ''ship it'' ''2026'')\<lparr>gc_criteria := [default_criterion, progress]\<rparr>;
       es = evaluateAll (turn_registry default_options (fresh_controller None)) k emptyCalibrationState
   in \<not> ce_passed (es ! 1) \<and> cr_kind progress = HardCriterion \<and> hardGateFromContract k es = Fin 1"
  by (simp add: Let_def default_registry evaluateAll_def registry_evaluate_def BUILTIN_VERIFIERS_def map_get_def
      NO_INFINITE_LOOP_VERIFIER_def DUPLICATE_REPLY_VERIFIER_def COORDINATION_PROGRESS_VERIFIER_def
      no_infinite_loop_evaluate_def coordination_progress_evaluate_def default_criterion_def emptyCalibrationState_def
      looks_stuck_def duplicate_reply_def hardGateFromContract_def evaluation_of_def js_mul_def to_number_small one
      js_le_def js_eq_def)

text \<open>A rounded cosine above 1 makes the cost of a match, and so a residual, negative.\<close>

lemma cosine_above_one:
  "js_less (js_sub (Fin 1) (math_max [Fin 0, cosine [Fin 1, Fin 1, Fin 1] [Fin 1, Fin 1, Fin 1]])) (Fin 0)"
  by code_simp

text \<open>An open reservation does not count: with a limit of one call two can be reserved.\<close>

lemma open_reservations_uncounted:
  "let l = \<lparr>bl_maxJudgeCalls = Some (Fin 1), bl_maxTokens = None, bl_maxCostUsd = None, bl_maxWallMs = None,
            bl_hardKillEnabled = None\<rparr>;
       (r1, b1) = reserve l (None, None) (Fin 0, Fin 0) (createJudgeBudgetPolicy (Fin 0) 0);
       (r2, b2) = reserve l (None, None) (Fin 0, Fin 0) b1
   in \<not> isl r1 \<and> \<not> isl r2"
  by (simp add: reserve_def reserve_spend_def checkSpendCeilings_def over_def createJudgeBudgetPolicy_def
      js_le_def js_eq_def Let_def)

text \<open>An unknown verifier passes a criterion whose threshold is 0.\<close>

lemma unknown_verifier_passes:
  "map_get r i = None \<Longrightarrow> cr_threshold c = Fin 0 \<Longrightarrow> ce_passed (registry_evaluate r i c s)"
  by (simp add: registry_evaluate_def js_mul_def to_number_def)

end
