(* ===== verification/Spec2Isabelle.thy ===== *)
theory Spec2Isabelle
  imports Petri_Properties Core_Properties Runtime_Verified Boot_Properties
begin

text \<open>
  A verification development of Cantilune, a coordination engine for agents and humans written in
  TypeScript (\<open>packages/\<close> of the repository). All paths below are relative to \<open>packages/\<close>.

  \<^bold>\<open>The program.\<close> A collaboration world (participants, artifacts, sessions, links, capabilities,
  observations) is an immutable snapshot under a ref. An actor submits an intent; admission checks
  it against the head world and the active schema, takes a lease on the footprint of the
  operation and hands out a ticket. Committing the ticket turns the intent into a replay recipe
  with freshly allocated ids, runs the operation's handler, checks the new world, and stores
  world, change and recipe atomically, moving the head. Observations of the outside advance the
  head without a change. Subscribers read the log of changes from any world they know. The schema
  of a running system is replaced by an epoch transition: prepared against the quiescent runtime,
  then committed with one swap of head and binding. A verifier recomputes logged changes from
  their recipes, against the active schema or the one of each change's epoch. Whether an agent's run is
  finished is decided by the termination controller of the boot package: it compiles a goal
  contract once, and at every turn evaluates its criteria with deterministic verifiers and, under a
  budget, with model judges, and turns the scores into a verdict. Independently, nets of the petri
  package are analysed by their firing rule, a bounded search and their invariants.

  \<^bold>\<open>Theories and sources.\<close>
  \<^item> \<open>Prelude\<close>, \<open>Prelude_Json\<close>: the library structures of JavaScript the sources use: \<open>Map\<close> and
    \<open>Set\<close> in insertion order, arrays, sorting with a comparison, decimal texts, \<open>JSON.parse\<close>.
    \<open>Prelude_Number\<close>: the IEEE binary64 numbers: rounding to nearest even of exact results,
    infinities and NaN, comparisons, \<open>Math\<close> functions, number texts; the locale \<open>rounding\<close> states
    what bounds need of a rounding and is interpreted on the one of binary64.
  \<^item> \<open>Petri_Net\<close> (\<open>petri/src/net.ts\<close>), \<open>Petri_Firing\<close> (\<open>firing.ts\<close>), \<open>Petri_Reachability\<close> and
    \<open>Petri_Search\<close> (\<open>reachability.ts\<close>), \<open>Petri_Invariants\<close>, \<open>Petri_Conservation\<close> and \<open>Petri_Basis\<close>
    (\<open>invariants.ts\<close>); the locale \<open>token_game\<close> is the interface of the two firing rules.
  \<^item> \<open>Core_Primitives\<close>, \<open>Core_Nodes\<close>, \<open>Core_Snapshot\<close>, \<open>Core_Integrity\<close>, \<open>Core_Change\<close>,
    \<open>Core_Footprint\<close>, \<open>Core_Trace\<close>, \<open>Core_StartCondition\<close>, \<open>Core_Transcript\<close>: the directories
    \<open>primitives\<close>, \<open>nodes\<close>, \<open>coordination\<close>, \<open>consistency\<close> and \<open>structure\<close> of \<open>core/src\<close>.
  \<^item> \<open>Runtime_Base\<close> (\<open>runtime/src/foundation\<close>, \<open>cluster\<close>, \<open>replay\<close>), \<open>Runtime_Schema\<close> and
    \<open>Runtime_DefaultSchema\<close> (\<open>schema\<close>), \<open>Runtime_Handlers\<close>, \<open>Runtime_Apply\<close> (\<open>execution\<close>),
    \<open>Runtime_Locks\<close> and \<open>Runtime_Store\<close> (\<open>memory\<close>), \<open>Runtime_Canonical\<close> (\<open>codec/canonicalSnapshot.ts\<close>),
    \<open>Runtime_Admission\<close> (\<open>admission\<close>), \<open>Runtime_Commit\<close> (\<open>execution/commitChange.ts\<close>, \<open>observe\<close>,
    \<open>engine/coordinationRuntime.ts\<close>), \<open>Runtime_Epoch\<close> (\<open>engine/memoryEpochAdministration.ts\<close>,
    \<open>engine/schemaContextProvider.ts\<close>), \<open>Runtime_Replay\<close> (\<open>execution/replayVerifier.ts\<close>).
  \<^item> \<open>Boot_Types\<close> (\<open>boot/src/termination/types.ts\<close>, \<open>stateEvidenceLedger.ts\<close>,
    \<open>verifierRegistry.ts\<close>), \<open>Boot_Judge\<close> (\<open>judgeBudget.ts\<close>, \<open>judgeAudit.ts\<close>, \<open>judgeVerifier.ts\<close>,
    \<open>judgeCalibration.ts\<close>), \<open>Boot_Contract\<close> (\<open>goalContract.ts\<close>), \<open>Boot_Residual\<close>
    (\<open>semanticResidual.ts\<close>, \<open>valueOfContinuation.ts\<close>), \<open>Boot_Controller\<close>
    (\<open>terminationStateMachine.ts\<close>, \<open>index.ts\<close>): the variables the controller closes over are the
    record \<open>controller_state\<close>, a call is a step on it, a run a list of calls; a compilation of the
    contract that overlaps others is a call of its own, which ends with the assignment after its
    await.
  \<^item> What they promise: \<open>Runtime_Effects\<close> and \<open>Runtime_Fresh\<close> (operations), \<open>Runtime_Durable\<close> and
    \<open>Runtime_Abstract\<close> (storage), \<open>Runtime_System\<close>, \<open>Runtime_Invariant\<close>, \<open>Runtime_Safety\<close>,
    \<open>Runtime_Progress\<close> (the runtime as a transition system and its invariant), \<open>Runtime_EpochSafety\<close>
    and \<open>Runtime_EpochSchema\<close> (the same for a runtime whose epochs are administered),
    \<open>Boot_Facts\<close> and \<open>Boot_Turns\<close> (the parts of the termination controller and its turns).
  \<^item> The properties are in \<open>Petri_Properties\<close>, \<open>Core_Properties\<close>, \<open>Runtime_Properties\<close>,
    \<open>Runtime_Reachable\<close>, \<open>Runtime_Governed\<close>, \<open>Runtime_Growth\<close>, \<open>Runtime_Verified\<close> and
    \<open>Boot_Properties\<close>, each introduced by its number.

  \<^bold>\<open>Conventions.\<close> An object type is a record, a union a datatype, a \<open>Map\<close> an association list with
  distinct keys, \<open>undefined\<close> is \<open>None\<close>, an exception or an error result is the left side of a sum.
  State is passed explicitly; an operation with clock readings takes each reading as an argument.
  An operation that awaits is split at the await, or takes what it reads after each await as an
  argument: a preparation in progress is part of the state of a governed runtime, a resolved
  verification is given the store and the resolver it meets at every change.
  Copies (\<open>Object.freeze\<close>, \<open>structuredClone\<close>) rebuild the value, and \<open>frozen\<close> snapshots are the
  ones a copy does not change. Counts and times are unbounded integers, except in the termination
  controller, whose scores, costs, times and judge budgets are binary64 numbers with their rounding.

  \<^bold>\<open>Parameters.\<close> \<open>localeCompare\<close> is any comparison of strings; where the order matters the
  hypothesis \<open>collation\<close> (a total order that identifies equal ids only) is explicit. Ids come from
  \<open>crypto.randomUUID\<close>, taken to never repeat a value: the locale \<open>fresh_generator\<close> states what the
  runtime needs of a generator and is interpreted on the generator the boot package makes. The
  policy, the content authority and the schema provider are functions of the configuration. The
  schema resolver, the content digest of a schema, \<open>Date.toISOString\<close> and \<open>Date.parse\<close> are functions
  without assumptions. So are, for the termination controller, SHA-256, the clock readings, the
  answers of the drafting and judging models (which may throw) and of the embedder; verifiers of
  the host are total functions.

  \<^bold>\<open>What the lemmas show.\<close> Handlers: what a successful operation may write (\<open>operates\<close>) and when it
  succeeds. Storage: the memory coordinator refines an atomic transaction on worlds, head, log
  and recipes. Leases: exclusive at every time (locale over any lease table, interpreted on the
  memory table). Runtime: an invariant of all reachable states, from which soundness of the stored
  worlds, linearity of the log, replay of every change, exactness of the feed and completion of
  commits follow; for epochs, agreement of head, holders and durable binding, exactness and
  completion of activations; for the verifier, what a success means and that every stretch of
  a reachable log verifies. Termination controller: which verdict is given when, that DONE
  needs the evidence of every hard criterion, that the contract is sound and stays, that scores
  stay in the unit interval under rounding, what a judged criterion is evaluated to and that it
  fails closed, which turns the budget limits, and that a contract the controller compiles never
  reaches a judge. Loops that may not end in the source
  (\<open>chain_from_loop\<close>, the reading of the log) are partial functions, proved to return on every log; the search of \<open>reachability.ts\<close> has a
  termination measure; the JSON parser has a fuel of twice the length of the text, and more
  fuel does not change its result (\<open>json_value_fuel\<close>).

  \<^bold>\<open>Side conditions.\<close> Where the program does not exclude a bad input, the property that needs it
  excluded says so: ids without the separators they are joined with (\<open>clean_net\<close>,
  \<open>clean_marking\<close>, ids without \<open>@\<close>), epoch ids that are not activated twice (\<open>epochs_unique\<close>,
  \<open>head_linked\<close>), criteria that are the first with their id (\<open>first_with_id\<close>), verifiers of the host
  that are \<open>good_verifier\<close>, atoms with a name (\<open>named_atoms\<close>), a first schema that is verified
  (\<open>context_verified\<close>), a collation that is total. What happens without them is shown where it
  is known, as in \<open>epoch_reuse_blocks_commits\<close>, \<open>recovery_rolls_back\<close>, \<open>repeated_id_opens_gate\<close>,
  \<open>late_compilation_replaces\<close> and \<open>cosine_above_one\<close>.

  \<^bold>\<open>Not modelled.\<close> The agent loop, the scheduling and the swarm of the boot package and the
  syscall layer: asynchronous orchestration of model calls and tools around the runtime and the
  controller that are modelled. The persistence backends (files, PostgreSQL, etcd): processes,
  files and the network behind the contract of the durable coordinator. The control plane and the
  communication plane: services with protocols of their own on top of the runtime, with most of
  their code at the network. The wire codec: field by field checks of untyped JSON. The command line,
  model adapters and tools: input and output. In the termination controller, calls of
  \<open>evaluateTurn\<close> that overlap, exceptions of host verifiers, and text functions beyond ASCII.
  Error texts are modelled; stack traces and the identity of frozen objects are not.
\<close>

end
